(* ===== verification/Prelude.thy ===== *)
theory Prelude
  imports Main "HOL-Library.Word" "HOL-Library.Monad_Syntax"
begin

section \<open>Prelude: Go integers, results, and list facts\<close>

text \<open>
  What every other theory shares: the width of Go's \<open>int64\<close> (kept as \<open>int\<close>
  with the wrap-around of \<open>++\<close> and \<open>+=\<close> written out in \<open>wrap64\<close>), the result
  types of functions that return an error or panic, and the list lemmas that the
  components use.
\<close>

named_theorems int64_simps \<open>wrap-around is the identity in range\<close>
named_theorems wf_intros \<open>preservation of well-formedness invariants\<close>

subsection \<open>Signed 64-bit integers\<close>

type_synonym int64 = int

abbreviation max_int64 :: int where "max_int64 \<equiv> 9223372036854775807"
abbreviation min_int64 :: int where "min_int64 \<equiv> - 9223372036854775808"

definition int64_ok :: "int \<Rightarrow> bool" where
  "int64_ok n \<longleftrightarrow> min_int64 \<le> n \<and> n \<le> max_int64"

text \<open>The value Go stores for the mathematical result \<open>n\<close> of an \<open>int64\<close> operation.\<close>

definition wrap64 :: "int \<Rightarrow> int64" where
  "wrap64 n = (n + 9223372036854775808) mod 18446744073709551616 - 9223372036854775808"

lemma wrap64_ok [simp]: "int64_ok (wrap64 n)"
proof -
  have "0 \<le> (n + 9223372036854775808) mod (18446744073709551616 :: int)"
    and "(n + 9223372036854775808) mod (18446744073709551616 :: int) < 18446744073709551616"
    by simp_all
  then show ?thesis by (simp add: int64_ok_def wrap64_def)
qed

lemma wrap64_id [int64_simps]: "int64_ok n \<Longrightarrow> wrap64 n = n"
  by (simp add: wrap64_def int64_ok_def)

lemma wrap64_succ [int64_simps]:
  "min_int64 \<le> n \<Longrightarrow> n < max_int64 \<Longrightarrow> wrap64 (n + 1) = n + 1"
  by (rule wrap64_id) (simp add: int64_ok_def)

lemma wrap64_word: "wrap64 n = sint (word_of_int n :: 64 word)"
  by (simp add: wrap64_def sint_sbintrunc' signed_take_bit_eq_take_bit_shift take_bit_eq_mod)

subsection \<open>Results\<close>

text \<open>
  A Go function that returns a value and an error is a sum, the error on the left. A
  function that may also panic has the extra outcome \<open>Panic\<close>.
\<close>

datatype ('e, 'a) outcome = Ok 'a | Err 'e | Panic

fun bind_outcome :: "('e, 'a) outcome \<Rightarrow> ('a \<Rightarrow> ('e, 'b) outcome) \<Rightarrow> ('e, 'b) outcome" where
  "bind_outcome (Ok a) f = f a"
| "bind_outcome (Err e) f = Err e"
| "bind_outcome Panic f = Panic"

fun bind_sum :: "'e + 'a \<Rightarrow> ('a \<Rightarrow> 'e + 'b) \<Rightarrow> 'e + 'b" where
  "bind_sum (Inl e) f = Inl e"
| "bind_sum (Inr a) f = f a"

lemma bind_sum_Inr_conv: "bind_sum x f = Inr b \<longleftrightarrow> (\<exists>a. x = Inr a \<and> f a = Inr b)"
  by (cases x) auto

lemma bind_sum_cong [fundef_cong]:
  "x = y \<Longrightarrow> (\<And>a. y = Inr a \<Longrightarrow> f a = g a) \<Longrightarrow> bind_sum x f = bind_sum y g"
  by (cases y) auto

subsection \<open>Lists\<close>

lemma sorted_wrt_less_append_single:
  "sorted_wrt (<) (xs @ [x]) \<longleftrightarrow> sorted_wrt (<) xs \<and> (\<forall>y\<in>set xs. y < (x::'a::linorder))"
  by (auto simp: sorted_wrt_append)

lemma filter_neq_id [simp]: "p \<notin> set xs \<Longrightarrow> filter (\<lambda>q. q \<noteq> p) xs = xs"
  by (induction xs) auto

lemma length_filter_neq [simp]: "length (filter (\<lambda>q. q \<noteq> p) xs) = length xs \<longleftrightarrow> p \<notin> set xs"
proof (induction xs)
  case (Cons x xs)
  have "length (filter (\<lambda>q. q \<noteq> p) xs) \<le> length xs" by (rule length_filter_le)
  then have "length (filter (\<lambda>q. q \<noteq> p) xs) \<noteq> Suc (length xs)" by linarith
  with Cons show ?case by auto
qed simp

text \<open>The integers \<open>a, a + 1, \<dots>, b\<close>: \<open>upto\<close>, unfolded from the left.\<close>

lemma upto_cons: "a \<le> b \<Longrightarrow> [a..b] = a # [a + 1..b]"
  by (rule upto_rec1)

lemma upto_snoc: "a \<le> b \<Longrightarrow> [a..b] = [a..b - 1] @ [b]"
  by (rule upto_rec2)

lemma upto_append: "a \<le> b + 1 \<Longrightarrow> b \<le> c \<Longrightarrow> [a..b] @ [b + 1..c] = [a..c]"
  by (cases "b = c") (use upto_split1 [of a "b + 1" c] in auto)

end
