(* ===== verification/Go_Strings.thy ===== *)
theory Go_Strings
  imports Prelude
begin

section \<open>Strings and numbers of the Go standard library\<close>

text \<open>
  The parts of \<open>strconv\<close> and \<open>strings\<close> the backend calls: \<open>FormatInt\<close>,
  \<open>ParseInt\<close> with its two errors and the value it returns beside them, and the
  trimming and splitting functions. A Go string is its list of bytes. The white space of
  \<open>TrimSpace\<close> and the letters of \<open>ToLower\<close> are the ASCII ones.
\<close>

subsection \<open>FormatInt\<close>

definition digit :: "nat \<Rightarrow> char" where
  "digit d = char_of (48 + d)"

definition digit_val :: "char \<Rightarrow> nat option" where
  "digit_val c = (let k = of_char c in if 48 \<le> k \<and> k \<le> 57 then Some (k - 48) else None)"

fun fmt_nat :: "nat \<Rightarrow> string" where
  "fmt_nat n = (if n < 10 then [digit n] else fmt_nat (n div 10) @ [digit (n mod 10)])"

declare fmt_nat.simps [simp del]

definition FormatInt :: "int \<Rightarrow> string" where
  "FormatInt n = (if n < 0 then CHR ''-'' # fmt_nat (nat (- n)) else fmt_nat (nat n))"

lemma digit_val_digit [simp]: "d < 10 \<Longrightarrow> digit_val (digit d) = Some d"
  by (simp add: digit_val_def digit_def Let_def)

lemma digit_val_Some_iff: "(\<exists>d. digit_val c = Some d) \<longleftrightarrow> 48 \<le> (of_char c :: nat) \<and> (of_char c :: nat) \<le> 57"
  by (auto simp: digit_val_def Let_def)

lemma fmt_nat_not_Nil [simp]: "fmt_nat n \<noteq> []"
  by (subst fmt_nat.simps) simp

lemma fmt_nat_digits: "c \<in> set (fmt_nat n) \<Longrightarrow> \<exists>d. digit_val c = Some d"
proof (induction n rule: fmt_nat.induct)
  case (1 n)
  show ?case
  proof (cases "n < 10")
    case True
    with "1.prems" show ?thesis by (simp add: fmt_nat.simps [of n])
  next
    case False
    with "1.prems" have "c \<in> set (fmt_nat (n div 10)) \<or> c = digit (n mod 10)"
      by (auto simp: fmt_nat.simps [of n])
    with "1.IH" [OF False] show ?thesis by auto
  qed
qed

lemma digit_val_special [simp]:
  "digit_val (CHR ''-'') = None" "digit_val (CHR ''+'') = None"
  "digit_val (CHR 0x0A) = None" "digit_val (CHR 0x0D) = None"
  by (simp_all add: digit_val_def)

lemma fmt_nat_chars [simp]:
  "CHR ''-'' \<notin> set (fmt_nat n)" "CHR ''+'' \<notin> set (fmt_nat n)"
  "CHR 0x0A \<notin> set (fmt_nat n)" "CHR 0x0D \<notin> set (fmt_nat n)"
  using fmt_nat_digits [of _ n] by force+

lemma FormatInt_not_Nil [simp]: "FormatInt n \<noteq> []"
  by (simp add: FormatInt_def)

lemma FormatInt_no_newline [simp]:
  "CHR 0x0A \<notin> set (FormatInt n)" "CHR 0x0D \<notin> set (FormatInt n)"
  by (simp_all add: FormatInt_def)

subsection \<open>ParseInt\<close>

datatype num_error = ErrSyntax | ErrRange

text \<open>The digit loop of \<open>ParseUint\<close>: it stops at the first bad digit or overflow.\<close>

fun parse_digits :: "nat \<Rightarrow> string \<Rightarrow> num_error + nat" where
  "parse_digits n [] = Inr n"
| "parse_digits n (c # cs) = (case digit_val c of
     None \<Rightarrow> Inl ErrSyntax
   | Some d \<Rightarrow> if n * 10 + d > 18446744073709551615 then Inl ErrRange
              else parse_digits (n * 10 + d) cs)"

definition ParseUint :: "string \<Rightarrow> num_error + nat" where
  "ParseUint s = (if s = [] then Inl ErrSyntax else parse_digits 0 s)"

text \<open>
  \<open>strconv.ParseInt(s, 10, 64)\<close>: the value and the error. The value matters where the
  caller drops the error: 0 after a syntax error, the nearest bound after a range error.
\<close>

definition ParseInt :: "string \<Rightarrow> int64 \<times> num_error option" where
  "ParseInt s = (case s of
     [] \<Rightarrow> (0, Some ErrSyntax)
   | c # cs \<Rightarrow>
      (let neg = (c = CHR ''-'');
           digits = (if c = CHR ''-'' \<or> c = CHR ''+'' then cs else s) in
       case ParseUint digits of
         Inl ErrSyntax \<Rightarrow> (0, Some ErrSyntax)
       | Inl ErrRange \<Rightarrow> (if neg then min_int64 else max_int64, Some ErrRange)
       | Inr un \<Rightarrow>
          if \<not> neg \<and> int un > max_int64 then (max_int64, Some ErrRange)
          else if neg \<and> int un > - min_int64 then (min_int64, Some ErrRange)
          else (if neg then - int un else int un, None)))"

text \<open>The two-result call read as a sum, for the callers that stop at the error.\<close>

definition parse_int64 :: "string \<Rightarrow> num_error + int64" where
  "parse_int64 s = (case ParseInt s of (n, None) \<Rightarrow> Inr n | (_, Some e) \<Rightarrow> Inl e)"

lemma parse_digits_append:
  "parse_digits n (xs @ ys) = bind_sum (parse_digits n xs) (\<lambda>m. parse_digits m ys)"
  by (induction n xs rule: parse_digits.induct) (auto split: option.splits)

lemma parse_digits_fmt_nat:
  "n \<le> 18446744073709551615 \<Longrightarrow> parse_digits 0 (fmt_nat n) = Inr n"
proof (induction n rule: fmt_nat.induct)
  case (1 n)
  show ?case
  proof (cases "n < 10")
    case True
    then show ?thesis by (simp add: fmt_nat.simps [of n])
  next
    case False
    with 1 have "parse_digits 0 (fmt_nat (n div 10)) = Inr (n div 10)" by simp
    with False "1.prems" show ?thesis
      by (simp add: fmt_nat.simps [of n] parse_digits_append)
  qed
qed

lemma ParseUint_fmt_nat: "n \<le> 18446744073709551615 \<Longrightarrow> ParseUint (fmt_nat n) = Inr n"
  by (simp add: ParseUint_def parse_digits_fmt_nat)

lemma hd_fmt_nat: "fmt_nat n = c # cs \<Longrightarrow> c \<noteq> CHR ''-'' \<and> c \<noteq> CHR ''+''"
  using fmt_nat_chars [of n] by (metis list.set_intros(1))

lemma ParseInt_FormatInt: "int64_ok n \<Longrightarrow> ParseInt (FormatInt n) = (n, None)"
proof (cases "n < 0")
  case True
  assume ok: "int64_ok n"
  with True have "ParseUint (fmt_nat (nat (- n))) = Inr (nat (- n))"
    by (intro ParseUint_fmt_nat) (simp add: int64_ok_def)
  with True ok show ?thesis by (simp add: ParseInt_def FormatInt_def int64_ok_def)
next
  case False
  assume ok: "int64_ok n"
  obtain c cs where cs: "fmt_nat (nat n) = c # cs"
    using fmt_nat_not_Nil by (metis list.exhaust)
  from False ok have "ParseUint (c # cs) = Inr (nat n)"
    unfolding cs [symmetric] by (intro ParseUint_fmt_nat) (simp add: int64_ok_def)
  with False ok hd_fmt_nat [OF cs] show ?thesis
    by (simp add: ParseInt_def FormatInt_def int64_ok_def cs)
qed

lemma parse_int64_FormatInt [simp]: "int64_ok n \<Longrightarrow> parse_int64 (FormatInt n) = Inr n"
  by (simp add: parse_int64_def ParseInt_FormatInt)

lemma ParseInt_int64_ok: "int64_ok (fst (ParseInt s))"
  by (auto simp: ParseInt_def int64_ok_def Let_def split: list.splits sum.splits num_error.splits)

lemma parse_int64_ok: "parse_int64 s = Inr n \<Longrightarrow> int64_ok n"
  using ParseInt_int64_ok [of s] by (auto simp: parse_int64_def split: prod.splits option.splits)

lemma FormatInt_inject: "int64_ok m \<Longrightarrow> int64_ok n \<Longrightarrow> FormatInt m = FormatInt n \<longleftrightarrow> m = n"
  by (metis ParseInt_FormatInt prod.inject)

subsection \<open>Prefixes, suffixes, splitting\<close>

fun TrimPrefix :: "string \<Rightarrow> string \<Rightarrow> string" where
  "TrimPrefix s p = (if take (length p) s = p then drop (length p) s else s)"

fun TrimSuffix :: "string \<Rightarrow> string \<Rightarrow> string" where
  "TrimSuffix s p =
     (if length p \<le> length s \<and> drop (length s - length p) s = p
      then take (length s - length p) s else s)"

lemma TrimPrefix_append [simp]: "TrimPrefix (p @ s) p = s"
  by simp

lemma TrimSuffix_append [simp]: "TrimSuffix (s @ p) p = s"
  by simp

declare TrimPrefix.simps [simp del] TrimSuffix.simps [simp del]

text \<open>\<open>strings.Split(s, sep)\<close> for a one-byte separator; it never returns the empty list.\<close>

fun Split :: "char \<Rightarrow> string \<Rightarrow> string list" where
  "Split sep [] = [[]]"
| "Split sep (c # cs) =
     (if c = sep then [] # Split sep cs
      else case Split sep cs of [] \<Rightarrow> [[c]] | p # ps \<Rightarrow> (c # p) # ps)"

lemma Split_not_Nil [simp]: "Split sep s \<noteq> []"
  by (cases s) (auto split: list.splits)

definition is_space :: "char \<Rightarrow> bool" where
  "is_space c \<longleftrightarrow> c \<in> {CHR 0x09, CHR 0x0A, CHR 0x0B, CHR 0x0C, CHR 0x0D, CHR 0x20}"

definition TrimSpace :: "string \<Rightarrow> string" where
  "TrimSpace s = rev (dropWhile is_space (rev (dropWhile is_space s)))"

definition to_lower :: "char \<Rightarrow> char" where
  "to_lower c = (let k = of_char c :: nat in if 65 \<le> k \<and> k \<le> 90 then char_of (k + 32) else c)"

definition ToLower :: "string \<Rightarrow> string" where
  "ToLower s = map to_lower s"

lemma TrimSpace_Nil [simp]: "TrimSpace [] = []"
  by (simp add: TrimSpace_def)

lemma dropWhile_idem_hd: "dropWhile P xs = [] \<or> \<not> P (hd (dropWhile P xs))"
  by (induction xs) auto

lemma dropWhile_rev_hd:
  assumes "xs = [] \<or> \<not> P (hd xs)"
  shows "dropWhile P (rev xs) = [] \<or> (hd (rev (dropWhile P (rev xs))) = hd xs \<and> xs \<noteq> [])"
proof (cases "dropWhile P (rev xs) = []")
  case False
  have "rev xs = takeWhile P (rev xs) @ dropWhile P (rev xs)" by simp
  then have "xs = rev (dropWhile P (rev xs)) @ rev (takeWhile P (rev xs))"
    by (metis rev_append rev_rev_ident)
  with False show ?thesis by (metis append_is_Nil_conv hd_append2 rev_is_Nil_conv)
qed simp

lemma TrimSpace_ends:
  "TrimSpace s \<noteq> [] \<Longrightarrow> \<not> is_space (hd (TrimSpace s)) \<and> \<not> is_space (last (TrimSpace s))"
proof -
  assume ne: "TrimSpace s \<noteq> []"
  let ?t = "dropWhile is_space s"
  let ?u = "dropWhile is_space (rev ?t)"
  from ne have u: "?u \<noteq> []" by (simp add: TrimSpace_def)
  then have "\<not> is_space (hd ?u)" using dropWhile_idem_hd [of is_space "rev ?t"] by blast
  moreover have "last (rev ?u) = hd ?u" using u by (simp add: last_rev)
  moreover have "?t = [] \<or> \<not> is_space (hd ?t)" by (rule dropWhile_idem_hd)
  with u dropWhile_rev_hd [of ?t is_space] have "hd (rev ?u) = hd ?t" "?t \<noteq> []" by auto
  moreover from this have "\<not> is_space (hd ?t)" using dropWhile_idem_hd [of is_space s] by blast
  ultimately show ?thesis by (metis TrimSpace_def)
qed

lemma TrimSpace_idem [simp]: "TrimSpace (TrimSpace s) = TrimSpace s"
proof (cases "TrimSpace s = []")
  case False
  note ends = TrimSpace_ends [OF False]
  have drop: "dropWhile is_space xs = xs" if "xs \<noteq> []" "\<not> is_space (hd xs)" for xs
    using that by (cases xs) auto
  from False ends have "dropWhile is_space (TrimSpace s) = TrimSpace s" by (intro drop) auto
  moreover from False ends have
    "dropWhile is_space (rev (TrimSpace s)) = rev (TrimSpace s)"
    by (intro drop) (simp_all add: hd_rev)
  ultimately show ?thesis by (metis TrimSpace_def rev_rev_ident)
qed simp

end
