(* ===== verification/Resp.thy ===== *)
theory Resp
  imports Go_Strings
begin

section \<open>The Redis wire protocol\<close>

text \<open>
  \<^verbatim>\<open>backend/redis_client.go\<close>: what the client writes for a command, what it makes of a
  reply, and the conversions of a decoded reply. The other end of the wire is the
  repository's own Redis, \<^verbatim>\<open>correctness-tests/test-redis-server.js\<close>: \<open>encode\<close> and
  \<open>tryParseCommand\<close>. The theorems are the round trips between the two ends.
\<close>

subsection \<open>Values\<close>

text \<open>What \<open>readRESP\<close> returns in its \<open>any\<close>.\<close>

datatype gval = GNil | GStr string | GInt int64 | GArr "gval list"

text \<open>A reply as the server holds it, before it is encoded.\<close>

datatype reply =
    RNil
  | RInt int
  | RArr "reply list"
  | RStatus string
  | RErr string
  | RBulk string

datatype resp_error =
    EOF
  | UnexpectedEOF
  | ReplyError string
  | NumError num_error
  | UnsupportedPrefix char
  | NetError string

subsection \<open>Writing a command\<close>

abbreviation CRLF :: string where "CRLF \<equiv> [CHR 0x0D, CHR 0x0A]"

definition write_arg :: "string \<Rightarrow> string" where
  "write_arg arg = CHR ''$'' # FormatInt (int (length arg)) @ CRLF @ arg @ CRLF"

definition writeRESPCommand :: "string list \<Rightarrow> string" where
  "writeRESPCommand args =
     CHR ''*'' # FormatInt (int (length args)) @ CRLF @ concat (map write_arg args)"

subsection \<open>Reading a reply\<close>

text \<open>\<open>ReadString('\n')\<close>: up to and with the first newline, or the end of the stream.\<close>

fun read_until_nl :: "string \<Rightarrow> (string \<times> string) option" where
  "read_until_nl [] = None"
| "read_until_nl (c # cs) =
     (if c = CHR 0x0A then Some ([c], cs)
      else map_option (\<lambda>(l, r). (c # l, r)) (read_until_nl cs))"

definition readRESPLine :: "string \<Rightarrow> (string \<times> string) option" where
  "readRESPLine s = map_option
     (\<lambda>(l, r). (TrimSuffix (TrimSuffix l [CHR 0x0A]) [CHR 0x0D], r)) (read_until_nl s)"

text \<open>
  \<open>$n\<close>: \<open>make([]byte, n + 2)\<close> panics when its length is negative, and the slice
  \<open>payload[:n]\<close> when \<open>n\<close> is; both are reached for any \<open>n\<close> below -1, and the first also
  where the sum wraps around. The
  number of bytes the machine can allocate is not modelled.
\<close>

definition read_bulk :: "int \<Rightarrow> string \<Rightarrow> (resp_error, gval) outcome \<times> string" where
  "read_bulk n s =
     (if n = -1 then (Ok GNil, s)
      else if wrap64 (n + 2) < 0 then (Panic, s)
      else if int (length s) < wrap64 (n + 2)
           then (Err (if s = [] \<and> wrap64 (n + 2) > 0 then EOF else UnexpectedEOF), [])
      else if n < 0 then (Panic, drop (nat (wrap64 (n + 2))) s)
      else (Ok (GStr (take (nat n) s)), drop (nat (n + 2)) s))"

function (sequential)
  readRESP :: "string \<Rightarrow> (resp_error, gval) outcome \<times> string" and
  readRESPItems :: "nat \<Rightarrow> string \<Rightarrow> (resp_error, gval list) outcome \<times> string"
where
  "readRESP [] = (Err EOF, [])"
| "readRESP (prefix # s) = (case readRESPLine s of
     None \<Rightarrow> (Err EOF, [])
   | Some (line, rest) \<Rightarrow>
      if prefix = CHR ''+'' then (Ok (GStr line), rest)
      else if prefix = CHR ''-'' then (Err (ReplyError line), rest)
      else if prefix = CHR '':'' then
        (case parse_int64 line of Inl e \<Rightarrow> (Err (NumError e), rest) | Inr n \<Rightarrow> (Ok (GInt n), rest))
      else if prefix = CHR ''$'' then
        (case parse_int64 line of Inl e \<Rightarrow> (Err (NumError e), rest) | Inr n \<Rightarrow> read_bulk n rest)
      else if prefix = CHR ''*'' then
        (case parse_int64 line of
           Inl e \<Rightarrow> (Err (NumError e), rest)
         | Inr n \<Rightarrow>
            if n = -1 then (Ok GNil, rest)
            else if n < 0 then (Panic, rest)
            else apfst (map_outcome id GArr) (readRESPItems (nat n) rest))
      else (Err (UnsupportedPrefix prefix), rest))"
| "readRESPItems 0 s = (Ok [], s)"
| "readRESPItems (Suc n) s = (case readRESP s of
     (Ok v, rest) \<Rightarrow> apfst (map_outcome id ((#) v)) (readRESPItems n rest)
   | (Err e, rest) \<Rightarrow> (Err e, rest)
   | (Panic, rest) \<Rightarrow> (Panic, rest))"
  by pat_completeness auto

lemma read_until_nl_shorter: "read_until_nl s = Some (l, r) \<Longrightarrow> length r < length s"
  by (induction s arbitrary: l) (auto split: if_splits intro: less_SucI)

lemma readRESPLine_shorter: "readRESPLine s = Some (l, r) \<Longrightarrow> length r < length s"
  by (auto simp: readRESPLine_def dest: read_until_nl_shorter)

lemma read_bulk_shorter: "length (snd (read_bulk n s)) \<le> length s"
  by (auto simp: read_bulk_def)

text \<open>Every reply read consumes input: what makes the mutual recursion terminate.\<close>

lemma readRESP_shorter_partial:
  "readRESP_readRESPItems_dom (Inl s) \<Longrightarrow> length (snd (readRESP s)) \<le> length s - 1"
  "readRESP_readRESPItems_dom (Inr (n, s)) \<Longrightarrow> length (snd (readRESPItems n s)) \<le> length s"
proof (induction s and n s rule: readRESP_readRESPItems.pinduct)
  case (2 prefix s)
  show ?case
  proof (cases "readRESPLine s")
    case None
    with 2 show ?thesis by (simp add: readRESP.psimps)
  next
    case (Some p)
    obtain line rest where p: "p = (line, rest)" by force
    have shorter: "length rest < length s" using readRESPLine_shorter Some p by simp
    have bulk: "length (snd (read_bulk n rest)) \<le> length s" for n
      using read_bulk_shorter [of n rest] shorter by linarith
    have items: "length (snd (readRESPItems (nat n) rest)) \<le> length s"
      if "prefix = CHR ''*''" "parse_int64 line = Inr n" "n \<noteq> -1" "\<not> n < 0" for n
      using "2.IH" [OF Some p [symmetric]] that shorter p by fastforce
    show ?thesis
      using 2(1) Some p shorter bulk items
      by (auto simp: readRESP.psimps split: sum.splits)
  qed
next
  case (4 n s)
  obtain v rest where r: "readRESP s = (v, rest)" by force
  with 4 have shorter: "length rest \<le> length s" by simp
  show ?case
  proof (cases v)
    case (Ok x)
    with 4 r have "length (snd (readRESPItems n rest)) \<le> length rest" by simp
    with 4(1) r Ok shorter show ?thesis by (simp add: readRESPItems.psimps)
  qed (use 4(1) r shorter in \<open>simp_all add: readRESPItems.psimps\<close>)
qed (simp_all add: readRESP.psimps readRESPItems.psimps)

lemma readRESP_rest_le:
  assumes "readRESP_readRESPItems_dom (Inl s)" "(v, rest) = readRESP s"
  shows "length rest \<le> length s"
  using readRESP_shorter_partial(1) [OF assms(1)] assms(2) [symmetric] by simp

termination readRESP
  by (relation "measures
    [\<lambda>x. case x of Inl s \<Rightarrow> length s | Inr (n, s) \<Rightarrow> length s,
     \<lambda>x. case x of Inl s \<Rightarrow> 0 | Inr ns \<Rightarrow> 1,
     \<lambda>x. case x of Inl s \<Rightarrow> 0 | Inr (n, s) \<Rightarrow> n]")
    (auto dest: readRESPLine_shorter readRESP_rest_le)

subsection \<open>Conversions of a decoded reply\<close>

text \<open>\<open>fmt.Sprint\<close> of a decoded value, which prints a slice in brackets.\<close>

fun go_sprint :: "gval \<Rightarrow> string" where
  "go_sprint GNil = ''<nil>''"
| "go_sprint (GStr s) = s"
| "go_sprint (GInt n) = FormatInt n"
| "go_sprint (GArr vs) =
     ''['' @ (case map go_sprint vs of [] \<Rightarrow> [] | x # xs \<Rightarrow> x @ concat (map (\<lambda>y. '' '' @ y) xs)) @ '']''"

definition redisString :: "gval \<Rightarrow> string" where
  "redisString v = (case v of
     GNil \<Rightarrow> []
   | GStr s \<Rightarrow> s
   | GInt n \<Rightarrow> FormatInt n
   | GArr vs \<Rightarrow> go_sprint v)"

datatype conv_error = NotANumber num_error | NotConvertible

definition redisInt64 :: "gval \<Rightarrow> conv_error + int64" where
  "redisInt64 v = (case v of
     GInt n \<Rightarrow> Inr n
   | GStr s \<Rightarrow> if s = [] then Inr 0
              else (case parse_int64 s of Inl e \<Rightarrow> Inl (NotANumber e) | Inr n \<Rightarrow> Inr n)
   | GNil \<Rightarrow> Inr 0
   | GArr vs \<Rightarrow> Inl NotConvertible)"

lemma redisString_simps [simp]:
  "redisString GNil = []" "redisString (GStr s) = s" "redisString (GInt n) = FormatInt n"
  by (simp_all add: redisString_def)

lemma redisInt64_simps [simp]:
  "redisInt64 (GInt n) = Inr n" "redisInt64 GNil = Inr 0"
  "redisInt64 (GArr vs) = Inl NotConvertible"
  by (simp_all add: redisInt64_def)

lemma redisInt64_FormatInt [simp]: "int64_ok n \<Longrightarrow> redisInt64 (GStr (FormatInt n)) = Inr n"
  by (simp add: redisInt64_def)

subsection \<open>The server's end of the wire\<close>

text \<open>\<open>encode\<close> of the test server; a text is written with its number of bytes.\<close>

fun encode :: "reply \<Rightarrow> string" where
  "encode RNil = ''$-1'' @ CRLF"
| "encode (RInt n) = CHR '':'' # FormatInt n @ CRLF"
| "encode (RArr rs) = CHR ''*'' # FormatInt (int (length rs)) @ CRLF @ concat (map encode rs)"
| "encode (RStatus s) = CHR ''+'' # s @ CRLF"
| "encode (RErr s) = CHR ''-'' # s @ CRLF"
| "encode (RBulk s) = CHR ''$'' # FormatInt (int (length s)) @ CRLF @ s @ CRLF"

fun split_crlf :: "string \<Rightarrow> (string \<times> string) option" where
  "split_crlf (c # d # s) =
     (if c = CHR 0x0D \<and> d = CHR 0x0A then Some ([], s)
      else map_option (apfst ((#) c)) (split_crlf (d # s)))"
| "split_crlf s = None"

text \<open>
  \<open>tryParseCommand\<close>, with the bytes left instead of the number consumed.
  \<open>Number\<close> is modelled on unsigned decimal numerals.
\<close>

fun parse_args :: "nat \<Rightarrow> string \<Rightarrow> (string list \<times> string) option" where
  "parse_args 0 s = Some ([], s)"
| "parse_args (Suc n) [] = None"
| "parse_args (Suc n) (c # s) =
     (if c \<noteq> CHR ''$'' then None
      else (case split_crlf s of
        None \<Rightarrow> None
      | Some (len, data) \<Rightarrow>
         (case ParseUint len of
            Inl e \<Rightarrow> None
          | Inr k \<Rightarrow> if length data < k + 2 then None
                     else map_option (apfst ((#) (take k data))) (parse_args n (drop (k + 2) data)))))"

definition tryParseCommand :: "string \<Rightarrow> (string list \<times> string) option" where
  "tryParseCommand buffer = (case buffer of
     [] \<Rightarrow> None
   | c # s \<Rightarrow>
      if c \<noteq> CHR ''*'' then None
      else (case split_crlf s of
        None \<Rightarrow> None
      | Some (n, rest) \<Rightarrow>
         (case ParseUint n of Inl e \<Rightarrow> None | Inr count \<Rightarrow> parse_args count rest)))"

text \<open>One command on one connection, as the test server's socket handler runs it.\<close>

definition serve :: "(string list \<Rightarrow> 'db \<Rightarrow> reply \<times> 'db) \<Rightarrow> string \<Rightarrow> 'db \<Rightarrow> string \<times> 'db" where
  "serve exec buffer db = (case tryParseCommand buffer of
     None \<Rightarrow> ([], db)
   | Some (args, rest) \<Rightarrow> apfst encode (exec args db))"

subsection \<open>One command of the client\<close>

text \<open>
  What the network does to one call: nothing, refuse the connection, fail while the
  command is written (the server never sees a whole command), or cut the reply after some
  bytes (the command has run).
\<close>

datatype link = LinkUp | DialFails string | WriteFails string | ReplyCut nat

definition Do :: "(string \<Rightarrow> 'db \<Rightarrow> string \<times> 'db) \<Rightarrow> link \<Rightarrow> string list \<Rightarrow> 'db \<Rightarrow>
    (resp_error, gval) outcome \<times> 'db" where
  "Do server link args db = (case link of
     DialFails e \<Rightarrow> (Err (NetError e), db)
   | WriteFails e \<Rightarrow> (Err (NetError e), db)
   | LinkUp \<Rightarrow> apfst (\<lambda>bytes. fst (readRESP bytes)) (server (writeRESPCommand args) db)
   | ReplyCut n \<Rightarrow>
       apfst (\<lambda>bytes. fst (readRESP (take n bytes))) (server (writeRESPCommand args) db))"

text \<open>What the client makes of a whole reply: an error anywhere inside it is the error.\<close>

fun decode :: "reply \<Rightarrow> (resp_error, gval) outcome" and
    decode_items :: "reply list \<Rightarrow> (resp_error, gval list) outcome" where
  "decode RNil = Ok GNil"
| "decode (RInt n) = Ok (GInt n)"
| "decode (RArr rs) = map_outcome id GArr (decode_items rs)"
| "decode (RStatus s) = Ok (GStr s)"
| "decode (RErr s) = Err (ReplyError s)"
| "decode (RBulk s) = Ok (GStr s)"
| "decode_items [] = Ok []"
| "decode_items (r # rs) = bind_outcome (decode r) (\<lambda>v. map_outcome id ((#) v) (decode_items rs))"

text \<open>Replies that fit the protocol: lines without a newline, numbers and lengths in range.\<close>

fun wf_reply :: "reply \<Rightarrow> bool" where
  "wf_reply RNil = True"
| "wf_reply (RInt n) = int64_ok n"
| "wf_reply (RArr rs) = (int64_ok (int (length rs)) \<and> (\<forall>r\<in>set rs. wf_reply r))"
| "wf_reply (RStatus s) = (CHR 0x0A \<notin> set s)"
| "wf_reply (RErr s) = (CHR 0x0A \<notin> set s)"
| "wf_reply (RBulk s) = int64_ok (int (length s) + 2)"

subsection \<open>Round trips\<close>

lemma read_until_nl_append:
  "CHR 0x0A \<notin> set s \<Longrightarrow> read_until_nl (s @ CHR 0x0A # rest) = Some (s @ [CHR 0x0A], rest)"
  by (induction s) auto

lemma readRESPLine_append [simp]:
  assumes "CHR 0x0A \<notin> set s"
  shows "readRESPLine (s @ CHR 0x0D # CHR 0x0A # rest) = Some (s, rest)"
proof -
  have "read_until_nl ((s @ [CHR 0x0D]) @ CHR 0x0A # rest)
      = Some ((s @ [CHR 0x0D]) @ [CHR 0x0A], rest)"
    by (rule read_until_nl_append) (use assms in simp)
  then show ?thesis
    by (simp add: readRESPLine_def) (metis TrimSuffix_append append.assoc append_Cons append_Nil)
qed

lemma split_crlf_append [simp]:
  "CHR 0x0D \<notin> set s \<Longrightarrow> split_crlf (s @ CHR 0x0D # CHR 0x0A # rest) = Some (s, rest)"
proof (induction s)
  case (Cons c s)
  then show ?case by (cases s) auto
qed simp

lemma ParseUint_length:
  "int64_ok (int n) \<Longrightarrow> ParseUint (FormatInt (int n)) = Inr n"
  by (simp add: FormatInt_def int64_ok_def ParseUint_fmt_nat)

lemma parse_args_write:
  "\<forall>a\<in>set args. int64_ok (int (length a)) \<Longrightarrow>
   parse_args (length args) (concat (map write_arg args) @ rest) = Some (args, rest)"
  by (induction args) (simp_all add: write_arg_def ParseUint_length)

lemma tryParseCommand_write:
  assumes "int64_ok (int (length args))" "\<forall>a\<in>set args. int64_ok (int (length a))"
  shows "tryParseCommand (writeRESPCommand args @ rest) = Some (args, rest)"
  using assms
  by (simp add: tryParseCommand_def writeRESPCommand_def ParseUint_length parse_args_write)

text \<open>A parse result that shows the outcome \<open>out\<close> and, after a value, leaves \<open>rest\<close>.\<close>

definition shows_outcome :: "('e, 'a) outcome \<Rightarrow> string \<Rightarrow> ('e, 'a) outcome \<times> string \<Rightarrow> bool" where
  "shows_outcome out rest p \<longleftrightarrow>
     fst p = out \<and> out \<noteq> Panic \<and> ((\<exists>v. out = Ok v) \<longrightarrow> snd p = rest)"

lemma shows_outcome_simps [simp]:
  "shows_outcome (Ok v) rest p \<longleftrightarrow> p = (Ok v, rest)"
  "shows_outcome (Err e) rest p \<longleftrightarrow> fst p = Err e"
  "\<not> shows_outcome Panic rest p"
  by (auto simp: shows_outcome_def prod_eq_iff)

lemma readRESP_encode_shows:
  "wf_reply r \<Longrightarrow> shows_outcome (decode r) rest (readRESP (encode r @ rest))"
  "\<forall>r\<in>set rs. wf_reply r \<Longrightarrow>
     shows_outcome (decode_items rs) rest (readRESPItems (length rs) (concat (map encode rs) @ rest))"
proof (induction r and rs arbitrary: rest and rest rule: decode_decode_items.induct)
  case (3 rs)
  then have "int64_ok (int (length rs))" by simp
  with 3 show ?case by (cases "decode_items rs") auto
next
  case (6 s)
  then have "int64_ok (int (length s))" "wrap64 (int (length s) + 2) = int (length s) + 2" by (simp_all add: int64_ok_def wrap64_id)
  with 6 show ?case by (simp add: read_bulk_def nat_add_distrib)
next
  case (8 r rs)
  have head: "shows_outcome (decode r) (concat (map encode rs) @ rest)
      (readRESP (encode r @ concat (map encode rs) @ rest))"
    using 8 by simp
  show ?case
  proof (cases "decode r")
    case (Ok v)
    with 8 have "shows_outcome (decode_items rs) rest
      (readRESPItems (length rs) (concat (map encode rs) @ rest))" by simp
    with head Ok show ?thesis by (cases "decode_items rs") auto
  next
    case (Err e)
    with head show ?thesis
      by (cases "readRESP (encode r @ concat (map encode rs) @ rest)") simp
  qed (use head in simp)
next
  case 1
  have "readRESPLine (''-1'' @ CHR 0x0D # CHR 0x0A # rest) = Some (''-1'', rest)"
    by (rule readRESPLine_append) simp
  moreover have "parse_int64 ''-1'' = Inr (-1)"
    by (simp add: parse_int64_def ParseInt_def ParseUint_def digit_val_def)
  ultimately show ?case by (simp add: read_bulk_def)
qed simp_all

lemma readRESP_encode: "wf_reply r \<Longrightarrow> fst (readRESP (encode r)) = decode r"
  using readRESP_encode_shows(1) [of r "[]"] by (simp add: shows_outcome_def)

lemma decode_no_panic: "wf_reply r \<Longrightarrow> decode r \<noteq> Panic"
  using readRESP_encode_shows(1) [of r "[]"] by (auto simp: shows_outcome_def)

text \<open>
  The client's call over the wire, against a server that parses commands and encodes
  replies, is the call of the server's command function.
\<close>

lemma Do_serve:
  assumes "int64_ok (int (length args))" "\<forall>a\<in>set args. int64_ok (int (length a))"
    and "wf_reply (fst (exec args db))"
  shows "Do (serve exec) LinkUp args db = apfst decode (exec args db)"
  using assms tryParseCommand_write [of args "[]"]
  by (cases "exec args db") (simp add: Do_def serve_def readRESP_encode)

subsection \<open>A reply that is cut short\<close>

lemma read_until_nl_None: "CHR 0x0A \<notin> set s \<Longrightarrow> read_until_nl s = None"
  by (induction s) auto

lemma readRESPLine_None [simp]: "CHR 0x0A \<notin> set s \<Longrightarrow> readRESPLine s = None"
  by (simp add: readRESPLine_def read_until_nl_None)

lemma take_line_None:
  assumes "CHR 0x0A \<notin> set s" "n < length s + 2"
  shows "readRESPLine (take n (s @ CHR 0x0D # CHR 0x0A # t)) = None"
proof -
  have "take n (s @ CHR 0x0D # CHR 0x0A # t) = take n ((s @ [CHR 0x0D]) @ CHR 0x0A # t)" by simp
  also have "\<dots> = take n (s @ [CHR 0x0D])" using assms(2) by (subst take_append) simp
  finally have eq: "take n (s @ CHR 0x0D # CHR 0x0A # t) = take n (s @ [CHR 0x0D])" .
  have "CHR 0x0A \<notin> set (take n (s @ [CHR 0x0D]))"
    using assms(1) by (auto dest: in_set_takeD)
  then show ?thesis unfolding eq by (rule readRESPLine_None)
qed

definition is_Err :: "('e, 'a) outcome \<Rightarrow> bool" where
  "is_Err x \<longleftrightarrow> (\<exists>e. x = Err e)"

lemma is_Err_simps [simp]: "is_Err (Err e)" "\<not> is_Err (Ok v)" "\<not> is_Err Panic"
  by (simp_all add: is_Err_def)

lemma is_Err_map [simp]: "is_Err (map_outcome id f x) = is_Err x"
  by (cases x) simp_all

lemma readRESP_take_line:
  assumes "CHR 0x0A \<notin> set s" "n < length s + 3"
  shows "is_Err (fst (readRESP (take n (p # s @ CHR 0x0D # CHR 0x0A # t))))"
  using take_line_None [of s "n - 1" t] assms by (cases n) simp_all

text \<open>A cut in a header, or behind it.\<close>

lemma take_header:
  assumes "\<not> n < length h + 3"
  shows "take n (p # h @ CHR 0x0D # CHR 0x0A # t) = p # h @ CHR 0x0D # CHR 0x0A # take (n - length h - 3) t"
  using assms by (cases n) (auto simp: take_Cons' numeral_3_eq_3)

lemma readRESPItems_cut:
  assumes "n < length (encode r) \<Longrightarrow> is_Err (fst (readRESP (take n (encode r))))"
    and "\<And>v. decode r = Ok v \<Longrightarrow> \<not> n < length (encode r) \<Longrightarrow>
      is_Err (fst (readRESPItems k (take (n - length (encode r)) t)))" and "wf_reply r"
  shows "is_Err (fst (readRESPItems (Suc k) (take n (encode r @ t))))"
proof (cases "n < length (encode r)")
  case True
  then obtain e rest where "readRESP (take n (encode r)) = (Err e, rest)"
    using assms(1) by (cases "readRESP (take n (encode r))") (auto simp: is_Err_def)
  with True show ?thesis by simp
next
  case False
  let ?rest = "take (n - length (encode r)) t"
  have split: "take n (encode r @ t) = encode r @ ?rest" using False by simp
  have "shows_outcome (decode r) ?rest (readRESP (encode r @ ?rest))"
    using assms(3) readRESP_encode_shows(1) by simp
  then show ?thesis
    using assms(2) False unfolding split by (cases "decode r"; cases "readRESP (encode r @ ?rest)") auto
qed

lemma readRESP_encode_take:
  "wf_reply r \<Longrightarrow> n < length (encode r) \<Longrightarrow> is_Err (fst (readRESP (take n (encode r))))"
  "\<forall>r\<in>set rs. wf_reply r \<Longrightarrow> n < length (concat (map encode rs)) \<Longrightarrow>
     is_Err (fst (readRESPItems (length rs) (take n (concat (map encode rs)))))"
proof (induction r and rs arbitrary: n and n rule: decode_decode_items.induct)
  case (3 rs)
  let ?h = "FormatInt (int (length rs))" and ?t = "concat (map encode rs)"
  show ?case
  proof (cases "n < length ?h + 3")
    case True
    then show ?thesis using readRESP_take_line [of ?h n "CHR ''*''" ?t] by simp
  next
    case False
    with 3 have "is_Err (fst (readRESPItems (length rs) (take (n - length ?h - 3) ?t)))" by simp
    then show ?thesis using 3 take_header [OF False, of "CHR ''*''" ?t] by simp
  qed
next
  case (6 s)
  let ?h = "FormatInt (int (length s))"
  show ?case
  proof (cases "n < length ?h + 3")
    case True
    then show ?thesis using readRESP_take_line [of ?h n "CHR ''$''" "s @ CRLF"] by simp
  next
    case False
    then have "int (length (take (n - length ?h - 3) (s @ CRLF))) < int (length s) + 2" using 6 by auto
    moreover have "int64_ok (int (length s))" "wrap64 (int (length s) + 2) = int (length s) + 2"
      using 6 by (simp_all add: int64_ok_def wrap64_id)
    ultimately show ?thesis
      using take_header [OF False, of "CHR ''$''" "s @ CRLF"] by (simp add: read_bulk_def del: take_append length_take)
  qed
next
  case (8 r rs)
  then show ?case
    using readRESPItems_cut [of n r "length rs" "concat (map encode rs)"] by simp
next
  case 1
  then show ?case using readRESP_take_line [of "''-1''" n "CHR ''$''" "[]"] by simp
next
  case (2 k)
  then show ?case using readRESP_take_line [of "FormatInt k" n "CHR '':''" "[]"] by simp
next
  case (4 s)
  then show ?case using readRESP_take_line [of s n "CHR ''+''" "[]"] by simp
next
  case (5 s)
  then show ?case using readRESP_take_line [of s n "CHR ''-''" "[]"] by simp
qed simp

end
