(* ===== verification/Lua.thy ===== *)
theory Lua
  imports Resp "HOL-Library.Log_Nat" "HOL-Library.Char_ord" "HOL-Library.List_Lexorder"
begin

section \<open>Redis commands, and Lua as Redis runs it\<close>

text \<open>
  The document and the presence of a room are changed by Lua scripts that stand as strings
  in \<^verbatim>\<open>redis_store.go\<close> and \<^verbatim>\<open>redis_presence.go\<close>. This theory holds what the scripts
  use of Lua: values, \<open>redis.call\<close> with its conversions, \<open>tonumber\<close> and \<open>tostring\<close>,
  arithmetic on doubles, errors that end a script. Redis itself is not part of the
  repository: it is a parameter \<open>exec\<close> from the words of a command and a state to a
  reply and a state.
\<close>

type_synonym 'db exec = "string list \<Rightarrow> 'db \<Rightarrow> reply \<times> 'db"

subsection \<open>Numbers\<close>

text \<open>
  A Lua number is a double. The scripts hold whole numbers only, so a number is the
  integer the double is; integers beyond 53 bits round to the nearest, ties to even.
\<close>

definition round53 :: "nat \<Rightarrow> nat" where
  "round53 m =
     (let k = floorlog 2 m - 53; q = m div 2 ^ k; r = m mod 2 ^ k in
      (if 2 * r > 2 ^ k \<or> (2 * r = 2 ^ k \<and> odd q) then q + 1 else q) * 2 ^ k)"

definition to_double :: "int \<Rightarrow> int" where
  "to_double n = (if n < 0 then - int (round53 (nat (- n))) else int (round53 (nat n)))"

lemma floorlog_le_53: "m < 9007199254740992 \<Longrightarrow> floorlog 2 m \<le> 53"
  using floorlog_leI [of m 2 53] by simp

lemma round53_small: "m < 9007199254740992 \<Longrightarrow> round53 m = m"
  by (simp add: round53_def floorlog_le_53)

lemma round53_large: "9007199254740992 \<le> m \<Longrightarrow> 9007199254740992 \<le> round53 m"
proof -
  assume m: "9007199254740992 \<le> m"
  define L where "L = floorlog 2 m"
  have lo: "2 ^ (L - 1) \<le> m" and hi: "m < 2 ^ L"
    using floorlog_bounds [of m 2] m by (simp_all add: L_def)
  have "(2::nat) ^ 53 < 2 ^ L" using m hi by (simp add: le_less_trans)
  then have "53 < L" by (rule power_less_imp_less_exp [rotated]) simp
  then have L: "54 \<le> L" by simp
  then have "L - 1 = 52 + (L - 53)" by simp
  then have "(2::nat) ^ (L - 1) = 2 ^ 52 * 2 ^ (L - 53)" by (simp only: power_add)
  with lo have "2 ^ 52 * 2 ^ (L - 53) \<le> m" by simp
  then have "(2::nat) ^ 52 \<le> m div 2 ^ (L - 53)"
    by (simp add: less_eq_div_iff_mult_less_eq)
  then have "(2::nat) ^ 52 * 2 ^ (L - 53) \<le> round53 m"
    unfolding round53_def Let_def L_def [symmetric] by (intro mult_right_mono) auto
  moreover have "(2::nat) ^ 53 \<le> 2 ^ 52 * 2 ^ (L - 53)"
  proof -
    have "(2::nat) ^ 53 \<le> 2 ^ (52 + (L - 53))" using L by (intro power_increasing) auto
    then show ?thesis by (simp only: power_add)
  qed
  ultimately show ?thesis by simp
qed

lemma to_double_small: "\<bar>n\<bar> < 9007199254740992 \<Longrightarrow> to_double n = n"
  by (auto simp: to_double_def round53_small)

text \<open>A double that is a small whole number came from that number alone.\<close>

lemma to_double_eq_small:
  assumes "\<bar>v\<bar> < 9007199254740992"
  shows "to_double n = v \<longleftrightarrow> n = v"
proof (cases "\<bar>n\<bar> < 9007199254740992")
  case True
  then show ?thesis by (simp add: to_double_small)
next
  case False
  then have "9007199254740992 \<le> \<bar>to_double n\<bar>"
    using round53_large [of "nat n"] round53_large [of "nat (- n)"] by (auto simp: to_double_def)
  with assms False show ?thesis by auto
qed

text \<open>Decimal numerals of any size: what \<open>tonumber\<close> reads of the strings the scripts store.\<close>

fun parse_dec :: "nat \<Rightarrow> string \<Rightarrow> nat option" where
  "parse_dec n [] = Some n"
| "parse_dec n (c # cs) = (case digit_val c of None \<Rightarrow> None | Some d \<Rightarrow> parse_dec (n * 10 + d) cs)"

definition dec_value :: "string \<Rightarrow> int option" where
  "dec_value s = (case s of
     [] \<Rightarrow> None
   | c # cs \<Rightarrow> if c = CHR ''-'' then (if cs = [] then None else map_option (\<lambda>m. - int m) (parse_dec 0 cs))
              else map_option int (parse_dec 0 s))"

lemma parse_dec_append:
  "parse_dec n (xs @ ys) = Option.bind (parse_dec n xs) (\<lambda>m. parse_dec m ys)"
  by (induction n xs rule: parse_dec.induct) (auto split: option.splits)

lemma parse_dec_fmt_nat [simp]: "parse_dec 0 (fmt_nat n) = Some n"
proof (induction n rule: fmt_nat.induct)
  case (1 n)
  then show ?case
    by (cases "n < 10") (simp_all add: fmt_nat.simps [of n] parse_dec_append)
qed

lemma dec_value_FormatInt [simp]: "dec_value (FormatInt n) = Some n"
proof (cases "n < 0")
  case False
  obtain c cs where "fmt_nat (nat n) = c # cs" by (metis fmt_nat_not_Nil list.exhaust)
  with False hd_fmt_nat show ?thesis
    by (simp add: dec_value_def FormatInt_def del: parse_dec.simps)
      (metis parse_dec_fmt_nat option.simps(9) nat_0_le not_less)
qed (simp add: dec_value_def FormatInt_def)

text \<open>
  \<open>tostring\<close> prints with \<open>%.14g\<close>: plain digits below \<open>10\<^sup>1\<^sup>4\<close>, and from there on an
  exponent after at most 14 significant digits.
\<close>

definition sci_string :: "nat \<Rightarrow> nat \<Rightarrow> string" where
  "sci_string prec m =
     (let e = length (fmt_nat m) - 1; p = 10 ^ (e - (prec - 1)); q0 = m div p; r = m mod p;
          q = (if 2 * r > p \<or> (2 * r = p \<and> odd q0) then q0 + 1 else q0);
          (q, e) = (if q = 10 ^ prec then (10 ^ (prec - 1), e + 1) else (q, e));
          ds = fmt_nat q;
          frac = rev (dropWhile (\<lambda>c. c = CHR ''0'') (rev (tl ds)))
      in [hd ds] @ (if frac = [] then [] else CHR ''.'' # frac) @ ''e+'' @
         (if e < 10 then ''0'' else []) @ fmt_nat e)"

definition num_string :: "int \<Rightarrow> string" where
  "num_string n =
     (if \<bar>n\<bar> < 100000000000000 then FormatInt n
      else if n < 0 then CHR ''-'' # sci_string 14 (nat (- n)) else sci_string 14 (nat n))"

text \<open>A number that is an argument of \<open>redis.call\<close> is printed with \<open>%.17g\<close>.\<close>

definition arg_string :: "int \<Rightarrow> string" where
  "arg_string n =
     (if \<bar>n\<bar> < 100000000000000000 then FormatInt n
      else if n < 0 then CHR ''-'' # sci_string 17 (nat (- n)) else sci_string 17 (nat n))"

lemma arg_string_small [simp]: "\<bar>n\<bar> < 100000000000000000 \<Longrightarrow> arg_string n = FormatInt n"
  by (simp add: arg_string_def)

lemma num_string_small [simp]: "\<bar>n\<bar> < 100000000000000 \<Longrightarrow> num_string n = FormatInt n"
  by (simp add: num_string_def)

subsection \<open>Values and calls\<close>

datatype lua = LNil | LFalse | LNum int | LStr string | LStatus string | LTable "lua list"

text \<open>How \<open>redis.call\<close> converts a reply; an error reply raises instead.\<close>

fun lua_of_reply :: "reply \<Rightarrow> string + lua" and lua_of_replies :: "reply list \<Rightarrow> string + lua list" where
  "lua_of_reply RNil = Inr LFalse"
| "lua_of_reply (RInt n) = Inr (LNum (to_double n))"
| "lua_of_reply (RArr rs) = bind_sum (lua_of_replies rs) (\<lambda>vs. Inr (LTable vs))"
| "lua_of_reply (RStatus s) = Inr (LStatus s)"
| "lua_of_reply (RErr e) = Inl e"
| "lua_of_reply (RBulk s) = Inr (LStr s)"
| "lua_of_replies [] = Inr []"
| "lua_of_replies (r # rs) =
     bind_sum (lua_of_reply r) (\<lambda>v. bind_sum (lua_of_replies rs) (\<lambda>vs. Inr (v # vs)))"

text \<open>How the value a script returns becomes its reply; a table ends at its first nil.\<close>

fun reply_of_lua :: "lua \<Rightarrow> reply" and replies_of_lua :: "lua list \<Rightarrow> reply list" where
  "reply_of_lua LNil = RNil"
| "reply_of_lua LFalse = RNil"
| "reply_of_lua (LNum n) = RInt n"
| "reply_of_lua (LStr s) = RBulk s"
| "reply_of_lua (LStatus s) = RStatus s"
| "reply_of_lua (LTable vs) = RArr (replies_of_lua vs)"
| "replies_of_lua [] = []"
| "replies_of_lua (v # vs) = (if v = LNil then [] else reply_of_lua v # replies_of_lua vs)"

definition lua_or :: "lua \<Rightarrow> lua \<Rightarrow> lua" where
  "lua_or a b = (if a = LNil \<or> a = LFalse then b else a)"

fun tonumber :: "lua \<Rightarrow> lua" where
  "tonumber (LNum n) = LNum n"
| "tonumber (LStr s) = (case dec_value s of None \<Rightarrow> LNil | Some n \<Rightarrow> LNum (to_double n))"
| "tonumber _ = LNil"

fun tostring :: "lua \<Rightarrow> string" where
  "tostring (LNum n) = num_string n"
| "tostring (LStr s) = s"
| "tostring LFalse = ''false''"
| "tostring LNil = ''nil''"
| "tostring _ = ''table''"

fun lua_add :: "lua \<Rightarrow> lua \<Rightarrow> string + lua" where
  "lua_add (LNum a) (LNum b) = Inr (LNum (to_double (a + b)))"
| "lua_add _ _ = Inl ''attempt to perform arithmetic on a nil value''"

text \<open>Comparison of numbers, and a value as an argument of \<open>redis.call\<close>.\<close>

fun lua_le :: "lua \<Rightarrow> lua \<Rightarrow> string + bool" where
  "lua_le (LNum a) (LNum b) = Inr (a \<le> b)"
| "lua_le (LStr a) (LStr b) = Inr (a \<le> b)"
| "lua_le _ _ = Inl ''attempt to compare two values''"

fun lua_arg :: "lua \<Rightarrow> string + string" where
  "lua_arg (LStr s) = Inr s"
| "lua_arg (LNum n) = Inr (arg_string n)"
| "lua_arg _ = Inl ''Lua redis lib command arguments must be strings or integers''"

definition truthy :: "lua \<Rightarrow> bool" where
  "truthy v \<longleftrightarrow> v \<noteq> LNil \<and> v \<noteq> LFalse"

text \<open>A script body: it changes the state and ends with an error or a value.\<close>

type_synonym ('db, 'a) script = "'db \<Rightarrow> (string + 'a) \<times> 'db"

definition lua_bind :: "('db, 'a) script \<Rightarrow> ('a \<Rightarrow> ('db, 'b) script) \<Rightarrow> ('db, 'b) script" where
  "lua_bind m f db = (case m db of (Inl e, db') \<Rightarrow> (Inl e, db') | (Inr a, db') \<Rightarrow> f a db')"

definition lua_return :: "'a \<Rightarrow> ('db, 'a) script" where
  "lua_return a db = (Inr a, db)"

definition lua_lift :: "string + 'a \<Rightarrow> ('db, 'a) script" where
  "lua_lift x db = (x, db)"

definition redis_call :: "'db exec \<Rightarrow> string list \<Rightarrow> ('db, lua) script" where
  "redis_call exec args db = apfst lua_of_reply (exec args db)"

definition run_script :: "('db, lua) script \<Rightarrow> 'db \<Rightarrow> reply \<times> 'db" where
  "run_script body db = (case body db of
     (Inl e, db') \<Rightarrow> (RErr e, db')
   | (Inr v, db') \<Rightarrow> (reply_of_lua v, db'))"

text \<open>
  \<open>EVAL script numkeys key \<dots> arg \<dots>\<close>: the server runs the script of that text on the
  keys and the arguments, as one step. The texts known are those of the table.
\<close>

type_synonym 'db lua_script = "'db exec \<Rightarrow> string list \<Rightarrow> string list \<Rightarrow> 'db \<Rightarrow> reply \<times> 'db"

definition with_eval :: "(string \<times> 'db lua_script) list \<Rightarrow> 'db exec \<Rightarrow> 'db exec" where
  "with_eval table exec args db = (case args of
     cmd # text # n # rest \<Rightarrow>
       if cmd = ''EVAL'' then
         (case map_of table text of
            None \<Rightarrow> (RErr ''ERR unknown script'', db)
          | Some f \<Rightarrow>
             (case parse_int64 n of
                Inl e \<Rightarrow> (RErr ''ERR value is not an integer or out of range'', db)
              | Inr k \<Rightarrow> f exec (take (nat k) rest) (drop (nat k) rest) db))
       else exec args db
   | _ \<Rightarrow> exec args db)"

lemma with_eval_other:
  "args = cmd # rest \<Longrightarrow> cmd \<noteq> ''EVAL'' \<Longrightarrow> with_eval table exec args db = exec args db"
  by (auto simp: with_eval_def split: list.splits)

text \<open>A bulk reply in a script, as the string or as \<open>false\<close>.\<close>

lemma redis_call_simps:
  "exec args db = (RBulk s, db') \<Longrightarrow> redis_call exec args db = (Inr (LStr s), db')"
  "exec args db = (RNil, db') \<Longrightarrow> redis_call exec args db = (Inr LFalse, db')"
  "exec args db = (RInt n, db') \<Longrightarrow> redis_call exec args db = (Inr (LNum (to_double n)), db')"
  "exec args db = (RStatus s, db') \<Longrightarrow> redis_call exec args db = (Inr (LStatus s), db')"
  by (simp_all add: redis_call_def)

end
