(* ===== verification/Wire_Types.thy ===== *)
theory Wire_Types
  imports Go_Strings "HOL-Library.Char_ord" "HOL-Library.List_Lexorder" "HOL-Library.AList" "HOL-Library.Multiset"
begin

section \<open>Messages, events, participants, and one WebSocket connection\<close>

text \<open>
  The data that the backend's files share: \<open>Message\<close> of \<^verbatim>\<open>client.go\<close>,
  \<open>DistributedEvent\<close> of \<^verbatim>\<open>redis_store.go\<close>, \<open>Participant\<close> and the presence
  snapshots of \<^verbatim>\<open>presence.go\<close>, the snapshots and results of \<^verbatim>\<open>room.go\<close>, and
  the policy of \<^verbatim>\<open>config.go\<close>. The WebSocket library is not part of the repository: a
  connection is the list of frames it has accepted, and a parameter that says which
  attempts to write fail.
\<close>

subsection \<open>Messages\<close>

record Message =
  mType :: string
  mContent :: string
  mUsername :: string
  mUsers :: "string list"
  mOperationID :: string
  mClientID :: string
  mBaseVersion :: "int64 option"
  mPreviousVersion :: int64
  mServerVersion :: int64
  mSequence :: int64
  mStreamID :: string
  mFromSequence :: int64
  mLatestSequence :: int64
  mReplayed :: int64
  mAccepted :: "bool option"
  mStale :: bool
  mReason :: string

text \<open>The zero \<open>Message\<close>: what a composite literal starts from.\<close>

definition zero_message :: Message where
  "zero_message = \<lparr>mType = [], mContent = [], mUsername = [], mUsers = [], mOperationID = [],
     mClientID = [], mBaseVersion = None, mPreviousVersion = 0, mServerVersion = 0,
     mSequence = 0, mStreamID = [], mFromSequence = 0, mLatestSequence = 0, mReplayed = 0,
     mAccepted = None, mStale = False, mReason = []\<rparr>"

record DistributedEvent =
  eStreamID :: string
  eSequence :: int64
  eVersion :: int64
  eOperationID :: string
  eClientID :: string
  eUsername :: string
  eContent :: string

definition zero_event :: DistributedEvent where
  "zero_event = \<lparr>eStreamID = [], eSequence = 0, eVersion = 0, eOperationID = [],
     eClientID = [], eUsername = [], eContent = []\<rparr>"

definition messageFromDistributedEvent :: "DistributedEvent \<Rightarrow> Message" where
  "messageFromDistributedEvent event = zero_message\<lparr>
     mType := ''content_update'',
     mContent := eContent event,
     mUsername := eUsername event,
     mOperationID := eOperationID event,
     mClientID := eClientID event,
     mServerVersion := eVersion event,
     mSequence := eSequence event,
     mStreamID := eStreamID event,
     mAccepted := Some True\<rparr>"

lemma messageFromDistributedEvent_simps [simp]:
  "mType (messageFromDistributedEvent e) = ''content_update''"
  "mSequence (messageFromDistributedEvent e) = eSequence e"
  "mContent (messageFromDistributedEvent e) = eContent e"
  "mServerVersion (messageFromDistributedEvent e) = eVersion e"
  "mStreamID (messageFromDistributedEvent e) = eStreamID e"
  "mOperationID (messageFromDistributedEvent e) = eOperationID e"
  "mClientID (messageFromDistributedEvent e) = eClientID e"
  "mUsername (messageFromDistributedEvent e) = eUsername e"
  by (simp_all add: messageFromDistributedEvent_def)

definition event_String :: "DistributedEvent \<Rightarrow> string" where
  "event_String e = eStreamID e @ '':'' @ FormatInt (eSequence e) @ '':'' @ eOperationID e"

subsection \<open>Snapshots, results, policy\<close>

datatype StaleWritePolicy = StaleWriteReject | StaleWriteAccept

fun policy_string :: "StaleWritePolicy \<Rightarrow> string" where
  "policy_string StaleWriteReject = ''reject''"
| "policy_string StaleWriteAccept = ''accept''"

record RoomSnapshot =
  sContent :: string
  sVersion :: int64
  sSequence :: int64

record ApplyContentResult =
  arAccepted :: bool
  arReason :: string
  arContent :: string
  arBaseVersion :: int64
  arPreviousVersion :: int64
  arServerVersion :: int64
  arSequence :: int64
  arStreamID :: string
  arStale :: bool

subsection \<open>Participants\<close>

record Participant =
  pConnectionID :: string
  pClientID :: string
  pUsername :: string
  pInstanceID :: string

record PresenceSnapshot =
  psRevision :: int64
  psParticipants :: "Participant list"

text \<open>
  \<open>sort.Slice\<close> by \<open>ConnectionID\<close>. Connection identities are distinct where the code
  sorts, so the order of equal elements, which \<open>sort.Slice\<close> leaves open, does not show.
\<close>

definition sortParticipants :: "Participant list \<Rightarrow> Participant list" where
  "sortParticipants ps = sort_key pConnectionID ps"

lemma sortParticipants_perm [simp]: "mset (sortParticipants ps) = mset ps"
  by (simp add: sortParticipants_def)

lemma set_sortParticipants [simp]: "set (sortParticipants ps) = set ps"
  by (simp add: sortParticipants_def)

lemma sorted_sortParticipants [simp]: "sorted (map pConnectionID (sortParticipants ps))"
  by (simp add: sortParticipants_def)

text \<open>With distinct identities the sorted list is a function of the set alone.\<close>

lemma sortParticipants_unique:
  assumes "set xs = set ys" "distinct (map pConnectionID xs)" "distinct (map pConnectionID ys)"
  shows "sortParticipants xs = sortParticipants ys"
proof -
  let ?f = "\<lambda>zs. map pConnectionID (sortParticipants zs)"
  have d: "distinct (?f zs)" if "distinct (map pConnectionID zs)" for zs
    using that by (metis mset_map sortParticipants_perm mset_eq_imp_distinct_iff)
  have "?f xs = ?f ys"
    by (rule sorted_distinct_set_unique) (use assms d in simp_all)
  moreover have "inj_on pConnectionID (set (sortParticipants xs) \<union> set (sortParticipants ys))"
    using assms by (simp add: distinct_map)
  ultimately show ?thesis by (rule map_inj_on)
qed

subsection \<open>One WebSocket connection\<close>

datatype frame =
    FMessage Message
  | FPresence PresenceSnapshot
  | FText string

text \<open>
  The frames the connection accepted, in order; how many writes were tried; which of
  them fail, and how, which is the library's and the network's choice; whether the
  server has closed it.
\<close>

record conn =
  frames :: "frame list"
  attempts :: nat
  write_fault :: "nat \<Rightarrow> string option"
  closed :: bool

definition conn_write :: "conn \<Rightarrow> frame \<Rightarrow> string option \<times> conn" where
  "conn_write c f = (case write_fault c (attempts c) of
     None \<Rightarrow> (None, c\<lparr>frames := frames c @ [f], attempts := Suc (attempts c)\<rparr>)
   | Some e \<Rightarrow> (Some e, c\<lparr>attempts := Suc (attempts c)\<rparr>))"

lemma conn_write_frames:
  "conn_write c f = (err, c') \<Longrightarrow> frames c' = (if err = None then frames c @ [f] else frames c)"
  by (auto simp: conn_write_def split: option.splits)

lemma conn_write_closed: "conn_write c f = (err, c') \<Longrightarrow> closed c' = closed c"
  by (auto simp: conn_write_def split: option.splits)

definition new_conn :: conn where
  "new_conn = \<lparr>frames = [], attempts = 0, write_fault = (\<lambda>_. None), closed = False\<rparr>"

end
