(* ===== verification/Redis_Laws.thy ===== *)
theory Redis_Laws
  imports Lua Wire_Types
begin

section \<open>What the backend relies on of Redis\<close>

text \<open>
  Redis is a parameter: a command function \<open>E\<close>, a view \<open>V\<close> of the typed values under
  the keys of a state, and the states \<open>K\<close> that a server can be in. \<open>redis_server E V K\<close>
  is the documented behaviour of the commands that the document scripts and the store send:
  each law gives the reply and the whole view after the command. Stream commands are
  described by positions: a range after the entry \<open>a\<close> starts behind it.
\<close>

datatype redis_value =
    RVString string
  | RVStream "(string \<times> (string \<times> string) list) list"
  | RVHash "string \<rightharpoonup> string"
  | RVZset "string \<rightharpoonup> int"

type_synonym view = "string \<Rightarrow> redis_value option"

text \<open>The command \<open>args\<close> in the state \<open>db\<close>: its reply, and the view after it.\<close>

definition redis_step :: "'db exec \<Rightarrow> ('db \<Rightarrow> view) \<Rightarrow> ('db \<Rightarrow> bool) \<Rightarrow> string list \<Rightarrow> 'db \<Rightarrow>
    reply \<Rightarrow> view \<Rightarrow> bool" where
  "redis_step E V K args db r v \<longleftrightarrow>
     fst (E args db) = r \<and> V (snd (E args db)) = v \<and> K (snd (E args db))"

definition stream_of :: "redis_value option \<Rightarrow> (string \<times> (string \<times> string) list) list" where
  "stream_of x = (case x of Some (RVStream es) \<Rightarrow> es | _ \<Rightarrow> [])"

lemma stream_of_simps [simp]:
  "stream_of None = []" "stream_of (Some (RVString s)) = []" "stream_of (Some (RVStream es)) = es"
  "stream_of (Some (RVHash h)) = []" "stream_of (Some (RVZset z)) = []"
  by (simp_all add: stream_of_def)

definition is_stream :: "redis_value option \<Rightarrow> bool" where
  "is_stream x \<longleftrightarrow> (case x of None \<Rightarrow> True | Some (RVStream es) \<Rightarrow> True | _ \<Rightarrow> False)"

definition flatten_fields :: "(string \<times> string) list \<Rightarrow> string list" where
  "flatten_fields fs = concat (map (\<lambda>(a, b). [a, b]) fs)"

definition entry_reply :: "string \<times> (string \<times> string) list \<Rightarrow> reply" where
  "entry_reply e = RArr [RBulk (fst e), RArr (map RBulk (flatten_fields (snd e)))]"

definition stream_reply :: "(string \<times> (string \<times> string) list) list \<Rightarrow> reply" where
  "stream_reply es = RArr (map entry_reply es)"

subsection \<open>Strings and counters\<close>

definition get_laws :: "'db exec \<Rightarrow> ('db \<Rightarrow> view) \<Rightarrow> ('db \<Rightarrow> bool) \<Rightarrow> bool" where
  "get_laws E V K \<longleftrightarrow>
     (\<forall>db k. K db \<longrightarrow> V db k = None \<longrightarrow> redis_step E V K [''GET'', k] db RNil (V db)) \<and>
     (\<forall>db k s. K db \<longrightarrow> V db k = Some (RVString s) \<longrightarrow>
        redis_step E V K [''GET'', k] db (RBulk s) (V db))"

definition set_laws :: "'db exec \<Rightarrow> ('db \<Rightarrow> view) \<Rightarrow> ('db \<Rightarrow> bool) \<Rightarrow> bool" where
  "set_laws E V K \<longleftrightarrow> (\<forall>db k s. K db \<longrightarrow>
     redis_step E V K [''SET'', k, s] db (RStatus ''OK'') ((V db)(k \<mapsto> RVString s)))"

definition incr_laws :: "'db exec \<Rightarrow> ('db \<Rightarrow> view) \<Rightarrow> ('db \<Rightarrow> bool) \<Rightarrow> bool" where
  "incr_laws E V K \<longleftrightarrow>
     (\<forall>db k. K db \<longrightarrow> V db k = None \<longrightarrow>
        redis_step E V K [''INCR'', k] db (RInt 1) ((V db)(k \<mapsto> RVString (FormatInt 1)))) \<and>
     (\<forall>db k n. K db \<longrightarrow> V db k = Some (RVString (FormatInt n)) \<longrightarrow>
     int64_ok n \<longrightarrow> n < max_int64 \<longrightarrow>
     redis_step E V K [''INCR'', k] db (RInt (n + 1)) ((V db)(k \<mapsto> RVString (FormatInt (n + 1)))))"

subsection \<open>Streams\<close>

text \<open>\<open>XADD key *\<close> appends an entry under a fresh identifier, two 64-bit numbers around a hyphen;
  \<open>0-0\<close> is never one.\<close>

definition xadd_laws :: "'db exec \<Rightarrow> ('db \<Rightarrow> view) \<Rightarrow> ('db \<Rightarrow> bool) \<Rightarrow> bool" where
  "xadd_laws E V K \<longleftrightarrow>
     (\<forall>db k fs. K db \<longrightarrow> is_stream (V db k) \<longrightarrow> length (stream_of (V db k)) < 100000000000000 \<longrightarrow> fs \<noteq> [] \<longrightarrow>
        (\<exists>sid. sid \<notin> insert ''0-0'' (fst ` set (stream_of (V db k))) \<and> length sid \<le> 41 \<and>
           redis_step E V K ([''XADD'', k, ''*''] @ flatten_fields fs) db (RBulk sid)
             ((V db)(k \<mapsto> RVStream (stream_of (V db k) @ [(sid, fs)]))))) \<and>
     (\<forall>db k. K db \<longrightarrow> distinct (''0-0'' # map fst (stream_of (V db k))))"

definition xrevrange_laws :: "'db exec \<Rightarrow> ('db \<Rightarrow> view) \<Rightarrow> ('db \<Rightarrow> bool) \<Rightarrow> bool" where
  "xrevrange_laws E V K \<longleftrightarrow> (\<forall>db k. K db \<longrightarrow> is_stream (V db k) \<longrightarrow>
     redis_step E V K [''XREVRANGE'', k, ''+'', ''-'', ''COUNT'', ''1''] db
       (stream_reply (take 1 (rev (stream_of (V db k))))) (V db))"

text \<open>\<open>XRANGE\<close> up to the entry \<open>e\<close>, from the start or behind an earlier entry \<open>a\<close>.\<close>

definition xrange_laws :: "'db exec \<Rightarrow> ('db \<Rightarrow> view) \<Rightarrow> ('db \<Rightarrow> bool) \<Rightarrow> bool" where
  "xrange_laws E V K \<longleftrightarrow>
     (\<forall>db k pre e post n. K db \<longrightarrow> V db k = Some (RVStream (pre @ [e] @ post)) \<longrightarrow> 0 < n \<longrightarrow> int64_ok (int n) \<longrightarrow>
        redis_step E V K [''XRANGE'', k, ''-'', fst e, ''COUNT'', FormatInt (int n)] db
          (stream_reply (take n (pre @ [e]))) (V db)) \<and>
     (\<forall>db k pre a mid e post n. K db \<longrightarrow>
        V db k = Some (RVStream (pre @ [a] @ mid @ [e] @ post)) \<longrightarrow> 0 < n \<longrightarrow> int64_ok (int n) \<longrightarrow>
        redis_step E V K [''XRANGE'', k, CHR ''('' # fst a, fst e, ''COUNT'', FormatInt (int n)] db
          (stream_reply (take n (mid @ [e]))) (V db))"

text \<open>\<open>XREAD\<close> behind an entry, or behind \<open>0-0\<close>: nil when there is nothing.\<close>

definition xread_reply :: "string \<Rightarrow> (string \<times> (string \<times> string) list) list \<Rightarrow> reply" where
  "xread_reply k es = (if es = [] then RNil else RArr [RArr [RBulk k, stream_reply es]])"

definition xread_laws :: "'db exec \<Rightarrow> ('db \<Rightarrow> view) \<Rightarrow> ('db \<Rightarrow> bool) \<Rightarrow> bool" where
  "xread_laws E V K \<longleftrightarrow>
     (\<forall>db k ms n. K db \<longrightarrow> is_stream (V db k) \<longrightarrow> 0 < n \<longrightarrow> int64_ok (int n) \<longrightarrow>
        redis_step E V K [''XREAD'', ''COUNT'', FormatInt (int n), ''BLOCK'', ms, ''STREAMS'', k, ''0-0''] db
          (xread_reply k (take n (stream_of (V db k)))) (V db)) \<and>
     (\<forall>db k pre a post ms n. K db \<longrightarrow> V db k = Some (RVStream (pre @ [a] @ post)) \<longrightarrow> 0 < n \<longrightarrow> int64_ok (int n) \<longrightarrow>
        redis_step E V K [''XREAD'', ''COUNT'', FormatInt (int n), ''BLOCK'', ms, ''STREAMS'', k, fst a] db
          (xread_reply k (take n post)) (V db))"

definition ping_laws :: "'db exec \<Rightarrow> ('db \<Rightarrow> view) \<Rightarrow> ('db \<Rightarrow> bool) \<Rightarrow> bool" where
  "ping_laws E V K \<longleftrightarrow> (\<forall>db. K db \<longrightarrow> redis_step E V K [''PING''] db (RStatus ''PONG'') (V db))"

definition redis_server :: "'db exec \<Rightarrow> ('db \<Rightarrow> view) \<Rightarrow> ('db \<Rightarrow> bool) \<Rightarrow> bool" where
  "redis_server E V K \<longleftrightarrow> get_laws E V K \<and> set_laws E V K \<and> incr_laws E V K \<and> xadd_laws E V K \<and>
     xrevrange_laws E V K \<and> xrange_laws E V K \<and> xread_laws E V K \<and> ping_laws E V K"

lemmas redis_law_defs = redis_server_def get_laws_def set_laws_def incr_laws_def xadd_laws_def
  xrevrange_laws_def xrange_laws_def xread_laws_def ping_laws_def

subsection \<open>The laws in the form scripts use them\<close>

lemma law_incr_new:
  "redis_server E V K \<Longrightarrow> K db \<Longrightarrow> V db k = None \<Longrightarrow>
   redis_step E V K [''INCR'', k] db (RInt 1) ((V db)(k \<mapsto> RVString (FormatInt 1)))"
  unfolding redis_server_def incr_laws_def by blast

text \<open>A successful \<open>redis.call\<close>: the Lua value, and the state after it.\<close>

definition call_gives :: "'db exec \<Rightarrow> ('db \<Rightarrow> view) \<Rightarrow> ('db \<Rightarrow> bool) \<Rightarrow> string list \<Rightarrow> 'db \<Rightarrow> lua \<Rightarrow>
    view \<Rightarrow> 'db \<Rightarrow> bool" where
  "call_gives E V K args db x v db' \<longleftrightarrow>
     redis_call E args db = (Inr x, db') \<and> V db' = v \<and> K db'"

lemma redis_step_call:
  assumes "redis_step E V K args db r v" "lua_of_reply r = Inr x"
  obtains db' where "call_gives E V K args db x v db'"
  using assms by (cases "E args db") (auto simp: redis_step_def call_gives_def redis_call_def)

lemma redis_step_do:
  assumes "redis_step E V K args db r v"
  obtains db' where "E args db = (r, db')" "V db' = v" "K db'"
  using assms by (cases "E args db") (auto simp: redis_step_def)

lemma call_get:
  assumes "redis_server E V K" "K db" "V db k = Some (RVString s)"
  obtains db' where "call_gives E V K [''GET'', k] db (LStr s) (V db) db'"
  using redis_step_call [of E V K "[''GET'', k]" db "RBulk s" "V db"] assms
  by (auto simp: redis_law_defs)

lemma call_set:
  assumes "redis_server E V K" "K db"
  obtains db' where
    "call_gives E V K [''SET'', k, s] db (LStatus ''OK'') ((V db)(k \<mapsto> RVString s)) db'"
  using redis_step_call [of E V K "[''SET'', k, s]" db "RStatus ''OK''" "(V db)(k \<mapsto> RVString s)"] assms
  by (auto simp: redis_law_defs)

lemma call_incr:
  assumes "redis_server E V K" "K db" "V db k = Some (RVString (FormatInt n))"
    "int64_ok n" "n < max_int64"
  obtains db' where "call_gives E V K [''INCR'', k] db (LNum (to_double (n + 1)))
    ((V db)(k \<mapsto> RVString (FormatInt (n + 1)))) db'"
  using redis_step_call [of E V K "[''INCR'', k]" db "RInt (n + 1)"
      "(V db)(k \<mapsto> RVString (FormatInt (n + 1)))"] assms
  by (auto simp: redis_law_defs)

lemma call_xadd:
  assumes "redis_server E V K" "K db" "is_stream (V db k)"
    "length (stream_of (V db k)) < 100000000000000" "fs \<noteq> []"
  obtains sid db' where "sid \<notin> insert ''0-0'' (fst ` set (stream_of (V db k)))" "length sid \<le> 41"
    "call_gives E V K ([''XADD'', k, ''*''] @ flatten_fields fs) db (LStr sid)
       ((V db)(k \<mapsto> RVStream (stream_of (V db k) @ [(sid, fs)]))) db'"
proof -
  from assms obtain sid where sid: "sid \<notin> insert ''0-0'' (fst ` set (stream_of (V db k)))" "length sid \<le> 41"
    "redis_step E V K ([''XADD'', k, ''*''] @ flatten_fields fs) db (RBulk sid)
       ((V db)(k \<mapsto> RVStream (stream_of (V db k) @ [(sid, fs)])))"
    unfolding redis_server_def xadd_laws_def by blast
  from redis_step_call [OF sid(3)] that [OF sid(1,2)] show thesis by auto
qed

lemma stream_ids_distinct:
  "redis_server E V K \<Longrightarrow> K db \<Longrightarrow> distinct (''0-0'' # map fst (stream_of (V db k)))"
  unfolding redis_server_def xadd_laws_def by blast

text \<open>The laws of the read commands, one by one.\<close>

lemma law_xrevrange:
  "redis_server E V K \<Longrightarrow> K db \<Longrightarrow> is_stream (V db k) \<Longrightarrow> stream_of (V db k) = es \<Longrightarrow>
   redis_step E V K [''XREVRANGE'', k, ''+'', ''-'', ''COUNT'', ''1''] db (stream_reply (take 1 (rev es))) (V db)"
  unfolding redis_server_def xrevrange_laws_def by blast

lemma law_xrange_first:
  "redis_server E V K \<Longrightarrow> K db \<Longrightarrow> V db k = Some (RVStream (pre @ [e] @ post)) \<Longrightarrow> 0 < n \<Longrightarrow> int64_ok (int n) \<Longrightarrow>
   redis_step E V K [''XRANGE'', k, ''-'', fst e, ''COUNT'', FormatInt (int n)] db
     (stream_reply (take n (pre @ [e]))) (V db)"
  unfolding redis_server_def xrange_laws_def by blast

lemma law_xrange_behind:
  "redis_server E V K \<Longrightarrow> K db \<Longrightarrow> V db k = Some (RVStream (pre @ [a] @ mid @ [e] @ post)) \<Longrightarrow> 0 < n \<Longrightarrow> int64_ok (int n) \<Longrightarrow>
   redis_step E V K [''XRANGE'', k, CHR ''('' # fst a, fst e, ''COUNT'', FormatInt (int n)] db
     (stream_reply (take n (mid @ [e]))) (V db)"
  unfolding redis_server_def xrange_laws_def by blast

lemma law_xread_first:
  "redis_server E V K \<Longrightarrow> K db \<Longrightarrow> is_stream (V db k) \<Longrightarrow> stream_of (V db k) = es \<Longrightarrow> 0 < n \<Longrightarrow> int64_ok (int n) \<Longrightarrow>
   redis_step E V K [''XREAD'', ''COUNT'', FormatInt (int n), ''BLOCK'', ms, ''STREAMS'', k, ''0-0''] db
     (xread_reply k (take n es)) (V db)"
  unfolding redis_server_def xread_laws_def by blast

lemma law_xread_behind:
  "redis_server E V K \<Longrightarrow> K db \<Longrightarrow> V db k = Some (RVStream (pre @ [a] @ post)) \<Longrightarrow> 0 < n \<Longrightarrow> int64_ok (int n) \<Longrightarrow>
   redis_step E V K [''XREAD'', ''COUNT'', FormatInt (int n), ''BLOCK'', ms, ''STREAMS'', k, fst a] db
     (xread_reply k (take n post)) (V db)"
  unfolding redis_server_def xread_laws_def by blast

lemma stream_value: "is_stream x \<Longrightarrow> stream_of x = es \<Longrightarrow> es \<noteq> [] \<Longrightarrow> x = Some (RVStream es)"
  by (auto simp: is_stream_def stream_of_def split: option.splits redis_value.splits)

text \<open>A position in a stream, and the page of at most 100 entries behind it.\<close>

definition entry_at :: "(string \<times> (string \<times> string) list) list \<Rightarrow> nat \<Rightarrow> string \<Rightarrow> bool" where
  "entry_at es p sid \<longleftrightarrow> p \<le> length es \<and> sid = (if p = 0 then ''0-0'' else fst (es ! (p - 1)))"

lemma FormatInt_100: "FormatInt (int 100) = ''100''"
  by code_simp

lemma step_xread:
  assumes "redis_server E V K" "K db" "is_stream (V db k)" "stream_of (V db k) = es" "entry_at es p sid"
  shows "redis_step E V K [''XREAD'', ''COUNT'', ''100'', ''BLOCK'', ms, ''STREAMS'', k, sid] db
    (xread_reply k (take 100 (drop p es))) (V db)"
proof (cases "p = 0")
  case True
  then show ?thesis
    using law_xread_first [OF assms(1-4), of 100 ms] assms(5)
    by (simp only: FormatInt_100) (simp add: entry_at_def int64_ok_def)
next
  case False
  then have pl: "p - 1 < length es" using assms(5) by (auto simp: entry_at_def)
  have sp: "es = take (p - 1) es @ [es ! (p - 1)] @ drop p es" using id_take_nth_drop [OF pl] False by simp
  have "V db k = Some (RVStream es)" using assms(3,4) pl by (intro stream_value) auto
  then have "V db k = Some (RVStream (take (p - 1) es @ [es ! (p - 1)] @ drop p es))" using sp by metis
  from law_xread_behind [OF assms(1,2) this, of 100 ms] show ?thesis
    using False assms(5) by (simp only: FormatInt_100) (simp add: entry_at_def int64_ok_def)
qed

subsection \<open>Replies of streams decode\<close>

lemma decode_items_map: "decode_items (map RBulk ss) = Ok (map GStr ss)"
  by (induction ss) simp_all

definition entry_gval :: "string \<times> (string \<times> string) list \<Rightarrow> gval" where
  "entry_gval e = GArr [GStr (fst e), GArr (map GStr (flatten_fields (snd e)))]"

lemma decode_entry [simp]: "decode (entry_reply e) = Ok (entry_gval e)"
  by (simp add: entry_reply_def entry_gval_def decode_items_map)

lemma decode_stream_reply [simp]: "decode (stream_reply es) = Ok (GArr (map entry_gval es))"
proof -
  have "decode_items (map entry_reply es) = Ok (map entry_gval es)"
    by (induction es) simp_all
  then show ?thesis by (simp add: stream_reply_def)
qed

end
