(* ===== verification/Mem_Redis.thy ===== *)
theory Mem_Redis
  imports Redis_Laws
begin

section \<open>A server that has the laws\<close>

text \<open>
  Redis is a parameter of the development. This theory gives one instance of it: an
  in-memory server whose state is the view itself. It shows that the laws of
  \<open>Redis_Laws\<close> can hold together, and it is what the theorems about the store are applied
  to at concrete inputs. Stream identifiers count the entries of their stream.
\<close>

definition entry_id :: "nat \<Rightarrow> string" where
  "entry_id i = fmt_nat i @ ''-0''"

definition behind :: "string \<Rightarrow> (string \<times> 'a) list \<Rightarrow> (string \<times> 'a) list" where
  "behind i es = tl (dropWhile (\<lambda>e. fst e \<noteq> i) es)"

definition through :: "string \<Rightarrow> (string \<times> 'a) list \<Rightarrow> (string \<times> 'a) list" where
  "through i es = take (Suc (length (takeWhile (\<lambda>e. fst e \<noteq> i) es))) es"

fun pair_up :: "string list \<Rightarrow> (string \<times> string) list" where
  "pair_up (a # b # rest) = (a, b) # pair_up rest"
| "pair_up _ = []"

definition count_of :: "string \<Rightarrow> nat" where
  "count_of s = (case parse_int64 s of Inr n \<Rightarrow> nat n | Inl e \<Rightarrow> 0)"

definition mem_exec :: "view exec" where
  "mem_exec args db = (case args of
     [c] \<Rightarrow> if c = ''PING'' then (RStatus ''PONG'', db) else (RErr ''ERR'', db)
   | [c, k] \<Rightarrow> if c = ''GET'' then
         (case db k of None \<Rightarrow> (RNil, db) | Some (RVString s) \<Rightarrow> (RBulk s, db) | _ \<Rightarrow> (RErr ''WRONGTYPE'', db))
       else if c = ''INCR'' then
         (case db k of
            Some (RVString s) \<Rightarrow> (case parse_int64 s of
               Inr n \<Rightarrow> (RInt (n + 1), db(k \<mapsto> RVString (FormatInt (n + 1))))
             | Inl e \<Rightarrow> (RErr ''ERR'', db))
          | None \<Rightarrow> (RInt 1, db(k \<mapsto> RVString (FormatInt 1)))
          | _ \<Rightarrow> (RErr ''ERR'', db))
       else (RErr ''ERR'', db)
   | c # k # a # rest \<Rightarrow>
       if c = ''SET'' then (RStatus ''OK'', db(k \<mapsto> RVString a))
       else if c = ''XADD'' then
         (let es = stream_of (db k); sid = entry_id (Suc (length es)) in
          (RBulk sid, db(k \<mapsto> RVStream (es @ [(sid, pair_up rest)]))))
       else if c = ''XREVRANGE'' then (stream_reply (take 1 (rev (stream_of (db k)))), db)
       else if c = ''XRANGE'' then
         (case rest of
            b # _ # n # _ \<Rightarrow>
              (stream_reply (take (count_of n)
                 (through b (if a = ''-'' then stream_of (db k) else behind (tl a) (stream_of (db k))))), db)
          | _ \<Rightarrow> (RErr ''ERR'', db))
       else if c = ''XREAD'' then
         (case rest of
            _ # _ # _ # key # i # _ \<Rightarrow>
              (xread_reply key (take (count_of a)
                 (if i = ''0-0'' then stream_of (db key) else behind i (stream_of (db key)))), db)
          | _ \<Rightarrow> (RErr ''ERR'', db))
       else (RErr ''ERR'', db)
   | _ \<Rightarrow> (RErr ''ERR'', db))"

definition mem_ok :: "view \<Rightarrow> bool" where
  "mem_ok db \<longleftrightarrow> finite (dom db) \<and> (\<forall>k. map fst (stream_of (db k)) = map entry_id [1..<Suc (length (stream_of (db k)))])"

subsection \<open>Identifiers\<close>

lemma fmt_nat_inject: "fmt_nat m = fmt_nat n \<longleftrightarrow> m = n"
  by (metis option.inject parse_dec_fmt_nat)

lemma entry_id_inject [simp]: "entry_id i = entry_id j \<longleftrightarrow> i = j"
  by (simp add: entry_id_def fmt_nat_inject)

lemma length_fmt_nat: "n < 10 ^ d \<Longrightarrow> 0 < d \<Longrightarrow> length (fmt_nat n) \<le> d"
proof (induction d arbitrary: n)
  case (Suc d)
  show ?case
  proof (cases "n < 10")
    case False
    then have "n div 10 < 10 ^ d" "0 < d"
      using Suc.prems(1) by (auto simp: less_mult_imp_div_less mult.commute intro: Nat.gr0I)
    then have "length (fmt_nat (n div 10)) \<le> d" by (rule Suc.IH)
    then show ?thesis using False by (simp add: fmt_nat.simps [of n])
  qed (simp add: fmt_nat.simps [of n])
qed simp

lemma length_entry_id: "n \<le> 100000000000000 \<Longrightarrow> length (entry_id n) \<le> 41"
  using length_fmt_nat [of n 15] by (simp add: entry_id_def)

lemma entry_id_not_zero: "entry_id (Suc n) \<noteq> ''0-0''"
proof
  assume "entry_id (Suc n) = ''0-0''"
  moreover have "fmt_nat 0 = ''0''" by code_simp
  ultimately have "fmt_nat (Suc n) = fmt_nat 0" by (simp add: entry_id_def)
  then show False by (simp only: fmt_nat_inject)
qed

lemma behind_split: "i \<notin> fst ` set pre \<Longrightarrow> fst a = i \<Longrightarrow> behind i (pre @ a # post) = post"
  by (induction pre) (auto simp: behind_def)

lemma through_split: "i \<notin> fst ` set pre \<Longrightarrow> fst e = i \<Longrightarrow> through i (pre @ e # post) = pre @ [e]"
  by (induction pre) (auto simp: through_def)

lemma pair_up_flatten [simp]: "pair_up (flatten_fields fs) = fs"
  by (induction fs) (auto simp: flatten_fields_def)

lemma count_of_FormatInt: "int64_ok (int n) \<Longrightarrow> count_of (FormatInt (int n)) = n"
  by (simp add: count_of_def)

subsection \<open>The laws hold\<close>

lemma mem_ok_ids: "mem_ok db \<Longrightarrow> map fst (stream_of (db k)) = map entry_id [1..<Suc (length (stream_of (db k)))]"
  by (simp add: mem_ok_def)

lemma mem_ok_distinct: "mem_ok db \<Longrightarrow> distinct (''0-0'' # map fst (stream_of (db k)))"
  using entry_id_not_zero by (auto simp: mem_ok_ids distinct_map inj_on_def Suc_le_eq simp del: upt_Suc)
    (metis Suc_pred)

lemma mem_ok_string [simp]: "mem_ok db \<Longrightarrow> mem_ok (db(k \<mapsto> RVString s))"
  by (simp add: mem_ok_def del: upt_Suc)

lemma mem_ok_append:
  "mem_ok db \<Longrightarrow> mem_ok (db(k \<mapsto> RVStream (stream_of (db k) @ [(entry_id (Suc (length (stream_of (db k)))), fs)])))"
proof -
  assume ok: "mem_ok db"
  have "map entry_id [1..<Suc (Suc n)] = map entry_id [1..<Suc n] @ [entry_id (Suc n)]" for n
    by simp
  then show ?thesis using ok by (simp add: mem_ok_def del: upt_Suc)
qed

lemma mem_string_laws:
  "get_laws mem_exec id mem_ok" "set_laws mem_exec id mem_ok" "ping_laws mem_exec id mem_ok"
  by (simp_all add: get_laws_def set_laws_def ping_laws_def redis_step_def mem_exec_def)

lemma mem_incr_laws: "incr_laws mem_exec id mem_ok"
  by (simp add: incr_laws_def redis_step_def mem_exec_def)

lemma mem_xadd_laws: "xadd_laws mem_exec id mem_ok"
proof -
  have step: "redis_step mem_exec id mem_ok ([''XADD'', k, ''*''] @ flatten_fields fs) db
      (RBulk (entry_id (Suc (length (stream_of (db k))))))
      (db(k \<mapsto> RVStream (stream_of (db k) @ [(entry_id (Suc (length (stream_of (db k)))), fs)])))"
    if "mem_ok db" for db k fs
    using mem_ok_append [OF that] by (simp add: redis_step_def mem_exec_def Let_def)
  have fresh: "entry_id (Suc (length (stream_of (db k)))) \<notin> insert ''0-0'' (fst ` set (stream_of (db k)))"
    if "mem_ok db" for db k
  proof -
    have "fst ` set (stream_of (db k)) = entry_id ` set [1..<Suc (length (stream_of (db k)))]"
      using mem_ok_ids [OF that, of k] by (metis image_set)
    then show ?thesis using entry_id_not_zero by (auto simp del: upt_Suc)
  qed
  show ?thesis
    unfolding xadd_laws_def
  proof (intro conjI allI impI)
    fix db k and fs :: "(string \<times> string) list"
    assume a: "mem_ok db" "length (stream_of (id db k)) < 100000000000000"
    show "\<exists>sid. sid \<notin> insert ''0-0'' (fst ` set (stream_of (id db k))) \<and> length sid \<le> 41 \<and>
      redis_step mem_exec id mem_ok ([''XADD'', k, ''*''] @ flatten_fields fs) db (RBulk sid)
        ((id db)(k \<mapsto> RVStream (stream_of (id db k) @ [(sid, fs)])))"
      by (rule exI [of _ "entry_id (Suc (length (stream_of (db k))))"])
        (use a step [OF a(1), of k fs] fresh [OF a(1), of k] length_entry_id in simp)
  next
    fix db k assume "mem_ok db"
    then show "distinct (''0-0'' # map fst (stream_of (id db k)))" using mem_ok_distinct by simp
  qed
qed

lemma mem_read_facts:
  assumes "mem_ok db" "db k = Some (RVStream (pre @ e # post))"
  shows "fst e \<notin> fst ` set pre" "fst e \<notin> fst ` set post" "fst e \<noteq> ''0-0''"
  using mem_ok_distinct [OF assms(1), of k] assms(2) by (auto simp: stream_of_def)

lemma mem_xrevrange_laws: "xrevrange_laws mem_exec id mem_ok"
  by (simp add: xrevrange_laws_def redis_step_def mem_exec_def)

lemma mem_xrange_laws: "xrange_laws mem_exec id mem_ok"
  unfolding xrange_laws_def
proof (intro conjI allI impI)
  fix db k pre post and n :: nat and e :: "string \<times> (string \<times> string) list"
  assume a: "mem_ok db" "id db k = Some (RVStream (pre @ [e] @ post))" "0 < n" "int64_ok (int n)"
  have "through (fst e) (pre @ e # post) = pre @ [e]"
    by (rule through_split) (use mem_read_facts(1) [OF a(1)] a(2) in auto)
  then show "redis_step mem_exec id mem_ok [''XRANGE'', k, ''-'', fst e, ''COUNT'', FormatInt (int n)] db
      (stream_reply (take n (pre @ [e]))) (id db)"
    using a by (simp add: redis_step_def mem_exec_def stream_of_def count_of_FormatInt)
next
  fix db k pre mid post and n :: nat and a e :: "string \<times> (string \<times> string) list"
  assume h: "mem_ok db" "id db k = Some (RVStream (pre @ [a] @ mid @ [e] @ post))" "0 < n" "int64_ok (int n)"
  have "behind (fst a) (pre @ a # (mid @ e # post)) = mid @ e # post"
    by (rule behind_split) (use mem_read_facts(1) [OF h(1)] h(2) in auto)
  moreover have "through (fst e) (mid @ e # post) = mid @ [e]"
    by (rule through_split) (use mem_read_facts(1) [OF h(1), of k "pre @ a # mid" e post] h(2) in auto)
  ultimately show "redis_step mem_exec id mem_ok [''XRANGE'', k, CHR ''('' # fst a, fst e, ''COUNT'', FormatInt (int n)] db
      (stream_reply (take n (mid @ [e]))) (id db)"
    using h by (simp add: redis_step_def mem_exec_def stream_of_def count_of_FormatInt)
qed

lemma mem_xread_laws: "xread_laws mem_exec id mem_ok"
  unfolding xread_laws_def
proof (intro conjI allI impI)
  fix db k ms and n :: nat
  assume "mem_ok db" "is_stream (id db k)" "0 < n" "int64_ok (int n)"
  then show "redis_step mem_exec id mem_ok
      [''XREAD'', ''COUNT'', FormatInt (int n), ''BLOCK'', ms, ''STREAMS'', k, ''0-0''] db
      (xread_reply k (take n (stream_of (id db k)))) (id db)"
    by (simp add: redis_step_def mem_exec_def count_of_FormatInt)
next
  fix db k pre post ms and n :: nat and a :: "string \<times> (string \<times> string) list"
  assume h: "mem_ok db" "id db k = Some (RVStream (pre @ [a] @ post))" "0 < n" "int64_ok (int n)"
  have "behind (fst a) (pre @ a # post) = post"
    by (rule behind_split) (use mem_read_facts(1) [OF h(1)] h(2) in auto)
  moreover have "fst a \<noteq> ''0-0''" using mem_read_facts(3) [OF h(1)] h(2) by auto
  ultimately show "redis_step mem_exec id mem_ok
      [''XREAD'', ''COUNT'', FormatInt (int n), ''BLOCK'', ms, ''STREAMS'', k, fst a] db
      (xread_reply k (take n post)) (id db)"
    using h by (simp add: redis_step_def mem_exec_def stream_of_def count_of_FormatInt)
qed

lemma mem_redis_server: "redis_server mem_exec id mem_ok"
  by (simp add: redis_server_def mem_string_laws mem_incr_laws mem_xadd_laws mem_xrevrange_laws
      mem_xrange_laws mem_xread_laws)

lemma mem_ok_empty [simp]: "mem_ok (\<lambda>k. None)"
  by (simp add: mem_ok_def stream_of_def)

end
