(* ===== verification/Presence_Scripts.thy ===== *)
theory Presence_Scripts
  imports Lua
begin

section \<open>The presence scripts\<close>

text \<open>
  The five Lua scripts of \<^verbatim>\<open>backend/redis_presence.go\<close>, as the strings that are sent to Redis
  and as programs. Their keys are the hash of participant records, the revision, the stream of
  notifications and the sorted set of lease expiries. Time is the clock of Redis.
\<close>

subsection \<open>The time\<close>

definition presenceNowScript :: string where
  "presenceNowScript = ''
local clock = redis.call('TIME')
local now = tonumber(clock[1]) * 1000 + math.floor(tonumber(clock[2]) / 1000)
''"

definition lua_index :: "lua list \<Rightarrow> nat \<Rightarrow> lua" where
  "lua_index vs i = (if 0 < i \<and> i \<le> length vs then vs ! (i - 1) else LNil)"

text \<open>
  The second line. \<open>clock[2]\<close> is below a million, where \<open>math.floor(x / 1000)\<close> on doubles
  is the quotient.
\<close>

definition clock_ms :: "lua \<Rightarrow> string + lua" where
  "clock_ms clock = (case clock of
     LTable vs \<Rightarrow>
       (case (tonumber (lua_index vs 1), tonumber (lua_index vs 2)) of
          (LNum s, LNum u) \<Rightarrow> Inr (LNum (to_double (to_double (s * 1000) + u div 1000)))
        | _ \<Rightarrow> Inl ''attempt to perform arithmetic on a nil value'')
   | _ \<Rightarrow> Inl ''attempt to index a value that is no table'')"

definition lua_now :: "'db exec \<Rightarrow> ('db, lua) script" where
  "lua_now exec = lua_bind (redis_call exec [''TIME'']) (\<lambda>clock. lua_lift (clock_ms clock))"

subsection \<open>The revision\<close>

text \<open>\<open>tonumber(redis.call('GET', KEYS[2]) or '0')\<close>\<close>

definition lua_revision :: "'db exec \<Rightarrow> string \<Rightarrow> ('db, lua) script" where
  "lua_revision exec k2 = lua_bind (redis_call exec [''GET'', k2]) (\<lambda>v. lua_return (tonumber (lua_or v (LStr ''0''))))"

text \<open>The increment of the revision and its notification, at the end of a change.\<close>

definition lua_notify :: "'db exec \<Rightarrow> string \<Rightarrow> string \<Rightarrow> ('db, lua) script" where
  "lua_notify exec k2 k3 =
     lua_bind (redis_call exec [''INCR'', k2]) (\<lambda>revision.
     lua_bind (redis_call exec [''XADD'', k3, ''*'', ''revision'', tostring revision]) (\<lambda>_.
     lua_return revision))"

subsection \<open>Join and leave\<close>

definition joinPresenceScript :: string where
  "joinPresenceScript = ''
-- livecollab_presence_join
'' @ presenceNowScript @ ''
if redis.call('HSETNX', KEYS[1], ARGV[1], ARGV[2]) == 0 then
 return tonumber(redis.call('GET', KEYS[2]) or '0')
end
redis.call('ZADD', KEYS[4], now + tonumber(ARGV[3]), ARGV[1])
local revision = redis.call('INCR', KEYS[2])
redis.call('XADD', KEYS[3], '*', 'revision', tostring(revision))
return revision
''"

definition join_body :: "'db exec \<Rightarrow> string \<Rightarrow> string \<Rightarrow> string \<Rightarrow> string \<Rightarrow> string \<Rightarrow> string \<Rightarrow> string \<Rightarrow>
    ('db, lua) script" where
  "join_body exec k1 k2 k3 k4 a1 a2 a3 =
     lua_bind (lua_now exec) (\<lambda>now.
     lua_bind (redis_call exec [''HSETNX'', k1, a1, a2]) (\<lambda>fresh.
     if fresh = LNum 0 then lua_revision exec k2
     else
       lua_bind (lua_lift (lua_add now (tonumber (LStr a3)))) (\<lambda>expiry.
       lua_bind (lua_lift (lua_arg expiry)) (\<lambda>score.
       lua_bind (redis_call exec [''ZADD'', k4, score, a1]) (\<lambda>_.
       lua_notify exec k2 k3)))))"

definition lua_join :: "'db lua_script" where
  "lua_join exec keys argv = (case (keys, argv) of
     ([k1, k2, k3, k4], [a1, a2, a3]) \<Rightarrow> run_script (join_body exec k1 k2 k3 k4 a1 a2 a3)
   | _ \<Rightarrow> Pair (RErr ''ERR wrong number of keys or arguments''))"

definition leavePresenceScript :: string where
  "leavePresenceScript = ''
-- livecollab_presence_leave
local removed = redis.call('HDEL', KEYS[1], ARGV[1])
redis.call('ZREM', KEYS[4], ARGV[1])
if removed == 0 then
 return tonumber(redis.call('GET', KEYS[2]) or '0')
end
local revision = redis.call('INCR', KEYS[2])
redis.call('XADD', KEYS[3], '*', 'revision', tostring(revision))
return revision
''"

definition leave_body :: "'db exec \<Rightarrow> string \<Rightarrow> string \<Rightarrow> string \<Rightarrow> string \<Rightarrow> string \<Rightarrow> ('db, lua) script" where
  "leave_body exec k1 k2 k3 k4 a1 =
     lua_bind (redis_call exec [''HDEL'', k1, a1]) (\<lambda>removed.
     lua_bind (redis_call exec [''ZREM'', k4, a1]) (\<lambda>_.
     if removed = LNum 0 then lua_revision exec k2 else lua_notify exec k2 k3))"

definition lua_leave :: "'db lua_script" where
  "lua_leave exec keys argv = (case (keys, argv) of
     ([k1, k2, k3, k4], [a1]) \<Rightarrow> run_script (leave_body exec k1 k2 k3 k4 a1)
   | _ \<Rightarrow> Pair (RErr ''ERR wrong number of keys or arguments''))"

subsection \<open>Renewal\<close>

definition renewPresenceScript :: string where
  "renewPresenceScript = ''
-- livecollab_presence_renew
'' @ presenceNowScript @ ''
local expiry = redis.call('ZSCORE', KEYS[4], ARGV[1])
if redis.call('HEXISTS', KEYS[1], ARGV[1]) == 0 or not expiry or tonumber(expiry) <= now then
 return 0
end
-- Never resurrect a removed/expired membership or shorten an existing lease.
local nextExpiry = now + tonumber(ARGV[2])
if nextExpiry > tonumber(expiry) then
 redis.call('ZADD', KEYS[4], 'XX', nextExpiry, ARGV[1])
end
return 1
''"

text \<open>\<open>not expiry or tonumber(expiry) <= now\<close>\<close>

definition lua_expired :: "lua \<Rightarrow> lua \<Rightarrow> string + bool" where
  "lua_expired expiry now = (if \<not> truthy expiry then Inr True else lua_le (tonumber expiry) now)"

definition renew_body :: "'db exec \<Rightarrow> string \<Rightarrow> string \<Rightarrow> string \<Rightarrow> string \<Rightarrow> string \<Rightarrow> string \<Rightarrow> ('db, lua) script" where
  "renew_body exec k1 k2 k3 k4 a1 a2 =
     lua_bind (lua_now exec) (\<lambda>now.
     lua_bind (redis_call exec [''ZSCORE'', k4, a1]) (\<lambda>expiry.
     lua_bind (redis_call exec [''HEXISTS'', k1, a1]) (\<lambda>there.
     lua_bind (if there = LNum 0 then lua_return True else lua_lift (lua_expired expiry now)) (\<lambda>gone.
     if gone then lua_return (LNum 0)
     else
       lua_bind (lua_lift (lua_add now (tonumber (LStr a2)))) (\<lambda>nextExpiry.
       lua_bind (lua_lift (lua_le nextExpiry (tonumber expiry))) (\<lambda>shorter.
       if shorter then lua_return (LNum 1)
       else
         lua_bind (lua_lift (lua_arg nextExpiry)) (\<lambda>score.
         lua_bind (redis_call exec [''ZADD'', k4, ''XX'', score, a1]) (\<lambda>_.
         lua_return (LNum 1)))))))))"

definition lua_renew :: "'db lua_script" where
  "lua_renew exec keys argv = (case (keys, argv) of
     ([k1, k2, k3, k4], [a1, a2]) \<Rightarrow> run_script (renew_body exec k1 k2 k3 k4 a1 a2)
   | _ \<Rightarrow> Pair (RErr ''ERR wrong number of keys or arguments''))"

subsection \<open>Expiry\<close>

definition prunePresenceBody :: string where
  "prunePresenceBody = presenceNowScript @ ''
local removed = 0
for _, connectionId in ipairs(redis.call('HKEYS', KEYS[1])) do
 local expiry = redis.call('ZSCORE', KEYS[4], connectionId)
 if not expiry or tonumber(expiry) <= now then
  removed = removed + redis.call('HDEL', KEYS[1], connectionId)
  redis.call('ZREM', KEYS[4], connectionId)
 end
end
redis.call('ZREMRANGEBYSCORE', KEYS[4], '-inf', now)
if removed > 0 then
 local revision = redis.call('INCR', KEYS[2])
 redis.call('XADD', KEYS[3], '*', 'revision', tostring(revision))
end
''"

text \<open>The loop over the members of the hash; \<open>ipairs\<close> stops at the first nil.\<close>

fun lua_prune_loop :: "'db exec \<Rightarrow> string \<Rightarrow> string \<Rightarrow> lua \<Rightarrow> lua list \<Rightarrow> lua \<Rightarrow> ('db, lua) script" where
  "lua_prune_loop exec k1 k4 now [] removed = lua_return removed"
| "lua_prune_loop exec k1 k4 now (v # vs) removed =
     (if v = LNil then lua_return removed
      else
        lua_bind (lua_lift (lua_arg v)) (\<lambda>connectionId.
        lua_bind (redis_call exec [''ZSCORE'', k4, connectionId]) (\<lambda>expiry.
        lua_bind (lua_lift (lua_expired expiry now)) (\<lambda>gone.
        if \<not> gone then lua_prune_loop exec k1 k4 now vs removed
        else
          lua_bind (redis_call exec [''HDEL'', k1, connectionId]) (\<lambda>n.
          lua_bind (lua_lift (lua_add removed n)) (\<lambda>removed.
          lua_bind (redis_call exec [''ZREM'', k4, connectionId]) (\<lambda>_.
          lua_prune_loop exec k1 k4 now vs removed)))))))"

definition lua_ipairs :: "lua \<Rightarrow> string + lua list" where
  "lua_ipairs v = (case v of LTable vs \<Rightarrow> Inr vs | _ \<Rightarrow> Inl ''bad argument to ipairs'')"

definition lua_prune_body :: "'db exec \<Rightarrow> string \<Rightarrow> string \<Rightarrow> string \<Rightarrow> string \<Rightarrow> ('db, lua) script" where
  "lua_prune_body exec k1 k2 k3 k4 =
     lua_bind (lua_now exec) (\<lambda>now.
     lua_bind (redis_call exec [''HKEYS'', k1]) (\<lambda>fields.
     lua_bind (lua_lift (lua_ipairs fields)) (\<lambda>ids.
     lua_bind (lua_prune_loop exec k1 k4 now ids (LNum 0)) (\<lambda>removed.
     lua_bind (lua_lift (lua_arg now)) (\<lambda>upto.
     lua_bind (redis_call exec [''ZREMRANGEBYSCORE'', k4, ''-inf'', upto]) (\<lambda>_.
     lua_bind (lua_lift (lua_le removed (LNum 0))) (\<lambda>none.
     if none then lua_return removed
     else lua_bind (lua_notify exec k2 k3) (\<lambda>_. lua_return removed))))))))"

definition prunePresenceScript :: string where
  "prunePresenceScript = ''
-- livecollab_presence_prune
'' @ prunePresenceBody @ ''return removed''"

definition lua_prune :: "'db lua_script" where
  "lua_prune exec keys argv = (case keys of
     [k1, k2, k3, k4] \<Rightarrow> run_script (lua_prune_body exec k1 k2 k3 k4)
   | _ \<Rightarrow> Pair (RErr ''ERR wrong number of keys''))"

definition presenceSnapshotScript :: string where
  "presenceSnapshotScript = ''
-- livecollab_presence_snapshot
'' @ prunePresenceBody @ ''
return {redis.call('GET', KEYS[2]) or '0', redis.call('HVALS', KEYS[1])}
''"

definition snapshot_body :: "'db exec \<Rightarrow> string \<Rightarrow> string \<Rightarrow> string \<Rightarrow> string \<Rightarrow> ('db, lua) script" where
  "snapshot_body exec k1 k2 k3 k4 =
     lua_bind (lua_prune_body exec k1 k2 k3 k4) (\<lambda>_.
     lua_bind (redis_call exec [''GET'', k2]) (\<lambda>revision.
     lua_bind (redis_call exec [''HVALS'', k1]) (\<lambda>vals.
     lua_return (LTable [lua_or revision (LStr ''0''), vals]))))"

definition lua_presence_snapshot :: "'db lua_script" where
  "lua_presence_snapshot exec keys argv = (case keys of
     [k1, k2, k3, k4] \<Rightarrow> run_script (snapshot_body exec k1 k2 k3 k4)
   | _ \<Rightarrow> Pair (RErr ''ERR wrong number of keys''))"

definition presence_scripts :: "(string \<times> 'db lua_script) list" where
  "presence_scripts =
     [(joinPresenceScript, lua_join), (leavePresenceScript, lua_leave), (renewPresenceScript, lua_renew),
      (prunePresenceScript, lua_prune), (presenceSnapshotScript, lua_presence_snapshot)]"

end
