(* ===== verification/Redis_Store.thy ===== *)
theory Redis_Store
  imports Presence_Scripts Wire_Types
begin

section \<open>The document store\<close>

text \<open>
  \<^verbatim>\<open>backend/redis_store.go\<close>: the keys of a room, the two document scripts, and the
  operations of \<open>RedisStore\<close> that read and write the document and its event stream. Each
  operation talks to Redis in one or more calls. Other backends run between the calls: a
  \<open>net\<close> gives, for the \<open>i\<close>-th call of an operation, what others did to Redis before it
  and what the network does to it. The telemetry of \<open>RedisStore.do\<close> is modelled with the
  telemetry component.
\<close>

subsection \<open>Keys\<close>

definition room_prefix :: string where "room_prefix = ''livecollab:room:''"

definition roomExistsKey :: "string \<Rightarrow> string" where
  "roomExistsKey roomID = room_prefix @ roomID @ '':exists''"

definition roomContentKey :: "string \<Rightarrow> string" where
  "roomContentKey roomID = room_prefix @ roomID @ '':content''"

definition roomVersionKey :: "string \<Rightarrow> string" where
  "roomVersionKey roomID = room_prefix @ roomID @ '':version''"

definition roomSequenceKey :: "string \<Rightarrow> string" where
  "roomSequenceKey roomID = room_prefix @ roomID @ '':sequence''"

definition roomStreamKey :: "string \<Rightarrow> string" where
  "roomStreamKey roomID = room_prefix @ roomID @ '':events''"

subsection \<open>Calls\<close>

record 'db net =
  before :: "nat \<Rightarrow> 'db \<Rightarrow> 'db"
  link_of :: "nat \<Rightarrow> link"

definition calm :: "'db net" where
  "calm = \<lparr>before = (\<lambda>i db. db), link_of = (\<lambda>i. LinkUp)\<rparr>"

text \<open>The calls of an operation that starts after \<open>k\<close> calls of the same handler.\<close>

definition after_calls :: "nat \<Rightarrow> 'db net \<Rightarrow> 'db net" where
  "after_calls k net = \<lparr>before = (\<lambda>i. before net (i + k)), link_of = (\<lambda>i. link_of net (i + k))\<rparr>"

text \<open>One call, as in theory \<open>Resp\<close>, with the server's command function in place of bytes.\<close>

definition redis_do :: "'db exec \<Rightarrow> link \<Rightarrow> string list \<Rightarrow> 'db \<Rightarrow> (resp_error, gval) outcome \<times> 'db" where
  "redis_do exec link args db = (case link of
     DialFails e \<Rightarrow> (Err (NetError e), db)
   | WriteFails e \<Rightarrow> (Err (NetError e), db)
   | LinkUp \<Rightarrow> apfst decode (exec args db)
   | ReplyCut n \<Rightarrow> apfst (\<lambda>r. fst (readRESP (take n (encode r)))) (exec args db))"

definition do_at :: "'db exec \<Rightarrow> 'db net \<Rightarrow> nat \<Rightarrow> string list \<Rightarrow> 'db \<Rightarrow> (resp_error, gval) outcome \<times> 'db" where
  "do_at exec net i args db = redis_do exec (link_of net i) args (before net i db)"

datatype store_error =
    CallError resp_error
  | BadNumber conv_error
  | BadField num_error
  | UnexpectedReply gval
  | CursorBeyondBoundary int64 int64
  | ReplayEnded int64 int64
  | ReplayGap int64 int64
  | VisitFailed string

type_synonym 'a store_result = "(store_error, 'a) outcome"

text \<open>Go's \<open>if err != nil { return }\<close> after a call and after a conversion.\<close>

definition call_then :: "(resp_error, gval) outcome \<times> 'db \<Rightarrow>
    (gval \<Rightarrow> 'db \<Rightarrow> 'a store_result \<times> 'db) \<Rightarrow> 'a store_result \<times> 'db" where
  "call_then r f = (case r of
     (Ok v, db) \<Rightarrow> f v db
   | (Err e, db) \<Rightarrow> (Err (CallError e), db)
   | (Panic, db) \<Rightarrow> (Panic, db))"

definition int_then :: "gval \<Rightarrow> (int64 \<Rightarrow> 'a store_result) \<Rightarrow> 'a store_result" where
  "int_then v f = (case redisInt64 v of Inl e \<Rightarrow> Err (BadNumber e) | Inr n \<Rightarrow> f n)"

lemma call_then_simps [simp]:
  "call_then (Ok v, db) f = f v db"
  "call_then (Err e, db) f = (Err (CallError e), db)"
  "call_then (Panic, db) f = (Panic, db)"
  by (simp_all add: call_then_def)

subsection \<open>The scripts\<close>

abbreviation quotes2 :: string where "quotes2 \<equiv> [CHR 39, CHR 39]"

definition createRoomScript :: string where
  "createRoomScript = ''
redis.call('SET', KEYS[1], '1')
redis.call('SET', KEYS[2], '' @ quotes2 @ '')
redis.call('SET', KEYS[3], '0')
redis.call('SET', KEYS[4], '0')
return 1
''"

definition lua_create_room :: "'db lua_script" where
  "lua_create_room exec keys argv = (case keys of
     [k1, k2, k3, k4] \<Rightarrow> run_script (
       lua_bind (redis_call exec [''SET'', k1, ''1'']) (\<lambda>_.
       lua_bind (redis_call exec [''SET'', k2, []]) (\<lambda>_.
       lua_bind (redis_call exec [''SET'', k3, ''0'']) (\<lambda>_.
       lua_bind (redis_call exec [''SET'', k4, ''0'']) (\<lambda>_.
       lua_return (LNum 1))))))
   | _ \<Rightarrow> Pair (RErr ''ERR wrong number of keys''))"

definition applyOperationScript :: string where
  "applyOperationScript = ''
local currentVersion = tonumber(redis.call('GET', KEYS[1]) or '0')
local currentContent = redis.call('GET', KEYS[2]) or '' @ quotes2 @ ''
local currentSequence = tonumber(redis.call('GET', KEYS[3]) or '0')
local baseVersion = tonumber(ARGV[1])
local stale = 0
if baseVersion ~= currentVersion then stale = 1 end
if stale == 1 and ARGV[6] == 'reject' then
  return {0, currentVersion, currentVersion, currentContent, currentSequence, '' @ quotes2 @ '', stale, 'stale_base_version'}
end
local nextVersion = currentVersion + 1
local nextSequence = redis.call('INCR', KEYS[3])
redis.call('SET', KEYS[1], tostring(nextVersion))
redis.call('SET', KEYS[2], ARGV[2])
local streamID = redis.call('XADD', KEYS[4], '*',
  'sequence', tostring(nextSequence),
  'version', tostring(nextVersion),
  'operationId', ARGV[3],
  'clientId', ARGV[4],
  'username', ARGV[5],
  'content', ARGV[2])
return {1, currentVersion, nextVersion, ARGV[2], nextSequence, streamID, stale, '' @ quotes2 @ ''}
''"

definition lua_apply_operation :: "'db lua_script" where
  "lua_apply_operation exec keys argv = (case (keys, argv) of
     ([k1, k2, k3, k4], [a1, a2, a3, a4, a5, a6]) \<Rightarrow> run_script (
       lua_bind (redis_call exec [''GET'', k1]) (\<lambda>v1.
       let currentVersion = tonumber (lua_or v1 (LStr ''0'')) in
       lua_bind (redis_call exec [''GET'', k2]) (\<lambda>v2.
       let currentContent = lua_or v2 (LStr []) in
       lua_bind (redis_call exec [''GET'', k3]) (\<lambda>v3.
       let currentSequence = tonumber (lua_or v3 (LStr ''0''));
           baseVersion = tonumber (LStr a1);
           stale = (if baseVersion \<noteq> currentVersion then 1 else 0) in
       if stale = 1 \<and> a6 = ''reject''
       then lua_return (LTable [LNum 0, currentVersion, currentVersion, currentContent,
              currentSequence, LStr [], LNum stale, LStr ''stale_base_version''])
       else
         lua_bind (lua_lift (lua_add currentVersion (LNum 1))) (\<lambda>nextVersion.
         lua_bind (redis_call exec [''INCR'', k3]) (\<lambda>nextSequence.
         lua_bind (redis_call exec [''SET'', k1, tostring nextVersion]) (\<lambda>_.
         lua_bind (redis_call exec [''SET'', k2, a2]) (\<lambda>_.
         lua_bind (redis_call exec [''XADD'', k4, ''*'',
             ''sequence'', tostring nextSequence,
             ''version'', tostring nextVersion,
             ''operationId'', a3,
             ''clientId'', a4,
             ''username'', a5,
             ''content'', a2]) (\<lambda>streamID.
         lua_return (LTable [LNum 1, currentVersion, nextVersion, LStr a2, nextSequence,
             streamID, LNum stale, LStr []]))))))))))
   | _ \<Rightarrow> Pair (RErr ''ERR wrong number of keys or arguments''))"

definition document_scripts :: "(string \<times> 'db lua_script) list" where
  "document_scripts =
     [(createRoomScript, lua_create_room), (applyOperationScript, lua_apply_operation)] @ presence_scripts"

subsection \<open>Operations of the store\<close>

definition Ping :: "'db exec \<Rightarrow> 'db net \<Rightarrow> 'db \<Rightarrow> unit store_result \<times> 'db" where
  "Ping exec net db = call_then (do_at exec net 0 [''PING''] db) (\<lambda>v db.
     (if redisString v \<noteq> ''PONG'' then Err (UnexpectedReply v) else Ok (), db))"

definition CreateRoom :: "'db exec \<Rightarrow> 'db net \<Rightarrow> string \<Rightarrow> 'db \<Rightarrow> unit store_result \<times> 'db" where
  "CreateRoom exec net roomID db = call_then
     (do_at exec net 0 [''EVAL'', createRoomScript, ''4'', roomExistsKey roomID,
        roomContentKey roomID, roomVersionKey roomID, roomSequenceKey roomID] db)
     (\<lambda>v db. (Ok (), db))"

definition GetSnapshot_store :: "'db exec \<Rightarrow> 'db net \<Rightarrow> string \<Rightarrow> 'db \<Rightarrow>
    RoomSnapshot option store_result \<times> 'db" where
  "GetSnapshot_store exec net roomID db =
     call_then (do_at exec net 0 [''GET'', roomExistsKey roomID] db) (\<lambda>exists db.
     if redisString exists \<noteq> ''1'' then (Ok None, db)
     else
     call_then (do_at exec net 1 [''GET'', roomContentKey roomID] db) (\<lambda>content db.
     call_then (do_at exec net 2 [''GET'', roomVersionKey roomID] db) (\<lambda>versionRaw db.
     call_then (do_at exec net 3 [''GET'', roomSequenceKey roomID] db) (\<lambda>sequenceRaw db.
     (int_then versionRaw (\<lambda>version. int_then sequenceRaw (\<lambda>sequence.
        Ok (Some \<lparr>sContent = redisString content, sVersion = version, sSequence = sequence\<rparr>))), db)))))"

definition ApplyContentUpdate_store :: "'db exec \<Rightarrow> 'db net \<Rightarrow> string \<Rightarrow> string \<Rightarrow> int64 \<Rightarrow>
    StaleWritePolicy \<Rightarrow> string \<Rightarrow> string \<Rightarrow> string \<Rightarrow> 'db \<Rightarrow> ApplyContentResult store_result \<times> 'db" where
  "ApplyContentUpdate_store exec net roomID content baseVersion policy operationID clientID username db =
     call_then
       (do_at exec net 0 [''EVAL'', applyOperationScript, ''4'',
          roomVersionKey roomID, roomContentKey roomID, roomSequenceKey roomID, roomStreamKey roomID,
          FormatInt baseVersion, content, operationID, clientID, username, policy_string policy] db)
       (\<lambda>raw db. (case raw of
          GArr (v0 # v1 # v2 # v3 # v4 # v5 # v6 # v7 # vs) \<Rightarrow>
            int_then v0 (\<lambda>acceptedInt.
            int_then v1 (\<lambda>previousVersion.
            int_then v2 (\<lambda>serverVersion.
            int_then v4 (\<lambda>sequence.
            int_then v6 (\<lambda>staleInt.
              Ok \<lparr>arAccepted = (acceptedInt = 1), arReason = redisString v7,
                  arContent = redisString v3, arBaseVersion = baseVersion,
                  arPreviousVersion = previousVersion, arServerVersion = serverVersion,
                  arSequence = sequence, arStreamID = redisString v5,
                  arStale = (staleInt = 1)\<rparr>)))))
        | _ \<Rightarrow> Err (UnexpectedReply raw), db))"

subsection \<open>Stream entries\<close>

text \<open>The field map of an entry: later fields overwrite earlier ones of the same name.\<close>

fun stream_fields :: "gval list \<Rightarrow> (string \<times> string) list" where
  "stream_fields (k # v # rest) = (redisString k, redisString v) # stream_fields rest"
| "stream_fields _ = []"

definition field :: "(string \<times> string) list \<Rightarrow> string \<Rightarrow> string" where
  "field fs name = (case map_of (rev fs) name of None \<Rightarrow> [] | Some v \<Rightarrow> v)"

definition parse_entry :: "gval \<Rightarrow> DistributedEvent store_result" where
  "parse_entry item = (case item of
     GArr (idv # fv # xs) \<Rightarrow>
      (case fv of
         GArr fieldValues \<Rightarrow>
           if odd (length fieldValues) then Err (UnexpectedReply fv)
           else
            (let fields = stream_fields fieldValues in
             case parse_int64 (field fields ''sequence'') of
               Inl e \<Rightarrow> Err (BadField e)
             | Inr sequence \<Rightarrow>
                (case parse_int64 (field fields ''version'') of
                   Inl e \<Rightarrow> Err (BadField e)
                 | Inr version \<Rightarrow> Ok \<lparr>
                     eStreamID = redisString idv, eSequence = sequence, eVersion = version,
                     eOperationID = field fields ''operationId'',
                     eClientID = field fields ''clientId'',
                     eUsername = field fields ''username'',
                     eContent = field fields ''content''\<rparr>))
       | _ \<Rightarrow> Err (UnexpectedReply fv))
   | _ \<Rightarrow> Err (UnexpectedReply item))"

fun parse_entries :: "gval list \<Rightarrow> DistributedEvent list store_result" where
  "parse_entries [] = Ok []"
| "parse_entries (v # vs) = bind_outcome (parse_entry v)
     (\<lambda>e. bind_outcome (parse_entries vs) (\<lambda>es. Ok (e # es)))"

definition parseStreamEntries :: "gval \<Rightarrow> DistributedEvent list store_result" where
  "parseStreamEntries raw = (case raw of
     GNil \<Rightarrow> Ok []
   | GArr entries \<Rightarrow> parse_entries entries
   | _ \<Rightarrow> Err (UnexpectedReply raw))"

definition ReplayBoundary :: "'db exec \<Rightarrow> 'db net \<Rightarrow> string \<Rightarrow> 'db \<Rightarrow> DistributedEvent store_result \<times> 'db" where
  "ReplayBoundary exec net roomID db = call_then
     (do_at exec net 0 [''XREVRANGE'', roomStreamKey roomID, ''+'', ''-'', ''COUNT'', ''1''] db)
     (\<lambda>raw db. (bind_outcome (parseStreamEntries raw) (\<lambda>events.
        Ok (case events of [] \<Rightarrow> zero_event\<lparr>eStreamID := ''0-0''\<rparr> | e # es \<Rightarrow> e)), db))"

definition LatestStreamID :: "'db exec \<Rightarrow> 'db net \<Rightarrow> string \<Rightarrow> 'db \<Rightarrow> string store_result \<times> 'db" where
  "LatestStreamID exec net roomID db =
     apfst (map_outcome id eStreamID) (ReplayBoundary exec net roomID db)"

definition ReadAfterStreamID :: "'db exec \<Rightarrow> 'db net \<Rightarrow> string \<Rightarrow> string \<Rightarrow> int64 \<Rightarrow> 'db \<Rightarrow>
    DistributedEvent list store_result \<times> 'db" where
  "ReadAfterStreamID exec net roomID lastStreamID blockMs db = call_then
     (do_at exec net 0 [''XREAD'', ''COUNT'', ''100'', ''BLOCK'', FormatInt blockMs, ''STREAMS'',
        roomStreamKey roomID, lastStreamID] db)
     (\<lambda>raw db. (case raw of
          GArr (outer # xs) \<Rightarrow>
            (case outer of
               GArr (key # entries # rest) \<Rightarrow> parseStreamEntries entries
             | _ \<Rightarrow> Err (UnexpectedReply raw))
        | _ \<Rightarrow> Ok [], db))"

end
