(* ===== verification/Occ.thy ===== *)
theory Occ
  imports Wire_Types
begin

section \<open>Interface: a document with optimistic concurrency control\<close>

text \<open>
  A room's document is written in two ways: in the memory of one backend
  (\<open>applyLocalContentUpdate\<close>) and by a script in Redis (\<open>applyOperationScript\<close>). Both
  promise the same: a write based on the current version is accepted and moves version and
  sequence on by one; a stale write is refused with the current state, or, under the
  accept policy, overwrites it. The interface is \<open>occ_document\<close>; the histories of such a
  document are studied once, here.
\<close>

record write_op =
  wContent :: string
  wBase :: int64

text \<open>A run of writes, one after the other, and the result each of them got.\<close>

fun run_writes :: "(write_op \<Rightarrow> 's \<Rightarrow> ApplyContentResult \<times> 's) \<Rightarrow> write_op list \<Rightarrow> 's \<Rightarrow>
    ApplyContentResult list \<times> 's" where
  "run_writes apply [] s = ([], s)"
| "run_writes apply (w # ws) s =
     (let (r, s') = apply w s; (rs, s'') = run_writes apply ws s' in (r # rs, s''))"

text \<open>The writes that were accepted, each with its result.\<close>

definition accepted :: "write_op list \<Rightarrow> ApplyContentResult list \<Rightarrow> (write_op \<times> ApplyContentResult) list" where
  "accepted ws rs = filter (\<lambda>(w, r). arAccepted r) (zip ws rs)"

text \<open>
  A chain of accepted writes from a version: each is based on the version the one before
  it created, so its author had seen the content it replaces.
\<close>

fun write_chain :: "int64 \<Rightarrow> (write_op \<times> ApplyContentResult) list \<Rightarrow> bool" where
  "write_chain v [] = True"
| "write_chain v ((w, r) # wrs) =
     (wBase w = v \<and> arPreviousVersion r = v \<and> arServerVersion r = v + 1 \<and>
      arContent r = wContent w \<and> write_chain (v + 1) wrs)"

definition final_content :: "string \<Rightarrow> (write_op \<times> ApplyContentResult) list \<Rightarrow> string" where
  "final_content c wrs = (if wrs = [] then c else wContent (fst (last wrs)))"

lemma final_content_simps [simp]:
  "final_content c [] = c"
  "final_content c ((w, r) # wrs) = final_content (wContent w) wrs"
  by (simp_all add: final_content_def)

lemma accepted_Nil [simp]: "accepted [] rs = []"
  by (simp add: accepted_def)

lemma accepted_Cons [simp]:
  "accepted (w # ws) (r # rs) = (if arAccepted r then [(w, r)] else []) @ accepted ws rs"
  by (simp add: accepted_def)

text \<open>
  The sequential document: what the results and the state are, as one function of the
  state \<open>(content, version, sequence)\<close>. \<open>sid\<close> is the stream identifier of an accepted
  write; a document without a stream has the empty one.
\<close>

definition occ_accepts :: "StaleWritePolicy \<Rightarrow> int64 \<Rightarrow> int64 \<Rightarrow> bool" where
  "occ_accepts policy base version \<longleftrightarrow> base = version \<or> policy = StaleWriteAccept"

definition occ_result :: "StaleWritePolicy \<Rightarrow> write_op \<Rightarrow> RoomSnapshot \<Rightarrow> string \<Rightarrow> ApplyContentResult" where
  "occ_result policy w s sid =
     (if occ_accepts policy (wBase w) (sVersion s)
      then \<lparr>arAccepted = True, arReason = [], arContent = wContent w, arBaseVersion = wBase w,
            arPreviousVersion = sVersion s, arServerVersion = sVersion s + 1,
            arSequence = sSequence s + 1, arStreamID = sid, arStale = (wBase w \<noteq> sVersion s)\<rparr>
      else \<lparr>arAccepted = False, arReason = ''stale_base_version'', arContent = sContent s,
            arBaseVersion = wBase w, arPreviousVersion = sVersion s, arServerVersion = sVersion s,
            arSequence = sSequence s, arStreamID = [], arStale = True\<rparr>)"

definition occ_next :: "StaleWritePolicy \<Rightarrow> write_op \<Rightarrow> RoomSnapshot \<Rightarrow> RoomSnapshot" where
  "occ_next policy w s =
     (if occ_accepts policy (wBase w) (sVersion s)
      then \<lparr>sContent = wContent w, sVersion = sVersion s + 1, sSequence = sSequence s + 1\<rparr>
      else s)"

text \<open>There is room for \<open>n\<close> more writes below the limit of the counters.\<close>

definition fits :: "int \<Rightarrow> int \<Rightarrow> RoomSnapshot \<Rightarrow> bool" where
  "fits limit n s \<longleftrightarrow> sVersion s + n \<le> limit \<and> sSequence s + n \<le> limit"

lemma fits_mono: "fits limit n s \<Longrightarrow> m \<le> n \<Longrightarrow> fits limit m s"
  by (simp add: fits_def)

lemma fits_next: "fits limit (n + 1) s \<Longrightarrow> 0 \<le> n \<Longrightarrow> fits limit n (occ_next policy w s)"
  by (simp add: fits_def occ_next_def)

locale occ_document =
  fixes apply_write :: "StaleWritePolicy \<Rightarrow> write_op \<Rightarrow> 's \<Rightarrow> ApplyContentResult \<times> 's"
    and snapshot :: "'s \<Rightarrow> RoomSnapshot"
    and sound :: "'s \<Rightarrow> bool"
    and allowed :: "write_op \<Rightarrow> bool"
    and limit :: int64
  assumes sound_apply: "sound s \<Longrightarrow> allowed w \<Longrightarrow> fits limit 1 (snapshot s) \<Longrightarrow>
      sound (snd (apply_write policy w s))"
    and snapshot_apply: "sound s \<Longrightarrow> allowed w \<Longrightarrow> fits limit 1 (snapshot s) \<Longrightarrow>
      snapshot (snd (apply_write policy w s)) = occ_next policy w (snapshot s)"
    and result_apply: "sound s \<Longrightarrow> allowed w \<Longrightarrow> fits limit 1 (snapshot s) \<Longrightarrow>
      \<exists>sid. fst (apply_write policy w s) = occ_result policy w (snapshot s) sid"
begin

text \<open>Under the reject policy no acknowledged write is overwritten unseen.\<close>

lemma run_reject_chain:
  assumes "sound s" "\<forall>w\<in>set ws. allowed w" "fits limit (int (length ws)) (snapshot s)"
    and "run_writes (apply_write StaleWriteReject) ws s = (rs, s')"
  shows "length rs = length ws \<and> sound s' \<and>
    write_chain (sVersion (snapshot s)) (accepted ws rs) \<and>
    sContent (snapshot s') = final_content (sContent (snapshot s)) (accepted ws rs) \<and>
    sVersion (snapshot s') = sVersion (snapshot s) + int (length (accepted ws rs)) \<and>
    sSequence (snapshot s') = sSequence (snapshot s) + int (length (accepted ws rs))"
  using assms
proof (induction ws arbitrary: s rs)
  case Nil
  then show ?case by simp
next
  case (Cons w ws)
  obtain r s1 where r: "apply_write StaleWriteReject w s = (r, s1)" by force
  obtain rs1 where rs1: "run_writes (apply_write StaleWriteReject) ws s1 = (rs1, s')" and rs: "rs = r # rs1"
    using Cons.prems(4) r by (auto split: prod.splits)
  have lim: "fits limit 1 (snapshot s)" and al: "allowed w" and so: "sound s"
    using Cons.prems by (simp_all add: fits_def)
  have s1: "sound s1" using sound_apply [OF so al lim, of StaleWriteReject] r by simp
  have snap1: "snapshot s1 = occ_next StaleWriteReject w (snapshot s)"
    using snapshot_apply [OF so al lim, of StaleWriteReject] r by simp
  obtain sid where res: "r = occ_result StaleWriteReject w (snapshot s) sid"
    using result_apply [OF so al lim, of StaleWriteReject] r by auto
  have lim1: "fits limit (int (length ws)) (snapshot s1)"
    using Cons.prems(3) unfolding snap1 by (intro fits_next) (simp_all add: add.commute)
  have IH: "length rs1 = length ws \<and> sound s' \<and>
    write_chain (sVersion (snapshot s1)) (accepted ws rs1) \<and>
    sContent (snapshot s') = final_content (sContent (snapshot s1)) (accepted ws rs1) \<and>
    sVersion (snapshot s') = sVersion (snapshot s1) + int (length (accepted ws rs1)) \<and>
    sSequence (snapshot s') = sSequence (snapshot s1) + int (length (accepted ws rs1))"
    by (rule Cons.IH [OF s1 _ lim1 rs1]) (use Cons.prems(2) in simp)
  show ?case
    using IH rs by (auto simp: res snap1 occ_next_def occ_result_def occ_accepts_def)
qed

text \<open>Under the accept policy every write is accepted and the last one wins.\<close>

lemma run_accept_all:
  assumes "sound s" "\<forall>w\<in>set ws. allowed w" "fits limit (int (length ws)) (snapshot s)"
    and "run_writes (apply_write StaleWriteAccept) ws s = (rs, s')"
  shows "(\<forall>r\<in>set rs. arAccepted r) \<and>
    sContent (snapshot s') = (if ws = [] then sContent (snapshot s) else wContent (last ws)) \<and>
    sVersion (snapshot s') = sVersion (snapshot s) + int (length ws)"
  using assms
proof (induction ws arbitrary: s rs)
  case Nil
  then show ?case by simp
next
  case (Cons w ws)
  obtain r s1 where r: "apply_write StaleWriteAccept w s = (r, s1)" by force
  obtain rs1 where rs1: "run_writes (apply_write StaleWriteAccept) ws s1 = (rs1, s')" and rs: "rs = r # rs1"
    using Cons.prems(4) r by (auto split: prod.splits)
  have lim: "fits limit 1 (snapshot s)" and al: "allowed w" and so: "sound s"
    using Cons.prems by (simp_all add: fits_def)
  have s1: "sound s1" using sound_apply [OF so al lim, of StaleWriteAccept] r by simp
  have snap1: "snapshot s1 = occ_next StaleWriteAccept w (snapshot s)"
    using snapshot_apply [OF so al lim, of StaleWriteAccept] r by simp
  obtain sid where res: "r = occ_result StaleWriteAccept w (snapshot s) sid"
    using result_apply [OF so al lim, of StaleWriteAccept] r by auto
  have lim1: "fits limit (int (length ws)) (snapshot s1)"
    using Cons.prems(3) unfolding snap1 by (intro fits_next) (simp_all add: add.commute)
  have IH: "(\<forall>r\<in>set rs1. arAccepted r) \<and>
    sContent (snapshot s') = (if ws = [] then sContent (snapshot s1) else wContent (last ws)) \<and>
    sVersion (snapshot s') = sVersion (snapshot s1) + int (length ws)"
    by (rule Cons.IH [OF s1 _ lim1 rs1]) (use Cons.prems(2) in simp)
  then show ?case
    by (auto simp: rs res snap1 occ_next_def occ_result_def occ_accepts_def)
qed

end

end
