(* ===== verification/Redis_Room.thy ===== *)
theory Redis_Room
  imports Redis_Store Redis_Laws Occ
begin

section \<open>A room's document in Redis\<close>

text \<open>
  The contract of \<open>redis_store.go\<close>: under the documented behaviour of Redis, the five
  keys of a room always describe one log of accepted edits. \<open>redis_room\<close> relates the keys
  to the log; the lemmas show what each script and each read does to it and reports of it.
\<close>

subsection \<open>Keys of different rooms and of different kinds differ\<close>

lemmas room_key_defs = roomExistsKey_def roomContentKey_def roomVersionKey_def
  roomSequenceKey_def roomStreamKey_def

definition room_keys :: "string \<Rightarrow> string list" where
  "room_keys rid = [roomExistsKey rid, roomContentKey rid, roomVersionKey rid,
     roomSequenceKey rid, roomStreamKey rid]"

lemma room_key_kinds [simp]:
  "roomExistsKey r \<noteq> roomContentKey r'" "roomContentKey r \<noteq> roomExistsKey r'"
  "roomExistsKey r \<noteq> roomStreamKey r'" "roomStreamKey r \<noteq> roomExistsKey r'"
  "roomVersionKey r \<noteq> roomExistsKey r'" "roomExistsKey r \<noteq> roomVersionKey r'"
  "roomSequenceKey r \<noteq> roomVersionKey r'" "roomVersionKey r \<noteq> roomSequenceKey r'"
  "roomSequenceKey r \<noteq> roomExistsKey r'" "roomExistsKey r \<noteq> roomSequenceKey r'"
  "roomVersionKey r \<noteq> roomContentKey r'" "roomContentKey r \<noteq> roomVersionKey r'"
  "roomVersionKey r \<noteq> roomStreamKey r'" "roomStreamKey r \<noteq> roomVersionKey r'"
  "roomSequenceKey r \<noteq> roomContentKey r'" "roomContentKey r \<noteq> roomSequenceKey r'"
  "roomSequenceKey r \<noteq> roomStreamKey r'" "roomStreamKey r \<noteq> roomSequenceKey r'"
  "roomContentKey r \<noteq> roomStreamKey r'" "roomStreamKey r \<noteq> roomContentKey r'"
  by (simp_all add: room_key_defs)

lemma room_key_inject [simp]:
  "roomExistsKey r = roomExistsKey r' \<longleftrightarrow> r = r'"
  "roomContentKey r = roomContentKey r' \<longleftrightarrow> r = r'"
  "roomVersionKey r = roomVersionKey r' \<longleftrightarrow> r = r'"
  "roomSequenceKey r = roomSequenceKey r' \<longleftrightarrow> r = r'"
  "roomStreamKey r = roomStreamKey r' \<longleftrightarrow> r = r'"
  by (simp_all add: room_key_defs)

lemma room_keys_disjoint: "r \<noteq> r' \<Longrightarrow> set (room_keys r) \<inter> set (room_keys r') = {}"
  by (auto simp: room_keys_def)

subsection \<open>The log of a room\<close>

text \<open>The stream entry that \<open>applyOperationScript\<close> writes for an edit.\<close>

definition event_fields :: "DistributedEvent \<Rightarrow> (string \<times> string) list" where
  "event_fields e =
     [(''sequence'', FormatInt (eSequence e)), (''version'', FormatInt (eVersion e)),
      (''operationId'', eOperationID e), (''clientId'', eClientID e),
      (''username'', eUsername e), (''content'', eContent e)]"

definition entry_of :: "DistributedEvent \<Rightarrow> string \<times> (string \<times> string) list" where
  "entry_of e = (eStreamID e, event_fields e)"

lemma fst_entry_of [simp]: "fst (entry_of e) = eStreamID e"
  by (simp add: entry_of_def)

text \<open>The largest count that \<open>tostring\<close> still prints as plain digits.\<close>

abbreviation log_limit :: int where "log_limit \<equiv> 99999999999999"

definition log_ok :: "DistributedEvent list \<Rightarrow> bool" where
  "log_ok L \<longleftrightarrow> int (length L) \<le> log_limit \<and>
     (\<forall>i<length L. eSequence (L ! i) = int i + 1 \<and> eVersion (L ! i) = int i + 1)"

lemma log_ok_Nil [simp]: "log_ok []"
  by (simp add: log_ok_def)

lemma log_ok_snoc:
  "log_ok (L @ [e]) \<longleftrightarrow> log_ok L \<and> int (length L) < log_limit \<and>
     eSequence e = int (length L) + 1 \<and> eVersion e = int (length L) + 1"
  by (auto simp: log_ok_def nth_append less_Suc_eq)

lemma log_ok_nth:
  assumes "log_ok L" "i < length L"
  shows "eSequence (L ! i) = int i + 1" "eVersion (L ! i) = int i + 1"
  using assms by (simp_all add: log_ok_def)

lemma log_ok_int64: "log_ok L \<Longrightarrow> e \<in> set L \<Longrightarrow> int64_ok (eSequence e) \<and> int64_ok (eVersion e)"
  by (auto simp: in_set_conv_nth log_ok_nth) (auto simp: log_ok_def int64_ok_def)

definition snapshot_of :: "DistributedEvent list \<Rightarrow> RoomSnapshot" where
  "snapshot_of L = \<lparr>sContent = (if L = [] then [] else eContent (last L)),
     sVersion = int (length L), sSequence = int (length L)\<rparr>"

lemma snapshot_of_simps [simp]:
  "sVersion (snapshot_of L) = int (length L)"
  "sSequence (snapshot_of L) = int (length L)"
  "sContent (snapshot_of []) = []"
  "sContent (snapshot_of (L @ [e])) = eContent e"
  by (simp_all add: snapshot_of_def)

definition redis_room :: "view \<Rightarrow> string \<Rightarrow> DistributedEvent list \<Rightarrow> bool" where
  "redis_room v rid L \<longleftrightarrow> log_ok L \<and>
     v (roomExistsKey rid) = Some (RVString ''1'') \<and>
     v (roomContentKey rid) = Some (RVString (sContent (snapshot_of L))) \<and>
     v (roomVersionKey rid) = Some (RVString (FormatInt (int (length L)))) \<and>
     v (roomSequenceKey rid) = Some (RVString (FormatInt (int (length L)))) \<and>
     is_stream (v (roomStreamKey rid)) \<and> stream_of (v (roomStreamKey rid)) = map entry_of L"

text \<open>A view that agrees on the room's keys holds the same room.\<close>

lemma redis_room_frame:
  "(\<And>k. k \<in> set (room_keys rid) \<Longrightarrow> v' k = v k) \<Longrightarrow> redis_room v' rid L = redis_room v rid L"
  by (simp add: redis_room_def room_keys_def)

text \<open>The keys hold one log only.\<close>

lemma FormatInt_length_inject:
  "log_ok L \<Longrightarrow> log_ok L' \<Longrightarrow>
   FormatInt (int (length L)) = FormatInt (int (length L')) \<longleftrightarrow> length L = length L'"
  by (subst FormatInt_inject) (auto simp: log_ok_def int64_ok_def)

lemma event_fields_inject:
  assumes "int64_ok (eSequence e)" "int64_ok (eVersion e)" "int64_ok (eSequence e')" "int64_ok (eVersion e')"
    and "entry_of e = entry_of e'"
  shows "e = e'"
  using assms by (simp add: entry_of_def event_fields_def FormatInt_inject)

lemma redis_room_unique:
  assumes "redis_room v rid L" "redis_room v rid L'"
  shows "L = L'"
proof (rule map_inj_on)
  show "map entry_of L = map entry_of L'"
    using assms by (simp add: redis_room_def)
  show "inj_on entry_of (set L \<union> set L')"
    using assms by (intro inj_onI) (metis UnE event_fields_inject log_ok_int64 redis_room_def)
qed

subsection \<open>Entries parse back to the events they were written from\<close>

lemma entry_gval_event: "entry_gval (entry_of e) = GArr [GStr (eStreamID e),
   GArr [GStr ''sequence'', GStr (FormatInt (eSequence e)), GStr ''version'', GStr (FormatInt (eVersion e)),
     GStr ''operationId'', GStr (eOperationID e), GStr ''clientId'', GStr (eClientID e),
     GStr ''username'', GStr (eUsername e), GStr ''content'', GStr (eContent e)]]"
  by (simp add: entry_gval_def entry_of_def event_fields_def flatten_fields_def)

lemma parse_entry_event:
  assumes "int64_ok (eSequence e)" "int64_ok (eVersion e)"
  shows "parse_entry (entry_gval (entry_of e)) = Ok e"
  using assms by (simp add: entry_gval_event parse_entry_def field_def Let_def)

lemma parse_entries_log:
  "\<forall>e\<in>set es. int64_ok (eSequence e) \<and> int64_ok (eVersion e) \<Longrightarrow>
   parse_entries (map entry_gval (map entry_of es)) = Ok es"
  by (induction es) (simp_all add: parse_entry_event)

lemma parseStreamEntries_log:
  "\<forall>e\<in>set es. int64_ok (eSequence e) \<and> int64_ok (eVersion e) \<Longrightarrow>
   parseStreamEntries (GArr (map entry_gval (map entry_of es))) = Ok es"
  using parse_entries_log [of es] by (simp add: parseStreamEntries_def)

end
