(* ===== verification/Redis_Occ.thy ===== *)
theory Redis_Occ
  imports Redis_Room
begin

section \<open>Writes of the document in Redis\<close>

text \<open>
  \<open>applyOperationScript\<close> and \<open>createRoomScript\<close> on the log of a room, and
  \<open>RedisStore.ApplyContentUpdate\<close>, \<open>CreateRoom\<close> and \<open>GetSnapshot\<close> above them: an accepted
  edit appends exactly one entry and moves version and sequence together, a refused one
  changes nothing, no write touches another room. From this the store is an
  \<open>occ_document\<close>.
\<close>

subsection \<open>Steps of a script\<close>

lemma lua_bind_call:
  "call_gives E V K args db x v db' \<Longrightarrow> lua_bind (redis_call E args) f db = f x db'"
  by (simp add: call_gives_def lua_bind_def)

lemma lua_bind_lift [simp]: "lua_bind (lua_lift (Inr x)) f db = f x db"
  by (simp add: lua_bind_def lua_lift_def)

lemma run_script_step:
  "m db = n db' \<Longrightarrow> run_script m db = run_script n db'"
  by (simp add: run_script_def)

lemma run_script_return [simp]: "run_script (lua_return v) db = (reply_of_lua v, db)"
  by (simp add: run_script_def lua_return_def)

lemma lua_or_simps [simp]:
  "lua_or (LStr s) b = LStr s" "lua_or LFalse b = b" "lua_or LNil b = b" "lua_or (LNum n) b = LNum n"
  by (simp_all add: lua_or_def)

subsection \<open>\<open>createRoomScript\<close>\<close>

definition document_exec :: "'db exec \<Rightarrow> 'db exec" where
  "document_exec E = with_eval document_scripts E"

lemma document_exec_other [simp]:
  "cmd \<noteq> ''EVAL'' \<Longrightarrow> document_exec E (cmd # args) db = E (cmd # args) db"
  by (simp add: document_exec_def with_eval_def split: list.split)

lemma parse_int64_4 [simp]: "parse_int64 ''4'' = Inr 4"
  by (simp add: parse_int64_def ParseInt_def ParseUint_def digit_val_def)

lemma scripts_differ: "createRoomScript \<noteq> applyOperationScript"
  by (simp add: createRoomScript_def applyOperationScript_def)

lemma document_exec_create:
  "document_exec E [''EVAL'', createRoomScript, ''4'', k1, k2, k3, k4] db =
     lua_create_room E [k1, k2, k3, k4] [] db"
  by (simp add: document_exec_def with_eval_def document_scripts_def)

lemma document_exec_apply:
  "document_exec E [''EVAL'', applyOperationScript, ''4'', k1, k2, k3, k4, a1, a2, a3, a4, a5, a6] db =
     lua_apply_operation E [k1, k2, k3, k4] [a1, a2, a3, a4, a5, a6] db"
  using scripts_differ by (auto simp: document_exec_def with_eval_def document_scripts_def)

lemma lua_create_room_runs:
  assumes "redis_server E V K" "K db"
  obtains db' where "lua_create_room E [k1, k2, k3, k4] [] db = (RInt 1, db')" "K db'"
    "V db' = (V db)(k1 \<mapsto> RVString ''1'', k2 \<mapsto> RVString [], k3 \<mapsto> RVString ''0'', k4 \<mapsto> RVString ''0'')"
proof -
  note set_ok = call_set [OF assms(1)]
  obtain d1 where 1: "call_gives E V K [''SET'', k1, ''1''] db (LStatus ''OK'') ((V db)(k1 \<mapsto> RVString ''1'')) d1"
    using set_ok [OF assms(2)] by blast
  then have K1: "K d1" by (simp add: call_gives_def)
  obtain d2 where 2: "call_gives E V K [''SET'', k2, []] d1 (LStatus ''OK'') ((V d1)(k2 \<mapsto> RVString [])) d2"
    using set_ok [OF K1] by blast
  then have K2: "K d2" by (simp add: call_gives_def)
  obtain d3 where 3: "call_gives E V K [''SET'', k3, ''0''] d2 (LStatus ''OK'') ((V d2)(k3 \<mapsto> RVString ''0'')) d3"
    using set_ok [OF K2] by blast
  then have K3: "K d3" by (simp add: call_gives_def)
  obtain d4 where 4: "call_gives E V K [''SET'', k4, ''0''] d3 (LStatus ''OK'') ((V d3)(k4 \<mapsto> RVString ''0'')) d4"
    using set_ok [OF K3] by blast
  show thesis
  proof
    show "lua_create_room E [k1, k2, k3, k4] [] db = (RInt 1, d4)"
      by (simp add: lua_create_room_def run_script_def lua_bind_call [OF 1] lua_bind_call [OF 2]
          lua_bind_call [OF 3] lua_bind_call [OF 4] lua_return_def)
    show "K d4" using 4 by (simp add: call_gives_def)
    show "V d4 = (V db)(k1 \<mapsto> RVString ''1'', k2 \<mapsto> RVString [], k3 \<mapsto> RVString ''0'', k4 \<mapsto> RVString ''0'')"
      using 1 2 3 4 by (simp add: call_gives_def)
  qed
qed

subsection \<open>\<open>applyOperationScript\<close>\<close>

text \<open>The three reads at the start of the script.\<close>

definition apply_rest :: "'db exec \<Rightarrow> string list \<Rightarrow> string list \<Rightarrow> lua \<Rightarrow> lua \<Rightarrow> lua \<Rightarrow> ('db, lua) script" where
  "apply_rest exec keys argv currentVersion currentContent currentSequence = (case (keys, argv) of
     ([k1, k2, k3, k4], [a1, a2, a3, a4, a5, a6]) \<Rightarrow>
      (let baseVersion = tonumber (LStr a1);
           stale = (if baseVersion \<noteq> currentVersion then 1 else 0) in
       if stale = 1 \<and> a6 = ''reject''
       then lua_return (LTable [LNum 0, currentVersion, currentVersion, currentContent,
              currentSequence, LStr [], LNum stale, LStr ''stale_base_version''])
       else
         lua_bind (lua_lift (lua_add currentVersion (LNum 1))) (\<lambda>nextVersion.
         lua_bind (redis_call exec [''INCR'', k3]) (\<lambda>nextSequence.
         lua_bind (redis_call exec [''SET'', k1, tostring nextVersion]) (\<lambda>_.
         lua_bind (redis_call exec [''SET'', k2, a2]) (\<lambda>_.
         lua_bind (redis_call exec [''XADD'', k4, ''*'',
             ''sequence'', tostring nextSequence,
             ''version'', tostring nextVersion,
             ''operationId'', a3,
             ''clientId'', a4,
             ''username'', a5,
             ''content'', a2]) (\<lambda>streamID.
         lua_return (LTable [LNum 1, currentVersion, nextVersion, LStr a2, nextSequence,
             streamID, LNum stale, LStr []])))))))
   | _ \<Rightarrow> lua_return LNil)"

lemma lua_apply_reads:
  assumes "redis_server E V K" "K db"
    and "V db k1 = Some (RVString s1)" "V db k2 = Some (RVString s2)" "V db k3 = Some (RVString s3)"
  obtains db' where "K db'" "V db' = V db"
    "lua_apply_operation E [k1, k2, k3, k4] [a1, a2, a3, a4, a5, a6] db =
       run_script (apply_rest E [k1, k2, k3, k4] [a1, a2, a3, a4, a5, a6]
         (tonumber (LStr s1)) (LStr s2) (tonumber (LStr s3))) db'"
proof -
  note get_ok = call_get [OF assms(1)]
  obtain d1 where 1: "call_gives E V K [''GET'', k1] db (LStr s1) (V db) d1"
    using get_ok [OF assms(2,3)] by blast
  then have K1: "K d1" "V d1 = V db" by (simp_all add: call_gives_def)
  obtain d2 where 2: "call_gives E V K [''GET'', k2] d1 (LStr s2) (V db) d2"
    using get_ok [OF K1(1), of k2 s2] assms(4) K1(2) by auto
  then have K2: "K d2" "V d2 = V db" by (simp_all add: call_gives_def)
  obtain d3 where 3: "call_gives E V K [''GET'', k3] d2 (LStr s3) (V db) d3"
    using get_ok [OF K2(1), of k3 s3] assms(5) K2(2) by auto
  show thesis
  proof
    show "K d3" "V d3 = V db" using 3 by (simp_all add: call_gives_def)
    show "lua_apply_operation E [k1, k2, k3, k4] [a1, a2, a3, a4, a5, a6] db =
       run_script (apply_rest E [k1, k2, k3, k4] [a1, a2, a3, a4, a5, a6]
         (tonumber (LStr s1)) (LStr s2) (tonumber (LStr s3))) d3"
      unfolding lua_apply_operation_def
      by (simp add: Let_def apply_rest_def run_script_def lua_bind_call [OF 1] lua_bind_call [OF 2]
          lua_bind_call [OF 3] del: tonumber.simps)
  qed
qed

text \<open>The refusal changes nothing; the acceptance appends one entry.\<close>

definition script_keys :: "string \<Rightarrow> string list" where
  "script_keys rid = [roomVersionKey rid, roomContentKey rid, roomSequenceKey rid, roomStreamKey rid]"

definition apply_event :: "DistributedEvent list \<Rightarrow> string \<Rightarrow> string \<Rightarrow> string \<Rightarrow> string \<Rightarrow> string \<Rightarrow> DistributedEvent" where
  "apply_event L sid content operationID clientID username =
     \<lparr>eStreamID = sid, eSequence = int (length L) + 1, eVersion = int (length L) + 1,
      eOperationID = operationID, eClientID = clientID, eUsername = username, eContent = content\<rparr>"

definition stale_flag :: "int64 \<Rightarrow> DistributedEvent list \<Rightarrow> int" where
  "stale_flag base L = (if base \<noteq> int (length L) then 1 else 0)"

definition reject_reply :: "DistributedEvent list \<Rightarrow> reply" where
  "reject_reply L = RArr [RInt 0, RInt (int (length L)), RInt (int (length L)),
     RBulk (sContent (snapshot_of L)), RInt (int (length L)), RBulk [], RInt 1, RBulk ''stale_base_version'']"

definition accept_reply :: "DistributedEvent list \<Rightarrow> int64 \<Rightarrow> DistributedEvent \<Rightarrow> reply" where
  "accept_reply L base e = RArr [RInt 1, RInt (int (length L)), RInt (int (length L) + 1),
     RBulk (eContent e), RInt (int (length L) + 1), RBulk (eStreamID e), RInt (stale_flag base L), RBulk []]"

lemma stale_double:
  "0 \<le> n \<Longrightarrow> n \<le> log_limit \<Longrightarrow> (LNum (to_double base) \<noteq> LNum n) = (base \<noteq> n)"
  by (simp add: to_double_eq_small)

lemma redis_room_limit: "redis_room v rid L \<Longrightarrow> int (length L) \<le> log_limit"
  by (simp add: redis_room_def log_ok_def)

lemma version_number:
  "redis_room v rid L \<Longrightarrow> tonumber (LStr (FormatInt (int (length L)))) = LNum (int (length L))"
  using redis_room_limit [of v rid L] by (simp add: to_double_small)

lemma lua_apply_refused:
  assumes "redis_server E V K" "K db" "redis_room (V db) rid L" "base \<noteq> int (length L)"
  obtains db' where "K db'" "V db' = V db"
    "lua_apply_operation E (script_keys rid) [FormatInt base, c, oid, cid, u, ''reject''] db =
       (reject_reply L, db')"
proof -
  from assms(3) have keys: "V db (roomVersionKey rid) = Some (RVString (FormatInt (int (length L))))"
    "V db (roomContentKey rid) = Some (RVString (sContent (snapshot_of L)))"
    "V db (roomSequenceKey rid) = Some (RVString (FormatInt (int (length L))))"
    by (simp_all add: redis_room_def)
  obtain d where d: "K d" "V d = V db"
    "lua_apply_operation E (script_keys rid) [FormatInt base, c, oid, cid, u, ''reject''] db =
       run_script (apply_rest E (script_keys rid) [FormatInt base, c, oid, cid, u, ''reject'']
         (LNum (int (length L))) (LStr (sContent (snapshot_of L))) (LNum (int (length L)))) d"
    using lua_apply_reads [OF assms(1,2) keys] version_number [OF assms(3)]
    unfolding script_keys_def by metis
  show thesis
    by (rule that [OF d(1,2)], unfold d(3))
      (use assms(4) stale_double [of "int (length L)" base] redis_room_limit [OF assms(3)]
       in \<open>simp add: script_keys_def apply_rest_def reject_reply_def\<close>)
qed

lemma stream_after_accept:
  "redis_room v rid L \<Longrightarrow> int (length L) < log_limit \<Longrightarrow>
   redis_room (v(roomSequenceKey rid \<mapsto> RVString (FormatInt (int (length L) + 1)),
       roomVersionKey rid \<mapsto> RVString (FormatInt (int (length L) + 1)),
       roomContentKey rid \<mapsto> RVString c,
       roomStreamKey rid \<mapsto> RVStream (stream_of (v (roomStreamKey rid)) @
          [entry_of (apply_event L sid c oid cid u)]))) rid
     (L @ [apply_event L sid c oid cid u])"
  by (simp add: redis_room_def log_ok_snoc is_stream_def stream_of_def apply_event_def add.commute)

lemma call_gives_view: "call_gives E V K args db x v db' \<Longrightarrow> call_gives E V K args db x (V db') db'"
  by (simp add: call_gives_def)

text \<open>The four commands of an accepted edit, one after the other.\<close>

lemma accept_calls:
  assumes "redis_server E V K" "K d" "redis_room (V d) rid L" "int (length L) < log_limit"
  obtains sid d1 d2 d3 d4 where
    "call_gives E V K [''INCR'', roomSequenceKey rid] d (LNum (int (length L) + 1)) (V d1) d1"
    "call_gives E V K [''SET'', roomVersionKey rid, FormatInt (int (length L) + 1)] d1 (LStatus ''OK'') (V d2) d2"
    "call_gives E V K [''SET'', roomContentKey rid, c] d2 (LStatus ''OK'') (V d3) d3"
    "call_gives E V K [''XADD'', roomStreamKey rid, ''*'', ''sequence'', FormatInt (int (length L) + 1),
      ''version'', FormatInt (int (length L) + 1), ''operationId'', oid, ''clientId'', cid,
      ''username'', u, ''content'', c] d3 (LStr sid) (V d4) d4"
    "sid \<notin> insert ''0-0'' (eStreamID ` set L)" "length sid \<le> 41"
    "V d4 = (V d)(roomSequenceKey rid \<mapsto> RVString (FormatInt (int (length L) + 1)),
       roomVersionKey rid \<mapsto> RVString (FormatInt (int (length L) + 1)), roomContentKey rid \<mapsto> RVString c,
       roomStreamKey rid \<mapsto> RVStream (stream_of (V d (roomStreamKey rid)) @ [entry_of (apply_event L sid c oid cid u)]))"
proof -
  let ?n = "int (length L)"
  let ?vk = "roomVersionKey rid" and ?ck = "roomContentKey rid" and ?sk = "roomSequenceKey rid"
    and ?xk = "roomStreamKey rid"
  let ?fs = "event_fields (apply_event L [] c oid cid u)"
  have keys: "V d ?sk = Some (RVString (FormatInt ?n))" "is_stream (V d ?xk)" "stream_of (V d ?xk) = map entry_of L"
    using assms(3) by (simp_all add: redis_room_def)
  obtain d1 where 1: "call_gives E V K [''INCR'', ?sk] d (LNum (?n + 1))
      ((V d)(?sk \<mapsto> RVString (FormatInt (?n + 1)))) d1"
    using call_incr [OF assms(1,2), of ?sk ?n] keys(1) assms(4) by (auto simp: int64_ok_def to_double_small)
  then have K1: "K d1" by (simp add: call_gives_def)
  obtain d2 where 2: "call_gives E V K [''SET'', ?vk, FormatInt (?n + 1)] d1 (LStatus ''OK'')
      ((V d1)(?vk \<mapsto> RVString (FormatInt (?n + 1)))) d2"
    using call_set [OF assms(1) K1] by blast
  then have K2: "K d2" by (simp add: call_gives_def)
  obtain d3 where 3: "call_gives E V K [''SET'', ?ck, c] d2 (LStatus ''OK'') ((V d2)(?ck \<mapsto> RVString c)) d3"
    using call_set [OF assms(1) K2] by blast
  then have K3: "K d3" by (simp add: call_gives_def)
  have v3: "V d3 = (V d)(?sk \<mapsto> RVString (FormatInt (?n + 1)), ?vk \<mapsto> RVString (FormatInt (?n + 1)),
      ?ck \<mapsto> RVString c)"
    using 1 2 3 by (simp add: call_gives_def)
  then have x3: "V d3 ?xk = V d ?xk" by simp
  obtain sid d4 where sid: "sid \<notin> insert ''0-0'' (fst ` set (stream_of (V d3 ?xk)))" "length sid \<le> 41"
    and 4: "call_gives E V K ([''XADD'', ?xk, ''*''] @ flatten_fields ?fs) d3 (LStr sid)
       ((V d3)(?xk \<mapsto> RVStream (stream_of (V d3 ?xk) @ [(sid, ?fs)]))) d4"
    using call_xadd [OF assms(1) K3, of ?xk ?fs] x3 keys assms(4) by (auto simp: event_fields_def)
  have xadd: "call_gives E V K [''XADD'', ?xk, ''*'', ''sequence'', FormatInt (?n + 1),
      ''version'', FormatInt (?n + 1), ''operationId'', oid, ''clientId'', cid,
      ''username'', u, ''content'', c] d3 (LStr sid) (V d4) d4"
    using call_gives_view [OF 4] by (simp add: event_fields_def flatten_fields_def apply_event_def)
  show thesis
  proof (rule that [OF call_gives_view [OF 1] call_gives_view [OF 2] call_gives_view [OF 3] xadd _ sid(2)])
    show "sid \<notin> insert ''0-0'' (eStreamID ` set L)" using sid(1) x3 keys(3) by (auto simp: image_iff)
    have "(sid, ?fs) = entry_of (apply_event L sid c oid cid u)"
      by (simp add: entry_of_def event_fields_def apply_event_def)
    then show "V d4 = (V d)(?sk \<mapsto> RVString (FormatInt (?n + 1)), ?vk \<mapsto> RVString (FormatInt (?n + 1)),
        ?ck \<mapsto> RVString c, ?xk \<mapsto> RVStream (stream_of (V d ?xk) @ [entry_of (apply_event L sid c oid cid u)]))"
      using 4 x3 v3 by (simp add: call_gives_def)
  qed
qed

lemma lua_apply_accepted:
  assumes "redis_server E V K" "K db" "redis_room (V db) rid L" "int (length L) < log_limit"
    and "pol = ''accept'' \<or> base = int (length L)"
  obtains sid db' where "K db'" "sid \<notin> insert ''0-0'' (eStreamID ` set L)" "length sid \<le> 41"
    "redis_room (V db') rid (L @ [apply_event L sid c oid cid u])"
    "\<And>k. k \<notin> set (script_keys rid) \<Longrightarrow> V db' k = V db k"
    "lua_apply_operation E (script_keys rid) [FormatInt base, c, oid, cid, u, pol] db =
       (accept_reply L base (apply_event L sid c oid cid u), db')"
proof -
  let ?n = "int (length L)"
  from assms(3) have keys: "V db (roomVersionKey rid) = Some (RVString (FormatInt ?n))"
    "V db (roomContentKey rid) = Some (RVString (sContent (snapshot_of L)))"
    "V db (roomSequenceKey rid) = Some (RVString (FormatInt ?n))"
    by (simp_all add: redis_room_def)
  obtain d where d: "K d" "V d = V db"
    "lua_apply_operation E (script_keys rid) [FormatInt base, c, oid, cid, u, pol] db =
       run_script (apply_rest E (script_keys rid) [FormatInt base, c, oid, cid, u, pol]
         (LNum ?n) (LStr (sContent (snapshot_of L))) (LNum ?n)) d"
    using lua_apply_reads [OF assms(1,2) keys] version_number [OF assms(3)]
    unfolding script_keys_def by metis
  have R: "redis_room (V d) rid L" using assms(3) d(2) by simp
  obtain sid d1 d2 d3 d4 where *:
    "call_gives E V K [''INCR'', roomSequenceKey rid] d (LNum (?n + 1)) (V d1) d1"
    "call_gives E V K [''SET'', roomVersionKey rid, FormatInt (?n + 1)] d1 (LStatus ''OK'') (V d2) d2"
    "call_gives E V K [''SET'', roomContentKey rid, c] d2 (LStatus ''OK'') (V d3) d3"
    "call_gives E V K [''XADD'', roomStreamKey rid, ''*'', ''sequence'', FormatInt (?n + 1), ''version'', FormatInt (?n + 1),
       ''operationId'', oid, ''clientId'', cid, ''username'', u, ''content'', c] d3 (LStr sid) (V d4) d4"
    and sid: "sid \<notin> insert ''0-0'' (eStreamID ` set L)" "length sid \<le> 41"
    and v4: "V d4 = (V d)(roomSequenceKey rid \<mapsto> RVString (FormatInt (?n + 1)),
      roomVersionKey rid \<mapsto> RVString (FormatInt (?n + 1)), roomContentKey rid \<mapsto> RVString c,
      roomStreamKey rid \<mapsto> RVStream (stream_of (V d (roomStreamKey rid)) @ [entry_of (apply_event L sid c oid cid u)]))"
    by (rule accept_calls [OF assms(1) d(1) R assms(4)])
  have room: "redis_room (V d4) rid (L @ [apply_event L sid c oid cid u])"
    unfolding v4 by (rule stream_after_accept [OF R assms(4)])
  have acc: "\<not> ((LNum (to_double base) \<noteq> LNum ?n) \<and> pol = ''reject'')"
    using assms(4,5) stale_double [of ?n base] by auto
  have run: "lua_apply_operation E (script_keys rid) [FormatInt base, c, oid, cid, u, pol] db =
       (accept_reply L base (apply_event L sid c oid cid u), d4)"
    unfolding d(3) unfolding script_keys_def apply_rest_def
    using acc stale_double [of ?n base] assms(4)
    by (auto simp: Let_def run_script_def *[THEN lua_bind_call] lua_return_def to_double_small
        accept_reply_def stale_flag_def apply_event_def)
  show thesis
    by (rule that [OF _ sid room _ run]) (use *(4) v4 d(2) in \<open>simp_all add: call_gives_def script_keys_def\<close>)
qed

subsection \<open>The operations of the store\<close>

text \<open>
  What the reply of the script means to the caller, and what it leaves in Redis. \<open>applied\<close>
  is the contract of a write at a log \<open>L\<close>, with the state \<open>db'\<close> after it.
\<close>

definition applied :: "('db \<Rightarrow> view) \<Rightarrow> ('db \<Rightarrow> bool) \<Rightarrow> string \<Rightarrow> DistributedEvent list \<Rightarrow> 'db \<Rightarrow>
    StaleWritePolicy \<Rightarrow> write_op \<Rightarrow> string \<Rightarrow> string \<Rightarrow> string \<Rightarrow> string \<Rightarrow> 'db \<Rightarrow> bool" where
  "applied V K rid L db policy w oid cid u sid db' \<longleftrightarrow> K db' \<and>
     (if occ_accepts policy (wBase w) (int (length L))
      then sid \<notin> insert ''0-0'' (eStreamID ` set L) \<and> length sid \<le> 41 \<and>
        redis_room (V db') rid (L @ [apply_event L sid (wContent w) oid cid u]) \<and>
        (\<forall>k. k \<notin> set (script_keys rid) \<longrightarrow> V db' k = V db k)
      else V db' = V db)"

definition apply_reply :: "DistributedEvent list \<Rightarrow> StaleWritePolicy \<Rightarrow> write_op \<Rightarrow> string \<Rightarrow> reply" where
  "apply_reply L policy w sid =
     (if occ_accepts policy (wBase w) (int (length L))
      then accept_reply L (wBase w) (apply_event L sid (wContent w) [] [] [])
      else reject_reply L)"

definition apply_args :: "string \<Rightarrow> StaleWritePolicy \<Rightarrow> write_op \<Rightarrow> string \<Rightarrow> string \<Rightarrow> string \<Rightarrow> string list" where
  "apply_args rid policy w oid cid u = [''EVAL'', applyOperationScript, ''4''] @ script_keys rid @
     [FormatInt (wBase w), wContent w, oid, cid, u, policy_string policy]"

lemma apply_args_exec:
  assumes "redis_server E V K" "K db" "redis_room (V db) rid L" "int (length L) < log_limit"
  obtains sid db' where
    "document_exec E (apply_args rid policy w oid cid u) db = (apply_reply L policy w sid, db')"
    "applied V K rid L db policy w oid cid u sid db'"
proof (cases "occ_accepts policy (wBase w) (int (length L))")
  case True
  then have p: "policy_string policy = ''accept'' \<or> wBase w = int (length L)"
    by (auto simp: occ_accepts_def)
  show thesis
  proof (rule lua_apply_accepted [OF assms p, of "wContent w" oid cid u])
    fix sid db'
    assume *: "K db'" "sid \<notin> insert ''0-0'' (eStreamID ` set L)" "length sid \<le> 41"
      "redis_room (V db') rid (L @ [apply_event L sid (wContent w) oid cid u])"
      "\<And>k. k \<notin> set (script_keys rid) \<Longrightarrow> V db' k = V db k"
      "lua_apply_operation E (script_keys rid) [FormatInt (wBase w), wContent w, oid, cid, u, policy_string policy] db =
       (accept_reply L (wBase w) (apply_event L sid (wContent w) oid cid u), db')"
    show thesis
    proof (rule that)
      show "applied V K rid L db policy w oid cid u sid db'"
        unfolding applied_def using * True by (auto simp: applied_def)
      show "document_exec E (apply_args rid policy w oid cid u) db = (apply_reply L policy w sid, db')"
        using *(6) True
        by (simp add: apply_args_def apply_reply_def script_keys_def document_exec_apply
            accept_reply_def apply_event_def)
    qed
  qed
next
  case False
  then have p: "policy_string policy = ''reject''" "wBase w \<noteq> int (length L)"
    by (cases policy; auto simp: occ_accepts_def)+
  show thesis
  proof (rule lua_apply_refused [OF assms(1-3) p(2), of "wContent w" oid cid u])
    fix db'
    assume *: "K db'" "V db' = V db"
      "lua_apply_operation E (script_keys rid) [FormatInt (wBase w), wContent w, oid, cid, u, ''reject''] db =
       (reject_reply L, db')"
    show thesis
    proof (rule that)
      show "applied V K rid L db policy w oid cid u [] db'"
        using * False by (simp add: applied_def)
      show "document_exec E (apply_args rid policy w oid cid u) db = (apply_reply L policy w [], db')"
        using *(3) False p(1)
        by (simp add: apply_args_def apply_reply_def script_keys_def document_exec_apply)
    qed
  qed
qed

lemma wf_apply_reply:
  assumes "log_ok L" "int (length L) < log_limit" "length sid \<le> 41"
    and "int (length (wContent w)) < 9223372036854775800" "int (length (sContent (snapshot_of L))) < 9223372036854775800"
  shows "wf_reply (apply_reply L policy w sid)"
  using assms
  by (simp add: apply_reply_def accept_reply_def reject_reply_def apply_event_def stale_flag_def int64_ok_def)

lemma redisInt64_GInt [simp]: "redisInt64 (GInt n) = Inr n"
  by simp

lemma apply_reply_result:
  "decode (apply_reply L policy w sid) = Ok v \<Longrightarrow>
   (case v of
      GArr (v0 # v1 # v2 # v3 # v4 # v5 # v6 # v7 # vs) \<Rightarrow>
        int_then v0 (\<lambda>acceptedInt. int_then v1 (\<lambda>previousVersion. int_then v2 (\<lambda>serverVersion.
        int_then v4 (\<lambda>sequence. int_then v6 (\<lambda>staleInt.
          Ok \<lparr>arAccepted = (acceptedInt = 1), arReason = redisString v7,
              arContent = redisString v3, arBaseVersion = wBase w,
              arPreviousVersion = previousVersion, arServerVersion = serverVersion,
              arSequence = sequence, arStreamID = redisString v5, arStale = (staleInt = 1)\<rparr>)))))
    | _ \<Rightarrow> Err (UnexpectedReply v)) = Ok (occ_result policy w (snapshot_of L) sid)"
  by (auto simp: apply_reply_def accept_reply_def reject_reply_def occ_result_def occ_accepts_def
      apply_event_def stale_flag_def int_then_def)

lemma apply_reply_decodes: "\<exists>v. decode (apply_reply L policy w sid) = Ok v"
  by (simp add: apply_reply_def accept_reply_def reject_reply_def)

text \<open>The link the operation's only call goes over, and the state it reaches Redis in.\<close>

lemma store_apply_eq:
  "ApplyContentUpdate_store (document_exec E) net rid (wContent w) (wBase w) policy oid cid u db =
   call_then (redis_do (document_exec E) (link_of net 0) (apply_args rid policy w oid cid u) (before net 0 db))
     (\<lambda>raw db. (case raw of
          GArr (v0 # v1 # v2 # v3 # v4 # v5 # v6 # v7 # vs) \<Rightarrow>
            int_then v0 (\<lambda>acceptedInt. int_then v1 (\<lambda>previousVersion. int_then v2 (\<lambda>serverVersion.
            int_then v4 (\<lambda>sequence. int_then v6 (\<lambda>staleInt.
              Ok \<lparr>arAccepted = (acceptedInt = 1), arReason = redisString v7,
                  arContent = redisString v3, arBaseVersion = wBase w,
                  arPreviousVersion = previousVersion, arServerVersion = serverVersion,
                  arSequence = sequence, arStreamID = redisString v5, arStale = (staleInt = 1)\<rparr>)))))
        | _ \<Rightarrow> Err (UnexpectedReply raw), db))"
  by (simp add: ApplyContentUpdate_store_def do_at_def apply_args_def script_keys_def)

lemma store_apply_linkup:
  assumes "redis_server E V K" "K (before net 0 db)" "redis_room (V (before net 0 db)) rid L"
    "int (length L) < log_limit" "link_of net 0 = LinkUp"
  obtains sid db' where
    "ApplyContentUpdate_store (document_exec E) net rid (wContent w) (wBase w) policy oid cid u db =
       (Ok (occ_result policy w (snapshot_of L) sid), db')"
    "applied V K rid L (before net 0 db) policy w oid cid u sid db'"
proof (rule apply_args_exec [OF assms(1-4), of policy w oid cid u])
  fix sid db'
  assume *: "document_exec E (apply_args rid policy w oid cid u) (before net 0 db) = (apply_reply L policy w sid, db')"
    "applied V K rid L (before net 0 db) policy w oid cid u sid db'"
  obtain v where v: "decode (apply_reply L policy w sid) = Ok v" using apply_reply_decodes by blast
  show thesis
    by (rule that [OF _ *(2)])
      (use *(1) v apply_reply_result [OF v] assms(5) in \<open>simp add: store_apply_eq redis_do_def\<close>)
qed

text \<open>A reply that is cut short is an error at the caller; the write is in Redis all the same.\<close>

lemma encode_apply_reply_length: "8 < length (encode (apply_reply L policy w sid))"
  by (simp add: apply_reply_def accept_reply_def reject_reply_def)

lemma store_apply_cut:
  assumes "redis_server E V K" "K (before net 0 db)" "redis_room (V (before net 0 db)) rid L"
    "int (length L) < log_limit" "link_of net 0 = ReplyCut n"
    and "int (length (wContent w)) < 9223372036854775800" "int (length (sContent (snapshot_of L))) < 9223372036854775800"
  obtains sid r db' where
    "ApplyContentUpdate_store (document_exec E) net rid (wContent w) (wBase w) policy oid cid u db = (r, db')"
    "applied V K rid L (before net 0 db) policy w oid cid u sid db'"
    "is_Err r \<or> (8 < n \<and> r = Ok (occ_result policy w (snapshot_of L) sid))"
proof (rule apply_args_exec [OF assms(1-4), of policy w oid cid u])
  fix sid db'
  let ?r = "apply_reply L policy w sid"
  assume *: "document_exec E (apply_args rid policy w oid cid u) (before net 0 db) = (?r, db')"
    "applied V K rid L (before net 0 db) policy w oid cid u sid db'"
  have L: "log_ok L" using assms(3) by (simp add: redis_room_def)
  have wf: "wf_reply (apply_reply L policy w s)" if "length s \<le> 41" for s
    by (rule wf_apply_reply) (use L assms that in auto)
  have sid: "\<exists>s. length s \<le> 41 \<and> apply_reply L policy w sid = apply_reply L policy w s"
  proof (cases "occ_accepts policy (wBase w) (int (length L))")
    case True
    with *(2) show ?thesis by (auto simp: applied_def)
  next
    case False
    then show ?thesis by (intro exI [of _ "[]"]) (simp add: apply_reply_def)
  qed
  then have wfr: "wf_reply ?r" using wf by metis
  obtain v where v: "decode ?r = Ok v" using apply_reply_decodes by blast
  show thesis
  proof (cases "n < length (encode ?r)")
    case True
    then obtain e where e: "fst (readRESP (take n (encode ?r))) = Err e"
      using readRESP_encode_take(1) [OF wfr True] by (cases "fst (readRESP (take n (encode ?r)))") (auto simp: is_Err_def)
    show thesis
      by (rule that [OF _ *(2), of "Err (CallError e)"])
        (use *(1) e assms(5) in \<open>simp_all add: store_apply_eq redis_do_def\<close>)
  next
    case False
    then have all: "take n (encode ?r) = encode ?r" by simp
    show thesis
      by (rule that [OF _ *(2), of "Ok (occ_result policy w (snapshot_of L) sid)"])
        (use *(1) v apply_reply_result [OF v] assms(5) readRESP_encode [OF wfr] False
           encode_apply_reply_length [of L policy w sid]
         in \<open>simp_all add: store_apply_eq redis_do_def all\<close>)
  qed
qed

lemma store_apply_no_link:
  assumes "link_of net 0 = DialFails e \<or> link_of net 0 = WriteFails e"
  shows "ApplyContentUpdate_store exec net rid c base policy oid cid u db =
    (Err (CallError (NetError e)), before net 0 db)"
  using assms by (auto simp: ApplyContentUpdate_store_def do_at_def redis_do_def)

subsection \<open>The store as an \<open>occ_document\<close>\<close>

text \<open>
  One room, written over a link that stays up and with no other writer between the calls
  of an operation. Each write carries the operation, client and user name that \<open>oid\<close>,
  \<open>cid\<close> and \<open>u\<close> give it.
\<close>

lemma calm_simps [simp]: "before calm i db = db" "link_of calm i = LinkUp"
  by (simp_all add: calm_def)

definition store_write :: "'db exec \<Rightarrow> string \<Rightarrow> (write_op \<Rightarrow> string) \<Rightarrow> (write_op \<Rightarrow> string) \<Rightarrow>
    (write_op \<Rightarrow> string) \<Rightarrow> StaleWritePolicy \<Rightarrow> write_op \<Rightarrow> 'db \<Rightarrow>
    ApplyContentResult store_result \<times> 'db" where
  "store_write E rid oid cid u policy w db = ApplyContentUpdate_store (document_exec E) calm rid
     (wContent w) (wBase w) policy (oid w) (cid w) (u w) db"

text \<open>The log in a view, read from the stream as the backend parses it.\<close>

definition log_in :: "view \<Rightarrow> string \<Rightarrow> DistributedEvent list" where
  "log_in v rid = (case parse_entries (map entry_gval (stream_of (v (roomStreamKey rid)))) of
     Ok es \<Rightarrow> es | _ \<Rightarrow> [])"

lemma log_in_room: "redis_room v rid L \<Longrightarrow> log_in v rid = L"
proof -
  assume R: "redis_room v rid L"
  then have "parse_entries (map entry_gval (map entry_of L)) = Ok L"
    by (intro parse_entries_log) (auto simp: redis_room_def log_ok_int64)
  with R show ?thesis by (simp add: log_in_def redis_room_def)
qed

definition room_snapshot_in :: "view \<Rightarrow> string \<Rightarrow> RoomSnapshot" where
  "room_snapshot_in v rid = snapshot_of (log_in v rid)"

definition room_in :: "('db \<Rightarrow> view) \<Rightarrow> ('db \<Rightarrow> bool) \<Rightarrow> string \<Rightarrow> 'db \<Rightarrow> bool" where
  "room_in V K rid db \<longleftrightarrow> K db \<and> redis_room (V db) rid (log_in (V db) rid)"

lemma room_in_iff: "room_in V K rid db \<longleftrightarrow> K db \<and> (\<exists>L. redis_room (V db) rid L)"
  using log_in_room by (auto simp: room_in_def)

definition ok_of :: "'a store_result \<Rightarrow> 'a" where
  "ok_of r = (case r of Ok a \<Rightarrow> a | _ \<Rightarrow> undefined)"

lemma occ_result_snapshot [simp]:
  "occ_accepts policy b (sVersion (snapshot_of L)) = occ_accepts policy b (int (length L))"
  by simp

lemma store_write_next:
  assumes "redis_server E V K" "K db" "redis_room (V db) rid L" "int (length L) < log_limit"
  obtains sid db' where
    "store_write E rid oid cid u policy w db = (Ok (occ_result policy w (snapshot_of L) sid), db')"
    "K db'" "\<exists>L'. redis_room (V db') rid L' \<and> snapshot_of L' = occ_next policy w (snapshot_of L)"
proof -
  obtain sid db' where 1:
    "ApplyContentUpdate_store (document_exec E) calm rid (wContent w) (wBase w) policy (oid w) (cid w) (u w) db =
       (Ok (occ_result policy w (snapshot_of L) sid), db')"
    "applied V K rid L (before calm 0 db) policy w (oid w) (cid w) (u w) sid db'"
    by (rule store_apply_linkup [of E V K calm db rid L w policy "oid w" "cid w" "u w"]) (use assms in simp_all)
  have "K db'" using 1(2) by (simp add: applied_def)
  moreover have "\<exists>L'. redis_room (V db') rid L' \<and> snapshot_of L' = occ_next policy w (snapshot_of L)"
  proof (cases "occ_accepts policy (wBase w) (int (length L))")
    case True
    with 1(2) have "redis_room (V db') rid (L @ [apply_event L sid (wContent w) (oid w) (cid w) (u w)])"
      by (simp add: applied_def)
    moreover have "snapshot_of (L @ [apply_event L sid (wContent w) (oid w) (cid w) (u w)]) = occ_next policy w (snapshot_of L)"
      using True by (simp add: snapshot_of_def occ_next_def apply_event_def)
    ultimately show ?thesis by blast
  next
    case False
    with 1(2) assms(3) show ?thesis by (auto simp: applied_def occ_next_def)
  qed
  ultimately show thesis using that 1(1) unfolding store_write_def by blast
qed

lemma store_is_occ_document:
  assumes "redis_server E V K"
  shows "occ_document (\<lambda>policy w db. apfst ok_of (store_write E rid oid cid u policy w db))
     (\<lambda>db. room_snapshot_in (V db) rid) (room_in V K rid) (\<lambda>w. True) log_limit"
proof -
  have step: "\<exists>sid. store_write E rid oid cid u policy w db =
        (Ok (occ_result policy w (room_snapshot_in (V db) rid) sid), snd (store_write E rid oid cid u policy w db)) \<and>
      room_in V K rid (snd (store_write E rid oid cid u policy w db)) \<and>
      room_snapshot_in (V (snd (store_write E rid oid cid u policy w db))) rid =
        occ_next policy w (room_snapshot_in (V db) rid)"
    if "room_in V K rid db" "fits log_limit 1 (room_snapshot_in (V db) rid)" for policy w db
  proof -
    have K: "K db" and R: "redis_room (V db) rid (log_in (V db) rid)" using that(1) by (simp_all add: room_in_def)
    have lim: "int (length (log_in (V db) rid)) < log_limit" using that(2) by (simp add: fits_def room_snapshot_in_def)
    from store_write_next [OF assms K R lim, of oid cid u policy w] obtain sid db' L' where
      "store_write E rid oid cid u policy w db = (Ok (occ_result policy w (snapshot_of (log_in (V db) rid)) sid), db')"
      "K db'" "redis_room (V db') rid L'" "snapshot_of L' = occ_next policy w (snapshot_of (log_in (V db) rid))"
      by metis
    then show ?thesis by (auto simp: room_snapshot_in_def room_in_def log_in_room)
  qed
  show ?thesis
  proof
    fix db policy and w :: write_op
    assume a: "room_in V K rid db" "fits log_limit 1 (room_snapshot_in (V db) rid)"
    obtain sid where sid: "store_write E rid oid cid u policy w db =
        (Ok (occ_result policy w (room_snapshot_in (V db) rid) sid), snd (store_write E rid oid cid u policy w db))"
      and rest: "room_in V K rid (snd (store_write E rid oid cid u policy w db))"
        "room_snapshot_in (V (snd (store_write E rid oid cid u policy w db))) rid =
          occ_next policy w (room_snapshot_in (V db) rid)"
      using step [OF a, of policy w] by blast
    from rest show "room_in V K rid (snd (apfst ok_of (store_write E rid oid cid u policy w db)))"
      "room_snapshot_in (V (snd (apfst ok_of (store_write E rid oid cid u policy w db)))) rid =
         occ_next policy w (room_snapshot_in (V db) rid)"
      by simp_all
    have "fst (store_write E rid oid cid u policy w db) = Ok (occ_result policy w (room_snapshot_in (V db) rid) sid)"
      by (subst sid) simp
    then show "\<exists>sid. fst (apfst ok_of (store_write E rid oid cid u policy w db)) =
         occ_result policy w (room_snapshot_in (V db) rid) sid"
      by (intro exI [of _ sid]) (simp add: ok_of_def)
  qed
qed

end
