(* ===== verification/Redis_Reads.thy ===== *)
theory Redis_Reads
  imports Redis_Occ "HOL-Library.Sublist"
begin

section \<open>Creating a room, and reading it, while others write\<close>

text \<open>
  \<open>RedisStore.CreateRoom\<close>, \<open>GetSnapshot\<close> and \<open>ReplayBoundary\<close> on the log of a room.
  Other backends may append to the log before any call: \<open>appending\<close>.
\<close>

definition appending :: "('db \<Rightarrow> view) \<Rightarrow> ('db \<Rightarrow> bool) \<Rightarrow> string \<Rightarrow> 'db net \<Rightarrow> bool" where
  "appending V K rid net \<longleftrightarrow> (\<forall>i db L. K db \<longrightarrow> redis_room (V db) rid L \<longrightarrow>
     K (before net i db) \<and> (\<exists>es. redis_room (V (before net i db)) rid (L @ es)))"

definition links_up :: "'db net \<Rightarrow> bool" where
  "links_up net \<longleftrightarrow> (\<forall>i. link_of net i = LinkUp)"

lemma calm_appending [simp]: "appending V K rid calm" "links_up calm"
  by (auto simp: appending_def links_up_def intro: exI [of _ "[]"])

lemma after_calls_facts:
  "links_up net \<Longrightarrow> links_up (after_calls k net)"
  "appending V K rid net \<Longrightarrow> appending V K rid (after_calls k net)"
  by (auto simp: links_up_def appending_def after_calls_def)

lemma appendingE:
  assumes "appending V K rid net" "K db" "redis_room (V db) rid L"
  obtains es where "K (before net i db)" "redis_room (V (before net i db)) rid (L @ es)"
  using assms unfolding appending_def by blast

lemma do_at_up: "links_up net \<Longrightarrow> do_at exec net i args db = apfst decode (exec args (before net i db))"
  by (simp add: links_up_def do_at_def redis_do_def)

text \<open>One \<open>GET\<close> over a link that is up.\<close>

lemma do_get:
  assumes "redis_server E V K" "links_up net" "K (before net i db)"
    and "V (before net i db) k = Some (RVString s)"
  obtains db' where "do_at (document_exec E) net i [''GET'', k] db = (Ok (GStr s), db')"
    "K db'" "V db' = V (before net i db)"
proof -
  have "redis_step E V K [''GET'', k] (before net i db) (RBulk s) (V (before net i db))"
    using assms by (simp add: redis_law_defs)
  then obtain db' where "E [''GET'', k] (before net i db) = (RBulk s, db')" "V db' = V (before net i db)" "K db'"
    by (rule redis_step_do)
  then show thesis using that by (simp add: do_at_up [OF assms(2)])
qed

text \<open>
  \<open>GetSnapshot\<close> reads content, version and sequence in calls of their own: each is right
  for the log at its own call, and the three logs extend one another.
\<close>

lemma GetSnapshot_reads:
  assumes S: "redis_server E V K" and up: "links_up net" and app: "appending V K rid net"
    and K: "K db" and R: "redis_room (V db) rid L"
  obtains L1 L2 L3 db' where "prefix L L1" "prefix L1 L2" "prefix L2 L3"
    "GetSnapshot_store (document_exec E) net rid db =
       (Ok (Some \<lparr>sContent = sContent (snapshot_of L1), sVersion = int (length L2),
          sSequence = int (length L3)\<rparr>), db')"
    "K db'" "redis_room (V db') rid L3"
proof -
  obtain e0 where K0: "K (before net 0 db)" and R0: "redis_room (V (before net 0 db)) rid (L @ e0)"
    using appendingE [OF app K R] by blast
  obtain d0 where 0: "do_at (document_exec E) net 0 [''GET'', roomExistsKey rid] db = (Ok (GStr ''1''), d0)"
      "K d0" "V d0 = V (before net 0 db)"
    using do_get [OF S up K0] R0 by (auto simp: redis_room_def)
  obtain e1 where K1: "K (before net 1 d0)" and R1: "redis_room (V (before net 1 d0)) rid ((L @ e0) @ e1)"
    using appendingE [OF app 0(2), of "L @ e0"] R0 0(3) by auto
  define L1 where "L1 = (L @ e0) @ e1"
  obtain d1 where 1: "do_at (document_exec E) net 1 [''GET'', roomContentKey rid] d0 =
      (Ok (GStr (sContent (snapshot_of L1))), d1)" "K d1" "V d1 = V (before net 1 d0)"
    using do_get [OF S up K1] R1 by (auto simp: redis_room_def L1_def)
  obtain e2 where K2: "K (before net 2 d1)" and R2: "redis_room (V (before net 2 d1)) rid (L1 @ e2)"
    using appendingE [OF app 1(2), of L1] R1 1(3) by (auto simp: L1_def)
  obtain d2 where 2: "do_at (document_exec E) net 2 [''GET'', roomVersionKey rid] d1 =
      (Ok (GStr (FormatInt (int (length (L1 @ e2))))), d2)" "K d2" "V d2 = V (before net 2 d1)"
    using do_get [OF S up K2] R2 by (auto simp: redis_room_def)
  obtain e3 where K3: "K (before net 3 d2)" and R3: "redis_room (V (before net 3 d2)) rid ((L1 @ e2) @ e3)"
    using appendingE [OF app 2(2), of "L1 @ e2"] R2 2(3) by auto
  obtain d3 where 3: "do_at (document_exec E) net 3 [''GET'', roomSequenceKey rid] d2 =
      (Ok (GStr (FormatInt (int (length ((L1 @ e2) @ e3))))), d3)" "K d3" "V d3 = V (before net 3 d2)"
    using do_get [OF S up K3] R3 by (auto simp: redis_room_def)
  have ok: "int64_ok (int (length (L1 @ e2)))" "int64_ok (int (length ((L1 @ e2) @ e3)))"
    using R3 by (auto simp: redis_room_def log_ok_def int64_ok_def)
  show thesis
  proof
    show "prefix L L1" "prefix L1 (L1 @ e2)" "prefix (L1 @ e2) ((L1 @ e2) @ e3)"
      by (simp_all add: L1_def)
    show "GetSnapshot_store (document_exec E) net rid db =
       (Ok (Some \<lparr>sContent = sContent (snapshot_of L1), sVersion = int (length (L1 @ e2)),
          sSequence = int (length ((L1 @ e2) @ e3))\<rparr>), d3)"
      using 0(1) 1(1) 2(1) 3(1) ok by (simp add: GetSnapshot_store_def int_then_def)
    show "K d3" "redis_room (V d3) rid ((L1 @ e2) @ e3)" using 3 R3 by simp_all
  qed
qed

lemma GetSnapshot_calm:
  assumes S: "redis_server E V K" and K: "K db" and R: "redis_room (V db) rid L"
  obtains db' where "GetSnapshot_store (document_exec E) calm rid db = (Ok (Some (snapshot_of L)), db')"
    "K db'" "V db' = V db"
proof -
  have up: "links_up calm" by simp
  from R have keys: "V db (roomExistsKey rid) = Some (RVString ''1'')"
    "V db (roomContentKey rid) = Some (RVString (sContent (snapshot_of L)))"
    "V db (roomVersionKey rid) = Some (RVString (FormatInt (int (length L))))"
    "V db (roomSequenceKey rid) = Some (RVString (FormatInt (int (length L))))"
    and ok: "int64_ok (int (length L))"
    by (auto simp: redis_room_def log_ok_def int64_ok_def)
  note get = do_get [OF S up, simplified]
  obtain d0 where 0: "do_at (document_exec E) calm 0 [''GET'', roomExistsKey rid] db = (Ok (GStr ''1''), d0)"
    "K d0" "V d0 = V db" using get [OF K keys(1)] by blast
  obtain d1 where 1: "do_at (document_exec E) calm 1 [''GET'', roomContentKey rid] d0 =
      (Ok (GStr (sContent (snapshot_of L))), d1)" "K d1" "V d1 = V db"
    using get [OF 0(2)] keys(2) 0(3) by metis
  obtain d2 where 2: "do_at (document_exec E) calm 2 [''GET'', roomVersionKey rid] d1 =
      (Ok (GStr (FormatInt (int (length L)))), d2)" "K d2" "V d2 = V db"
    using get [OF 1(2)] keys(3) 1(3) by metis
  obtain d3 where 3: "do_at (document_exec E) calm 3 [''GET'', roomSequenceKey rid] d2 =
      (Ok (GStr (FormatInt (int (length L)))), d3)" "K d3" "V d3 = V db"
    using get [OF 2(2)] keys(4) 2(3) by metis
  show thesis
    by (rule that [OF _ 3(2,3)])
      (use 0(1) 1(1) 2(1) 3(1) ok in \<open>simp add: GetSnapshot_store_def int_then_def snapshot_of_def\<close>)
qed

text \<open>A room that was never created is reported as absent, without an error.\<close>

lemma GetSnapshot_absent:
  assumes S: "redis_server E V K" and K: "K db" and N: "V db (roomExistsKey rid) = None"
  shows "fst (GetSnapshot_store (document_exec E) calm rid db) = Ok None"
proof -
  have "redis_step E V K [''GET'', roomExistsKey rid] db RNil (V db)"
    using S K N by (simp add: redis_law_defs)
  then obtain db' where "E [''GET'', roomExistsKey rid] db = (RNil, db')"
    by (rule redis_step_do)
  then show ?thesis by (simp add: GetSnapshot_store_def do_at_up)
qed

subsection \<open>\<open>CreateRoom\<close>\<close>

lemma CreateRoom_runs:
  assumes S: "redis_server E V K" and K: "K db"
  obtains db' where "CreateRoom (document_exec E) calm rid db = (Ok (), db')" "K db'"
    "V db' = (V db)(roomExistsKey rid \<mapsto> RVString ''1'', roomContentKey rid \<mapsto> RVString [],
       roomVersionKey rid \<mapsto> RVString ''0'', roomSequenceKey rid \<mapsto> RVString ''0'')"
proof (rule lua_create_room_runs [OF S K])
  fix db'
  assume *: "lua_create_room E [roomExistsKey rid, roomContentKey rid, roomVersionKey rid, roomSequenceKey rid] [] db =
      (RInt 1, db')" "K db'"
    "V db' = (V db)(roomExistsKey rid \<mapsto> RVString ''1'', roomContentKey rid \<mapsto> RVString [],
       roomVersionKey rid \<mapsto> RVString ''0'', roomSequenceKey rid \<mapsto> RVString ''0'')"
  show thesis
    by (rule that [OF _ *(2,3)]) (use *(1) in \<open>simp add: CreateRoom_def do_at_up document_exec_create\<close>)
qed

lemma FormatInt_0 [simp]: "FormatInt 0 = ''0''"
  by code_simp

lemma created_room:
  "v (roomStreamKey rid) = None \<Longrightarrow>
   redis_room (v(roomExistsKey rid \<mapsto> RVString ''1'', roomContentKey rid \<mapsto> RVString [],
     roomVersionKey rid \<mapsto> RVString ''0'', roomSequenceKey rid \<mapsto> RVString ''0'')) rid []"
  by (simp add: redis_room_def is_stream_def stream_of_def)

text \<open>Created over a room with edits, the keys describe no log: the stream keeps its entries.\<close>

lemma recreated_room_broken:
  "redis_room v rid L \<Longrightarrow> L \<noteq> [] \<Longrightarrow>
   \<not> redis_room (v(roomExistsKey rid \<mapsto> RVString ''1'', roomContentKey rid \<mapsto> RVString [],
     roomVersionKey rid \<mapsto> RVString ''0'', roomSequenceKey rid \<mapsto> RVString ''0'')) rid L'"
proof
  assume R: "redis_room v rid L" "L \<noteq> []"
    and R': "redis_room (v(roomExistsKey rid \<mapsto> RVString ''1'', roomContentKey rid \<mapsto> RVString [],
     roomVersionKey rid \<mapsto> RVString ''0'', roomSequenceKey rid \<mapsto> RVString ''0'')) rid L'"
  from R' have "FormatInt (int (length L')) = FormatInt 0" by (simp add: redis_room_def)
  then have "L' = []" using R'
    by (subst (asm) FormatInt_inject) (auto simp: redis_room_def log_ok_def int64_ok_def)
  moreover have "map entry_of L' = map entry_of L" using R(1) R' by (simp add: redis_room_def)
  ultimately show False using R(2) by simp
qed

subsection \<open>\<open>ReplayBoundary\<close>\<close>

text \<open>What the boundary of a log is: its last event, or sequence 0 at identifier \<open>0-0\<close>.\<close>

definition boundary_of :: "DistributedEvent list \<Rightarrow> DistributedEvent" where
  "boundary_of L = (if L = [] then zero_event\<lparr>eStreamID := ''0-0''\<rparr> else last L)"

lemma boundary_sequence: "log_ok L \<Longrightarrow> eSequence (boundary_of L) = int (length L)"
  by (cases "L = []") (simp_all add: boundary_of_def zero_event_def last_conv_nth log_ok_nth of_nat_diff Suc_le_eq)

lemma ReplayBoundary_at:
  assumes S: "redis_server E V K" and up: "links_up net"
    and K0: "K (before net 0 db)" and R0: "redis_room (V (before net 0 db)) rid L"
  obtains d where "ReplayBoundary (document_exec E) net rid db = (Ok (boundary_of L), d)"
    "K d" "V d = V (before net 0 db)"
proof -
  from R0 have "redis_step E V K [''XREVRANGE'', roomStreamKey rid, ''+'', ''-'', ''COUNT'', ''1''] (before net 0 db)
      (stream_reply (take 1 (rev (map entry_of L)))) (V (before net 0 db))"
    by (intro law_xrevrange [OF S K0]) (simp_all add: redis_room_def)
  then obtain d where d: "E [''XREVRANGE'', roomStreamKey rid, ''+'', ''-'', ''COUNT'', ''1''] (before net 0 db) =
      (stream_reply (map entry_of (take 1 (rev L))), d)" "V d = V (before net 0 db)" "K d"
    by (elim redis_step_do) (simp add: rev_map take_map)
  have "set (take 1 (rev L)) \<subseteq> set L"
    by (metis set_rev set_take_subset)
  then have p: "parseStreamEntries (GArr (map entry_gval (map entry_of (take 1 (rev L))))) = Ok (take 1 (rev L))"
    by (intro parseStreamEntries_log) (use R0 log_ok_int64 [of L] in \<open>auto simp: redis_room_def\<close>)
  have "ReplayBoundary (document_exec E) net rid db = (Ok (boundary_of L), d)"
    using d(1) p by (cases L rule: rev_cases)
      (simp_all add: ReplayBoundary_def do_at_up [OF up] boundary_of_def)
  then show thesis using that d(2,3) by simp
qed

lemma ReplayBoundary_reads:
  assumes S: "redis_server E V K" and up: "links_up net" and app: "appending V K rid net"
    and K: "K db" and R: "redis_room (V db) rid L"
  obtains es db' where "ReplayBoundary (document_exec E) net rid db = (Ok (boundary_of (L @ es)), db')"
    "K db'" "redis_room (V db') rid (L @ es)"
proof -
  obtain es where K0: "K (before net 0 db)" and R0: "redis_room (V (before net 0 db)) rid (L @ es)"
    using appendingE [OF app K R] by blast
  from ReplayBoundary_at [OF S up K0 R0] that R0 show thesis by metis
qed

end
