(* ===== verification/Replay_Loop.thy ===== *)
theory Replay_Loop
  imports Redis_Reads
begin

section \<open>Paged replay of a room's stream\<close>

text \<open>
  \<open>RedisStore.EventsAfterSequence\<close>: page after page of the stream up to a boundary, each
  event handed to \<open>visit\<close> once, in order and without a gap. The callback is a function
  with a state of its own that may fail. The loop runs as long as pages come back, so it is
  a \<open>partial_function\<close>; the main lemma shows that it returns, and what it visited.
\<close>

type_synonym 'v visitor = "DistributedEvent \<Rightarrow> 'v \<Rightarrow> (string, unit) outcome \<times> 'v"

text \<open>The body of the inner \<open>for _, event := range events\<close>.\<close>

fun visit_page :: "'v visitor \<Rightarrow> int64 \<Rightarrow> int64 \<Rightarrow> DistributedEvent list \<Rightarrow> int64 \<Rightarrow> 'v \<Rightarrow>
    int64 store_result \<times> 'v" where
  "visit_page visit lastSequence boundarySequence [] expected s = (Ok expected, s)"
| "visit_page visit lastSequence boundarySequence (event # events) expected s =
     (if eSequence event \<le> lastSequence
      then visit_page visit lastSequence boundarySequence events expected s
      else if eSequence event \<noteq> expected \<or> boundarySequence < eSequence event
      then (Err (ReplayGap expected (eSequence event)), s)
      else (case visit event s of
          (Err e, s') \<Rightarrow> (Err (VisitFailed e), s')
        | (Panic, s') \<Rightarrow> (Panic, s')
        | (Ok u, s') \<Rightarrow> visit_page visit lastSequence boundarySequence events (wrap64 (expected + 1)) s'))"

partial_function (option) replay_loop :: "'db exec \<Rightarrow> 'db net \<Rightarrow> 'v visitor \<Rightarrow> string \<Rightarrow> int64 \<Rightarrow>
    DistributedEvent \<Rightarrow> nat \<Rightarrow> string \<Rightarrow> int64 \<Rightarrow> 'db \<Rightarrow> 'v \<Rightarrow> (unit store_result \<times> 'db \<times> 'v) option" where
  [code]: "replay_loop exec net visit roomID lastSequence boundary i start expected db s =
     (if eSequence boundary < expected then Some (Ok (), db, s)
      else (case do_at exec net i
          [''XRANGE'', roomStreamKey roomID, start, eStreamID boundary, ''COUNT'', ''1000''] db of
        (Panic, db) \<Rightarrow> Some (Panic, db, s)
      | (Err e, db) \<Rightarrow> Some (Err (CallError e), db, s)
      | (Ok raw, db) \<Rightarrow> (case parseStreamEntries raw of
            Panic \<Rightarrow> Some (Panic, db, s)
          | Err e \<Rightarrow> Some (Err e, db, s)
          | Ok events \<Rightarrow>
             if events = [] then Some (Err (ReplayEnded expected (eSequence boundary)), db, s)
             else (case visit_page visit lastSequence (eSequence boundary) events expected s of
                 (Panic, s') \<Rightarrow> Some (Panic, db, s')
               | (Err e, s') \<Rightarrow> Some (Err e, db, s')
               | (Ok expected', s') \<Rightarrow>
                   replay_loop exec net visit roomID lastSequence boundary (Suc i)
                     (CHR ''('' # eStreamID (last events)) expected' db s'))))"

definition EventsAfterSequence :: "'db exec \<Rightarrow> 'db net \<Rightarrow> string \<Rightarrow> int64 \<Rightarrow> DistributedEvent \<Rightarrow>
    'v visitor \<Rightarrow> 'db \<Rightarrow> 'v \<Rightarrow> (unit store_result \<times> 'db \<times> 'v) option" where
  "EventsAfterSequence exec net roomID lastSequence boundary visit db s =
     (if eSequence boundary < lastSequence
      then Some (Err (CursorBeyondBoundary lastSequence (eSequence boundary)), db, s)
      else replay_loop exec net visit roomID lastSequence boundary 0 ''-'' (wrap64 (lastSequence + 1)) db s)"

subsection \<open>Visiting a segment of the log\<close>

text \<open>Visits in order, up to and with the first one that fails.\<close>

fun visit_all :: "'v visitor \<Rightarrow> DistributedEvent list \<Rightarrow> 'v \<Rightarrow> (string, unit) outcome \<times> 'v" where
  "visit_all visit [] s = (Ok (), s)"
| "visit_all visit (e # es) s = (case visit e s of
     (Ok u, s') \<Rightarrow> visit_all visit es s'
   | (Err err, s') \<Rightarrow> (Err err, s')
   | (Panic, s') \<Rightarrow> (Panic, s'))"

lemma visit_all_append:
  "visit_all visit (xs @ ys) s = (case visit_all visit xs s of
     (Ok u, s') \<Rightarrow> visit_all visit ys s' | (Err err, s') \<Rightarrow> (Err err, s') | (Panic, s') \<Rightarrow> (Panic, s'))"
  by (induction xs arbitrary: s) (auto split: prod.splits outcome.splits)

text \<open>A segment of a log from position \<open>p\<close> on: its sequences are \<open>p + 1, p + 2, \<dots>\<close>\<close>

definition segment_at :: "nat \<Rightarrow> DistributedEvent list \<Rightarrow> bool" where
  "segment_at p es \<longleftrightarrow> (\<forall>i<length es. eSequence (es ! i) = int (p + i) + 1)"

lemma segment_at_Cons: "segment_at p (e # es) \<longleftrightarrow> eSequence e = int p + 1 \<and> segment_at (Suc p) es"
  by (auto simp: segment_at_def less_Suc_eq_0_disj)

lemma segment_at_take_drop: "log_ok L \<Longrightarrow> segment_at p (take k (drop p L))"
  by (auto simp: segment_at_def log_ok_nth)

lemma visit_page_segment:
  assumes "segment_at p es" "int (p + length es) \<le> b" "b \<le> log_limit"
  shows "visit_page visit (int n) b es (int (max n p) + 1) s =
    (case visit_all visit (drop (n - p) es) s of
       (Ok u, s') \<Rightarrow> (Ok (int (max n (p + length es)) + 1), s')
     | (Err e, s') \<Rightarrow> (Err (VisitFailed e), s')
     | (Panic, s') \<Rightarrow> (Panic, s'))"
  using assms
proof (induction es arbitrary: p s)
  case Nil
  then show ?case by simp
next
  case (Cons e es)
  have e: "eSequence e = int p + 1" and es: "segment_at (Suc p) es"
    using Cons.prems(1) by (simp_all add: segment_at_Cons)
  have le: "int (Suc p + length es) \<le> b" using Cons.prems(2) by simp
  note IH = Cons.IH [OF es le Cons.prems(3)]
  show ?case
  proof (cases "p < n")
    case True
    then have "drop (n - p) (e # es) = drop (n - Suc p) es" by (simp add: Suc_diff_Suc [symmetric])
    moreover have "max n p = max n (Suc p)" using True by simp
    moreover obtain r s' where "visit_all visit (drop (n - Suc p) es) s = (r, s')" by force
    ultimately show ?thesis using True e IH [of s] by (cases r) simp_all
  next
    case False
    then have w: "wrap64 (int p + 1 + 1) = int (Suc p) + 1"
      using Cons.prems(2,3) by (subst wrap64_id) (auto simp: int64_ok_def)
    have m: "max n p = p" "max n (Suc p) = Suc p" "n - Suc p = 0" "n - p = 0" using False by simp_all
    obtain r s' where v: "visit e s = (r, s')" by force
    show ?thesis
      using False e v w m IH [of s'] Cons.prems(2)
      by (cases r; cases "visit_all visit es s'"; cases "fst (visit_all visit es s')") simp_all
  qed
qed

subsection \<open>The loop on the log\<close>

lemma FormatInt_1000: "FormatInt (int 1000) = ''1000''"
  by code_simp

text \<open>What a page holds: at most a thousand entries of the log, up to its boundary.\<close>

lemma page_reply:
  assumes S: "redis_server E V K" and K: "K db" and R: "redis_room (V db) rid (L0 @ post)"
    and p: "p < length L0"
  shows "redis_step E V K [''XRANGE'', roomStreamKey rid,
      (if p = 0 then ''-'' else CHR ''('' # eStreamID (L0 ! (p - 1))), eStreamID (last L0), ''COUNT'', ''1000''] db
      (stream_reply (map entry_of (take 1000 (drop p L0)))) (V db)"
proof -
  have ne: "L0 \<noteq> []" using p by auto
  have v: "V db (roomStreamKey rid) = Some (RVStream (map entry_of (L0 @ post)))"
    using R ne by (intro stream_value) (auto simp: redis_room_def)
  show ?thesis
  proof (cases "p = 0")
    case True
    have sp: "map entry_of (L0 @ post) = map entry_of (butlast L0) @ [entry_of (last L0)] @ map entry_of post"
      using ne by (metis append.assoc append_butlast_last_id list.simps(8,9) map_append)
    have "map entry_of (butlast L0) @ [entry_of (last L0)] = map entry_of L0"
      using ne by (metis append_butlast_last_id list.simps(8,9) map_append)
    then show ?thesis
      using law_xrange_first [OF S K v [unfolded sp], of 1000] True by (simp only: FormatInt_1000) (simp add: take_map int64_ok_def)
  next
    case False
    define d where "d = drop p L0"
    have d: "d \<noteq> []" "last d = last L0" using p by (simp_all add: d_def last_drop)
    have "L0 = take (p - 1) L0 @ [L0 ! (p - 1)] @ d"
      using id_take_nth_drop [of "p - 1" L0] p False by (simp add: d_def)
    also have "d = butlast d @ [last d]" using d(1) by simp
    finally have L0: "L0 = take (p - 1) L0 @ [L0 ! (p - 1)] @ butlast d @ [last L0]" using d(2) by simp
    have sp: "map entry_of (L0 @ post) = map entry_of (take (p - 1) L0) @ [entry_of (L0 ! (p - 1))] @
        map entry_of (butlast d) @ [entry_of (last L0)] @ map entry_of post"
      by (subst L0) (simp only: map_append list.map append.assoc append_Cons append_Nil)
    have "map entry_of (butlast d) @ [entry_of (last L0)] = map entry_of d"
      using d by (metis append_butlast_last_id list.simps(8,9) map_append)
    then show ?thesis
      using law_xrange_behind [OF S K v [unfolded sp], of 1000] False
      by (simp only: FormatInt_1000) (simp add: take_map d_def int64_ok_def)
  qed
qed

lemma page_parses:
  assumes "log_ok (L0 @ post)"
  shows "parseStreamEntries (GArr (map entry_gval (map entry_of (take 1000 (drop p L0))))) =
    Ok (take 1000 (drop p L0))"
proof (rule parseStreamEntries_log)
  show "\<forall>e\<in>set (take 1000 (drop p L0)). int64_ok (eSequence e) \<and> int64_ok (eVersion e)"
    using log_ok_int64 [OF assms] by (auto dest!: in_set_takeD in_set_dropD)
qed

lemma log_ok_prefix: "log_ok (L0 @ post) \<Longrightarrow> log_ok L0"
  by (induction post rule: rev_induct) (simp_all add: log_ok_snoc del: append_assoc add: append_assoc [symmetric])

definition replay_outcome :: "'v visitor \<Rightarrow> DistributedEvent list \<Rightarrow> 'v \<Rightarrow> unit store_result \<times> 'v" where
  "replay_outcome visit es s = (case visit_all visit es s of
     (Ok u, s') \<Rightarrow> (Ok (), s') | (Err e, s') \<Rightarrow> (Err (VisitFailed e), s') | (Panic, s') \<Rightarrow> (Panic, s'))"

text \<open>One call of the loop, and the part of the interval that its page holds.\<close>

lemma replay_call:
  assumes "redis_server E V K" "links_up net" "appending V K rid net" "K db" "redis_room (V db) rid (L0 @ post)" "p < length L0"
  obtains es d where "do_at (document_exec E) net i [''XRANGE'', roomStreamKey rid,
      (if p = 0 then ''-'' else CHR ''('' # eStreamID (L0 ! (p - 1))), eStreamID (last L0), ''COUNT'', ''1000''] db =
      (Ok (GArr (map entry_gval (map entry_of (take 1000 (drop p L0))))), d)"
    "parseStreamEntries (GArr (map entry_gval (map entry_of (take 1000 (drop p L0))))) = Ok (take 1000 (drop p L0))"
    "K d" "redis_room (V d) rid (L0 @ post @ es)"
proof -
  obtain es where K1: "K (before net i db)" and R1: "redis_room (V (before net i db)) rid (L0 @ post @ es)"
    using appendingE [OF assms(3,4,5)] by auto
  have "log_ok (L0 @ post @ es)" using R1 by (simp add: redis_room_def)
  note parse = page_parses [OF this, of p]
  from redis_step_do [OF page_reply [OF assms(1) K1 R1 assms(6)]] obtain d where
    "E [''XRANGE'', roomStreamKey rid, (if p = 0 then ''-'' else CHR ''('' # eStreamID (L0 ! (p - 1))),
        eStreamID (last L0), ''COUNT'', ''1000''] (before net i db) =
      (stream_reply (map entry_of (take 1000 (drop p L0))), d)" "V d = V (before net i db)" "K d" by blast
  with R1 show thesis by (intro that [where d = d and es = es, OF _ parse]) (simp_all add: do_at_up [OF assms(2)])
qed

lemma drop_page:
  "drop (max n p) xs = drop (n - p) (take k (drop p xs)) @ drop (max n (p + length (take k (drop p xs)))) xs"
proof -
  let ?page = "take k (drop p xs)"
  have "drop p xs = ?page @ drop (p + length ?page) xs"
    by (metis append_take_drop_id drop_drop add.commute drop_all length_drop length_take
        linorder_le_cases min_def take_all)
  then have "drop (n - p) (drop p xs) = drop (n - p) ?page @ drop (n - p - length ?page) (drop (p + length ?page) xs)"
    by (metis drop_append)
  moreover have "p + (n - p) = max n p" by simp
  moreover have "n - p - length ?page + (p + length ?page) = max n (p + length ?page)" by simp
  ultimately show ?thesis by (simp add: max.commute add.commute)
qed

lemma replay_loop_visits:
  assumes S: "redis_server E V K" and up: "links_up net" and app: "appending V K rid net"
    and b: "boundary = boundary_of L0" and n: "n \<le> length L0"
    and "K db" "redis_room (V db) rid (L0 @ post)" "p \<le> length L0"
    and "start = (if p = 0 then ''-'' else CHR ''('' # eStreamID (L0 ! (p - 1)))"
  shows "\<exists>db' post'. replay_loop (document_exec E) net visit rid (int n) boundary i start (int (max n p) + 1) db s =
      Some (fst (replay_outcome visit (drop (max n p) L0) s), db',
        snd (replay_outcome visit (drop (max n p) L0) s)) \<and>
    K db' \<and> redis_room (V db') rid (L0 @ post @ post')"
  using assms(6-)
proof (induction "length L0 - p" arbitrary: p start db post s i rule: less_induct)
  case less
  have ok0: "log_ok (L0 @ post)" using less.prems(2) by (simp add: redis_room_def)
  have ok: "log_ok L0" by (rule log_ok_prefix [OF ok0])
  have bs: "eSequence boundary = int (length L0)" using b boundary_sequence [OF ok] by simp
  show ?case
  proof (cases "max n p < length L0")
    case False
    then have mx: "max n p = length L0" using n less.prems(3) by (auto simp: max_def)
    show ?thesis
      by (subst replay_loop.simps, intro exI [of _ db] exI [of _ "[]"])
        (use mx bs less.prems(1,2) in \<open>simp add: replay_outcome_def\<close>)
  next
    case True
    then have p: "p < length L0" and nb: "\<not> eSequence boundary < int (max n p) + 1" using bs by linarith+
    define page where "page = take 1000 (drop p L0)"
    have bid: "eStreamID boundary = eStreamID (last L0)" using b p by (auto simp: boundary_of_def)
    have pg: "page \<noteq> []" "segment_at p page" "p + length page \<le> length L0"
      using p segment_at_take_drop [OF ok] by (auto simp: page_def)
    obtain es d where do: "do_at (document_exec E) net i
        [''XRANGE'', roomStreamKey rid, start, eStreamID boundary, ''COUNT'', ''1000''] db =
        (Ok (GArr (map entry_gval (map entry_of page))), d)"
      and parse: "parseStreamEntries (GArr (map entry_gval (map entry_of page))) = Ok page"
      and d: "K d" "redis_room (V d) rid (L0 @ post @ es)"
      by (rule replay_call [OF S up app less.prems(1,2) p, folded page_def less.prems(4) bid, of i]) blast
    have vp: "visit_page visit (int n) (int (length L0)) page (int (max n p) + 1) s =
      (case visit_all visit (drop (n - p) page) s of
       (Ok u, s') \<Rightarrow> (Ok (int (max n (p + length page)) + 1), s')
     | (Err e, s') \<Rightarrow> (Err (VisitFailed e), s')
     | (Panic, s') \<Rightarrow> (Panic, s'))"
      by (rule visit_page_segment) (use pg ok in \<open>auto simp: log_ok_def\<close>)
    note split = drop_page [of n p L0 1000, folded page_def]
    obtain r s1 where va: "visit_all visit (drop (n - p) page) s = (r, s1)" by force
    show ?thesis
    proof (cases "r = Ok ()")
      case False
      then show ?thesis
        using do parse vp va pg(1) bs nb d
        by (subst replay_loop.simps, intro exI [of _ d] exI [of _ es])
          (cases r; simp add: replay_outcome_def split visit_all_append)
    next
      case ok_r: True
      let ?p = "p + length page"
      have st: "CHR ''('' # eStreamID (last page) =
          (if ?p = 0 then ''-'' else CHR ''('' # eStreamID (L0 ! (?p - 1)))"
        using pg(1,3) by (auto simp: page_def last_conv_nth)
      have sm: "length L0 - ?p < length L0 - p" using pg(1,3) by (cases page) auto
      from less.hyps [OF sm d(1) d(2) pg(3) st, of "Suc i" s1]
      obtain db' post' where *:
        "replay_loop (document_exec E) net visit rid (int n) boundary (Suc i)
           (CHR ''('' # eStreamID (last page)) (int (max n ?p) + 1) d s1 =
         Some (fst (replay_outcome visit (drop (max n ?p) L0) s1), db',
           snd (replay_outcome visit (drop (max n ?p) L0) s1))"
        "K db'" "redis_room (V db') rid (L0 @ (post @ es) @ post')"
        by blast
      show ?thesis
        using do parse vp va pg(1) bs nb * ok_r
        by (subst replay_loop.simps, intro exI [of _ db'] exI [of _ "es @ post'"])
          (simp add: replay_outcome_def split visit_all_append)
    qed
  qed
qed

lemma EventsAfterSequence_visits:
  assumes "redis_server E V K" "links_up net" "appending V K rid net"
    and "n \<le> length L0" "K db" "redis_room (V db) rid (L0 @ post)"
  obtains db' post' where
    "EventsAfterSequence (document_exec E) net rid (int n) (boundary_of L0) visit db s =
      Some (fst (replay_outcome visit (drop n L0) s), db', snd (replay_outcome visit (drop n L0) s))"
    "K db'" "redis_room (V db') rid (L0 @ post @ post')"
proof -
  have ok: "log_ok (L0 @ post)" using assms(6) by (simp add: redis_room_def)
  have bs: "eSequence (boundary_of L0) = int (length L0)" by (rule boundary_sequence [OF log_ok_prefix [OF ok]])
  have w: "wrap64 (int n + 1) = int (max n 0) + 1"
    using assms(4) ok by (subst wrap64_id) (auto simp: int64_ok_def log_ok_def)
  show thesis
    using replay_loop_visits [OF assms(1-3) refl assms(4-6), of 0 "''-''" visit 0 s] that assms(4) bs w
    by (simp add: EventsAfterSequence_def) blast
qed

lemma EventsAfterSequence_beyond:
  assumes "eSequence boundary < lastSequence"
  shows "EventsAfterSequence exec net rid lastSequence boundary visit db s =
    Some (Err (CursorBeyondBoundary lastSequence (eSequence boundary)), db, s)"
  using assms by (simp add: EventsAfterSequence_def)

end
