(* ===== verification/Mem_Room.thy ===== *)
theory Mem_Room
  imports Mem_Redis Replay_Loop
begin

section \<open>Concrete rooms in the in-memory server\<close>

text \<open>
  A room with a given log in the server of \<open>Mem_Redis\<close>, and the interpretation of the
  document interface on the store's code over that server. The theorems about the store are
  applied to these rooms.
\<close>

definition mem_room :: "string \<Rightarrow> DistributedEvent list \<Rightarrow> view" where
  "mem_room rid L = (\<lambda>k. None)(
     roomExistsKey rid \<mapsto> RVString ''1'',
     roomContentKey rid \<mapsto> RVString (sContent (snapshot_of L)),
     roomVersionKey rid \<mapsto> RVString (FormatInt (int (length L))),
     roomSequenceKey rid \<mapsto> RVString (FormatInt (int (length L))),
     roomStreamKey rid \<mapsto> RVStream (map entry_of L))"

lemma mem_room_room: "log_ok L \<Longrightarrow> redis_room (mem_room rid L) rid L"
  by (simp add: redis_room_def mem_room_def is_stream_def)

lemma mem_room_ok:
  assumes "map eStreamID L = map entry_id [1..<Suc (length L)]"
  shows "mem_ok (mem_room rid L)"
proof -
  have "map fst (stream_of (mem_room rid L k)) = map entry_id [1..<Suc (length (stream_of (mem_room rid L k)))]" for k
    using assms by (auto simp: mem_room_def comp_def simp del: upt_Suc)
  moreover have "finite (dom (mem_room rid L))" by (simp add: mem_room_def)
  ultimately show ?thesis by (simp add: mem_ok_def)
qed

definition demo_event :: "nat \<Rightarrow> string \<Rightarrow> DistributedEvent" where
  "demo_event i content = \<lparr>eStreamID = entry_id i, eSequence = int i, eVersion = int i,
     eOperationID = ''op'', eClientID = ''c1'', eUsername = ''ann'', eContent = content\<rparr>"

lemma demo_event_simps [simp]:
  "eSequence (demo_event i s) = int i" "eVersion (demo_event i s) = int i" "eContent (demo_event i s) = s"
  by (simp_all add: demo_event_def)

definition demo_log :: "DistributedEvent list" where
  "demo_log = [demo_event 1 ''a'', demo_event 2 ''ab'', demo_event 3 ''abc'']"

lemma demo_log_ok: "log_ok demo_log"
  by (auto simp: log_ok_def demo_log_def demo_event_def less_Suc_eq numeral_3_eq_3)

lemma demo_log_ids: "map eStreamID demo_log = map entry_id [1..<Suc (length demo_log)]"
  by (simp add: demo_log_def demo_event_def upt_rec numeral_eq_Suc)

abbreviation demo_db :: view where "demo_db \<equiv> mem_room ''r1'' demo_log"

lemma demo_room [simp]: "redis_room demo_db ''r1'' demo_log" "mem_ok demo_db"
  by (rule mem_room_room [OF demo_log_ok], rule mem_room_ok [OF demo_log_ids])

lemma empty_room [simp]: "redis_room (mem_room rid []) rid []" "mem_ok (mem_room rid [])"
  by (rule mem_room_room, simp, rule mem_room_ok, simp)

interpretation mem_doc: occ_document
    "\<lambda>policy w db. apfst ok_of (store_write mem_exec rid oid cid u policy w db)"
    "\<lambda>db. room_snapshot_in db rid" "room_in id mem_ok rid" "\<lambda>w. True" log_limit
  for rid oid cid u
  using store_is_occ_document [OF mem_redis_server, of rid oid cid u] by simp

end
