(* ===== verification/Delivery.thy ===== *)
theory Delivery
  imports Prelude "HOL-Library.Sublist"
begin

section \<open>Interface: delivery guarded by a growing mark\<close>

text \<open>
  Three places of the backend let a message through only when its number is above the
  last one let through: content updates by sequence and presence snapshots by revision on
  each socket, and stream events on each room. What they promise is one interface, a
  \<open>monotone_gate\<close>; without write faults it is a \<open>reliable_gate\<close>, and then what comes
  out is a function of what is offered: \<open>maxima\<close>.
\<close>

definition above :: "int option \<Rightarrow> int \<Rightarrow> bool" where
  "above mark k = (case mark of None \<Rightarrow> True | Some b \<Rightarrow> b < k)"

lemma above_simps [simp]: "above None k" "above (Some b) k \<longleftrightarrow> b < k"
  by (simp_all add: above_def)

text \<open>The messages whose number exceeds the mark and every number before them.\<close>

fun maxima :: "('m \<Rightarrow> int) \<Rightarrow> int option \<Rightarrow> 'm list \<Rightarrow> 'm list" where
  "maxima key mark [] = []"
| "maxima key mark (m # ms) =
     (if above mark (key m) then m # maxima key (Some (key m)) ms else maxima key mark ms)"

text \<open>The mark after the messages \<open>ds\<close> were let through.\<close>

definition mark_after :: "('m \<Rightarrow> int) \<Rightarrow> int option \<Rightarrow> 'm list \<Rightarrow> int option" where
  "mark_after key mark ds = (if ds = [] then mark else Some (key (last ds)))"

text \<open>\<open>ds\<close> is a delivery above the mark: strictly growing numbers, all above it.\<close>

fun delivery :: "('m \<Rightarrow> int) \<Rightarrow> int option \<Rightarrow> 'm list \<Rightarrow> bool" where
  "delivery key mark [] = True"
| "delivery key mark (d # ds) = (above mark (key d) \<and> delivery key (Some (key d)) ds)"

lemma delivery_maxima: "delivery key mark (maxima key mark ms)"
  by (induction ms arbitrary: mark) auto

lemma delivery_above: "delivery key (Some b) ds \<Longrightarrow> d \<in> set ds \<Longrightarrow> b < key d"
  by (induction ds arbitrary: b) (auto, fastforce)

lemma delivery_sorted: "delivery key mark ds \<Longrightarrow> sorted_wrt (<) (map key ds)"
  by (induction ds arbitrary: mark) (auto dest: delivery_above)

lemma delivery_all_above: "delivery key mark ds \<Longrightarrow> d \<in> set ds \<Longrightarrow> above mark (key d)"
  by (cases mark) (auto dest: delivery_above)

lemma delivery_append:
  "delivery key mark (xs @ ys) \<longleftrightarrow>
     delivery key mark xs \<and> delivery key (mark_after key mark xs) ys"
  by (induction xs arbitrary: mark) (auto simp: mark_after_def)

lemma mark_after_Cons [simp]:
  "mark_after key mark (d # ds) = mark_after key (Some (key d)) ds"
  by (simp add: mark_after_def)

lemma mark_after_Nil [simp]: "mark_after key mark [] = mark"
  by (simp add: mark_after_def)

text \<open>Consecutive numbers above the mark all pass.\<close>

lemma maxima_consecutive:
  "map key ms = [b + 1..n] \<Longrightarrow> maxima key (Some b) ms = ms"
proof (induction ms arbitrary: b)
  case (Cons m ms)
  then have "b + 1 \<le> n" by (cases "b + 1 \<le> n") simp_all
  with Cons.prems have "key m = b + 1" "map key ms = [(b + 1) + 1..n]"
    by (simp_all add: upto_cons)
  with Cons.IH [of "b + 1"] show ?case by simp
qed simp

lemma subseq_maxima: "subseq (maxima key mark ms) ms"
  by (induction ms arbitrary: mark) auto

subsection \<open>The interface\<close>

locale monotone_gate =
  fixes offer :: "'m \<Rightarrow> 's \<Rightarrow> 's"
    and key :: "'m \<Rightarrow> int"
    and mark :: "'s \<Rightarrow> int option"
    and log :: "'s \<Rightarrow> 'm list"
    and ready :: "'s \<Rightarrow> bool"
    and item :: "'m \<Rightarrow> bool"
  assumes ready_offer: "ready s \<Longrightarrow> item m \<Longrightarrow> ready (offer m s)"
    and offer_step: "ready s \<Longrightarrow> item m \<Longrightarrow>
      log (offer m s) = log s \<and> mark (offer m s) = mark s \<or>
      above (mark s) (key m) \<and> log (offer m s) = log s @ [m] \<and> mark (offer m s) = Some (key m)"
begin

lemma ready_fold: "ready s \<Longrightarrow> \<forall>m\<in>set ms. item m \<Longrightarrow> ready (fold offer ms s)"
  by (induction ms arbitrary: s) (auto intro: ready_offer)

lemma fold_delivery:
  "ready s \<Longrightarrow> \<forall>m\<in>set ms. item m \<Longrightarrow>
   \<exists>ds. log (fold offer ms s) = log s @ ds \<and> delivery key (mark s) ds \<and> subseq ds ms \<and>
        mark (fold offer ms s) = mark_after key (mark s) ds"
proof (induction ms arbitrary: s)
  case (Cons m ms)
  then obtain ds where ds: "log (fold offer ms (offer m s)) = log (offer m s) @ ds"
      "delivery key (mark (offer m s)) ds" "subseq ds ms"
      "mark (fold offer ms (offer m s)) = mark_after key (mark (offer m s)) ds"
    using ready_offer by (metis list.set_intros(1,2))
  from Cons.prems have "log (offer m s) = log s \<and> mark (offer m s) = mark s \<or>
      above (mark s) (key m) \<and> log (offer m s) = log s @ [m] \<and> mark (offer m s) = Some (key m)"
    by (intro offer_step) simp_all
  then show ?case
  proof
    assume "log (offer m s) = log s \<and> mark (offer m s) = mark s"
    with ds show ?thesis by (intro exI [of _ ds]) auto
  next
    assume "above (mark s) (key m) \<and> log (offer m s) = log s @ [m] \<and> mark (offer m s) = Some (key m)"
    with ds show ?thesis by (intro exI [of _ "m # ds"]) auto
  qed
qed (simp add: exI [of _ "[]"])

end

locale reliable_gate = monotone_gate +
  fixes up :: "'s \<Rightarrow> bool"
  assumes up_offer: "ready s \<Longrightarrow> item m \<Longrightarrow> up s \<Longrightarrow> up (offer m s)"
    and offer_fresh: "ready s \<Longrightarrow> item m \<Longrightarrow> up s \<Longrightarrow> above (mark s) (key m) \<Longrightarrow>
      log (offer m s) = log s @ [m] \<and> mark (offer m s) = Some (key m)"
begin

lemma offer_stale:
  "ready s \<Longrightarrow> item m \<Longrightarrow> \<not> above (mark s) (key m) \<Longrightarrow>
   log (offer m s) = log s \<and> mark (offer m s) = mark s"
  using offer_step by blast

lemma fold_maxima:
  "ready s \<Longrightarrow> \<forall>m\<in>set ms. item m \<Longrightarrow> up s \<Longrightarrow>
   log (fold offer ms s) = log s @ maxima key (mark s) ms"
proof (induction ms arbitrary: s)
  case (Cons m ms)
  then have "ready (offer m s)" "up (offer m s)" by (simp_all add: ready_offer up_offer)
  with Cons.IH [of "offer m s"] Cons.prems show ?case
    using offer_stale [of s m] offer_fresh [of s m] by (cases "above (mark s) (key m)") simp_all
qed simp

end

end
