(* ===== verification/Client.thy ===== *)
theory Client
  imports Wire_Types Delivery
begin

section \<open>A connected client\<close>

text \<open>
  \<^verbatim>\<open>backend/client.go\<close> and \<open>writePresence\<close> of \<^verbatim>\<open>backend/presence.go\<close>: the guarded
  delivery of content updates, the buffer and the handoff of a replay, and the guarded
  delivery of presence snapshots. The two locks of a client serialise its operations, so
  each operation is one function from the client to the client.
\<close>

record client =
  cConn :: "conn option"
  cUsername :: string
  cRoomID :: string
  cClientID :: string
  cConnectionID :: string
  cInstanceID :: string
  presenceRevision :: int64
  presenceSent :: bool
  replaying :: bool
  lastSequence :: int64
  pending :: "(int64 \<times> Message) list option"

text \<open>
  The result of a write: nothing, an error, or a panic (a write on a nil connection or
  into the nil map of pending messages).
\<close>

type_synonym write_result = "(string, unit) outcome"

definition participant :: "client \<Rightarrow> Participant" where
  "participant c = \<lparr>pConnectionID = cConnectionID c, pClientID = cClientID c,
     pUsername = cUsername c, pInstanceID = cInstanceID c\<rparr>"

definition client_write :: "client \<Rightarrow> frame \<Rightarrow> write_result \<times> client" where
  "client_write c f = (case cConn c of
     None \<Rightarrow> (Panic, c)
   | Some k \<Rightarrow>
      (case conn_write k f of
         (None, k') \<Rightarrow> (Ok (), c\<lparr>cConn := Some k'\<rparr>)
       | (Some e, k') \<Rightarrow> (Err e, c\<lparr>cConn := Some k'\<rparr>)))"

definition WriteJSON :: "client \<Rightarrow> Message \<Rightarrow> write_result \<times> client" where
  "WriteJSON c m = client_write c (FMessage m)"

definition WriteMessage :: "client \<Rightarrow> string \<Rightarrow> write_result \<times> client" where
  "WriteMessage c s = client_write c (FText s)"

subsection \<open>Content updates and the replay handoff\<close>

definition beginReplay :: "int64 \<Rightarrow> client \<Rightarrow> client" where
  "beginReplay seq c = c\<lparr>replaying := True, lastSequence := seq, pending := Some []\<rparr>"

definition writeContentUpdate :: "Message \<Rightarrow> client \<Rightarrow> write_result \<times> client" where
  "writeContentUpdate m c =
     (if mSequence m \<le> lastSequence c then (Ok (), c)
      else if replaying c then
        (case pending c of
           None \<Rightarrow> (Panic, c)
         | Some p \<Rightarrow> (Ok (), c\<lparr>pending := Some (AList.update (mSequence m) m p)\<rparr>))
      else
        (case WriteJSON c m of
           (Ok u, c') \<Rightarrow> (Ok (), c'\<lparr>lastSequence := mSequence m\<rparr>)
         | (Err e, c') \<Rightarrow> (Err e, c')
         | (Panic, c') \<Rightarrow> (Panic, c')))"

text \<open>The pending messages, a nil map read as an empty one.\<close>

definition pending_list :: "client \<Rightarrow> (int64 \<times> Message) list" where
  "pending_list c = (case pending c of None \<Rightarrow> [] | Some p \<Rightarrow> p)"

fun flush_pending :: "int64 list \<Rightarrow> client \<Rightarrow> write_result \<times> client" where
  "flush_pending [] c = (Ok (), c\<lparr>pending := None, replaying := False\<rparr>)"
| "flush_pending (s # ss) c =
     (case WriteJSON c (case map_of (pending_list c) s of None \<Rightarrow> zero_message | Some m \<Rightarrow> m) of
        (Ok u, c') \<Rightarrow> flush_pending ss (c'\<lparr>lastSequence := s\<rparr>)
      | (Err e, c') \<Rightarrow> (Err e, c')
      | (Panic, c') \<Rightarrow> (Panic, c'))"

definition finishReplay :: "Message \<Rightarrow> client \<Rightarrow> write_result \<times> client" where
  "finishReplay complete c =
     (case WriteJSON c complete of
        (Ok u, c') \<Rightarrow>
          (let c1 = c'\<lparr>lastSequence := mLatestSequence complete\<rparr>;
               sequences = sort (filter (\<lambda>s. lastSequence c1 < s) (map fst (pending_list c1)))
           in flush_pending sequences c1)
      | (Err e, c') \<Rightarrow> (Err e, c')
      | (Panic, c') \<Rightarrow> (Panic, c'))"

subsection \<open>Presence snapshots\<close>

definition writePresence :: "PresenceSnapshot \<Rightarrow> client \<Rightarrow> write_result \<times> client" where
  "writePresence snapshot c =
     (if presenceSent c \<and> psRevision snapshot \<le> presenceRevision c then (Ok (), c)
      else (case client_write c (FPresence snapshot) of
              (Ok u, c') \<Rightarrow> (Ok (), c'\<lparr>presenceRevision := psRevision snapshot, presenceSent := True\<rparr>)
            | (Err e, c') \<Rightarrow> (Err e, c')
            | (Panic, c') \<Rightarrow> (Panic, c')))"

subsection \<open>What a socket has received\<close>

definition client_frames :: "client \<Rightarrow> frame list" where
  "client_frames c = (case cConn c of None \<Rightarrow> [] | Some k \<Rightarrow> frames k)"

definition is_content :: "Message \<Rightarrow> bool" where
  "is_content m \<longleftrightarrow> mType m = ''content_update''"

fun content_of :: "frame \<Rightarrow> Message option" where
  "content_of (FMessage m) = (if is_content m then Some m else None)"
| "content_of _ = None"

fun presence_of :: "frame \<Rightarrow> PresenceSnapshot option" where
  "presence_of (FPresence s) = Some s"
| "presence_of _ = None"

definition content_log :: "client \<Rightarrow> Message list" where
  "content_log c = List.map_filter content_of (client_frames c)"

definition presence_log :: "client \<Rightarrow> PresenceSnapshot list" where
  "presence_log c = List.map_filter presence_of (client_frames c)"

definition no_faults :: "client \<Rightarrow> bool" where
  "no_faults c = (case cConn c of None \<Rightarrow> False | Some k \<Rightarrow> \<forall>i. write_fault k i = None)"

subsection \<open>One write\<close>

text \<open>A client whose connection is set; every operation keeps it so.\<close>

definition has_conn :: "client \<Rightarrow> bool" where
  "has_conn c \<longleftrightarrow> cConn c \<noteq> None"

text \<open>While a client replays, its pending map exists, holds each update under its own
  sequence once, and holds nothing at or below the mark.\<close>

definition pending_ok :: "client \<Rightarrow> bool" where
  "pending_ok c \<longleftrightarrow> (replaying c \<longrightarrow>
     (\<exists>p. pending c = Some p \<and> distinct (map fst p) \<and>
        (\<forall>s m. map_of p s = Some m \<longrightarrow> mSequence m = s \<and> is_content m \<and> lastSequence c < s)))"

lemma client_write_cases:
  obtains (panic) "cConn c = None" "client_write c f = (Panic, c)"
  | (fault) e c' where "client_write c f = (Err e, c')" "client_frames c' = client_frames c"
      "c' = c\<lparr>cConn := cConn c'\<rparr>" "has_conn c'" "has_conn c" "no_faults c' = no_faults c" "\<not> no_faults c"
  | (sent) c' where "client_write c f = (Ok (), c')" "client_frames c' = client_frames c @ [f]"
      "c' = c\<lparr>cConn := cConn c'\<rparr>" "has_conn c'" "has_conn c" "no_faults c' = no_faults c"
proof (cases "cConn c")
  case None
  then show ?thesis by (intro panic) (simp_all add: client_write_def)
next
  case (Some k)
  show ?thesis
  proof (cases "write_fault k (attempts k)")
    case None
    with Some show ?thesis
      by (intro sent [of "c\<lparr>cConn := Some (snd (conn_write k f))\<rparr>"])
         (simp_all add: client_write_def conn_write_def client_frames_def has_conn_def no_faults_def)
  next
    case (Some e)
    with \<open>cConn c = Some k\<close> show ?thesis
      by (intro fault [of e "c\<lparr>cConn := Some (snd (conn_write k f))\<rparr>"])
         (auto simp: client_write_def conn_write_def client_frames_def has_conn_def no_faults_def)
  qed
qed

lemma no_faults_has_conn: "no_faults c \<Longrightarrow> has_conn c"
  by (simp add: no_faults_def has_conn_def split: option.splits)

text \<open>Without faults a write is one frame more and nothing else.\<close>

definition put_frame :: "frame \<Rightarrow> client \<Rightarrow> client" where
  "put_frame f c = c\<lparr>cConn := map_option (\<lambda>k. snd (conn_write k f)) (cConn c)\<rparr>"

lemma client_write_no_faults: "no_faults c \<Longrightarrow> client_write c f = (Ok (), put_frame f c)"
  by (auto simp: no_faults_def client_write_def conn_write_def put_frame_def split: option.splits)

lemma put_frame_simps [simp]:
  "replaying (put_frame f c) = replaying c"
  "lastSequence (put_frame f c) = lastSequence c"
  "pending (put_frame f c) = pending c"
  "presenceSent (put_frame f c) = presenceSent c"
  "presenceRevision (put_frame f c) = presenceRevision c"
  "cConnectionID (put_frame f c) = cConnectionID c"
  by (simp_all add: put_frame_def)

lemma no_faults_put_frame [simp]: "no_faults (put_frame f c) = no_faults c"
  by (auto simp: put_frame_def no_faults_def conn_write_def split: option.splits)

lemma client_frames_put_frame [simp]:
  "no_faults c \<Longrightarrow> client_frames (put_frame f c) = client_frames c @ [f]"
  by (auto simp: put_frame_def no_faults_def conn_write_def client_frames_def split: option.splits)

lemma frames_updates [simp]:
  "client_frames (c\<lparr>lastSequence := x\<rparr>) = client_frames c"
  "client_frames (c\<lparr>replaying := b\<rparr>) = client_frames c"
  "client_frames (c\<lparr>pending := p\<rparr>) = client_frames c"
  "client_frames (c\<lparr>presenceRevision := x\<rparr>) = client_frames c"
  "client_frames (c\<lparr>presenceSent := b\<rparr>) = client_frames c"
  by (simp_all add: client_frames_def)

lemma no_faults_updates [simp]:
  "no_faults (c\<lparr>lastSequence := x\<rparr>) = no_faults c"
  "no_faults (c\<lparr>replaying := b\<rparr>) = no_faults c"
  "no_faults (c\<lparr>pending := p\<rparr>) = no_faults c"
  "no_faults (c\<lparr>presenceRevision := x\<rparr>) = no_faults c"
  "no_faults (c\<lparr>presenceSent := b\<rparr>) = no_faults c"
  by (simp_all add: no_faults_def)

lemma content_log_frames: "client_frames c' = client_frames c @ fs \<Longrightarrow>
    content_log c' = content_log c @ List.map_filter content_of fs"
  by (simp add: content_log_def map_filter_def)

lemma presence_log_frames: "client_frames c' = client_frames c @ fs \<Longrightarrow>
    presence_log c' = presence_log c @ List.map_filter presence_of fs"
  by (simp add: presence_log_def map_filter_def)

lemma content_log_updates [simp]:
  "content_log (c\<lparr>lastSequence := x\<rparr>) = content_log c"
  "content_log (c\<lparr>replaying := b\<rparr>) = content_log c"
  "content_log (c\<lparr>pending := p\<rparr>) = content_log c"
  by (simp_all add: content_log_def)

lemma content_log_put_message [simp]:
  "no_faults c \<Longrightarrow> content_log (put_frame (FMessage m) c)
     = content_log c @ (if is_content m then [m] else [])"
  using content_log_frames [of "put_frame (FMessage m) c" c "[FMessage m]"]
  by (simp add: map_filter_def)

lemma WriteJSON_no_faults: "no_faults c \<Longrightarrow> WriteJSON c m = (Ok (), put_frame (FMessage m) c)"
  by (simp add: WriteJSON_def client_write_no_faults)

end
