(* ===== verification/Client_Gates.thy ===== *)
theory Client_Gates
  imports Client
begin

section \<open>The two gates of a socket\<close>

text \<open>
  Live content updates (guarded by sequence) and presence snapshots (guarded by revision)
  are monotone gates, reliable ones while no write fails. The interpretations discharge the
  interface of theory \<open>Delivery\<close> on \<open>writeContentUpdate\<close> and \<open>writePresence\<close>.
\<close>

definition live :: "client \<Rightarrow> bool" where
  "live c \<longleftrightarrow> has_conn c \<and> \<not> replaying c"

definition presence_mark :: "client \<Rightarrow> int64 option" where
  "presence_mark c = (if presenceSent c then Some (presenceRevision c) else None)"

abbreviation offer_update :: "Message \<Rightarrow> client \<Rightarrow> client" where
  "offer_update m c \<equiv> snd (writeContentUpdate m c)"

abbreviation offer_presence :: "PresenceSnapshot \<Rightarrow> client \<Rightarrow> client" where
  "offer_presence s c \<equiv> snd (writePresence s c)"

subsection \<open>Content updates\<close>

lemma writeContentUpdate_live_cases:
  assumes "live c" "is_content m"
  obtains (skipped) "mSequence m \<le> lastSequence c" "writeContentUpdate m c = (Ok (), c)"
  | (failed) e c' where "writeContentUpdate m c = (Err e, c')" "content_log c' = content_log c"
      "lastSequence c' = lastSequence c" "live c'" "\<not> no_faults c"
  | (delivered) c' where "lastSequence c < mSequence m" "writeContentUpdate m c = (Ok (), c')"
      "content_log c' = content_log c @ [m]" "lastSequence c' = mSequence m" "live c'"
      "no_faults c' = no_faults c"
proof (cases "mSequence m \<le> lastSequence c")
  case True
  then show ?thesis by (intro skipped) (simp_all add: writeContentUpdate_def)
next
  case False
  from assms have nr: "\<not> replaying c" and conn: "cConn c \<noteq> None"
    by (simp_all add: live_def has_conn_def)
  show ?thesis
  proof (cases rule: client_write_cases [of c "FMessage m"])
    case panic
    with conn show ?thesis by simp
  next
    case (fault e c')
    from fault(3) have "lastSequence c' = lastSequence c" "replaying c' = replaying c"
      by (metis client.select_convs client.update_convs(1) client.surjective)+
    with fault False nr show ?thesis
      by (intro failed [of e c'])
         (simp_all add: writeContentUpdate_def WriteJSON_def live_def content_log_def)
  next
    case (sent c')
    from sent(3) have "replaying c' = replaying c"
      by (metis client.select_convs client.update_convs(1) client.surjective)
    with sent False nr assms(2) show ?thesis
      by (intro delivered [of "c'\<lparr>lastSequence := mSequence m\<rparr>"])
         (simp_all add: writeContentUpdate_def WriteJSON_def live_def has_conn_def
           content_log_frames [OF sent(2)] map_filter_def)
  qed
qed

interpretation live_gate: reliable_gate
    offer_update mSequence "\<lambda>c. Some (lastSequence c)" content_log live is_content no_faults
proof
  fix c m
  assume l: "live c" and m: "is_content m"
  show "live (offer_update m c)"
    by (cases rule: writeContentUpdate_live_cases [OF l m]) (simp_all add: l)
  show "content_log (offer_update m c) = content_log c \<and>
      Some (lastSequence (offer_update m c)) = Some (lastSequence c) \<or>
      above (Some (lastSequence c)) (mSequence m) \<and>
      content_log (offer_update m c) = content_log c @ [m] \<and>
      Some (lastSequence (offer_update m c)) = Some (mSequence m)"
    by (cases rule: writeContentUpdate_live_cases [OF l m]) simp_all
  assume up: "no_faults c"
  show "no_faults (offer_update m c)"
    by (cases rule: writeContentUpdate_live_cases [OF l m]) (simp_all add: up)
  assume "above (Some (lastSequence c)) (mSequence m)"
  then show "content_log (offer_update m c) = content_log c @ [m] \<and>
      Some (lastSequence (offer_update m c)) = Some (mSequence m)"
    by (cases rule: writeContentUpdate_live_cases [OF l m]) (simp_all add: up)
qed

subsection \<open>Presence snapshots\<close>

lemma presence_updates [simp]:
  "presence_log (c\<lparr>presenceRevision := x, presenceSent := b\<rparr>) = presence_log c"
  "has_conn (c\<lparr>presenceRevision := x, presenceSent := b\<rparr>) = has_conn c"
  by (simp_all add: presence_log_def client_frames_def has_conn_def)

lemma writePresence_cases:
  assumes "has_conn c"
  obtains (skipped) "\<not> above (presence_mark c) (psRevision s)" "writePresence s c = (Ok (), c)"
  | (failed) e c' where "writePresence s c = (Err e, c')" "presence_log c' = presence_log c"
      "presence_mark c' = presence_mark c" "has_conn c'" "\<not> no_faults c"
  | (delivered) c' where "above (presence_mark c) (psRevision s)" "writePresence s c = (Ok (), c')"
      "presence_log c' = presence_log c @ [s]" "presence_mark c' = Some (psRevision s)"
      "has_conn c'" "no_faults c' = no_faults c"
proof (cases "presenceSent c \<and> psRevision s \<le> presenceRevision c")
  case True
  then show ?thesis by (intro skipped) (simp_all add: writePresence_def presence_mark_def)
next
  case False
  then have ab: "above (presence_mark c) (psRevision s)" by (auto simp: presence_mark_def)
  show ?thesis
  proof (cases rule: client_write_cases [of c "FPresence s"])
    case panic
    with assms show ?thesis by (simp add: has_conn_def)
  next
    case (fault e c')
    from fault(3) have "presence_mark c' = presence_mark c"
      unfolding presence_mark_def
      by (metis client.select_convs client.update_convs(1) client.surjective)
    with fault False show ?thesis
      by (intro failed [of e c']) (auto simp: writePresence_def presence_log_def)
  next
    case (sent c')
    with False ab show ?thesis
      by (intro delivered [of "c'\<lparr>presenceRevision := psRevision s, presenceSent := True\<rparr>"])
         (auto simp: writePresence_def presence_mark_def presence_log_frames [OF sent(2)] map_filter_def)
  qed
qed

interpretation presence_gate: reliable_gate
    offer_presence psRevision presence_mark presence_log has_conn "\<lambda>s. True" no_faults
proof
  fix c s
  assume l: "has_conn c"
  show "has_conn (offer_presence s c)"
    by (cases rule: writePresence_cases [OF l, of s]) (simp_all add: l)
  show "presence_log (offer_presence s c) = presence_log c \<and>
      presence_mark (offer_presence s c) = presence_mark c \<or>
      above (presence_mark c) (psRevision s) \<and>
      presence_log (offer_presence s c) = presence_log c @ [s] \<and>
      presence_mark (offer_presence s c) = Some (psRevision s)"
    by (cases rule: writePresence_cases [OF l, of s]) simp_all
  assume up: "no_faults c"
  show "no_faults (offer_presence s c)"
    by (cases rule: writePresence_cases [OF l, of s]) (simp_all add: up)
  assume "above (presence_mark c) (psRevision s)"
  then show "presence_log (offer_presence s c) = presence_log c @ [s] \<and>
      presence_mark (offer_presence s c) = Some (psRevision s)"
    by (cases rule: writePresence_cases [OF l, of s]) (simp_all add: up)
qed

end
