(* ===== verification/Replay_Handoff.thy ===== *)
theory Replay_Handoff
  imports Client_Gates
begin

section \<open>From replay to live delivery\<close>

text \<open>
  Between \<open>beginReplay\<close> and \<open>finishReplay\<close> two threads use a client: the resume handler
  writes historical events with \<open>WriteJSON\<close>, and the room's watcher offers live updates,
  which are buffered. An interleaving of the two is a list of \<open>handoff_act\<close>s; every
  interleaving is allowed. The theorem: what the socket receives is the history, then the
  buffered updates beyond the boundary in order, each once.
\<close>

datatype handoff_act = Replayed Message | LiveUpdate Message

fun handoff_step :: "handoff_act \<Rightarrow> client \<Rightarrow> write_result \<times> client" where
  "handoff_step (Replayed m) c = WriteJSON c m"
| "handoff_step (LiveUpdate m) c = writeContentUpdate m c"

text \<open>The handler gives up at its first failed write; a failed live write is only logged.\<close>

fun handoff_run :: "handoff_act list \<Rightarrow> client \<Rightarrow> write_result \<times> client" where
  "handoff_run [] c = (Ok (), c)"
| "handoff_run (a # acts) c = (case handoff_step a c of
     (Ok u, c') \<Rightarrow> handoff_run acts c'
   | (Err e, c') \<Rightarrow> (case a of Replayed m \<Rightarrow> (Err e, c') | LiveUpdate m \<Rightarrow> handoff_run acts c')
   | (Panic, c') \<Rightarrow> (Panic, c'))"

definition handoff :: "handoff_act list \<Rightarrow> Message \<Rightarrow> client \<Rightarrow> write_result \<times> client" where
  "handoff acts complete c = (case handoff_run acts c of
     (Ok u, c') \<Rightarrow> finishReplay complete c'
   | (Err e, c') \<Rightarrow> (Err e, c')
   | (Panic, c') \<Rightarrow> (Panic, c'))"

fun replayed_of :: "handoff_act list \<Rightarrow> Message list" where
  "replayed_of [] = []"
| "replayed_of (Replayed m # acts) = m # replayed_of acts"
| "replayed_of (LiveUpdate m # acts) = replayed_of acts"

fun live_of :: "handoff_act list \<Rightarrow> Message list" where
  "live_of [] = []"
| "live_of (Replayed m # acts) = live_of acts"
| "live_of (LiveUpdate m # acts) = m # live_of acts"

subsection \<open>While the replay runs\<close>

definition buffering :: "client \<Rightarrow> bool" where
  "buffering c \<longleftrightarrow> replaying c \<and> pending_ok c \<and> has_conn c"

lemma buffering_beginReplay: "has_conn c \<Longrightarrow> buffering (beginReplay n c)"
  by (simp add: buffering_def beginReplay_def pending_ok_def has_conn_def)

text \<open>Buffering an update writes nothing and adds its sequence to the pending ones.\<close>

lemma buffering_update:
  assumes "buffering c" "is_content m"
  obtains c' where "writeContentUpdate m c = (Ok (), c')" "buffering c'"
    "lastSequence c' = lastSequence c" "client_frames c' = client_frames c"
    "no_faults c' = no_faults c"
    "fst ` set (pending_list c') =
       fst ` set (pending_list c) \<union> (if lastSequence c < mSequence m then {mSequence m} else {})"
proof -
  from assms(1) obtain p where p: "replaying c" "pending c = Some p" "distinct (map fst p)"
      "\<forall>s m. map_of p s = Some m \<longrightarrow> mSequence m = s \<and> is_content m \<and> lastSequence c < s"
      "has_conn c"
    by (auto simp: buffering_def pending_ok_def)
  show thesis
  proof (cases "mSequence m \<le> lastSequence c")
    case True
    with assms show thesis by (intro that [of c]) (simp_all add: writeContentUpdate_def)
  next
    case False
    let ?q = "AList.update (mSequence m) m p"
    let ?c = "c\<lparr>pending := Some ?q\<rparr>"
    have "buffering ?c"
      using p assms(2) False
      by (auto simp: buffering_def pending_ok_def has_conn_def distinct_update update_Some_unfold)
    with p False show thesis
      by (intro that [of ?c]) (auto simp: writeContentUpdate_def pending_list_def dom_update)
  qed
qed

lemma buffering_replayed:
  assumes "buffering c"
  obtains (fault) e c' where "WriteJSON c m = (Err e, c')" "\<not> no_faults c"
  | (sent) c' where "WriteJSON c m = (Ok (), c')" "buffering c'"
      "client_frames c' = client_frames c @ [FMessage m]" "lastSequence c' = lastSequence c"
      "pending_list c' = pending_list c" "no_faults c' = no_faults c"
proof (cases rule: client_write_cases [of c "FMessage m"])
  case panic
  with assms that show thesis by (simp add: buffering_def has_conn_def)
next
  case (fault e c')
  then show thesis using that(1) by (simp add: WriteJSON_def)
next
  case (sent c')
  from sent(3) have same: "replaying c' = replaying c" "pending c' = pending c"
      "lastSequence c' = lastSequence c"
    by (metis client.select_convs client.update_convs(1) client.surjective)+
  with sent assms show thesis
    by (intro that(2) [of c'])
       (simp_all add: WriteJSON_def buffering_def pending_ok_def pending_list_def)
qed

text \<open>A run without faults: the replayed messages are written in order, the live ones
  are pending.\<close>

lemma handoff_run_no_faults:
  assumes "buffering c" "no_faults c" "\<forall>m\<in>set (live_of acts). is_content m"
  shows "\<exists>c'. handoff_run acts c = (Ok (), c') \<and> buffering c' \<and> no_faults c' \<and>
    lastSequence c' = lastSequence c \<and>
    client_frames c' = client_frames c @ map FMessage (replayed_of acts) \<and>
    fst ` set (pending_list c') = fst ` set (pending_list c) \<union>
      {s \<in> mSequence ` set (live_of acts). lastSequence c < s}"
  using assms
proof (induction acts arbitrary: c)
  case Nil
  then show ?case by simp
next
  case (Cons a acts)
  show ?case
  proof (cases a)
    case (Replayed m)
    from Cons.prems(1) show ?thesis
    proof (cases rule: buffering_replayed [where m = m])
      case (fault e c')
      with Cons.prems show ?thesis by simp
    next
      case (sent c')
      with Cons.prems Replayed Cons.IH [of c'] show ?thesis by simp
    qed
  next
    case (LiveUpdate m)
    with Cons.prems have "is_content m" by simp
    then obtain c' where c': "writeContentUpdate m c = (Ok (), c')" "buffering c'"
      "lastSequence c' = lastSequence c" "client_frames c' = client_frames c"
      "no_faults c' = no_faults c"
      "fst ` set (pending_list c') =
         fst ` set (pending_list c) \<union> (if lastSequence c < mSequence m then {mSequence m} else {})"
      using buffering_update Cons.prems(1) by metis
    with Cons.prems LiveUpdate Cons.IH [of c'] show ?thesis by auto
  qed
qed

subsection \<open>The flush\<close>

lemma flush_pending_no_faults:
  assumes "no_faults c" "\<forall>s\<in>set ss. \<exists>m. map_of (pending_list c) s = Some m \<and> is_content m \<and> mSequence m = s"
  shows "\<exists>c'. flush_pending ss c = (Ok (), c') \<and> no_faults c' \<and> \<not> replaying c' \<and>
    lastSequence c' = (if ss = [] then lastSequence c else last ss) \<and>
    map mSequence (content_log c') = map mSequence (content_log c) @ ss"
  using assms
proof (induction ss arbitrary: c)
  case Nil
  then show ?case by simp
next
  case (Cons s ss)
  then obtain m where m: "map_of (pending_list c) s = Some m" "is_content m" "mSequence m = s"
    by auto
  let ?c = "(put_frame (FMessage m) c)\<lparr>lastSequence := s\<rparr>"
  have "no_faults ?c" "pending_list ?c = pending_list c"
    using Cons.prems by (simp_all add: pending_list_def)
  with Cons.IH [of ?c] Cons.prems m show ?case by (auto simp: WriteJSON_no_faults)
qed

lemma finishReplay_no_faults:
  assumes "buffering c" "no_faults c" "\<not> is_content complete" "lastSequence c \<le> mLatestSequence complete"
    and ss: "ss = sort (filter (\<lambda>s. mLatestSequence complete < s) (map fst (pending_list c)))"
  shows "\<exists>c'. finishReplay complete c = (Ok (), c') \<and> no_faults c' \<and> \<not> replaying c' \<and>
    lastSequence c' = (if ss = [] then mLatestSequence complete else last ss) \<and>
    map mSequence (content_log c') = map mSequence (content_log c) @ ss"
proof -
  let ?c = "(put_frame (FMessage complete) c)\<lparr>lastSequence := mLatestSequence complete\<rparr>"
  have "\<exists>m. map_of (pending_list ?c) s = Some m \<and> is_content m \<and> mSequence m = s" if "s \<in> set ss" for s
  proof -
    from that ss have "s \<in> fst ` set (pending_list c)" by auto
    then obtain m where "map_of (pending_list c) s = Some m"
      by (metis map_of_eq_None_iff not_None_eq)
    with assms(1) show ?thesis
      by (auto simp: buffering_def pending_ok_def pending_list_def)
  qed
  then obtain c' where "flush_pending ss ?c = (Ok (), c')" "no_faults c'" "\<not> replaying c'"
    "lastSequence c' = (if ss = [] then lastSequence ?c else last ss)"
    "map mSequence (content_log c') = map mSequence (content_log ?c) @ ss"
    using flush_pending_no_faults [of ?c ss] assms(2) by auto
  with assms show ?thesis
    by (simp add: finishReplay_def WriteJSON_no_faults pending_list_def Let_def)
qed

text \<open>The pending sequences beyond the boundary, sorted, when they are a whole interval.\<close>

lemma sort_interval:
  fixes xs :: "int list"
  assumes "distinct xs" "{s \<in> set xs. b < s} = {b + 1..k}"
  shows "sort (filter (\<lambda>s. b < s) xs) = [b + 1..k]"
  by (rule sorted_distinct_set_unique) (use assms in \<open>simp_all add: set_upto\<close>)

text \<open>
  Exactness of the handoff: with the history \<open>n + 1, \<dots>, b\<close> replayed and every update
  \<open>b + 1, \<dots>, k\<close> offered live at some moment, in any interleaving and with any number
  of repetitions or older updates, the socket receives \<open>n + 1, \<dots>, k\<close>.
\<close>

lemma handoff_delivers_interval:
  assumes nf: "no_faults c" and start: "c0 = beginReplay n c"
    and hist: "\<forall>m\<in>set (replayed_of acts). is_content m" "map mSequence (replayed_of acts) = [n + 1..b]"
    and live: "\<forall>m\<in>set (live_of acts). is_content m"
      "{s \<in> mSequence ` set (live_of acts). b < s} = {b + 1..k}"
    and order: "n \<le> b" "b \<le> k"
    and compl: "\<not> is_content complete" "mLatestSequence complete = b"
  shows "\<exists>c'. handoff acts complete c0 = (Ok (), c') \<and> \<not> replaying c' \<and> lastSequence c' = k \<and>
    map mSequence (content_log c') = map mSequence (content_log c) @ [n + 1..k]"
proof -
  have "buffering c0" "no_faults c0" "lastSequence c0 = n" "pending_list c0 = []"
      "client_frames c0 = client_frames c"
    using nf by (simp_all add: start buffering_beginReplay no_faults_has_conn)
       (simp_all add: beginReplay_def pending_list_def)
  then obtain c1 where c1: "handoff_run acts c0 = (Ok (), c1)" "buffering c1" "no_faults c1"
      "lastSequence c1 = n" "client_frames c1 = client_frames c @ map FMessage (replayed_of acts)"
      "fst ` set (pending_list c1) = {s \<in> mSequence ` set (live_of acts). n < s}"
    using handoff_run_no_faults [of c0 acts] live(1) by auto
  have log1: "map mSequence (content_log c1) = map mSequence (content_log c) @ [n + 1..b]"
  proof -
    have "List.map_filter content_of (map FMessage ms) = ms" if "\<forall>m\<in>set ms. is_content m" for ms
      using that by (induction ms) (simp_all add: map_filter_simps)
    with hist c1(5) show ?thesis by (simp add: content_log_frames)
  qed
  have "distinct (map fst (pending_list c1))"
    using c1(2) by (auto simp: buffering_def pending_ok_def pending_list_def)
  moreover have "{s \<in> set (map fst (pending_list c1)). b < s} = {b + 1..k}"
    using c1(6) live(2) order(1) by auto
  ultimately have "sort (filter (\<lambda>s. mLatestSequence complete < s) (map fst (pending_list c1))) = [b + 1..k]"
    unfolding compl(2) by (rule sort_interval)
  with finishReplay_no_faults [OF c1(2,3) compl(1)] c1(1,4) log1 order compl(2) show ?thesis
    by (auto simp: handoff_def upto_append upto_snoc)
qed

end
