(* ===== verification/Room.thy ===== *)
theory Room
  imports Replay_Handoff Occ Redis_Store
begin

section \<open>A room of one backend\<close>

text \<open>
  \<^verbatim>\<open>backend/room.go\<close> and the room functions of \<^verbatim>\<open>backend/presence.go\<close>. A room holds
  pointers to its clients; the clients live in a heap from pointers to clients, which the
  room's broadcasts update in the order of its list. \<open>rStore\<close> says whether the room is
  backed by Redis (\<open>Store != nil\<close>). Each method holds the room's lock for its whole body,
  so it is one function.
\<close>

type_synonym ptr = nat
type_synonym heap = "ptr \<Rightarrow> client"

record Room =
  rID :: string
  rContent :: string
  rVersion :: int64
  rSequence :: int64
  rClients :: "ptr list"
  rStore :: bool
  localPresenceRevision :: int64

subsection \<open>Membership\<close>

definition AddClient :: "ptr \<Rightarrow> Room \<Rightarrow> Room" where
  "AddClient p r =
     (let r1 = r\<lparr>rClients := rClients r @ [p]\<rparr>
      in if \<not> rStore r1
         then r1\<lparr>localPresenceRevision := wrap64 (localPresenceRevision r1 + 1)\<rparr> else r1)"

definition RemoveClient :: "ptr \<Rightarrow> Room \<Rightarrow> Room" where
  "RemoveClient target r =
     (let updatedClients = filter (\<lambda>p. p \<noteq> target) (rClients r);
          r1 = (if \<not> rStore r \<and> length updatedClients \<noteq> length (rClients r)
                then r\<lparr>localPresenceRevision := wrap64 (localPresenceRevision r + 1)\<rparr> else r)
      in r1\<lparr>rClients := updatedClients\<rparr>)"

definition GetUsernames :: "heap \<Rightarrow> Room \<Rightarrow> string list" where
  "GetUsernames h r = map (\<lambda>p. cUsername (h p)) (rClients r)"

definition ClientCount :: "Room \<Rightarrow> nat" where
  "ClientCount r = length (rClients r)"

definition clientsSnapshot :: "Room \<Rightarrow> ptr list" where
  "clientsSnapshot r = rClients r"

text \<open>A distributed room never shows its backend-local list of users.\<close>

definition roomStateUsers :: "heap \<Rightarrow> Room \<Rightarrow> string list" where
  "roomStateUsers h r = (if rStore r then [] else GetUsernames h r)"

subsection \<open>The document\<close>

definition room_snapshot :: "Room \<Rightarrow> RoomSnapshot" where
  "room_snapshot r = \<lparr>sContent = rContent r, sVersion = rVersion r, sSequence = rSequence r\<rparr>"

definition applyLocalContentUpdate :: "string \<Rightarrow> int64 \<Rightarrow> StaleWritePolicy \<Rightarrow> Room \<Rightarrow>
    ApplyContentResult \<times> Room" where
  "applyLocalContentUpdate content baseVersion policy r =
     (let previousVersion = rVersion r;
          stale = (baseVersion \<noteq> previousVersion)
      in if stale \<and> policy = StaleWriteReject
         then (\<lparr>arAccepted = False, arReason = ''stale_base_version'', arContent = rContent r,
                arBaseVersion = baseVersion, arPreviousVersion = previousVersion,
                arServerVersion = rVersion r, arSequence = rSequence r, arStreamID = [],
                arStale = True\<rparr>, r)
         else (let r1 = r\<lparr>rContent := content, rVersion := wrap64 (rVersion r + 1),
                          rSequence := wrap64 (rSequence r + 1)\<rparr>
               in (\<lparr>arAccepted = True, arReason = [], arContent = rContent r1,
                    arBaseVersion = baseVersion, arPreviousVersion = previousVersion,
                    arServerVersion = rVersion r1, arSequence = rSequence r1, arStreamID = [],
                    arStale = stale\<rparr>, r1)))"

definition ApplyContentUpdate :: "string \<Rightarrow> int64 \<Rightarrow> StaleWritePolicy \<Rightarrow> Room \<Rightarrow>
    ApplyContentResult \<times> Room" where
  "ApplyContentUpdate = applyLocalContentUpdate"

definition ApplyDistributedEvent :: "DistributedEvent \<Rightarrow> Room \<Rightarrow> bool \<times> Room" where
  "ApplyDistributedEvent event r =
     (if eSequence event \<le> rSequence r then (False, r)
      else (True, r\<lparr>rContent := eContent event, rVersion := eVersion event,
                    rSequence := eSequence event\<rparr>))"

definition applySnapshot :: "RoomSnapshot \<Rightarrow> Room \<Rightarrow> Room" where
  "applySnapshot s r =
     (if sSequence s < rSequence r then r
      else r\<lparr>rContent := sContent s, rVersion := sVersion s, rSequence := sSequence s\<rparr>)"

text \<open>
  \<open>ApplyOperation\<close>: a distributed room delegates to the store and caches the returned
  state, whether the write was accepted or refused. \<open>exec\<close> is Redis with the scripts, and
  \<open>net\<close> what happens to the calls.
\<close>

definition ApplyOperation :: "'db exec \<Rightarrow> 'db net \<Rightarrow> string \<Rightarrow> int64 \<Rightarrow> StaleWritePolicy \<Rightarrow> string \<Rightarrow>
    string \<Rightarrow> string \<Rightarrow> Room \<Rightarrow> 'db \<Rightarrow> ApplyContentResult store_result \<times> Room \<times> 'db" where
  "ApplyOperation exec net content baseVersion policy operationID clientID username r db =
     (if rStore r then
        (case ApplyContentUpdate_store exec net (rID r) content baseVersion policy operationID clientID username db of
           (Ok result, db') \<Rightarrow>
             (Ok result, applySnapshot \<lparr>sContent = arContent result, sVersion = arServerVersion result,
                                        sSequence = arSequence result\<rparr> r, db')
         | (Err e, db') \<Rightarrow> (Err e, r, db')
         | (Panic, db') \<Rightarrow> (Panic, r, db'))
      else (case applyLocalContentUpdate content baseVersion policy r of
           (result, r') \<Rightarrow> (Ok result, r', db)))"

text \<open>
  \<open>Room.GetSnapshot\<close> refreshes the cache from the store if it can, and then returns the
  cache. It has no error of its own: the only outcome beside a snapshot is a panic.
\<close>

definition GetSnapshot :: "'db exec \<Rightarrow> 'db net \<Rightarrow> Room \<Rightarrow> 'db \<Rightarrow> RoomSnapshot store_result \<times> Room \<times> 'db" where
  "GetSnapshot exec net r db =
     (if rStore r then
        (case GetSnapshot_store exec net (rID r) db of
           (Ok (Some s), db') \<Rightarrow> (let r1 = applySnapshot s r in (Ok (room_snapshot r1), r1, db'))
         | (Ok None, db') \<Rightarrow> (Ok (room_snapshot r), r, db')
         | (Err e, db') \<Rightarrow> (Ok (room_snapshot r), r, db')
         | (Panic, db') \<Rightarrow> (Panic, r, db'))
      else (Ok (room_snapshot r), r, db))"

subsection \<open>Broadcasts\<close>

text \<open>
  One delivery to one client; \<open>None\<close> stands for a panic. A write error is only logged.
\<close>

definition deliver_message :: "bool \<Rightarrow> Message \<Rightarrow> client \<Rightarrow> client option" where
  "deliver_message store m c =
     (if cConn c = None then Some c
      else case (if store \<and> mType m = ''content_update'' then writeContentUpdate m c else WriteJSON c m) of
             (Panic, c') \<Rightarrow> None
           | (_, c') \<Rightarrow> Some c')"

fun broadcast_to :: "(client \<Rightarrow> client option) \<Rightarrow> ptr list \<Rightarrow> heap \<Rightarrow> heap option" where
  "broadcast_to f [] h = Some h"
| "broadcast_to f (p # ps) h =
     (case f (h p) of None \<Rightarrow> None | Some c \<Rightarrow> broadcast_to f ps (h(p := c)))"

definition BroadcastJSON :: "Message \<Rightarrow> Room \<Rightarrow> heap \<Rightarrow> heap option" where
  "BroadcastJSON m r h = broadcast_to (deliver_message (rStore r) m) (clientsSnapshot r) h"

definition deliver_text :: "string \<Rightarrow> client \<Rightarrow> client option" where
  "deliver_text s c =
     (if cConn c = None then Some c
      else case WriteMessage c s of (Panic, c') \<Rightarrow> None | (_, c') \<Rightarrow> Some c')"

definition Broadcast :: "string \<Rightarrow> Room \<Rightarrow> heap \<Rightarrow> heap option" where
  "Broadcast s r h = broadcast_to (deliver_text s) (clientsSnapshot r) h"

definition localPresenceSnapshot :: "heap \<Rightarrow> Room \<Rightarrow> PresenceSnapshot" where
  "localPresenceSnapshot h r =
     \<lparr>psRevision = localPresenceRevision r,
      psParticipants = sortParticipants (map (\<lambda>p. participant (h p)) (rClients r))\<rparr>"

definition deliver_presence :: "PresenceSnapshot \<Rightarrow> client \<Rightarrow> client option" where
  "deliver_presence s c =
     (if cConn c = None then Some c
      else case writePresence s c of (Panic, c') \<Rightarrow> None | (_, c') \<Rightarrow> Some c')"

definition broadcastPresenceSnapshot :: "PresenceSnapshot \<Rightarrow> Room \<Rightarrow> heap \<Rightarrow> heap option" where
  "broadcastPresenceSnapshot s r h = broadcast_to (deliver_presence s) (clientsSnapshot r) h"

definition BroadcastPresence :: "Room \<Rightarrow> heap \<Rightarrow> heap option" where
  "BroadcastPresence r h =
     (if \<not> rStore r then broadcastPresenceSnapshot (localPresenceSnapshot h r) r h else Some h)"

end
