(* ===== verification/Room_Facts.thy ===== *)
theory Room_Facts
  imports Room
begin

section \<open>What a room promises\<close>

text \<open>
  The room in memory as an instance of \<open>occ_document\<close>, the events of a room as a \<open>reliable_gate\<close>, and broadcasts.
\<close>

subsection \<open>The in-memory document is an optimistic document\<close>

definition room_sound :: "Room \<Rightarrow> bool" where
  "room_sound r \<longleftrightarrow> min_int64 \<le> rVersion r \<and> min_int64 \<le> rSequence r"

abbreviation local_write :: "StaleWritePolicy \<Rightarrow> write_op \<Rightarrow> Room \<Rightarrow> ApplyContentResult \<times> Room" where
  "local_write policy w r \<equiv> applyLocalContentUpdate (wContent w) (wBase w) policy r"

interpretation local_doc: occ_document local_write room_snapshot room_sound "\<lambda>w. True" max_int64
proof
  fix policy w r
  assume so: "room_sound r" and fit: "fits max_int64 1 (room_snapshot r)"
  then have wr: "wrap64 (rVersion r + 1) = rVersion r + 1" "wrap64 (rSequence r + 1) = rSequence r + 1"
    by (simp_all add: wrap64_succ room_sound_def fits_def room_snapshot_def)
  show "room_sound (snd (local_write policy w r))"
    using so wr by (auto simp: applyLocalContentUpdate_def room_sound_def Let_def)
  show "room_snapshot (snd (local_write policy w r)) = occ_next policy w (room_snapshot r)"
    using wr by (cases policy)
      (auto simp: applyLocalContentUpdate_def occ_next_def occ_accepts_def room_snapshot_def Let_def)
  show "\<exists>sid. fst (local_write policy w r) = occ_result policy w (room_snapshot r) sid"
    using wr by (intro exI [of _ "[]"], cases policy)
      (auto simp: applyLocalContentUpdate_def occ_result_def occ_accepts_def room_snapshot_def Let_def)
qed

subsection \<open>A distributed room applies events in order, each once\<close>

text \<open>The room with the list of the events it has applied.\<close>

definition offer_event :: "DistributedEvent \<Rightarrow> Room \<times> DistributedEvent list \<Rightarrow> Room \<times> DistributedEvent list" where
  "offer_event e rl = (case ApplyDistributedEvent e (fst rl) of
     (b, r') \<Rightarrow> (r', if b then snd rl @ [e] else snd rl))"

interpretation event_gate: reliable_gate
    offer_event eSequence "\<lambda>rl. Some (rSequence (fst rl))" snd "\<lambda>rl. True" "\<lambda>e. True" "\<lambda>rl. True"
  by unfold_locales (auto simp: offer_event_def ApplyDistributedEvent_def)

text \<open>Applying an event twice, or an older one after it, changes nothing.\<close>

lemma ApplyDistributedEvent_idem:
  "snd (ApplyDistributedEvent e (snd (ApplyDistributedEvent e r))) = snd (ApplyDistributedEvent e r)"
  by (simp add: ApplyDistributedEvent_def)

lemma applySnapshot_sequence: "rSequence (applySnapshot s r) = max (sSequence s) (rSequence r)"
  by (simp add: applySnapshot_def)

lemma ApplyDistributedEvent_sequence:
  "rSequence (snd (ApplyDistributedEvent e r)) = max (eSequence e) (rSequence r)"
  by (simp add: ApplyDistributedEvent_def)

lemma applySnapshot_frame [simp]:
  "rStore (applySnapshot s r) = rStore r" "rClients (applySnapshot s r) = rClients r"
  "rID (applySnapshot s r) = rID r"
  by (simp_all add: applySnapshot_def)

lemma ApplyDistributedEvent_frame [simp]:
  "rStore (snd (ApplyDistributedEvent e r)) = rStore r"
  "rClients (snd (ApplyDistributedEvent e r)) = rClients r"
  "rID (snd (ApplyDistributedEvent e r)) = rID r"
  by (simp_all add: ApplyDistributedEvent_def)

subsection \<open>Membership\<close>

lemma RemoveClient_absent: "p \<notin> set (rClients r) \<Longrightarrow> RemoveClient p r = r"
  by (simp add: RemoveClient_def)

lemma RemoveClient_clients [simp]: "rClients (RemoveClient p r) = filter (\<lambda>q. q \<noteq> p) (rClients r)"
  by (simp add: RemoveClient_def Let_def)

lemma AddClient_clients [simp]: "rClients (AddClient p r) = rClients r @ [p]"
  by (simp add: AddClient_def Let_def)

lemma AddClient_RemoveClient_clients:
  "p \<notin> set (rClients r) \<Longrightarrow> rClients (RemoveClient p (AddClient p r)) = rClients r"
  by simp

text \<open>The local revision moves exactly when the membership does.\<close>

lemma RemoveClient_revision:
  "localPresenceRevision (RemoveClient p r) =
     (if \<not> rStore r \<and> p \<in> set (rClients r) then wrap64 (localPresenceRevision r + 1)
      else localPresenceRevision r)"
  by (simp add: RemoveClient_def Let_def)

subsection \<open>Broadcasts\<close>

text \<open>The clients of a room are set up so that no delivery can panic.\<close>

definition heap_ok :: "heap \<Rightarrow> bool" where
  "heap_ok h \<longleftrightarrow> (\<forall>p. pending_ok (h p))"

lemma broadcast_to_total:
  assumes "\<And>c. pending_ok c \<Longrightarrow> \<exists>c'. f c = Some c' \<and> pending_ok c'" "heap_ok h"
  shows "\<exists>h'. broadcast_to f ps h = Some h' \<and> heap_ok h'"
  using assms(2)
proof (induction ps arbitrary: h)
  case (Cons p ps)
  then have "pending_ok (h p)" by (simp add: heap_ok_def)
  then obtain c' where "f (h p) = Some c'" "pending_ok c'" using assms(1) by blast
  moreover from this Cons.prems have "heap_ok (h(p := c'))" by (simp add: heap_ok_def)
  ultimately show ?case using Cons.IH by simp
qed simp

lemma broadcast_to_frame:
  "broadcast_to f ps h = Some h' \<Longrightarrow> q \<notin> set ps \<Longrightarrow> h' q = h q"
  by (induction ps arbitrary: h) (auto split: option.splits)

text \<open>Each member gets the delivery exactly once when no pointer is listed twice.\<close>

lemma broadcast_to_member:
  "broadcast_to f ps h = Some h' \<Longrightarrow> distinct ps \<Longrightarrow> q \<in> set ps \<Longrightarrow> Some (h' q) = f (h q)"
proof (induction ps arbitrary: h)
  case (Cons p ps)
  then obtain c where c: "f (h p) = Some c" "broadcast_to f ps (h(p := c)) = Some h'"
    by (auto split: option.splits)
  show ?case
  proof (cases "q = p")
    case True
    with c Cons.prems(2) broadcast_to_frame [OF c(2), of p] show ?thesis by simp
  next
    case False
    with c Cons.prems Cons.IH [OF c(2)] show ?thesis by simp
  qed
qed simp

lemma pending_ok_write_same:
  "pending_ok c \<Longrightarrow> c' = c\<lparr>cConn := k\<rparr> \<Longrightarrow> pending_ok c'"
  by (simp add: pending_ok_def)

lemma deliver_message_total:
  assumes "pending_ok c"
  shows "\<exists>c'. deliver_message store m c = Some c' \<and> pending_ok c'"
proof (cases "cConn c = None")
  case True
  with assms show ?thesis by (simp add: deliver_message_def)
next
  case conn: False
  have json: "\<exists>r c'. WriteJSON c m = (r, c') \<and> r \<noteq> Panic \<and> pending_ok c' \<and>
      replaying c' = replaying c"
  proof (cases rule: client_write_cases [of c "FMessage m"])
    case panic
    with conn show ?thesis by simp
  next
    case (fault e c')
    from fault(3) have "replaying c' = replaying c"
      by (metis client.select_convs client.update_convs(1) client.surjective)
    with fault pending_ok_write_same [OF assms fault(3)] show ?thesis by (simp add: WriteJSON_def)
  next
    case (sent c')
    from sent(3) have "replaying c' = replaying c"
      by (metis client.select_convs client.update_convs(1) client.surjective)
    with sent pending_ok_write_same [OF assms sent(3)] show ?thesis by (simp add: WriteJSON_def)
  qed
  show ?thesis
  proof (cases "store \<and> mType m = ''content_update''")
    case False
    with conn json show ?thesis by (auto simp: deliver_message_def split: outcome.splits)
  next
    case True
    then have m: "is_content m" by (simp add: is_content_def)
    show ?thesis
    proof (cases "replaying c")
      case True
      with assms conn have "buffering c" by (simp add: buffering_def has_conn_def)
      with m obtain c' where "writeContentUpdate m c = (Ok (), c')" "buffering c'"
        using buffering_update by metis
      with conn \<open>store \<and> _\<close> show ?thesis by (auto simp: deliver_message_def buffering_def)
    next
      case False
      with json conn \<open>store \<and> _\<close> show ?thesis
        by (auto simp: deliver_message_def writeContentUpdate_def pending_ok_def split: outcome.splits)
    qed
  qed
qed

lemma BroadcastJSON_total: "heap_ok h \<Longrightarrow> \<exists>h'. BroadcastJSON m r h = Some h' \<and> heap_ok h'"
  unfolding BroadcastJSON_def by (rule broadcast_to_total [OF deliver_message_total])

end
