(* ===== verification/Room_Cache.thy ===== *)
theory Room_Cache
  imports Room_Facts Redis_Reads "HOL-Library.Sublist"
begin

section \<open>The cache of a distributed room\<close>

text \<open>
  A backend keeps the content, version and sequence of a distributed room in its \<open>Room\<close>.
  The cache is right when it is the state of the room after some prefix of its log:
  \<open>cache_ok\<close>. Applying a stream event, an operation's result, or a snapshot read while
  nobody writes keeps it right, and never takes it backwards.
\<close>

definition cache_ok :: "DistributedEvent list \<Rightarrow> Room \<Rightarrow> bool" where
  "cache_ok L r \<longleftrightarrow> rStore r \<and> (\<exists>k\<le>length L. room_snapshot r = snapshot_of (take k L))"

lemma cache_okI: "rStore r \<Longrightarrow> prefix P L \<Longrightarrow> room_snapshot r = snapshot_of P \<Longrightarrow> cache_ok L r"
  by (auto simp: cache_ok_def prefix_def intro!: exI [of _ "length P"])

lemma cache_okE:
  assumes "cache_ok L r"
  obtains P where "rStore r" "prefix P L" "room_snapshot r = snapshot_of P" "rSequence r = int (length P)"
proof -
  from assms obtain k where k: "rStore r" "k \<le> length L" "room_snapshot r = snapshot_of (take k L)"
    by (auto simp: cache_ok_def)
  then have "rSequence r = sSequence (snapshot_of (take k L))" by (metis RoomSnapshot.select_convs(3) room_snapshot_def)
  with k that [of "take k L"] show thesis by (simp add: take_is_prefix)
qed

lemma cache_ok_extend: "cache_ok L r \<Longrightarrow> prefix L L' \<Longrightarrow> cache_ok L' r"
  by (metis cache_okE cache_okI prefix_order.trans)

lemma room_snapshot_applySnapshot:
  "room_snapshot (applySnapshot s r) = (if sSequence s < rSequence r then room_snapshot r else s)"
  by (simp add: applySnapshot_def room_snapshot_def)

lemma cache_ok_applySnapshot:
  "cache_ok L r \<Longrightarrow> prefix P L \<Longrightarrow> cache_ok L (applySnapshot (snapshot_of P) r)"
  by (metis applySnapshot_frame(1) cache_okE cache_okI room_snapshot_applySnapshot)

text \<open>An event of the log, applied to the cache.\<close>

lemma snapshot_event:
  assumes "log_ok L" "i < length L"
  shows "snapshot_of (take (Suc i) L) =
    \<lparr>sContent = eContent (L ! i), sVersion = eVersion (L ! i), sSequence = eSequence (L ! i)\<rparr>"
  using assms log_ok_nth [OF assms] by (simp add: snapshot_of_def take_Suc_conv_app_nth)

lemma cache_ok_event:
  assumes "log_ok L" "cache_ok L r" "i < length L"
  shows "cache_ok L (snd (ApplyDistributedEvent (L ! i) r))"
proof (cases "eSequence (L ! i) \<le> rSequence r")
  case True
  with assms(2) show ?thesis by (simp add: ApplyDistributedEvent_def)
next
  case False
  have "rStore r" using assms(2) by (simp add: cache_ok_def)
  then show ?thesis
    using False snapshot_event [OF assms(1,3)]
    by (intro cache_okI [OF _ take_is_prefix [of "Suc i"]])
      (simp_all add: ApplyDistributedEvent_def room_snapshot_def)
qed

subsection \<open>Operations\<close>

text \<open>The cached snapshot of a result is the snapshot of the log after the operation.\<close>

lemma applied_log:
  assumes "applied V K rid L db policy w oid cid u sid db'" "redis_room (V db) rid L"
  obtains L' where "redis_room (V db') rid L'" "prefix L L'" "K db'"
    "\<lparr>sContent = arContent (occ_result policy w (snapshot_of L) sid),
      sVersion = arServerVersion (occ_result policy w (snapshot_of L) sid),
      sSequence = arSequence (occ_result policy w (snapshot_of L) sid)\<rparr> = snapshot_of L'"
proof (cases "occ_accepts policy (wBase w) (int (length L))")
  case True
  with assms(1) show thesis
    by (intro that [of "L @ [apply_event L sid (wContent w) oid cid u]"])
      (simp_all add: applied_def occ_result_def, simp add: snapshot_of_def apply_event_def)
next
  case False
  with assms show thesis by (intro that [of L]) (simp_all add: applied_def occ_result_def)
qed

lemma ApplyOperation_cache:
  assumes "redis_server E V K" "K (before net 0 db)" "redis_room (V (before net 0 db)) (rID r) L"
    "int (length L) < log_limit" "link_of net 0 = LinkUp" "cache_ok L r"
  obtains sid r' db' L' where
    "ApplyOperation (document_exec E) net content base policy oid cid u r db =
      (Ok (occ_result policy \<lparr>wContent = content, wBase = base\<rparr> (snapshot_of L) sid), r', db')"
    "K db'" "redis_room (V db') (rID r) L'" "prefix L L'" "cache_ok L' r'" "room_snapshot r' = snapshot_of L'"
    "snapshot_of L' = occ_next policy \<lparr>wContent = content, wBase = base\<rparr> (snapshot_of L)"
proof -
  let ?w = "\<lparr>wContent = content, wBase = base\<rparr>"
  obtain sid db' where *: "ApplyContentUpdate_store (document_exec E) net (rID r) content base policy oid cid u db =
      (Ok (occ_result policy ?w (snapshot_of L) sid), db')"
    "applied V K (rID r) L (before net 0 db) policy ?w oid cid u sid db'"
    using store_apply_linkup [OF assms(1-5), of ?w policy oid cid u] by auto
  obtain L' where L': "redis_room (V db') (rID r) L'" "prefix L L'" "K db'"
    "\<lparr>sContent = arContent (occ_result policy ?w (snapshot_of L) sid),
      sVersion = arServerVersion (occ_result policy ?w (snapshot_of L) sid),
      sSequence = arSequence (occ_result policy ?w (snapshot_of L) sid)\<rparr> = snapshot_of L'"
    using applied_log [OF *(2) assms(3)] by blast
  obtain P where P: "rStore r" "prefix P L" "rSequence r = int (length P)"
    using cache_okE [OF assms(6)] by metis
  have "\<not> sSequence (snapshot_of L') < rSequence r"
    using P(2,3) L'(2) by (simp add: prefix_length_le order.trans not_less)
  then have snap: "room_snapshot (applySnapshot (snapshot_of L') r) = snapshot_of L'"
    by (simp add: room_snapshot_applySnapshot)
  have nxt: "snapshot_of L' = occ_next policy ?w (snapshot_of L)"
    unfolding L'(4) [symmetric] by (simp add: occ_result_def occ_next_def)
  show thesis
  proof (rule that [OF _ L'(3,1,2) _ snap nxt])
    show "ApplyOperation (document_exec E) net content base policy oid cid u r db =
      (Ok (occ_result policy ?w (snapshot_of L) sid), applySnapshot (snapshot_of L') r, db')"
      using P(1) *(1) L'(4) by (simp add: ApplyOperation_def)
    show "cache_ok L' (applySnapshot (snapshot_of L') r)"
      by (rule cache_ok_applySnapshot [OF cache_ok_extend [OF assms(6) L'(2)]]) simp
  qed
qed

lemma GetSnapshot_cache:
  assumes "redis_server E V K" "K db" "redis_room (V db) (rID r) L" "cache_ok L r"
  obtains r' db' where "GetSnapshot (document_exec E) calm r db = (Ok (snapshot_of L), r', db')"
    "cache_ok L r'" "K db'" "V db' = V db"
proof -
  obtain db' where *: "GetSnapshot_store (document_exec E) calm (rID r) db = (Ok (Some (snapshot_of L)), db')"
    "K db'" "V db' = V db"
    by (rule GetSnapshot_calm [OF assms(1-3)])
  obtain P where P: "rStore r" "prefix P L" "rSequence r = int (length P)"
    using cache_okE [OF assms(4)] by metis
  then have "room_snapshot (applySnapshot (snapshot_of L) r) = snapshot_of L"
    using prefix_length_le [OF P(2)] by (simp add: room_snapshot_applySnapshot)
  moreover have "cache_ok L (applySnapshot (snapshot_of L) r)"
    by (rule cache_ok_applySnapshot [OF assms(4)]) simp
  ultimately show thesis
    using that * P(1) by (simp add: GetSnapshot_def Let_def)
qed

text \<open>Without a reachable store, \<open>GetSnapshot\<close> answers from the cache and changes nothing.\<close>

lemma GetSnapshot_unreachable:
  assumes "link_of net 0 = DialFails e \<or> link_of net 0 = WriteFails e" "rStore r"
  shows "GetSnapshot exec net r db = (Ok (room_snapshot r), r, before net 0 db)"
  using assms by (auto simp: GetSnapshot_def GetSnapshot_store_def do_at_def redis_do_def)

end
