(* ===== verification/Document_Properties.thy ===== *)
theory Document_Properties
  imports Mem_Room Room_Cache
begin

section \<open>Properties of the shared document\<close>

text \<open>
  The claims about writing and reading a room's document, in one backend's memory and in
  Redis, with a concrete instance of each.
\<close>

subsection \<open>Histories of writes\<close>

text \<open>
  C1: No lost update through Redis. Under the reject policy, whatever sequence of edits
  \<open>RedisStore.ApplyContentUpdate\<close> serves on a room, with whatever base versions, the accepted
  ones form a chain in which each was based on the version the one before it created; the
  room's content at the end is the content of the last accepted edit, and version and sequence
  both grew by exactly the number of accepted edits.
\<close>

theorem redis_no_lost_update:
  assumes "redis_server E V K" "room_in V K rid db"
    and "fits log_limit (int (length ws)) (room_snapshot_in (V db) rid)"
    and "run_writes (\<lambda>w db. apfst ok_of (store_write E rid oid cid u StaleWriteReject w db)) ws db = (rs, db')"
  shows "length rs = length ws \<and> room_in V K rid db' \<and>
    write_chain (sVersion (room_snapshot_in (V db) rid)) (accepted ws rs) \<and>
    sContent (room_snapshot_in (V db') rid) =
      final_content (sContent (room_snapshot_in (V db) rid)) (accepted ws rs) \<and>
    sVersion (room_snapshot_in (V db') rid) =
      sVersion (room_snapshot_in (V db) rid) + int (length (accepted ws rs)) \<and>
    sSequence (room_snapshot_in (V db') rid) =
      sSequence (room_snapshot_in (V db) rid) + int (length (accepted ws rs))"
  using occ_document.run_reject_chain [OF store_is_occ_document [OF assms(1)] assms(2) _ assms(3,4)]
  by simp

definition demo_writes :: "write_op list" where
  "demo_writes = [\<lparr>wContent = ''x'', wBase = 3\<rparr>, \<lparr>wContent = ''y'', wBase = 3\<rparr>, \<lparr>wContent = ''z'', wBase = 4\<rparr>]"

lemma demo_room_in: "room_in id mem_ok ''r1'' demo_db"
  unfolding room_in_iff id_apply by (intro conjI exI [of _ demo_log] demo_room)

lemma demo_snapshot: "room_snapshot_in demo_db ''r1'' = \<lparr>sContent = ''abc'', sVersion = 3, sSequence = 3\<rparr>"
proof -
  have "room_snapshot_in demo_db ''r1'' = snapshot_of demo_log"
    unfolding room_snapshot_in_def log_in_room [OF demo_room(1)] ..
  then show ?thesis by (simp add: snapshot_of_def demo_log_def demo_event_def)
qed

theorem redis_no_lost_update_witness:
  "\<exists>rs db'. run_writes (\<lambda>w db. apfst ok_of (store_write mem_exec ''r1'' (\<lambda>w. ''o'') (\<lambda>w. ''c'') (\<lambda>w. ''u'')
      StaleWriteReject w db)) demo_writes demo_db = (rs, db') \<and>
    length rs = 3 \<and> write_chain 3 (accepted demo_writes rs)"
proof -
  obtain rs db' where run: "run_writes (\<lambda>w db. apfst ok_of (store_write mem_exec ''r1'' (\<lambda>w. ''o'')
      (\<lambda>w. ''c'') (\<lambda>w. ''u'') StaleWriteReject w db)) demo_writes demo_db = (rs, db')"
    by force
  have "fits log_limit (int (length demo_writes)) (room_snapshot_in (id demo_db) ''r1'')"
    by (simp add: demo_snapshot fits_def demo_writes_def)
  from redis_no_lost_update [OF mem_redis_server demo_room_in this run] run
  show ?thesis by (auto simp: demo_snapshot demo_writes_def)
qed

text \<open>
  Under the accept policy every edit through \<open>RedisStore.ApplyContentUpdate\<close> is
  accepted, the last one is the content, and the version counts them all.
\<close>

theorem redis_last_writer_wins:
  assumes "redis_server E V K" "room_in V K rid db"
    and "fits log_limit (int (length ws)) (room_snapshot_in (V db) rid)"
    and "run_writes (\<lambda>w db. apfst ok_of (store_write E rid oid cid u StaleWriteAccept w db)) ws db = (rs, db')"
  shows "(\<forall>r\<in>set rs. arAccepted r) \<and>
    sContent (room_snapshot_in (V db') rid) =
      (if ws = [] then sContent (room_snapshot_in (V db) rid) else wContent (last ws)) \<and>
    sVersion (room_snapshot_in (V db') rid) = sVersion (room_snapshot_in (V db) rid) + int (length ws)"
  using occ_document.run_accept_all [OF store_is_occ_document [OF assms(1)] assms(2) _ assms(3,4)]
  by simp

theorem redis_last_writer_wins_witness:
  "\<exists>rs db'. run_writes (\<lambda>w db. apfst ok_of (store_write mem_exec ''r1'' (\<lambda>w. ''o'') (\<lambda>w. ''c'') (\<lambda>w. ''u'')
      StaleWriteAccept w db)) demo_writes demo_db = (rs, db') \<and> sContent (room_snapshot_in db' ''r1'') = ''z''"
proof -
  obtain rs db' where run: "run_writes (\<lambda>w db. apfst ok_of (store_write mem_exec ''r1'' (\<lambda>w. ''o'')
      (\<lambda>w. ''c'') (\<lambda>w. ''u'') StaleWriteAccept w db)) demo_writes demo_db = (rs, db')"
    by force
  have "fits log_limit (int (length demo_writes)) (room_snapshot_in (id demo_db) ''r1'')"
    by (simp add: demo_snapshot fits_def demo_writes_def)
  from redis_last_writer_wins [OF mem_redis_server demo_room_in this run] run
  show ?thesis by (auto simp: demo_snapshot demo_writes_def)
qed

text \<open>
  No lost update in one backend's memory: the same guarantee for
  \<open>Room.applyLocalContentUpdate\<close> of a room without Redis, up to the limit of \<open>int64\<close>.
\<close>

theorem local_no_lost_update:
  assumes "room_sound r" "fits max_int64 (int (length ws)) (room_snapshot r)"
    and "run_writes (local_write StaleWriteReject) ws r = (rs, r')"
  shows "length rs = length ws \<and> write_chain (rVersion r) (accepted ws rs) \<and>
    rContent r' = final_content (rContent r) (accepted ws rs) \<and>
    rVersion r' = rVersion r + int (length (accepted ws rs)) \<and>
    rSequence r' = rSequence r + int (length (accepted ws rs))"
  using local_doc.run_reject_chain [OF assms(1) _ assms(2,3)] by (simp add: room_snapshot_def)

definition demo_local_room :: Room where
  "demo_local_room = \<lparr>rID = ''r1'', rContent = ''abc'', rVersion = 3, rSequence = 3, rClients = [],
     rStore = False, localPresenceRevision = 0\<rparr>"

theorem local_no_lost_update_witness:
  "write_chain 3 (accepted demo_writes (fst (run_writes (local_write StaleWriteReject) demo_writes demo_local_room)))"
  using local_no_lost_update [of demo_local_room demo_writes
      "fst (run_writes (local_write StaleWriteReject) demo_writes demo_local_room)"
      "snd (run_writes (local_write StaleWriteReject) demo_writes demo_local_room)"]
  by (simp add: demo_local_room_def room_sound_def fits_def room_snapshot_def demo_writes_def)

subsection \<open>One write of the store\<close>

text \<open>
  C10: One \<open>ApplyContentUpdate\<close> over a link that is up: the result reports acceptance, the
  versions, the sequence and the conflict content exactly; an accepted edit appends one entry
  with a fresh stream identifier, equal sequence and version, and moves content, version and
  sequence with it in one step; a refused edit changes no key; no edit touches another key.
\<close>

theorem store_write_contract:
  assumes "redis_server E V K" "K (before net 0 db)" "redis_room (V (before net 0 db)) rid L"
    and "int (length L) < log_limit" "link_of net 0 = LinkUp"
  shows "\<exists>sid db'.
    ApplyContentUpdate_store (document_exec E) net rid (wContent w) (wBase w) policy oid cid u db =
      (Ok (occ_result policy w (snapshot_of L) sid), db') \<and>
    applied V K rid L (before net 0 db) policy w oid cid u sid db'"
  using store_apply_linkup [OF assms] by metis

theorem store_write_contract_witness:
  "\<exists>sid db'. ApplyContentUpdate_store (document_exec mem_exec) calm ''r1'' ''new'' 3 StaleWriteReject ''o'' ''c'' ''u'' demo_db =
      (Ok (occ_result StaleWriteReject \<lparr>wContent = ''new'', wBase = 3\<rparr> (snapshot_of demo_log) sid), db')"
  using store_write_contract [of mem_exec id mem_ok calm demo_db "''r1''" demo_log
      "\<lparr>wContent = ''new'', wBase = 3\<rparr>" StaleWriteReject "''o''" "''c''" "''u''"]
    mem_redis_server demo_room by (simp add: demo_log_def) blast

text \<open>
  C36: When the reply of a write is cut off by the network after \<open>n\<close> bytes, the caller gets an
  error (unless all of it arrived), yet the edit has been applied in Redis just as if the call
  had succeeded: an error of \<open>ApplyContentUpdate\<close> does not mean that the edit was not made.
\<close>

theorem store_write_cut_reply:
  assumes "redis_server E V K" "K (before net 0 db)" "redis_room (V (before net 0 db)) rid L"
    and "int (length L) < log_limit" "link_of net 0 = ReplyCut n"
    and "int (length (wContent w)) < 9223372036854775800" "int (length (sContent (snapshot_of L))) < 9223372036854775800"
  shows "\<exists>sid r db'.
    ApplyContentUpdate_store (document_exec E) net rid (wContent w) (wBase w) policy oid cid u db = (r, db') \<and>
    applied V K rid L (before net 0 db) policy w oid cid u sid db' \<and>
    (is_Err r \<or> 8 < n \<and> r = Ok (occ_result policy w (snapshot_of L) sid))"
  by (rule store_apply_cut [OF assms, of policy oid cid u]) blast

theorem store_write_cut_reply_witness:
  "\<exists>r db'. ApplyContentUpdate_store (document_exec mem_exec) (calm\<lparr>link_of := \<lambda>i. ReplyCut 3\<rparr>) ''r1'' ''new'' 3
       StaleWriteReject ''o'' ''c'' ''u'' demo_db = (r, db') \<and> is_Err r \<and>
     (\<exists>e. redis_room db' ''r1'' (demo_log @ [e]) \<and> eContent e = ''new'')"
proof -
  let ?w = "\<lparr>wContent = ''new'', wBase = 3\<rparr>"
  obtain sid r db' where *: "ApplyContentUpdate_store (document_exec mem_exec) (calm\<lparr>link_of := \<lambda>i. ReplyCut 3\<rparr>) ''r1''
       (wContent ?w) (wBase ?w) StaleWriteReject ''o'' ''c'' ''u'' demo_db = (r, db')"
    "applied id mem_ok ''r1'' demo_log (before (calm\<lparr>link_of := \<lambda>i. ReplyCut 3\<rparr>) 0 demo_db) StaleWriteReject ?w ''o'' ''c'' ''u'' sid db'"
    "is_Err r \<or> 8 < (3::nat) \<and> r = Ok (occ_result StaleWriteReject ?w (snapshot_of demo_log) sid)"
    using store_write_cut_reply [of mem_exec id mem_ok "calm\<lparr>link_of := \<lambda>i. ReplyCut 3\<rparr>" demo_db "''r1''" demo_log 3
        ?w StaleWriteReject "''o''" "''c''" "''u''", OF mem_redis_server] demo_room
    by (simp add: calm_def) (simp add: demo_log_def demo_event_def snapshot_of_def, metis)
  from *(2) have "redis_room db' ''r1'' (demo_log @ [apply_event demo_log sid ''new'' ''o'' ''c'' ''u''])"
    by (simp add: applied_def occ_accepts_def demo_log_def)
  moreover have "eContent (apply_event demo_log sid ''new'' ''o'' ''c'' ''u'') = ''new''"
    by (simp add: apply_event_def)
  ultimately show ?thesis using * by auto
qed

text \<open>
  A write to one room leaves every other room exactly as it was: same log, same content,
  version and sequence.
\<close>

theorem store_write_isolated:
  fixes w :: write_op
  assumes "redis_server E V K" "K (before net 0 db)" "redis_room (V (before net 0 db)) rid L"
    and "int (length L) < log_limit" "link_of net 0 = LinkUp" "rid' \<noteq> rid"
  shows "redis_room (V (snd (ApplyContentUpdate_store (document_exec E) net rid (wContent w) (wBase w) policy oid cid u db)))
      rid' L' \<longleftrightarrow> redis_room (V (before net 0 db)) rid' L'"
proof -
  obtain sid db' where *: "ApplyContentUpdate_store (document_exec E) net rid (wContent w) (wBase w) policy oid cid u db =
      (Ok (occ_result policy w (snapshot_of L) sid), db')"
    "applied V K rid L (before net 0 db) policy w oid cid u sid db'"
    by (rule store_apply_linkup [OF assms(1-5), of w policy oid cid u])
  have "V db' k = V (before net 0 db) k" if "k \<in> set (room_keys rid')" for k
    using *(2) that room_keys_disjoint [OF assms(6)]
    by (auto simp: applied_def room_keys_def script_keys_def split: if_splits)
  then show ?thesis using *(1) redis_room_frame [of rid' "V db'" "V (before net 0 db)" L'] by simp
qed

theorem store_write_isolated_witness:
  "\<forall>L'. redis_room (snd (ApplyContentUpdate_store (document_exec mem_exec) calm ''r1'' ''new'' 3
      StaleWriteReject ''o'' ''c'' ''u'' demo_db)) ''r2'' L' \<longleftrightarrow> redis_room demo_db ''r2'' L'"
  using store_write_isolated [of mem_exec id mem_ok calm demo_db "''r1''" demo_log "''r2''"
      "\<lparr>wContent = ''new'', wBase = 3\<rparr>" StaleWriteReject "''o''" "''c''" "''u''"] mem_redis_server demo_room
  by (simp add: demo_log_def)

subsection \<open>Reading the document\<close>

text \<open>
  While nobody writes, \<open>RedisStore.GetSnapshot\<close> returns the content, version and sequence
  of the room's log, and changes nothing.
\<close>

theorem snapshot_exact:
  assumes "redis_server E V K" "K db" "redis_room (V db) rid L"
  shows "\<exists>db'. GetSnapshot_store (document_exec E) calm rid db = (Ok (Some (snapshot_of L)), db') \<and>
    K db' \<and> V db' = V db"
  by (rule GetSnapshot_calm [OF assms]) blast

theorem snapshot_exact_witness:
  "fst (GetSnapshot_store (document_exec mem_exec) calm ''r1'' demo_db) =
     Ok (Some \<lparr>sContent = ''abc'', sVersion = 3, sSequence = 3\<rparr>)"
  using snapshot_exact [of mem_exec id mem_ok demo_db "''r1''" demo_log] mem_redis_server demo_room
  by (auto simp: snapshot_of_def demo_log_def demo_event_def)

text \<open>
  While others write, the three reads of \<open>RedisStore.GetSnapshot\<close> may see three logs: the
  content is that of a log \<open>L1\<close>, the version that of a longer \<open>L2\<close>, the sequence that of a
  longer \<open>L3\<close>. Each is current at its own read, and none goes back behind the call.
\<close>

theorem snapshot_reads_may_straddle:
  assumes "redis_server E V K" "links_up net" "appending V K rid net" "K db" "redis_room (V db) rid L"
  shows "\<exists>L1 L2 L3 db'. prefix L L1 \<and> prefix L1 L2 \<and> prefix L2 L3 \<and>
    GetSnapshot_store (document_exec E) net rid db =
       (Ok (Some \<lparr>sContent = sContent (snapshot_of L1), sVersion = int (length L2),
          sSequence = int (length L3)\<rparr>), db') \<and>
    K db' \<and> redis_room (V db') rid L3"
  by (rule GetSnapshot_reads [OF assms]) blast

theorem snapshot_reads_may_straddle_witness:
  "\<exists>L1 L2 L3. prefix demo_log L1 \<and> prefix L1 L2 \<and> prefix L2 L3 \<and>
    fst (GetSnapshot_store (document_exec mem_exec) calm ''r1'' demo_db) =
       Ok (Some \<lparr>sContent = sContent (snapshot_of L1), sVersion = int (length L2), sSequence = int (length L3)\<rparr>)"
  using snapshot_reads_may_straddle [of mem_exec id mem_ok calm "''r1''" demo_db demo_log]
    mem_redis_server demo_room by fastforce

text \<open>
  An edit that lands between the reads of the content and of the version: up to then the log is \<open>L\<close>, from then on \<open>L @ [e]\<close>.
\<close>

definition lands_between :: "('db \<Rightarrow> view) \<Rightarrow> ('db \<Rightarrow> bool) \<Rightarrow> string \<Rightarrow> DistributedEvent list \<Rightarrow> DistributedEvent \<Rightarrow> 'db net \<Rightarrow> bool" where
  "lands_between V K rid L e net \<longleftrightarrow> (\<forall>db i. K db \<longrightarrow> K (before net i db)) \<and>
     (\<forall>db i. K db \<and> redis_room (V db) rid L \<longrightarrow> redis_room (V (before net i db)) rid (if i = 2 then L @ [e] else L)) \<and>
     (\<forall>db i. K db \<and> redis_room (V db) rid (L @ [e]) \<longrightarrow> redis_room (V (before net i db)) rid (L @ [e]))"

lemma torn_reads:
  assumes "redis_server E V K" "K db" "redis_room (V db) rid L" "links_up net" "lands_between V K rid L e net"
  obtains db' where "GetSnapshot_store (document_exec E) net rid db =
      (Ok (Some \<lparr>sContent = sContent (snapshot_of L), sVersion = int (length L) + 1, sSequence = int (length L) + 1\<rparr>), db')"
    "redis_room (V db') rid (L @ [e])"
proof -
  have keep: "K (before net i d)" if "K d" for d i using that assms(5) by (simp add: lands_between_def)
  have old: "redis_room (V (before net i d)) rid L" if "K d" "redis_room (V d) rid L" "i \<noteq> 2" for d i
    using that assms(5) unfolding lands_between_def by metis
  have lands: "redis_room (V (before net 2 d)) rid (L @ [e])" if "K d" "redis_room (V d) rid L" for d
    using that assms(5) unfolding lands_between_def by metis
  have new: "redis_room (V (before net i d)) rid (L @ [e])" if "K d" "redis_room (V d) rid (L @ [e])" for d i
    using that assms(5) unfolding lands_between_def by metis
  note get = do_get [OF assms(1,4)]
  have o: "redis_room (V (before net 0 db)) rid L" using old [OF assms(2,3)] by simp
  obtain d0 where 0: "do_at (document_exec E) net 0 [''GET'', roomExistsKey rid] db = (Ok (GStr ''1''), d0)" "K d0" "V d0 = V (before net 0 db)"
    using get [OF keep [OF assms(2)], of 0 "roomExistsKey rid" "''1''"] o by (auto simp: redis_room_def)
  have o1: "redis_room (V (before net 1 d0)) rid L" using old [OF 0(2)] o 0(3) by simp
  obtain d1 where 1: "do_at (document_exec E) net 1 [''GET'', roomContentKey rid] d0 = (Ok (GStr (sContent (snapshot_of L))), d1)"
    "K d1" "V d1 = V (before net 1 d0)"
    using get [OF keep [OF 0(2)], of 1 "roomContentKey rid" "sContent (snapshot_of L)"] o1 by (auto simp: redis_room_def)
  have n2: "redis_room (V (before net 2 d1)) rid (L @ [e])" using lands [OF 1(2)] o1 1(3) by simp
  obtain d2 where 2: "do_at (document_exec E) net 2 [''GET'', roomVersionKey rid] d1 = (Ok (GStr (FormatInt (int (length L) + 1))), d2)"
    "K d2" "V d2 = V (before net 2 d1)"
    using get [OF keep [OF 1(2)], of 2 "roomVersionKey rid" "FormatInt (int (length L) + 1)"] n2 by (auto simp: redis_room_def add.commute)
  have n3: "redis_room (V (before net 3 d2)) rid (L @ [e])" using new [OF 2(2)] n2 2(3) by simp
  obtain d3 where 3: "do_at (document_exec E) net 3 [''GET'', roomSequenceKey rid] d2 = (Ok (GStr (FormatInt (int (length L) + 1))), d3)"
    "K d3" "V d3 = V (before net 3 d2)"
    using get [OF keep [OF 2(2)], of 3 "roomSequenceKey rid" "FormatInt (int (length L) + 1)"] n3 by (auto simp: redis_room_def add.commute)
  have "int64_ok (int (length L) + 1)" using n3 by (auto simp: redis_room_def log_ok_snoc int64_ok_def)
  then have "GetSnapshot_store (document_exec E) net rid db =
      (Ok (Some \<lparr>sContent = sContent (snapshot_of L), sVersion = int (length L) + 1, sSequence = int (length L) + 1\<rparr>), d3)"
    using 0(1) 1(1) 2(1) 3(1) by (simp add: GetSnapshot_store_def int_then_def)
  with that show thesis using n3 3(3) by simp
qed

text \<open>A room, the log it is left with, and a writer that lands so.\<close>

definition demo_room1 :: Room where
  "demo_room1 = \<lparr>rID = ''r1'', rContent = ''abc'', rVersion = 3, rSequence = 3, rClients = [],
     rStore = True, localPresenceRevision = 0\<rparr>"

definition demo_log4 :: "DistributedEvent list" where
  "demo_log4 = demo_log @ [demo_event 4 ''abcd'']"

definition late_writer :: "view net" where
  "late_writer = \<lparr>before = (\<lambda>i db. if i = 2 then mem_room ''r1'' demo_log4 else db),
     link_of = (\<lambda>i. LinkUp)\<rparr>"

lemma demo_log4_ok: "log_ok demo_log4"
  using demo_log_ok by (simp add: demo_log4_def log_ok_snoc) (simp add: demo_log_def demo_event_def)

lemma demo_log4_room: "redis_room (mem_room ''r1'' demo_log4) ''r1'' demo_log4" "mem_ok (mem_room ''r1'' demo_log4)"
  by (rule mem_room_room [OF demo_log4_ok], rule mem_room_ok)
    (simp add: demo_log4_def demo_log_def demo_event_def upt_rec numeral_eq_Suc)

lemma late_writer_lands: "links_up late_writer" "lands_between id mem_ok ''r1'' demo_log (demo_event 4 ''abcd'') late_writer"
  using demo_log4_room by (auto simp: links_up_def lands_between_def late_writer_def demo_log4_def)

text \<open>
  C35: A torn snapshot stays in the cache. When an edit of another backend lands between the reads of the content and of the
  version, \<open>Room.GetSnapshot\<close> reports and caches the content before the edit under the version and the sequence after it. The
  event of that edit then no longer changes the room; and unless the edit left the content as it was, the cache is not the
  state after any prefix of the log, however the log goes on.
\<close>

theorem torn_snapshot_is_cached:
  assumes "redis_server E V K" "K db" "redis_room (V db) (rID r) L" "cache_ok L r"
    and "links_up net" "lands_between V K (rID r) L e net"
  shows "\<exists>r' db'. GetSnapshot (document_exec E) net r db =
      (Ok \<lparr>sContent = sContent (snapshot_of L), sVersion = int (length L) + 1, sSequence = int (length L) + 1\<rparr>, r', db') \<and>
    redis_room (V db') (rID r) (L @ [e]) \<and>
    room_snapshot r' = \<lparr>sContent = sContent (snapshot_of L), sVersion = int (length L) + 1, sSequence = int (length L) + 1\<rparr> \<and>
    ApplyDistributedEvent e r' = (False, r') \<and>
    (eContent e \<noteq> sContent (snapshot_of L) \<longrightarrow> (\<forall>M. \<not> cache_ok (L @ e # M) r'))"
proof -
  let ?s = "\<lparr>sContent = sContent (snapshot_of L), sVersion = int (length L) + 1, sSequence = int (length L) + 1\<rparr>"
  obtain db' where g: "GetSnapshot_store (document_exec E) net (rID r) db = (Ok (Some ?s), db')" "redis_room (V db') (rID r) (L @ [e])"
    by (rule torn_reads [OF assms(1-3,5,6)])
  define r' where "r' = applySnapshot ?s r"
  from cache_okE [OF assms(4)] obtain P where P: "rStore r" "prefix P L" "rSequence r = int (length P)" by metis
  then have s: "room_snapshot r' = ?s" using prefix_length_le [OF P(2)] by (simp add: r'_def room_snapshot_applySnapshot)
  have get: "GetSnapshot (document_exec E) net r db = (Ok ?s, r', db')"
    using g(1) P(1) s unfolding r'_def by (simp add: GetSnapshot_def Let_def)
  have "eSequence e = int (length L) + 1" using g(2) by (simp add: redis_room_def log_ok_snoc)
  moreover have "rSequence r' = int (length L) + 1" using s by (simp add: room_snapshot_def)
  ultimately have ignored: "ApplyDistributedEvent e r' = (False, r')" by (simp add: ApplyDistributedEvent_def)
  have "eContent e = sContent (snapshot_of L)" if c: "cache_ok (L @ e # M) r'" for M
  proof -
    from cache_okE [OF c] obtain Q where Q: "prefix Q (L @ e # M)" "room_snapshot r' = snapshot_of Q" by metis
    then have "int (length Q) = int (length L) + 1" using s by (metis RoomSnapshot.select_convs(3) snapshot_of_simps(2))
    then have "length Q = Suc (length L)" by linarith
    then have "Q = take (Suc (length L)) (L @ e # M)" using Q(1) by (metis append_eq_conv_conj prefix_def)
    then have "Q = L @ [e]" by simp
    then show ?thesis using Q(2) s by (simp add: snapshot_of_def)
  qed
  then show ?thesis using get g(2) s ignored by blast
qed

theorem torn_snapshot_is_cached_witness:
  "\<exists>r' db'. GetSnapshot (document_exec mem_exec) late_writer demo_room1 demo_db = (Ok \<lparr>sContent = ''abc'', sVersion = 4, sSequence = 4\<rparr>, r', db') \<and>
    redis_room db' ''r1'' demo_log4 \<and> ApplyDistributedEvent (demo_event 4 ''abcd'') r' = (False, r') \<and> \<not> cache_ok demo_log4 r'"
proof -
  have c: "cache_ok demo_log demo_room1"
    by (rule cache_okI [of _ demo_log])
      (simp_all add: demo_room1_def room_snapshot_def snapshot_of_def demo_log_def demo_event_def)
  have l: "sContent (snapshot_of demo_log) = ''abc''" "length demo_log = 3" "eContent (demo_event 4 ''abcd'') = ''abcd''" "rID demo_room1 = ''r1''"
    by (simp_all add: snapshot_of_def demo_log_def demo_event_def demo_room1_def)
  show ?thesis
    using torn_snapshot_is_cached [OF mem_redis_server demo_room(2) _ c late_writer_lands(1), of "demo_event 4 ''abcd''"]
      late_writer_lands(2) demo_room(1) unfolding l demo_log4_def by fastforce
qed

text \<open>
  \<open>Room.ApplyOperation\<close> on a distributed room returns the store's result, and afterwards
  the room's cache is the state of the log after the operation, for an accepted edit and for
  a refused one.
\<close>

theorem operation_refreshes_cache:
  assumes "redis_server E V K" "K (before net 0 db)" "redis_room (V (before net 0 db)) (rID r) L"
    and "int (length L) < log_limit" "link_of net 0 = LinkUp" "cache_ok L r"
  shows "\<exists>sid r' db' L'.
    ApplyOperation (document_exec E) net content base policy oid cid u r db =
      (Ok (occ_result policy \<lparr>wContent = content, wBase = base\<rparr> (snapshot_of L) sid), r', db') \<and>
    redis_room (V db') (rID r) L' \<and> prefix L L' \<and> cache_ok L' r' \<and> room_snapshot r' = snapshot_of L'"
  by (rule ApplyOperation_cache [OF assms, of content base policy oid cid u]) blast

lemma demo_room1_cache: "cache_ok demo_log demo_room1" "rID demo_room1 = ''r1''"
  by (rule cache_okI [of _ demo_log])
    (simp_all add: demo_room1_def room_snapshot_def snapshot_of_def demo_log_def demo_event_def)

theorem operation_refreshes_cache_witness:
  "\<exists>res r' db' L'. ApplyOperation (document_exec mem_exec) calm ''new'' 3 StaleWriteReject ''o'' ''c'' ''u'' demo_room1 demo_db =
      (Ok res, r', db') \<and> redis_room db' ''r1'' L' \<and> room_snapshot r' = snapshot_of L'"
  using operation_refreshes_cache [of mem_exec id mem_ok calm demo_db demo_room1 demo_log "''new''" 3 StaleWriteReject "''o''" "''c''" "''u''"]
    mem_redis_server demo_room demo_room1_cache by (simp add: demo_log_def) blast

text \<open>
  The cache of a distributed room is always the state after some prefix of the log, and
  stays so when the room applies any event of the stream, in whatever order and however often
  events come; its sequence never decreases.
\<close>

theorem event_keeps_cache:
  assumes "log_ok L" "cache_ok L r" "i < length L"
  shows "cache_ok L (snd (ApplyDistributedEvent (L ! i) r)) \<and>
    rSequence r \<le> rSequence (snd (ApplyDistributedEvent (L ! i) r)) \<and>
    snd (ApplyDistributedEvent (L ! i) (snd (ApplyDistributedEvent (L ! i) r))) = snd (ApplyDistributedEvent (L ! i) r)"
  using cache_ok_event [OF assms] ApplyDistributedEvent_idem [of "L ! i" r]
  by (simp add: ApplyDistributedEvent_sequence)

theorem event_keeps_cache_witness:
  "cache_ok demo_log4 (snd (ApplyDistributedEvent (demo_log4 ! 3) demo_room1))"
  using event_keeps_cache [of demo_log4 demo_room1 3] demo_log4_ok
    cache_ok_extend [OF demo_room1_cache(1), of demo_log4]
  by (simp add: demo_log4_def) (simp add: demo_log_def)

subsection \<open>Creating rooms\<close>

text \<open>
  \<open>RedisStore.CreateRoom\<close> under an identifier that is not in use makes an empty room at
  version and sequence 0 in one step, and leaves every other room as it was.
\<close>

theorem create_room_fresh:
  assumes "redis_server E V K" "K db" "V db (roomStreamKey rid) = None"
  shows "\<exists>db'. CreateRoom (document_exec E) calm rid db = (Ok (), db') \<and> K db' \<and>
    redis_room (V db') rid [] \<and> (\<forall>rid' L. rid' \<noteq> rid \<longrightarrow> redis_room (V db') rid' L = redis_room (V db) rid' L)"
proof -
  obtain db' where *: "CreateRoom (document_exec E) calm rid db = (Ok (), db')" "K db'"
    "V db' = (V db)(roomExistsKey rid \<mapsto> RVString ''1'', roomContentKey rid \<mapsto> RVString [],
       roomVersionKey rid \<mapsto> RVString ''0'', roomSequenceKey rid \<mapsto> RVString ''0'')"
    by (rule CreateRoom_runs [OF assms(1,2)])
  have "V db' k = V db k" if "k \<in> set (room_keys rid')" "rid' \<noteq> rid" for k rid'
    using *(3) that room_keys_disjoint [OF that(2)] by (auto simp: room_keys_def)
  then have "redis_room (V db') rid' L = redis_room (V db) rid' L" if "rid' \<noteq> rid" for rid' L
    using that by (intro redis_room_frame) blast
  moreover have "redis_room (V db') rid []" unfolding *(3) by (rule created_room [of "V db", OF assms(3)])
  ultimately show ?thesis using *(1,2) by blast
qed

theorem create_room_fresh_witness:
  "\<exists>db'. CreateRoom (document_exec mem_exec) calm ''r2'' demo_db = (Ok (), db') \<and> redis_room db' ''r2'' []"
  using create_room_fresh [of mem_exec id mem_ok demo_db "''r2''"] mem_redis_server demo_room
  by (auto simp: mem_room_def)

text \<open>
  C40: \<open>RedisStore.CreateRoom\<close> does not check that the identifier is free. On a room that is in use it empties the content and sets
  version and sequence back to zero, but keeps the stream, and touches no other room; if the room had edits, from then on its keys
  describe no log at all.
\<close>

theorem create_room_collision:
  assumes "redis_server E V K" "K db" "redis_room (V db) rid L"
  shows "\<exists>db'. CreateRoom (document_exec E) calm rid db = (Ok (), db') \<and>
    V db' (roomContentKey rid) = Some (RVString []) \<and> V db' (roomVersionKey rid) = Some (RVString ''0'') \<and>
    V db' (roomSequenceKey rid) = Some (RVString ''0'') \<and> stream_of (V db' (roomStreamKey rid)) = map entry_of L \<and>
    (\<forall>k. k \<notin> {roomContentKey rid, roomVersionKey rid, roomSequenceKey rid} \<longrightarrow> V db' k = V db k) \<and>
    (L \<noteq> [] \<longrightarrow> (\<forall>L'. \<not> redis_room (V db') rid L'))"
proof -
  obtain db' where *: "CreateRoom (document_exec E) calm rid db = (Ok (), db')" "K db'"
    "V db' = (V db)(roomExistsKey rid \<mapsto> RVString ''1'', roomContentKey rid \<mapsto> RVString [],
       roomVersionKey rid \<mapsto> RVString ''0'', roomSequenceKey rid \<mapsto> RVString ''0'')"
    by (rule CreateRoom_runs [OF assms(1,2)])
  have "\<not> redis_room (V db') rid L'" if "L \<noteq> []" for L'
    unfolding *(3) by (rule recreated_room_broken [OF assms(3) that])
  moreover have "V db (roomExistsKey rid) = Some (RVString ''1'')" "stream_of (V db (roomStreamKey rid)) = map entry_of L"
    using assms(3) by (simp_all add: redis_room_def)
  ultimately show ?thesis using *(1) by (intro exI [of _ db']) (simp add: *(3))
qed

theorem create_room_collision_witness:
  "\<exists>db'. CreateRoom (document_exec mem_exec) calm ''r1'' demo_db = (Ok (), db') \<and> db' (roomContentKey ''r1'') = Some (RVString []) \<and>
    length (stream_of (db' (roomStreamKey ''r1''))) = 3 \<and> \<not> redis_room db' ''r1'' demo_log"
proof -
  have "demo_log \<noteq> []" "length demo_log = 3" by (simp_all add: demo_log_def)
  then show ?thesis
    using create_room_collision [of mem_exec id mem_ok demo_db "''r1''" demo_log] mem_redis_server demo_room by auto
qed

end
