(* ===== verification/Trace.thy ===== *)
theory Trace
  imports Complex_Main Wire_Types "HOL-Library.Word"
begin

section \<open>The trace recorder\<close>

text \<open>
  \<^verbatim>\<open>backend/trace.go\<close>: events of a run, written one per line with consecutive numbers.
  The file is the list of lines written to it; \<open>trFile\<close> is \<open>None\<close> when no path was
  configured. Durations are real numbers of milliseconds; the clock that stamps an event is
  an argument.
\<close>

record TraceEvent =
  tSequence :: "64 word"
  tTraceID :: string
  tSpanID :: string
  tDurationMs :: real
  tTimestamp :: string
  tStage :: string
  tInstanceID :: string
  tRoomID :: string
  tOperationID :: string
  tClientID :: string
  tEventSequence :: int64
  tStreamID :: string
  tBaseVersion :: int64
  tPreviousVersion :: int64
  tServerVersion :: int64
  tAccepted :: "bool option"
  tStale :: bool
  tReason :: string
  tContent :: string

definition zero_trace :: TraceEvent where
  "zero_trace = \<lparr>tSequence = 0, tTraceID = [], tSpanID = [], tDurationMs = 0, tTimestamp = [],
     tStage = [], tInstanceID = [], tRoomID = [], tOperationID = [], tClientID = [],
     tEventSequence = 0, tStreamID = [], tBaseVersion = 0, tPreviousVersion = 0,
     tServerVersion = 0, tAccepted = None, tStale = False, tReason = [], tContent = []\<rparr>"

record TraceRecorder =
  trSequence :: "64 word"
  trFile :: "TraceEvent list option"
  trClosed :: bool

text \<open>
  \<open>NewTraceRecorder\<close>: no file without a path; \<open>opened\<close> is the operating system's answer
  to creating it (an error, or nothing), and an opened file is truncated.
\<close>

definition NewTraceRecorder :: "string \<Rightarrow> string option \<Rightarrow> string + TraceRecorder" where
  "NewTraceRecorder path opened =
     (if path = [] then Inr \<lparr>trSequence = 0, trFile = None, trClosed = False\<rparr>
      else (case opened of
          Some e \<Rightarrow> Inl e
        | None \<Rightarrow> Inr \<lparr>trSequence = 0, trFile = Some [], trClosed = False\<rparr>))"

text \<open>
  \<open>Record\<close>; a recorder that is nil or has no file ignores events. \<open>written\<close> says whether the
  write of the line succeeds, which it never does once the file is closed; its error is ignored.
\<close>

definition Record :: "string \<Rightarrow> bool \<Rightarrow> TraceEvent \<Rightarrow> TraceRecorder \<Rightarrow> TraceRecorder" where
  "Record now written event r = (case trFile r of
     None \<Rightarrow> r
   | Some ls \<Rightarrow>
      (let n = trSequence r + 1;
           e1 = event\<lparr>tSequence := n\<rparr>;
           e2 = (if tTimestamp e1 = [] then e1\<lparr>tTimestamp := now\<rparr> else e1)
       in r\<lparr>trSequence := n, trFile := Some (if written \<and> \<not> trClosed r then ls @ [e2] else ls)\<rparr>))"

text \<open>
  \<open>CloseRecorder\<close> is the method \<open>Close\<close>: nothing without a file; a file is closed, with \<open>answer\<close> the error of the
  operating system, if any, and closing it again is an error of \<open>os.File\<close>.
\<close>

definition CloseRecorder :: "string option \<Rightarrow> TraceRecorder \<Rightarrow> string option \<times> TraceRecorder" where
  "CloseRecorder answer r = (case trFile r of
     None \<Rightarrow> (None, r)
   | Some ls \<Rightarrow> (if trClosed r then (Some ''file already closed'', r) else (answer, r\<lparr>trClosed := True\<rparr>)))"

text \<open>A run of records, each with its time, all written.\<close>

definition record_all :: "(string \<times> TraceEvent) list \<Rightarrow> TraceRecorder \<Rightarrow> TraceRecorder" where
  "record_all tes r = fold (\<lambda>(now, e). Record now True e) tes r"

lemma Record_no_file [simp]: "trFile r = None \<Longrightarrow> Record now w e r = r"
  by (simp add: Record_def)

lemma Record_file:
  "trFile r = Some ls \<Longrightarrow> \<exists>e'. Record now w e r =
     r\<lparr>trSequence := trSequence r + 1, trFile := Some (if w \<and> \<not> trClosed r then ls @ [e'] else ls)\<rparr> \<and>
     tSequence e' = trSequence r + 1 \<and> tStage e' = tStage e"
  by (rule exI [of _ "if tTimestamp e = [] then e\<lparr>tSequence := trSequence r + 1, tTimestamp := now\<rparr>
      else e\<lparr>tSequence := trSequence r + 1\<rparr>"])
    (simp add: Record_def Let_def)

lemma Record_closed: "trClosed r \<Longrightarrow> trFile (Record now w e r) = trFile r"
  by (simp add: Record_def Let_def split: option.split)

lemma Record_keeps [simp]: "trClosed (Record now w e r) = trClosed r" "trFile (Record now w e r) = None \<longleftrightarrow> trFile r = None"
  by (auto simp: Record_def Let_def split: option.split)

lemma record_all_numbers:
  assumes "trFile r = Some ls" "\<not> trClosed r" "trSequence r = of_nat (length ls)" "map tSequence ls = map of_nat [1..<Suc (length ls)]"
  shows "\<exists>ls'. trFile (record_all tes r) = Some ls' \<and> length ls' = length ls + length tes \<and>
    map tSequence ls' = map of_nat [1..<Suc (length ls')] \<and> map tStage ls' = map tStage ls @ map (tStage \<circ> snd) tes"
  using assms
proof (induction tes arbitrary: r ls)
  case Nil
  then show ?case by (simp add: record_all_def del: upt_Suc)
next
  case (Cons te tes)
  obtain now e where te: "te = (now, e)" by force
  obtain e' where e': "Record now True e r = r\<lparr>trSequence := trSequence r + 1, trFile := Some (ls @ [e'])\<rparr>"
    "tSequence e' = trSequence r + 1" "tStage e' = tStage e"
    using Record_file [OF Cons.prems(1), of now True e] Cons.prems(2) by auto
  let ?r = "Record now True e r"
  have "map tSequence (ls @ [e']) = map of_nat [1..<Suc (length (ls @ [e']))]"
    using Cons.prems(3,4) e'(2) by (simp add: add.commute del: upt_Suc) (simp add: add.commute)
  moreover have "trFile ?r = Some (ls @ [e'])" "\<not> trClosed ?r" "trSequence ?r = of_nat (length (ls @ [e']))"
    using e'(1) Cons.prems(2,3) by (simp_all add: add.commute)
  ultimately obtain ls' where "trFile (record_all tes ?r) = Some ls'" "length ls' = length (ls @ [e']) + length tes"
    "map tSequence ls' = map of_nat [1..<Suc (length ls')]"
    "map tStage ls' = map tStage (ls @ [e']) @ map (tStage \<circ> snd) tes"
    using Cons.IH [of ?r "ls @ [e']"] by blast
  then show ?case using e'(3) by (simp add: te record_all_def del: upt_Suc)
qed

end
