(* ===== verification/Metrics.thy ===== *)
theory Metrics
  imports Trace
begin

section \<open>Metrics\<close>

text \<open>
  The counters and histograms of \<^verbatim>\<open>backend/telemetry.go\<close>. Counters are words of 64 bits
  and wrap. A measured duration is a \<open>float64\<close>: a number, or one of the special values;
  numbers are reals, and \<open>rnd\<close> is the rounding of a sum to a float.
\<close>

datatype float64 = Fin real | NaN | PosInf | NegInf

record histogram =
  hBuckets :: "real list"
  hCounts :: "64 word list"
  hCount :: "64 word"
  hSum :: real

definition newHistogram :: "real list \<Rightarrow> histogram" where
  "newHistogram buckets = \<lparr>hBuckets = sort buckets, hCounts = replicate (length buckets) 0, hCount = 0, hSum = 0\<rparr>"

text \<open>\<open>counts[i]++\<close> for every bucket that holds the value.\<close>

fun bump :: "real \<Rightarrow> real list \<Rightarrow> 64 word list \<Rightarrow> 64 word list" where
  "bump v (b # bs) (c # cs) = (if v \<le> b then c + 1 else c) # bump v bs cs"
| "bump v _ cs = cs"

definition histogram_observe :: "(real \<Rightarrow> real) \<Rightarrow> real \<Rightarrow> histogram \<Rightarrow> histogram" where
  "histogram_observe rnd v h = h\<lparr>hCount := hCount h + 1, hSum := rnd (hSum h + v),
     hCounts := bump v (hBuckets h) (hCounts h)\<rparr>"

record Metrics =
  websocketConnections :: "64 word"
  operationsTotal :: "64 word"
  operationErrors :: "64 word"
  staleWriteRejections :: "64 word"
  reconnectsTotal :: "64 word"
  resumeSuccessTotal :: "64 word"
  resumeFailuresTotal :: "64 word"
  replayedEventsTotal :: "64 word"
  sequenceGapsTotal :: "64 word"
  streamEventsTotal :: "64 word"
  redisErrorsTotal :: "64 word"
  httpRequestsTotal :: "64 word"
  operationDuration :: histogram
  redisDuration :: histogram
  streamLag :: histogram
  resumeDuration :: histogram
  httpDuration :: histogram

definition NewMetrics :: Metrics where
  "NewMetrics = \<lparr>websocketConnections = 0, operationsTotal = 0, operationErrors = 0,
     staleWriteRejections = 0, reconnectsTotal = 0, resumeSuccessTotal = 0,
     resumeFailuresTotal = 0, replayedEventsTotal = 0, sequenceGapsTotal = 0,
     streamEventsTotal = 0, redisErrorsTotal = 0, httpRequestsTotal = 0,
     operationDuration = newHistogram [0.005, 0.01, 0.025, 0.05, 0.1, 0.25, 0.5, 1, 2.5, 5],
     redisDuration = newHistogram [0.001, 0.005, 0.01, 0.025, 0.05, 0.1, 0.25, 0.5, 1, 2.5],
     streamLag = newHistogram [0.005, 0.01, 0.025, 0.05, 0.1, 0.25, 0.5, 1, 2.5, 5],
     resumeDuration = newHistogram [0.01, 0.025, 0.05, 0.1, 0.25, 0.5, 1, 2.5, 5, 10],
     httpDuration = newHistogram [0.005, 0.01, 0.025, 0.05, 0.1, 0.25, 0.5, 1, 2.5, 5]\<rparr>"

text \<open>
  The methods of \<open>Metrics\<close>, as calls: handlers name the calls they make, and
  \<open>metric_call\<close> is what each does.
\<close>

datatype metric =
    WebSocketConnected | WebSocketDisconnected | OperationStarted | OperationError
  | StaleWriteRejected | ReconnectStarted | ResumeSucceeded | ResumeFailed
  | ReplayedEvents int | SequenceGap | StreamEvent | RedisError | HTTPRequest
  | ObserveOperation float64 | ObserveRedis float64 | ObserveStreamLag float64
  | ObserveResume float64 | ObserveHTTP float64

text \<open>\<open>observe\<close>: negative and special values are dropped.\<close>

definition observe :: "(real \<Rightarrow> real) \<Rightarrow> float64 \<Rightarrow> histogram \<Rightarrow> histogram" where
  "observe rnd value h = (case value of
     Fin v \<Rightarrow> if v < 0 then h else histogram_observe rnd v h
   | _ \<Rightarrow> h)"

fun metric_call :: "(real \<Rightarrow> real) \<Rightarrow> metric \<Rightarrow> Metrics \<Rightarrow> Metrics" where
  "metric_call rnd WebSocketConnected m = m\<lparr>websocketConnections := websocketConnections m + 1\<rparr>"
| "metric_call rnd WebSocketDisconnected m = m\<lparr>websocketConnections := websocketConnections m - 1\<rparr>"
| "metric_call rnd OperationStarted m = m\<lparr>operationsTotal := operationsTotal m + 1\<rparr>"
| "metric_call rnd OperationError m = m\<lparr>operationErrors := operationErrors m + 1\<rparr>"
| "metric_call rnd StaleWriteRejected m = m\<lparr>staleWriteRejections := staleWriteRejections m + 1\<rparr>"
| "metric_call rnd ReconnectStarted m = m\<lparr>reconnectsTotal := reconnectsTotal m + 1\<rparr>"
| "metric_call rnd ResumeSucceeded m = m\<lparr>resumeSuccessTotal := resumeSuccessTotal m + 1\<rparr>"
| "metric_call rnd ResumeFailed m = m\<lparr>resumeFailuresTotal := resumeFailuresTotal m + 1\<rparr>"
| "metric_call rnd (ReplayedEvents n) m = m\<lparr>replayedEventsTotal := replayedEventsTotal m + word_of_int n\<rparr>"
| "metric_call rnd SequenceGap m = m\<lparr>sequenceGapsTotal := sequenceGapsTotal m + 1\<rparr>"
| "metric_call rnd StreamEvent m = m\<lparr>streamEventsTotal := streamEventsTotal m + 1\<rparr>"
| "metric_call rnd RedisError m = m\<lparr>redisErrorsTotal := redisErrorsTotal m + 1\<rparr>"
| "metric_call rnd HTTPRequest m = m\<lparr>httpRequestsTotal := httpRequestsTotal m + 1\<rparr>"
| "metric_call rnd (ObserveOperation v) m = m\<lparr>operationDuration := observe rnd v (operationDuration m)\<rparr>"
| "metric_call rnd (ObserveRedis v) m = m\<lparr>redisDuration := observe rnd v (redisDuration m)\<rparr>"
| "metric_call rnd (ObserveStreamLag v) m = m\<lparr>streamLag := observe rnd v (streamLag m)\<rparr>"
| "metric_call rnd (ObserveResume v) m = m\<lparr>resumeDuration := observe rnd v (resumeDuration m)\<rparr>"
| "metric_call rnd (ObserveHTTP v) m = m\<lparr>httpDuration := observe rnd v (httpDuration m)\<rparr>"

subsection \<open>Histograms count\<close>

definition observed :: "float64 list \<Rightarrow> real list" where
  "observed vs = List.map_filter (\<lambda>v. case v of Fin x \<Rightarrow> if x < 0 then None else Some x | _ \<Rightarrow> None) vs"

definition histogram_ok :: "real list \<Rightarrow> histogram \<Rightarrow> bool" where
  "histogram_ok xs h \<longleftrightarrow> sorted (hBuckets h) \<and> hCount h = of_nat (length xs) \<and>
     hCounts h = map (\<lambda>b. of_nat (length (filter (\<lambda>x. x \<le> b) xs))) (hBuckets h)"

lemma bump_counts:
  "bump v bs (map (\<lambda>b. of_nat (length (filter (\<lambda>x. x \<le> b) xs))) bs) =
     map (\<lambda>b. of_nat (length (filter (\<lambda>x. x \<le> b) (xs @ [v])))) bs"
  by (induction bs) (simp_all add: add.commute)

lemma newHistogram_ok: "histogram_ok [] (newHistogram bs)"
  by (simp add: histogram_ok_def newHistogram_def map_replicate_const)

lemma histogram_observe_ok: "histogram_ok xs h \<Longrightarrow> histogram_ok (xs @ [v]) (histogram_observe rnd v h)"
  using bump_counts by (simp add: histogram_ok_def histogram_observe_def add.commute)

lemma observe_buckets [simp]: "hBuckets (observe rnd v h) = hBuckets h"
  by (simp add: observe_def histogram_observe_def split: float64.split)

lemma observe_ok: "histogram_ok xs h \<Longrightarrow> histogram_ok (xs @ observed [v]) (observe rnd v h)"
  using histogram_observe_ok [of xs h] by (cases v) (simp_all add: observe_def observed_def map_filter_simps)

lemma observed_append: "observed (xs @ ys) = observed xs @ observed ys"
  by (simp add: observed_def map_filter_def)

lemma fold_observe_ok: "histogram_ok xs h \<Longrightarrow> histogram_ok (xs @ observed vs) (fold (observe rnd) vs h)"
proof (induction vs arbitrary: xs h)
  case (Cons v vs)
  then have "histogram_ok ((xs @ observed [v]) @ observed vs) (fold (observe rnd) vs (observe rnd v h))"
    using observe_ok by blast
  then show ?case using observed_append [of "[v]" vs] by simp
qed (simp add: observed_def map_filter_def)

text \<open>Bucket counts grow with their bounds, up to the total.\<close>

lemma filter_le_length_mono:
  "(b::real) \<le> b' \<Longrightarrow> length (filter (\<lambda>x. x \<le> b) xs) \<le> length (filter (\<lambda>x. x \<le> b') xs)"
  by (induction xs) auto

end
