(* ===== verification/Json.thy ===== *)
theory Json
  imports Go_Strings "HOL-Library.Char_ord"
begin

section \<open>JSON as the program uses it\<close>

text \<open>
  \<open>encoding/json\<close> on the strings, numbers and objects that the backend encodes and decodes.
  A Go string is a list of bytes. Encoding escapes what has to be escaped, the characters that
  are special in HTML, and the two Unicode line separators; bytes that are no UTF-8 become the
  replacement character, in both directions. Decoding is a parser for the whole grammar.
\<close>

abbreviation ord :: "char \<Rightarrow> nat" where "ord c \<equiv> of_char c"

subsection \<open>UTF-8\<close>

definition cont_byte :: "char \<Rightarrow> bool" where
  "cont_byte c \<longleftrightarrow> 0x80 \<le> ord c \<and> ord c \<le> 0xBF"

definition second_ok :: "nat \<Rightarrow> char \<Rightarrow> bool" where
  "second_ok n c \<longleftrightarrow>
     (if n = 0xE0 then 0xA0 else if n = 0xF0 then 0x90 else 0x80) \<le> ord c \<and>
     ord c \<le> (if n = 0xED then 0x9F else if n = 0xF4 then 0x8F else 0xBF)"

text \<open>The length of the multi-byte character a string starts with, 0 when it starts with none.\<close>

definition lead_len :: "nat \<Rightarrow> nat" where
  "lead_len n = (if 0xC2 \<le> n \<and> n \<le> 0xDF then 2 else if 0xE0 \<le> n \<and> n \<le> 0xEF then 3
     else if 0xF0 \<le> n \<and> n \<le> 0xF4 then 4 else 0)"

definition utf8_len :: "string \<Rightarrow> nat" where
  "utf8_len s = (case s of
     [] \<Rightarrow> 0
   | c # cs \<Rightarrow>
      (let k = lead_len (ord c) in
       if k \<noteq> 0 \<and> k - 1 \<le> length cs \<and> second_ok (ord c) (cs ! 0) \<and> list_all cont_byte (take (k - 1) cs)
       then k else 0))"

function valid_utf8 :: "string \<Rightarrow> bool" where
  "valid_utf8 [] = True"
| "valid_utf8 (c # cs) =
     (if ord c < 0x80 then valid_utf8 cs
      else utf8_len (c # cs) \<noteq> 0 \<and> valid_utf8 (drop (utf8_len (c # cs) - 1) cs))"
  by pat_completeness auto
termination valid_utf8 by (relation "measure length") auto

definition replacement :: string where
  "replacement = [CHR 0xEF, CHR 0xBF, CHR 0xBD]"

text \<open>The encoding of a code point; surrogates and numbers beyond Unicode give the replacement.\<close>

definition utf8_of :: "nat \<Rightarrow> string" where
  "utf8_of r =
     (if r < 0x80 then [char_of r]
      else if r < 0x800 then [char_of (0xC0 + r div 64), char_of (0x80 + r mod 64)]
      else if (0xD800 \<le> r \<and> r < 0xE000) \<or> 0x110000 \<le> r then replacement
      else if r < 0x10000 then [char_of (0xE0 + r div 4096), char_of (0x80 + r div 64 mod 64), char_of (0x80 + r mod 64)]
      else [char_of (0xF0 + r div 262144), char_of (0x80 + r div 4096 mod 64), char_of (0x80 + r div 64 mod 64),
            char_of (0x80 + r mod 64)])"

subsection \<open>Strings\<close>

definition hex_digit :: "nat \<Rightarrow> char" where
  "hex_digit d = ''0123456789abcdef'' ! d"

definition hex_val :: "char \<Rightarrow> nat option" where
  "hex_val c = (let n = ord c in
     if 48 \<le> n \<and> n \<le> 57 then Some (n - 48)
     else if 97 \<le> n \<and> n \<le> 102 then Some (n - 87)
     else if 65 \<le> n \<and> n \<le> 70 then Some (n - 55)
     else None)"

definition bs :: char where "bs = CHR 0x5C"
definition dq :: char where "dq = CHR 0x22"

definition escape_ascii :: "char \<Rightarrow> string" where
  "escape_ascii c =
     (if c = dq \<or> c = bs then [bs, c]
      else if ord c = 8 then [bs, CHR ''b'']
      else if ord c = 12 then [bs, CHR ''f'']
      else if ord c = 10 then [bs, CHR ''n'']
      else if ord c = 13 then [bs, CHR ''r'']
      else if ord c = 9 then [bs, CHR ''t'']
      else if ord c < 32 \<or> c = CHR ''<'' \<or> c = CHR ''>'' \<or> c = CHR ''&''
      then [bs, CHR ''u'', CHR ''0'', CHR ''0'', hex_digit (ord c div 16), hex_digit (ord c mod 16)]
      else [c])"

text \<open>A character of several bytes: the line separators \<open>U+2028\<close> and \<open>U+2029\<close> are escaped.\<close>

definition escape_multi :: "string \<Rightarrow> string" where
  "escape_multi s =
     (if s = [CHR 0xE2, CHR 0x80, CHR 0xA8] then bs # ''u2028''
      else if s = [CHR 0xE2, CHR 0x80, CHR 0xA9] then bs # ''u2029''
      else s)"

function quote_body :: "string \<Rightarrow> string" where
  "quote_body [] = []"
| "quote_body (c # cs) =
     (if ord c < 0x80 then escape_ascii c @ quote_body cs
      else if utf8_len (c # cs) = 0 then bs # ''ufffd'' @ quote_body cs
      else escape_multi (take (utf8_len (c # cs)) (c # cs)) @ quote_body (drop (utf8_len (c # cs) - 1) cs))"
  by pat_completeness auto
termination quote_body by (relation "measure length") auto

definition json_quote :: "string \<Rightarrow> string" where
  "json_quote s = dq # quote_body s @ [dq]"

definition hex4 :: "string \<Rightarrow> nat option" where
  "hex4 s = (case s of
     a # b # c # d # _ \<Rightarrow>
       (case (hex_val a, hex_val b, hex_val c, hex_val d) of
          (Some i, Some j, Some k, Some l) \<Rightarrow> Some (((i * 16 + j) * 16 + k) * 16 + l)
        | _ \<Rightarrow> None)
   | _ \<Rightarrow> None)"

definition simple_escape :: "char \<Rightarrow> char option" where
  "simple_escape c = map_of [(dq, dq), (bs, bs), (CHR ''/'', CHR ''/''), (CHR ''b'', CHR 0x08),
     (CHR ''f'', CHR 0x0C), (CHR ''n'', CHR 0x0A), (CHR ''r'', CHR 0x0D), (CHR ''t'', CHR 0x09)] c"

text \<open>
  The four digits of an escape and what follows. A high surrogate joins with the low one of a
  second escape behind it; the result is the number of characters used and the bytes.
\<close>

definition unicode_escape :: "string \<Rightarrow> (nat \<times> string) option" where
  "unicode_escape s = (case hex4 s of
     None \<Rightarrow> None
   | Some r \<Rightarrow>
      if 0xD800 \<le> r \<and> r < 0xE000 then
        (case (take 2 (drop 4 s) = [bs, CHR ''u''], hex4 (drop 6 s)) of
           (True, Some l) \<Rightarrow>
             if r < 0xDC00 \<and> 0xDC00 \<le> l \<and> l < 0xE000
             then Some (10, utf8_of (0x10000 + (r - 0xD800) * 1024 + (l - 0xDC00)))
             else Some (4, replacement)
         | _ \<Rightarrow> Some (4, replacement))
      else Some (4, utf8_of r))"

text \<open>The bytes of a string literal behind its opening quote, and the rest of the input.\<close>

definition prepend :: "'a list \<Rightarrow> ('a list \<times> 'b) option \<Rightarrow> ('a list \<times> 'b) option" where
  "prepend u x = map_option (apfst (append u)) x"

function unquote :: "string \<Rightarrow> (string \<times> string) option" where
  "unquote [] = None"
| "unquote (c # cs) =
     (if c = dq then Some ([], cs)
      else if c = bs then
        (case cs of
           [] \<Rightarrow> None
         | e # es \<Rightarrow>
            if e = CHR ''u'' then
              (case unicode_escape es of
                 None \<Rightarrow> None
               | Some (k, u) \<Rightarrow> prepend u (unquote (drop k es)))
            else
              (case simple_escape e of
                 None \<Rightarrow> None
               | Some d \<Rightarrow> prepend [d] (unquote es)))
      else if ord c < 32 then None
      else if ord c < 0x80 then prepend [c] (unquote cs)
      else if utf8_len (c # cs) = 0 then prepend replacement (unquote cs)
      else prepend (take (utf8_len (c # cs)) (c # cs)) (unquote (drop (utf8_len (c # cs) - 1) cs)))"
  by pat_completeness auto
termination unquote by (relation "measure length") auto

declare unquote.simps(2) [simp del]

subsection \<open>Values\<close>

text \<open>
  A number is kept as its literal. Every call of the parser below goes down by one unit of fuel
  and every third one at the latest reads a character, so \<open>3 * length + 3\<close> is enough;
  \<open>depth\<close> counts the nesting, of which the library allows ten thousand levels.
\<close>

datatype json = JNull | JBool bool | JNum string | JStr string | JArr "json list" | JObj "(string \<times> json) list"

definition json_space :: "char \<Rightarrow> bool" where
  "json_space c \<longleftrightarrow> ord c = 32 \<or> ord c = 9 \<or> ord c = 10 \<or> ord c = 13"

definition skip_space :: "string \<Rightarrow> string" where
  "skip_space s = dropWhile json_space s"

definition is_digit :: "char \<Rightarrow> bool" where
  "is_digit c \<longleftrightarrow> digit_val c \<noteq> None"

text \<open>One digit or more.\<close>

definition digits1 :: "string \<Rightarrow> (string \<times> string) option" where
  "digits1 s = (if takeWhile is_digit s = [] then None else Some (takeWhile is_digit s, dropWhile is_digit s))"

definition number_int :: "string \<Rightarrow> (string \<times> string) option" where
  "number_int s = (case s of
     [] \<Rightarrow> None
   | c # cs \<Rightarrow> if c = CHR ''0'' then Some (''0'', cs) else digits1 s)"

definition number_frac :: "string \<Rightarrow> (string \<times> string) option" where
  "number_frac s = (case s of
     c # cs \<Rightarrow> if c = CHR ''.'' then prepend [c] (digits1 cs) else Some ([], s)
   | [] \<Rightarrow> Some ([], s))"

definition number_exp :: "string \<Rightarrow> (string \<times> string) option" where
  "number_exp s = (case s of
     c # cs \<Rightarrow>
       if c = CHR ''e'' \<or> c = CHR ''E'' then
         (case cs of
            d # ds \<Rightarrow> if d = CHR ''+'' \<or> d = CHR ''-''
              then prepend [c, d] (digits1 ds)
              else prepend [c] (digits1 cs)
          | [] \<Rightarrow> None)
       else Some ([], s)
   | [] \<Rightarrow> Some ([], s))"

definition number :: "string \<Rightarrow> (string \<times> string) option" where
  "number s = (let (sign, s1) = (if take 1 s = ''-'' then (''-'', tl s) else ([], s)) in
     case number_int s1 of
       None \<Rightarrow> None
     | Some (i, s2) \<Rightarrow> (case number_frac s2 of
           None \<Rightarrow> None
         | Some (f, s3) \<Rightarrow> prepend (sign @ i @ f) (number_exp s3)))"

definition max_depth :: nat where "max_depth = 10000"

fun parse_value :: "nat \<Rightarrow> nat \<Rightarrow> string \<Rightarrow> (json \<times> string) option"
  and parse_elements :: "nat \<Rightarrow> nat \<Rightarrow> string \<Rightarrow> (json list \<times> string) option"
  and parse_members :: "nat \<Rightarrow> nat \<Rightarrow> string \<Rightarrow> ((string \<times> json) list \<times> string) option" where
  "parse_value 0 depth s = None"
| "parse_value (Suc fuel) depth s = (case skip_space s of
     [] \<Rightarrow> None
   | c # cs \<Rightarrow>
       if c = dq then map_option (apfst JStr) (unquote cs)
       else if c = CHR ''{'' then
         (if max_depth \<le> depth then None
          else (case skip_space cs of
              [] \<Rightarrow> None
            | d # ds \<Rightarrow> if d = CHR ''}'' then Some (JObj [], ds)
                else map_option (apfst JObj) (parse_members fuel (Suc depth) (d # ds))))
       else if c = CHR ''['' then
         (if max_depth \<le> depth then None
          else (case skip_space cs of
              [] \<Rightarrow> None
            | d # ds \<Rightarrow> if d = CHR '']'' then Some (JArr [], ds)
                else map_option (apfst JArr) (parse_elements fuel (Suc depth) (d # ds))))
       else if take 4 (c # cs) = ''null'' then Some (JNull, drop 3 cs)
       else if take 4 (c # cs) = ''true'' then Some (JBool True, drop 3 cs)
       else if take 5 (c # cs) = ''false'' then Some (JBool False, drop 4 cs)
       else map_option (apfst JNum) (number (c # cs)))"
| "parse_elements 0 depth s = None"
| "parse_elements (Suc fuel) depth s = (case parse_value fuel depth s of
     None \<Rightarrow> None
   | Some (v, s1) \<Rightarrow> (case skip_space s1 of
         [] \<Rightarrow> None
       | c # cs \<Rightarrow> if c = CHR '']'' then Some ([v], cs)
           else if c = CHR '','' then prepend [v] (parse_elements fuel depth cs)
           else None))"
| "parse_members 0 depth s = None"
| "parse_members (Suc fuel) depth s = (case skip_space s of
     [] \<Rightarrow> None
   | c # cs \<Rightarrow> if c \<noteq> dq then None
       else (case unquote cs of
           None \<Rightarrow> None
         | Some (k, s1) \<Rightarrow> (case skip_space s1 of
               [] \<Rightarrow> None
             | d # ds \<Rightarrow> if d \<noteq> CHR '':'' then None
                 else (case parse_value fuel depth ds of
                     None \<Rightarrow> None
                   | Some (v, s2) \<Rightarrow> (case skip_space s2 of
                         [] \<Rightarrow> None
                       | e # es \<Rightarrow> if e = CHR ''}'' then Some ([(k, v)], es)
                           else if e = CHR '','' then prepend [(k, v)] (parse_members fuel depth es)
                           else None)))))"

definition parse_json :: "string \<Rightarrow> json option" where
  "parse_json s = (case parse_value (3 * length s + 3) 0 s of
     None \<Rightarrow> None
   | Some (v, rest) \<Rightarrow> if skip_space rest = [] then Some v else None)"

subsection \<open>What is quoted is read back\<close>

lemma hex_val_digit [simp]: "d < 16 \<Longrightarrow> hex_val (hex_digit d) = Some d"
proof -
  have "\<forall>d\<in>set [0..<16]. hex_val (hex_digit d) = Some d" by code_simp
  then show "d < 16 \<Longrightarrow> hex_val (hex_digit d) = Some d" by simp
qed

lemma char_of_ord: "ord c = n \<Longrightarrow> c = char_of n"
  by (metis char_of_char)

lemma escape_short: "e \<noteq> CHR ''u'' \<Longrightarrow> simple_escape e = Some c \<Longrightarrow> xs = [bs, e] \<Longrightarrow>
    \<exists>e. xs = [bs, e] \<and> e \<noteq> CHR ''u'' \<and> simple_escape e = Some c"
  by blast

lemma control_chars:
  "char_of (8::nat) = CHR 0x08" "char_of (12::nat) = CHR 0x0C" "char_of (10::nat) = CHR 0x0A"
  "char_of (13::nat) = CHR 0x0D" "char_of (9::nat) = CHR 0x09"
  by code_simp+

lemma simple_escapes:
  "simple_escape dq = Some dq" "simple_escape bs = Some bs" "simple_escape CHR ''b'' = Some CHR 0x08"
  "simple_escape CHR ''f'' = Some CHR 0x0C" "simple_escape CHR ''n'' = Some CHR 0x0A"
  "simple_escape CHR ''r'' = Some CHR 0x0D" "simple_escape CHR ''t'' = Some CHR 0x09"
  by code_simp+

lemma hex4_ascii:
  assumes "ord c < 0x80"
  shows "hex4 [CHR ''0'', CHR ''0'', hex_digit (ord c div 16), hex_digit (ord c mod 16)] = Some (ord c)"
proof -
  have "hex_val CHR ''0'' = Some 0" by code_simp
  then show ?thesis using assms by (simp add: hex4_def)
qed

lemma escape_ascii_cases:
  assumes "ord c < 0x80"
  shows "(\<exists>e. escape_ascii c = [bs, e] \<and> e \<noteq> CHR ''u'' \<and> simple_escape e = Some c) \<or>
    (\<exists>ds. escape_ascii c = bs # CHR ''u'' # ds \<and> hex4 ds = Some (ord c) \<and> length ds = 4) \<or>
    (escape_ascii c = [c] \<and> c \<noteq> dq \<and> c \<noteq> bs \<and> 32 \<le> ord c)"
proof -
  consider "c = dq" | "c = bs" | "ord c = 8" | "ord c = 12" | "ord c = 10" | "ord c = 13" | "ord c = 9"
    | (other) "c \<noteq> dq" "c \<noteq> bs" "ord c \<notin> {8, 12, 10, 13, 9}" by blast
  then show ?thesis
  proof cases
    case other
    then show ?thesis
      using hex4_ascii [OF assms] by (simp add: escape_ascii_def not_less)
  qed (auto intro!: disjI1 escape_short simp: escape_ascii_def simple_escapes simple_escapes(1,2) [unfolded dq_def bs_def]
      control_chars dq_def bs_def dest!: char_of_ord)
qed

lemma unicode_escape_hex:
  assumes "hex4 ds = Some r" "length ds = 4" "r < 0xD800"
  shows "unicode_escape (ds @ s) = Some (4, utf8_of r)"
proof -
  obtain a b c d where "ds = [a, b, c, d]"
    using assms(2) by (cases ds; cases "tl ds"; cases "tl (tl ds)"; cases "tl (tl (tl ds))") auto
  then have "hex4 (ds @ s) = Some r" using assms(1) by (simp add: hex4_def)
  then show ?thesis using assms(3) by (simp add: unicode_escape_def)
qed

lemma unquote_escape_u:
  assumes "hex4 ds = Some r" "length ds = 4" "r < 0xD800"
  shows "unquote (bs # CHR ''u'' # ds @ s) = prepend (utf8_of r) (unquote s)"
  by (simp add: unquote.simps(2) unicode_escape_hex [OF assms] assms(2) dq_def bs_def)

lemma unquote_escape_ascii:
  assumes "ord c < 0x80"
  shows "unquote (escape_ascii c @ s) = prepend [c] (unquote s)"
  using escape_ascii_cases [OF assms]
proof (elim disjE exE conjE)
  fix e assume "escape_ascii c = [bs, e]" "e \<noteq> CHR ''u''" "simple_escape e = Some c"
  then show ?thesis by (simp add: unquote.simps(2) dq_def bs_def)
next
  fix ds assume h: "escape_ascii c = bs # CHR ''u'' # ds" "hex4 ds = Some (ord c)" "length ds = 4"
  have "utf8_of (ord c) = [c]" using assms by (simp add: utf8_of_def)
  then show ?thesis using unquote_escape_u [OF h(2,3), of s] assms h(1) by simp
qed (use assms in \<open>simp add: unquote.simps(2)\<close>)

text \<open>A multi-byte character at the head of a string is cut off whole, whatever follows it.\<close>

lemma utf8_len_Cons:
  assumes "utf8_len (c # cs) \<noteq> 0"
  defines "k \<equiv> lead_len (ord c)"
  shows "utf8_len (c # cs) = k" "2 \<le> k" "k - 1 \<le> length cs" "second_ok (ord c) (cs ! 0)"
    "list_all cont_byte (take (k - 1) cs)" "0xC2 \<le> ord c"
  using assms by (auto simp: utf8_len_def Let_def lead_len_def split: if_splits)

lemma utf8_len_cut:
  assumes "utf8_len (c # cs) \<noteq> 0"
  defines "k \<equiv> utf8_len (c # cs)"
  shows "utf8_len (c # take (k - 1) cs @ r) = k"
proof -
  note * = utf8_len_Cons [OF assms(1)]
  have "(take (k - 1) cs @ r) ! 0 = cs ! 0" using *(1,2,3) by (simp add: k_def nth_append)
  moreover have "k - 1 - length (take (k - 1) cs) = 0" using *(1,3) by (simp add: k_def)
  ultimately show ?thesis
    using * unfolding k_def by (simp add: utf8_len_def Let_def)
qed

lemma unquote_multi:
  assumes "utf8_len (c # cs) \<noteq> 0"
  defines "k \<equiv> utf8_len (c # cs)"
  shows "unquote (take k (c # cs) @ r) = prepend (take k (c # cs)) (unquote r)"
proof -
  note * = utf8_len_Cons [OF assms(1)]
  have c: "c \<noteq> dq" "c \<noteq> bs" using *(6) by (auto simp: dq_def bs_def)
  have t: "take k (c # cs) = c # take (k - 1) cs" using *(1,2) by (cases k) (simp_all add: k_def)
  have l: "length (take (k - 1) cs) = k - 1" using *(1,3) by (simp add: k_def)
  have "take k (c # take (k - 1) cs @ r) = c # take (k - 1) cs" "drop (k - 1) (take (k - 1) cs @ r) = r"
    using l *(1,2) by (cases k; simp add: k_def)+
  then show ?thesis
    unfolding t using utf8_len_cut [OF assms(1), of r] c *(1,2,6) by (simp add: unquote.simps(2) k_def)
qed

lemma separators:
  "hex4 ''2028'' = Some 0x2028" "hex4 ''2029'' = Some 0x2029"
  "utf8_of 0x2028 = [CHR 0xE2, CHR 0x80, CHR 0xA8]" "utf8_of 0x2029 = [CHR 0xE2, CHR 0x80, CHR 0xA9]"
  by (simp_all add: hex4_def hex_val_def utf8_of_def) (code_simp+)?

lemma unquote_escape_multi:
  assumes "utf8_len (c # cs) \<noteq> 0"
  defines "u \<equiv> take (utf8_len (c # cs)) (c # cs)"
  shows "unquote (escape_multi u @ r) = prepend u (unquote r)"
  using unquote_multi [OF assms(1), of r] unquote_escape_u [OF separators(1), of r]
    unquote_escape_u [OF separators(2), of r]
  by (simp add: escape_multi_def separators(3,4) flip: u_def)

lemma prepend_Some [simp]: "prepend u (Some (t, r)) = Some (u @ t, r)"
  by (simp add: prepend_def)

text \<open>A string with each byte that is no part of a character replaced, as it is read back.\<close>

function scrub :: "string \<Rightarrow> string" where
  "scrub [] = []"
| "scrub (c # cs) =
     (if ord c < 0x80 then c # scrub cs
      else if utf8_len (c # cs) = 0 then replacement @ scrub cs
      else take (utf8_len (c # cs)) (c # cs) @ scrub (drop (utf8_len (c # cs) - 1) cs))"
  by pat_completeness auto
termination scrub by (relation "measure length") auto

lemma replacement_escape: "hex4 ''fffd'' = Some 0xFFFD" "utf8_of 0xFFFD = replacement"
  by (simp_all add: hex4_def hex_val_def utf8_of_def replacement_def) (code_simp+)?

lemma unquote_replacement: "unquote (bs # ''ufffd'' @ s) = prepend replacement (unquote s)"
proof -
  have "hex4 (''fffd'' @ s) = Some 0xFFFD" using replacement_escape(1) by (simp add: hex4_def)
  then have "unicode_escape (''fffd'' @ s) = Some (4, replacement)" by (simp add: unicode_escape_def replacement_escape(2))
  then show ?thesis by (simp add: unquote.simps(2) dq_def bs_def)
qed

lemma unquote_scrub: "unquote (quote_body s @ dq # r) = Some (scrub s, r)"
proof (induction s rule: scrub.induct)
  case 1
  then show ?case by (simp add: unquote.simps(2))
next
  case (2 c cs)
  consider "ord c < 0x80" | "\<not> ord c < 0x80" "utf8_len (c # cs) = 0" | "\<not> ord c < 0x80" "utf8_len (c # cs) \<noteq> 0" by blast
  then show ?case
  proof cases
    case 1
    then show ?thesis using "2.IH"(1) by (simp add: unquote_escape_ascii)
  next
    case 2
    then show ?thesis using "2.IH"(2) unquote_replacement [of "quote_body cs @ dq # r"] by simp
  next
    case 3
    then show ?thesis using "2.IH"(3) by (simp add: unquote_escape_multi [OF 3(2)] del: take_Suc_Cons)
  qed
qed

lemma scrub_valid [simp]: "valid_utf8 s \<Longrightarrow> scrub s = s"
proof (induction s rule: valid_utf8.induct)
  case (2 c cs)
  then show ?case by (cases "utf8_len (c # cs)") (auto simp: not_less)
qed simp

lemma scrub_utf8: "valid_utf8 (scrub s)"
proof (induction s rule: scrub.induct)
  case (2 c cs)
  consider "ord c < 0x80" | "\<not> ord c < 0x80" "utf8_len (c # cs) = 0" | "\<not> ord c < 0x80" "utf8_len (c # cs) \<noteq> 0" by blast
  then show ?case
  proof cases
    case 1
    then show ?thesis using "2.IH"(1) by simp
  next
    case 2
    have "valid_utf8 (replacement @ t)" if "valid_utf8 t" for t
      using that by (simp add: replacement_def utf8_len_def lead_len_def second_ok_def cont_byte_def Let_def)
    then show ?thesis using "2.IH"(2) 2 by simp
  next
    case 3
    define k where "k = utf8_len (c # cs)"
    note * = utf8_len_Cons [OF 3(2), folded k_def]
    have k: "2 \<le> k" "k - 1 \<le> length cs" using *(1,2,3) by simp_all
    then have t: "take k (c # cs) = c # take (k - 1) cs" by (simp add: take_Cons')
    have "length (take (k - 1) cs) = k - 1" using k(2) by simp
    then show ?thesis
      using "2.IH"(3) 3 utf8_len_cut [OF 3(2), folded k_def] k(1) by (simp add: t flip: k_def del: take_Suc_Cons)
  qed
qed simp

lemma unquote_quote_body: "valid_utf8 s \<Longrightarrow> unquote (quote_body s @ dq # r) = Some (s, r)"
  by (simp add: unquote_scrub)

lemma unquote_json_quote: "valid_utf8 s \<Longrightarrow> unquote (tl (json_quote s) @ r) = Some (s, r)"
  by (simp add: json_quote_def unquote_quote_body)

subsection \<open>Fields of an object\<close>

text \<open>
  Keys are compared as \<open>encoding/json\<close> folds them: letters without case, with the long s and
  the Kelvin sign folding to the letters they look like.
\<close>

fun fold_key :: "string \<Rightarrow> string" where
  "fold_key [] = []"
| "fold_key [c] = [to_lower c]"
| "fold_key (c # d # cs) =
     (if c = CHR 0xC5 \<and> d = CHR 0xBF then CHR ''s'' # fold_key cs
      else if c = CHR 0xE2 \<and> d = CHR 0x84 \<and> take 1 cs = [CHR 0xAA] then CHR ''k'' # fold_key (drop 1 cs)
      else to_lower c # fold_key (d # cs))"

text \<open>
  The values an object gives a field, in order: a key names a field when it is its name, or
  when it is no name of the struct and folds to it.
\<close>

definition names_field :: "string list \<Rightarrow> string \<Rightarrow> string \<Rightarrow> bool" where
  "names_field names f k \<longleftrightarrow> (if k \<in> set names then k = f else fold_key k = fold_key f)"

definition values_of :: "string list \<Rightarrow> (string \<times> json) list \<Rightarrow> string \<Rightarrow> json list" where
  "values_of names ms f = map snd (filter (\<lambda>(k, v). names_field names f k) ms)"

text \<open>Decoding the values of one field, the last one winning: \<open>None\<close> is an error of type.\<close>

fun decode_field :: "('a \<Rightarrow> json \<Rightarrow> 'a option) \<Rightarrow> json list \<Rightarrow> 'a \<Rightarrow> 'a option" where
  "decode_field d [] a = Some a"
| "decode_field d (v # vs) a = (case d a v of None \<Rightarrow> None | Some b \<Rightarrow> decode_field d vs b)"

fun into_string :: "string \<Rightarrow> json \<Rightarrow> string option" where
  "into_string s JNull = Some s"
| "into_string s (JStr t) = Some t"
| "into_string s _ = None"

fun into_bool :: "bool \<Rightarrow> json \<Rightarrow> bool option" where
  "into_bool b JNull = Some b"
| "into_bool b (JBool c) = Some c"
| "into_bool b _ = None"

fun into_int64 :: "int64 \<Rightarrow> json \<Rightarrow> int64 option" where
  "into_int64 n JNull = Some n"
| "into_int64 n (JNum s) = (case parse_int64 s of Inr m \<Rightarrow> Some m | Inl e \<Rightarrow> None)"
| "into_int64 n _ = None"

text \<open>A pointer: null is nil, any other value is decoded into a new zero.\<close>

definition into_pointer :: "('a \<Rightarrow> json \<Rightarrow> 'a option) \<Rightarrow> 'a \<Rightarrow> 'a option \<Rightarrow> json \<Rightarrow> 'a option option" where
  "into_pointer d z p v = (if v = JNull then Some None
     else map_option Some (d (case p of None \<Rightarrow> z | Some a \<Rightarrow> a) v))"

fun into_strings :: "string list \<Rightarrow> json \<Rightarrow> string list option" where
  "into_strings ss JNull = Some []"
| "into_strings ss (JArr vs) = those (map (\<lambda>(i, v). into_string (if i < length ss then ss ! i else []) v) (enumerate 0 vs))"
| "into_strings ss _ = None"

end
