(* ===== verification/Identifiers.thy ===== *)
theory Identifiers
  imports Json
begin

section \<open>Random identifiers\<close>

text \<open>
  \<^verbatim>\<open>backend/utils.go\<close>, \<open>newConnectionID\<close> of \<^verbatim>\<open>backend/presence.go\<close> and the trace identifiers
  of \<^verbatim>\<open>backend/telemetry.go\<close>: hexadecimal text of bytes from the operating system. The bytes are
  an argument: \<open>Some\<close> of as many as were asked for, or \<open>None\<close> when reading them fails.
\<close>

definition hex_byte :: "char \<Rightarrow> string" where
  "hex_byte c = [hex_digit (ord c div 16), hex_digit (ord c mod 16)]"

definition hex_encode :: "string \<Rightarrow> string" where
  "hex_encode bytes = concat (map hex_byte bytes)"

definition generateRoomID :: "string option \<Rightarrow> string" where
  "generateRoomID random = (case random of None \<Rightarrow> ''fallback123'' | Some bytes \<Rightarrow> hex_encode bytes)"

definition newConnectionID :: "string option \<Rightarrow> string option" where
  "newConnectionID random = map_option hex_encode random"

definition randomHex :: "nat \<Rightarrow> string option \<Rightarrow> string" where
  "randomHex bytesLen random = (case random of
     None \<Rightarrow> replicate (bytesLen * 2) (CHR ''0'') | Some bytes \<Rightarrow> hex_encode bytes)"

definition NewTraceID :: "string option \<Rightarrow> string" where
  "NewTraceID = randomHex 16"

definition NewSpanID :: "string option \<Rightarrow> string" where
  "NewSpanID = randomHex 8"

subsection \<open>Facts\<close>

lemma hex_digit_inject: "a < 16 \<Longrightarrow> b < 16 \<Longrightarrow> hex_digit a = hex_digit b \<longleftrightarrow> a = b"
  by (metis hex_val_digit option.inject)

lemma ord_bounds: "ord (c :: char) div 16 < 16" "ord (c :: char) mod 16 < 16"
  using less_mult_imp_div_less [of "ord c" 16 16] by simp_all

lemma hex_byte_inject: "hex_byte c = hex_byte d \<longleftrightarrow> c = d"
proof
  assume "hex_byte c = hex_byte d"
  then have "ord c div 16 = ord d div 16" "ord c mod 16 = ord d mod 16"
    by (auto simp: hex_byte_def hex_digit_inject ord_bounds)
  then have "ord c = ord d" by (metis div_mult_mod_eq)
  then show "c = d" by simp
qed simp

lemma length_hex_encode [simp]: "length (hex_encode s) = 2 * length s"
  by (induction s) (simp_all add: hex_encode_def hex_byte_def)

lemma hex_encode_inject: "hex_encode s = hex_encode t \<longleftrightarrow> s = t"
proof
  assume "hex_encode s = hex_encode t"
  moreover from this have "length s = length t" by (metis length_hex_encode mult_cancel1 zero_neq_numeral)
  ultimately show "s = t"
    by (induction s t rule: list_induct2')
      (auto simp: hex_encode_def hex_byte_inject [symmetric], simp_all add: hex_byte_def)
qed simp

lemma hex_encode_digits: "c \<in> set (hex_encode s) \<Longrightarrow> c \<in> set ''0123456789abcdef''"
proof -
  have "\<forall>d\<in>set [0..<16]. hex_digit d \<in> set ''0123456789abcdef''" by code_simp
  then have d: "d < 16 \<Longrightarrow> hex_digit d \<in> set ''0123456789abcdef''" for d by (simp del: list.set)
  assume "c \<in> set (hex_encode s)"
  then obtain x where "c = hex_digit (ord x div 16) \<or> c = hex_digit (ord x mod 16)"
    by (auto simp: hex_encode_def hex_byte_def)
  then show "c \<in> set ''0123456789abcdef''" using d ord_bounds by metis
qed

end
