(* ===== verification/Config.thy ===== *)
theory Config
  imports Wire_Types
begin

section \<open>Configuration\<close>

text \<open>
  \<^verbatim>\<open>backend/config.go\<close> and \<open>withDefaults\<close> of \<^verbatim>\<open>backend/presence_lease.go\<close>. The
  environment is a function from names to values, as \<open>os.Getenv\<close> reads it; the host name is
  an argument. Durations are \<open>int64\<close> nanoseconds and wrap.
\<close>

abbreviation Millisecond :: int64 where "Millisecond \<equiv> 1000000"
abbreviation Second :: int64 where "Second \<equiv> 1000000000"

record PresenceTiming =
  HeartbeatInterval :: int64
  LeaseDuration :: int64
  SweepInterval :: int64

definition defaultPresenceHeartbeat :: int64 where "defaultPresenceHeartbeat = 10 * Second"
definition defaultPresenceLease :: int64 where "defaultPresenceLease = 30 * Second"
definition defaultPresenceSweep :: int64 where "defaultPresenceSweep = 5 * Second"

definition withDefaults :: "PresenceTiming \<Rightarrow> PresenceTiming" where
  "withDefaults p =
     (let p1 = (if HeartbeatInterval p \<le> 0 then p\<lparr>HeartbeatInterval := defaultPresenceHeartbeat\<rparr> else p);
          p2 = (if LeaseDuration p1 \<le> 0 then p1\<lparr>LeaseDuration := defaultPresenceLease\<rparr> else p1);
          p3 = (if SweepInterval p2 \<le> 0 then p2\<lparr>SweepInterval := defaultPresenceSweep\<rparr> else p2)
      in if LeaseDuration p3 < wrap64 (3 * HeartbeatInterval p3)
         then p3\<lparr>LeaseDuration := wrap64 (3 * HeartbeatInterval p3)\<rparr> else p3)"

record Config =
  Port :: string
  AllowedOrigins :: "string list"
  StaleWritePolicy :: StaleWritePolicy
  TraceFile :: string
  RedisAddr :: string
  InstanceID :: string
  ServiceName :: string
  OTLPEndpoint :: string
  JSONLogs :: bool
  EnableDebugFaults :: bool
  RedisDelayMs :: int64
  Presence :: PresenceTiming

definition splitAndTrim :: "string \<Rightarrow> string list" where
  "splitAndTrim v = filter (\<lambda>s. s \<noteq> []) (map TrimSpace (Split (CHR '','') v))"

fun origin_in :: "string \<Rightarrow> string list \<Rightarrow> bool" where
  "origin_in origin [] = False"
| "origin_in origin (candidate # cs) = (candidate = ''*'' \<or> candidate = origin \<or> origin_in origin cs)"

definition originAllowed :: "string \<Rightarrow> string list \<Rightarrow> bool" where
  "originAllowed origin allowed = (origin = [] \<or> origin_in origin allowed)"

text \<open>\<open>strconv.ParseBool\<close>.\<close>

definition ParseBool :: "string \<Rightarrow> bool option" where
  "ParseBool s =
     (if s \<in> {''1'', ''t'', ''T'', ''true'', ''TRUE'', ''True''} then Some True
      else if s \<in> {''0'', ''f'', ''F'', ''false'', ''FALSE'', ''False''} then Some False
      else None)"

type_synonym environ = "string \<Rightarrow> string"

definition envBool :: "environ \<Rightarrow> string \<Rightarrow> bool \<Rightarrow> bool" where
  "envBool env name fallback =
     (let v = TrimSpace (ToLower (env name)) in
      if v = [] then fallback else (case ParseBool v of None \<Rightarrow> fallback | Some b \<Rightarrow> b))"

definition envInt64 :: "environ \<Rightarrow> string \<Rightarrow> int64 \<Rightarrow> int64" where
  "envInt64 env name fallback =
     (let v = TrimSpace (env name) in
      if v = [] then fallback else (case parse_int64 v of Inl e \<Rightarrow> fallback | Inr n \<Rightarrow> n))"

definition or_default :: "string \<Rightarrow> string \<Rightarrow> string" where
  "or_default v d = (if v = [] then d else v)"

text \<open>Any other value of the policy variable means reject.\<close>

definition policy_of :: "string \<Rightarrow> StaleWritePolicy" where
  "policy_of s = (if s = ''accept'' then StaleWriteAccept else StaleWriteReject)"

definition LoadConfig :: "environ \<Rightarrow> string \<Rightarrow> Config" where
  "LoadConfig env hostname =
     (let port = or_default (TrimSpace (env ''PORT'')) ''8080'';
          origins = splitAndTrim (env ''ALLOWED_ORIGINS'')
      in \<lparr>Port = port,
          AllowedOrigins = (if origins = [] then [''http://localhost:5173'', ''http://127.0.0.1:5173''] else origins),
          StaleWritePolicy = policy_of (ToLower (TrimSpace (env ''LIVECOLLAB_STALE_WRITE_POLICY''))),
          TraceFile = TrimSpace (env ''LIVECOLLAB_TRACE_FILE''),
          RedisAddr = TrimSpace (env ''LIVECOLLAB_REDIS_ADDR''),
          InstanceID = or_default (TrimSpace (env ''LIVECOLLAB_INSTANCE_ID''))
            (or_default hostname ''local'' @ '':'' @ port),
          ServiceName = or_default (TrimSpace (env ''OTEL_SERVICE_NAME'')) ''livecollab-backend'',
          OTLPEndpoint = TrimSpace (env ''OTEL_EXPORTER_OTLP_ENDPOINT''),
          JSONLogs = envBool env ''LIVECOLLAB_JSON_LOGS'' True,
          EnableDebugFaults = envBool env ''LIVECOLLAB_ENABLE_DEBUG_FAULTS'' False,
          RedisDelayMs = envInt64 env ''LIVECOLLAB_REDIS_DELAY_MS'' 0,
          Presence = withDefaults \<lparr>
            HeartbeatInterval = wrap64 (envInt64 env ''LIVECOLLAB_PRESENCE_HEARTBEAT_MS'' 10000 * Millisecond),
            LeaseDuration = wrap64 (envInt64 env ''LIVECOLLAB_PRESENCE_LEASE_MS'' 30000 * Millisecond),
            SweepInterval = wrap64 (envInt64 env ''LIVECOLLAB_PRESENCE_SWEEP_MS'' 5000 * Millisecond)\<rparr>\<rparr>)"

subsection \<open>What a configuration guarantees\<close>

definition timing_ok :: "PresenceTiming \<Rightarrow> bool" where
  "timing_ok p \<longleftrightarrow> 0 < HeartbeatInterval p \<and> 0 < LeaseDuration p \<and> 0 < SweepInterval p \<and>
     3 * HeartbeatInterval p \<le> LeaseDuration p"

text \<open>A heartbeat below this bound can be multiplied by three.\<close>

abbreviation heartbeat_limit :: int where "heartbeat_limit \<equiv> 3074457345618258602"

lemma withDefaults_ok:
  assumes "HeartbeatInterval p \<le> heartbeat_limit"
  shows "timing_ok (withDefaults p)"
proof -
  have w: "wrap64 (3 * h) = 3 * h" if "0 < h" "h \<le> heartbeat_limit" for h
    by (rule wrap64_id) (use that in \<open>simp add: int64_ok_def\<close>)
  show ?thesis
    using assms w [of "HeartbeatInterval p"] w [of "10 * Second"]
    by (auto simp: withDefaults_def timing_ok_def Let_def defaultPresenceHeartbeat_def
        defaultPresenceLease_def defaultPresenceSweep_def)
qed

lemma withDefaults_id:
  assumes "timing_ok p" "LeaseDuration p \<le> max_int64"
  shows "withDefaults p = p"
proof -
  have "wrap64 (3 * HeartbeatInterval p) = 3 * HeartbeatInterval p"
    by (rule wrap64_id) (use assms in \<open>auto simp: timing_ok_def int64_ok_def\<close>)
  with assms(1) show ?thesis by (simp add: withDefaults_def timing_ok_def Let_def)
qed

lemma origin_in_iff: "origin_in origin allowed \<longleftrightarrow> ''*'' \<in> set allowed \<or> origin \<in> set allowed"
  by (induction allowed) auto

lemma splitAndTrim_entries:
  "s \<in> set (splitAndTrim v) \<Longrightarrow> s \<noteq> [] \<and> TrimSpace s = s"
  by (auto simp: splitAndTrim_def)

lemma policy_of_string: "policy_of (policy_string p) = p"
  by (cases p) (simp_all add: policy_of_def)

end
