(* ===== verification/Wire_Json.thy ===== *)
theory Wire_Json
  imports Json Wire_Types
begin

section \<open>The JSON of messages and participants\<close>

text \<open>
  The text that \<open>encoding/json\<close> makes of a value, and how the values of \<^verbatim>\<open>backend/client.go\<close>
  and \<^verbatim>\<open>backend/presence.go\<close> are encoded and decoded by their field tags. A text that is
  made from a value is parsed back into it.
\<close>

subsection \<open>Encoding\<close>

fun commas :: "string list \<Rightarrow> string" where
  "commas [] = []"
| "commas [t] = t"
| "commas (t # u # ts) = t @ CHR '','' # commas (u # ts)"

fun render :: "json \<Rightarrow> string" where
  "render JNull = ''null''"
| "render (JBool b) = (if b then ''true'' else ''false'')"
| "render (JNum s) = s"
| "render (JStr s) = json_quote s"
| "render (JArr vs) = CHR ''['' # commas (map render vs) @ '']''"
| "render (JObj ms) = CHR ''{'' # commas (map (\<lambda>(k, v). json_quote k @ CHR '':'' # render v) ms) @ ''}''"

subsection \<open>What is encoded is parsed back\<close>

fun nesting :: "json \<Rightarrow> nat" where
  "nesting (JArr vs) = Suc (Max (insert 0 (set (map nesting vs))))"
| "nesting (JObj ms) = Suc (Max (insert 0 (set (map (\<lambda>(k, v). nesting v) ms))))"
| "nesting _ = 0"

text \<open>The values the program encodes: strings are UTF-8, numbers are whole.\<close>

fun good_json :: "json \<Rightarrow> bool" where
  "good_json (JStr s) = valid_utf8 s"
| "good_json (JNum s) = (\<exists>n. s = FormatInt n)"
| "good_json (JArr vs) = (\<forall>v\<in>set vs. good_json v)"
| "good_json (JObj ms) = (\<forall>(k, v)\<in>set ms. valid_utf8 k \<and> good_json v)"
| "good_json _ = True"

text \<open>A value as it is read back: with its strings scrubbed.\<close>

fun scrub_json :: "json \<Rightarrow> json" where
  "scrub_json (JStr s) = JStr (scrub s)"
| "scrub_json (JArr vs) = JArr (map scrub_json vs)"
| "scrub_json (JObj ms) = JObj (map (\<lambda>(k, v). (scrub k, scrub_json v)) ms)"
| "scrub_json v = v"

definition ends_value :: "string \<Rightarrow> bool" where
  "ends_value r \<longleftrightarrow> r = [] \<or> hd r \<in> {CHR '','', CHR '']'', CHR ''}'', CHR 0x0A}"

text \<open>The text is read as the value, whatever follows that ends a value; a new line does.\<close>

definition reads :: "string \<Rightarrow> json \<Rightarrow> bool" where
  "reads t v \<longleftrightarrow> t \<noteq> [] \<and> (\<forall>fuel depth r. length t \<le> fuel \<longrightarrow> depth + nesting v \<le> max_depth \<longrightarrow> ends_value r \<longrightarrow>
     parse_value fuel depth (t @ r) = Some (v, r))"

text \<open>The text of a number, and the values whose numbers have such texts.\<close>

definition number_text :: "string \<Rightarrow> bool" where
  "number_text s \<longleftrightarrow> s \<noteq> [] \<and> (hd s = CHR ''-'' \<or> is_digit (hd s)) \<and> (\<forall>r. ends_value r \<longrightarrow> number (s @ r) = Some (s, r))"

fun plain_json :: "json \<Rightarrow> bool" where
  "plain_json (JNum s) = number_text s"
| "plain_json (JArr vs) = (\<forall>v\<in>set vs. plain_json v)"
| "plain_json (JObj ms) = (\<forall>(k, v)\<in>set ms. plain_json v)"
| "plain_json _ = True"

lemma good_json_scrubbed: "good_json v \<Longrightarrow> scrub_json v = v"
proof (induction v)
  case (JArr vs)
  then show ?case by (auto intro: map_idI)
next
  case (JObj ms)
  then show ?case by (force intro!: map_idI)
qed auto

lemma nesting_scrub [simp]: "nesting (scrub_json v) = nesting v"
proof (induction v)
  case (JArr vs)
  then have "map (nesting \<circ> scrub_json) vs = map nesting vs" by simp
  then show ?case by (simp add: image_image cong: image_cong)
next
  case (JObj ms)
  then have "(\<lambda>x. nesting (scrub_json (snd x))) ` set ms = (\<lambda>x. nesting (snd x)) ` set ms"
    by (intro image_cong) (auto simp: snds.simps)
  then show ?case by (simp add: case_prod_beta image_image)
qed auto

lemma readsD:
  "reads t v \<Longrightarrow> length t \<le> fuel \<Longrightarrow> depth + nesting v \<le> max_depth \<Longrightarrow> ends_value r \<Longrightarrow>
   parse_value fuel depth (t @ r) = Some (v, r)"
  by (simp add: reads_def)

lemma ends_value_simps [simp]:
  "ends_value []" "ends_value (CHR '','' # r)" "ends_value (CHR '']'' # r)" "ends_value (CHR ''}'' # r)" "ends_value (CHR 0x0A # r)"
  by (simp_all add: ends_value_def)

lemma skip_space_marks [simp]:
  "skip_space (CHR '','' # r) = CHR '','' # r" "skip_space (CHR '']'' # r) = CHR '']'' # r"
  "skip_space (CHR ''}'' # r) = CHR ''}'' # r" "skip_space (CHR '':'' # r) = CHR '':'' # r"
  "skip_space (CHR ''['' # r) = CHR ''['' # r" "skip_space (CHR ''{'' # r) = CHR ''{'' # r"
  "skip_space (CHR ''n'' # r) = CHR ''n'' # r" "skip_space (CHR ''t'' # r) = CHR ''t'' # r"
  "skip_space (CHR ''f'' # r) = CHR ''f'' # r" "skip_space (CHR ''-'' # r) = CHR ''-'' # r"
  "skip_space (dq # r) = dq # r" "skip_space [] = []"
  by (simp_all add: skip_space_def json_space_def dq_def)

lemma marks_not_quote [simp]:
  "CHR '','' \<noteq> dq" "CHR '']'' \<noteq> dq" "CHR ''}'' \<noteq> dq" "CHR '':'' \<noteq> dq" "CHR ''['' \<noteq> dq" "CHR ''{'' \<noteq> dq"
  "CHR ''n'' \<noteq> dq" "CHR ''t'' \<noteq> dq" "CHR ''f'' \<noteq> dq" "CHR ''-'' \<noteq> dq"
  "dq \<noteq> CHR ''}''" "dq \<noteq> CHR '']''"
  by (simp_all add: dq_def)

lemma reads_atoms:
  "reads ''null'' JNull" "reads ''true'' (JBool True)" "reads ''false'' (JBool False)"
  by (auto simp: reads_def Suc_le_eq dest!: gr0_implies_Suc elim!: less_imp_Suc_add [elim_format])

lemma reads_string: "reads (json_quote s) (JStr (scrub s))"
  unfolding reads_def
proof (intro conjI allI impI)
  fix fuel depth and r :: string assume "length (json_quote s) \<le> fuel"
  then show "parse_value fuel depth (json_quote s @ r) = Some (JStr (scrub s), r)"
    by (cases fuel) (simp_all add: json_quote_def unquote_scrub)
qed (simp add: json_quote_def)

text \<open>Whole numbers.\<close>

lemma takeWhile_fmt_nat:
  assumes "ends_value r"
  shows "takeWhile is_digit (fmt_nat n @ r) = fmt_nat n" "dropWhile is_digit (fmt_nat n @ r) = r"
proof -
  have "\<forall>c\<in>set (fmt_nat n). is_digit c" using fmt_nat_digits by (force simp: is_digit_def)
  moreover have "takeWhile is_digit r = []" "dropWhile is_digit r = r"
    using assms by (cases r; auto simp: ends_value_def is_digit_def digit_val_def)+
  ultimately show "takeWhile is_digit (fmt_nat n @ r) = fmt_nat n" "dropWhile is_digit (fmt_nat n @ r) = r"
    by simp_all
qed

lemma fmt_nat_head: "0 < n \<Longrightarrow> hd (fmt_nat n) \<noteq> CHR ''0''"
proof (induction n rule: fmt_nat.induct)
  case (1 n)
  have "digit d \<noteq> CHR ''0''" if "0 < d" "d < 10" for d
  proof
    assume "digit d = CHR ''0''"
    then have "digit_val (digit d) = Some 0" by (simp add: digit_val_def)
    with that show False by simp
  qed
  with 1 show ?case by (cases "n < 10") (simp_all add: fmt_nat.simps [of n])
qed

lemma number_int_fmt_nat: "ends_value r \<Longrightarrow> number_int (fmt_nat n @ r) = Some (fmt_nat n, r)"
proof -
  assume r: "ends_value r"
  obtain c cs where c: "fmt_nat n = c # cs" by (metis fmt_nat_not_Nil list.exhaust)
  show ?thesis
  proof (cases "n = 0")
    case True
    then have "fmt_nat n = ''0''" by (simp add: fmt_nat.simps digit_def) code_simp
    then show ?thesis by (simp add: number_int_def)
  next
    case False
    then have "c \<noteq> CHR ''0''" using fmt_nat_head [of n] c by simp
    then show ?thesis using takeWhile_fmt_nat [OF r, of n] by (simp add: number_int_def digits1_def c)
  qed
qed

lemma number_FormatInt: "ends_value r \<Longrightarrow> number (FormatInt n @ r) = Some (FormatInt n, r)"
proof -
  assume r: "ends_value r"
  have tail: "number_frac r = Some ([], r)" "number_exp r = Some ([], r)"
    using r by (cases r; auto simp: ends_value_def number_frac_def number_exp_def)+
  show ?thesis
  proof (cases "n < 0")
    case True
    then show ?thesis by (simp add: FormatInt_def number_def number_int_fmt_nat [OF r] tail)
  next
    case False
    obtain c cs where c: "fmt_nat (nat n) = c # cs" by (metis fmt_nat_not_Nil list.exhaust)
    with hd_fmt_nat have "take 1 (fmt_nat (nat n) @ r) \<noteq> ''-''" by (metis append_Cons list.inject take_Suc_Cons One_nat_def)
    with False show ?thesis by (simp add: FormatInt_def number_def number_int_fmt_nat [OF r] tail)
  qed
qed

lemma FormatInt_first: "FormatInt n = c # cs \<Longrightarrow> c = CHR ''-'' \<or> 48 \<le> ord c \<and> ord c \<le> 57"
  using fmt_nat_digits [of c "nat n"] by (auto simp: FormatInt_def digit_val_Some_iff split: if_splits)

lemma number_text_FormatInt: "number_text (FormatInt n)"
proof -
  obtain c cs where c: "FormatInt n = c # cs" by (metis FormatInt_not_Nil list.exhaust)
  have "c = CHR ''-'' \<or> is_digit c" using FormatInt_first [OF c] by (auto simp: is_digit_def digit_val_def)
  then show ?thesis using number_FormatInt [of _ n] by (simp add: number_text_def c)
qed

lemma number_first:
  assumes "number_text (c # cs)"
  shows "c \<noteq> dq" "c \<noteq> CHR ''{''" "c \<noteq> CHR ''[''" "c \<noteq> CHR '']''" "c \<noteq> CHR ''n''" "c \<noteq> CHR ''t''" "c \<noteq> CHR ''f''" "\<not> json_space c"
proof -
  have "c = CHR ''-'' \<or> 48 \<le> ord c \<and> ord c \<le> 57" using assms by (auto simp: number_text_def is_digit_def digit_val_def Let_def split: if_splits)
  then show "c \<noteq> dq" "c \<noteq> CHR ''{''" "c \<noteq> CHR ''[''" "c \<noteq> CHR '']''" "c \<noteq> CHR ''n''" "c \<noteq> CHR ''t''" "c \<noteq> CHR ''f''" "\<not> json_space c"
    by (auto simp: dq_def json_space_def)
qed

lemma reads_number:
  assumes "number_text s"
  shows "reads s (JNum s)"
  unfolding reads_def
proof (intro conjI allI impI)
  fix fuel depth and r :: string assume f: "length s \<le> fuel" and r: "ends_value r"
  obtain c cs where c: "s = c # cs" using assms by (cases s) (auto simp: number_text_def)
  note ne = number_first [OF assms [unfolded c]]
  from f c obtain fuel' where "fuel = Suc fuel'" by (cases fuel) auto
  then show "parse_value fuel depth (s @ r) = Some (JNum s, r)"
    using assms r ne by (simp add: c skip_space_def number_text_def)
qed (use assms in \<open>simp add: number_text_def\<close>)

text \<open>Elements and members, up to the bracket that closes them.\<close>

lemma length_commas: "t \<in> set ts \<Longrightarrow> length t \<le> length (commas ts)"
  by (induction ts rule: commas.induct) auto

lemma parse_elements_commas:
  assumes "vs \<noteq> []" "\<forall>v\<in>set vs. reads (render v) (scrub_json v)" "\<forall>v\<in>set vs. depth + nesting v \<le> max_depth"
    and "length (commas (map render vs)) < fuel"
  shows "parse_elements fuel depth (commas (map render vs) @ CHR '']'' # r) = Some (map scrub_json vs, r)"
  using assms
proof (induction vs arbitrary: fuel rule: list_nonempty_induct)
  case (single v)
  then obtain f where "fuel = Suc f" "length (render v) \<le> f" by (cases fuel) auto
  then show ?case
    using readsD [of "render v" "scrub_json v" f depth "CHR '']'' # r"] single by simp
next
  case (cons v vs)
  from cons.hyps obtain w ws where w: "vs = w # ws" by (cases vs) auto
  from cons.prems(3) obtain f where f: "fuel = Suc f" "length (commas (map render (v # vs))) \<le> f" by (cases fuel) auto
  have "parse_value f depth (render v @ CHR '','' # commas (map render vs) @ CHR '']'' # r) =
      Some (scrub_json v, CHR '','' # commas (map render vs) @ CHR '']'' # r)"
    by (rule readsD) (use cons.prems f w in auto)
  moreover have "parse_elements f depth (commas (map render vs) @ CHR '']'' # r) = Some (map scrub_json vs, r)"
    by (rule cons.IH) (use cons.prems f w in auto)
  ultimately show ?case by (simp add: f(1) w)
qed

definition member_text :: "string \<times> json \<Rightarrow> string" where
  "member_text = (\<lambda>(k, v). json_quote k @ CHR '':'' # render v)"

lemma parse_member:
  assumes "reads (render v) (scrub_json v)" "depth + nesting v \<le> max_depth" "length (render v) \<le> fuel"
    and "d = CHR '','' \<or> d = CHR ''}''"
  shows "parse_members (Suc fuel) depth (json_quote k @ CHR '':'' # render v @ d # r) =
    (if d = CHR ''}'' then Some ([(scrub k, scrub_json v)], r)
     else if d = CHR '','' then prepend [(scrub k, scrub_json v)] (parse_members fuel depth r) else None)"
proof -
  have e: "skip_space (d # r) = d # r" "ends_value (d # r)" using assms(4) by auto
  show ?thesis
    using readsD [OF assms(1,3) _ e(2)] assms(2) e(1) by (simp add: json_quote_def unquote_scrub)
qed

lemma parse_members_commas:
  assumes "ms \<noteq> []" "\<forall>(k, v)\<in>set ms. reads (render v) (scrub_json v)"
    and "\<forall>(k, v)\<in>set ms. depth + nesting v \<le> max_depth" "length (commas (map member_text ms)) < fuel"
  shows "parse_members fuel depth (commas (map member_text ms) @ CHR ''}'' # r) = Some (map (\<lambda>(k, v). (scrub k, scrub_json v)) ms, r)"
  using assms
proof (induction ms arbitrary: fuel rule: list_nonempty_induct)
  case (single m)
  obtain k v where m: "m = (k, v)" by force
  from single.prems m obtain f where "fuel = Suc f" "length (render v) \<le> f"
    by (cases fuel) (auto simp: member_text_def)
  then show ?case using parse_member [of v depth f "CHR ''}''" k r] single.prems
    by (simp add: m member_text_def)
next
  case (cons m ms)
  obtain k v where m: "m = (k, v)" by force
  from cons.hyps obtain w ws where w: "ms = w # ws" by (cases ms) auto
  from cons.prems(3) obtain f where f: "fuel = Suc f" "length (commas (map member_text (m # ms))) \<le> f"
    by (cases fuel) auto
  have "parse_members f depth (commas (map member_text ms) @ CHR ''}'' # r) = Some (map (\<lambda>(k, v). (scrub k, scrub_json v)) ms, r)"
    by (rule cons.IH) (use cons.prems f w m in auto)
  moreover have "length (render v) \<le> f" using f w m by (simp add: member_text_def)
  ultimately show ?case
    using parse_member [of v depth f "CHR '',''" k "commas (map member_text ms) @ CHR ''}'' # r"] cons.prems
    by (simp add: f(1) w m member_text_def)
qed

lemma render_object: "render (JObj ms) = CHR ''{'' # commas (map member_text ms) @ ''}''"
  by (simp add: member_text_def)

lemma nesting_array: "v \<in> set vs \<Longrightarrow> nesting v < nesting (JArr vs)"
  by (simp add: less_Suc_eq_le)

lemma nesting_object: "(k, v) \<in> set ms \<Longrightarrow> nesting v < nesting (JObj ms)"
  by (force simp: less_Suc_eq_le intro!: Max_ge)

lemma commas_first: "ts \<noteq> [] \<Longrightarrow> \<forall>t\<in>set ts. t \<noteq> [] \<Longrightarrow> \<exists>u. commas ts = hd (hd ts) # u"
  by (cases ts rule: commas.cases; cases "hd ts") auto

lemma render_first: "plain_json v \<Longrightarrow> \<exists>c cs. render v = c # cs \<and> \<not> json_space c \<and> c \<noteq> CHR '']''"
proof (cases v)
  case (JNum s)
  assume "plain_json v"
  with JNum have n: "number_text s" by simp
  then obtain c cs where "s = c # cs" by (cases s) (auto simp: number_text_def)
  with number_first [of c cs] n JNum show ?thesis by simp
qed (auto simp: json_quote_def json_space_def dq_def)

lemma reads_array:
  assumes "\<forall>v\<in>set vs. plain_json v \<and> reads (render v) (scrub_json v)"
  shows "reads (render (JArr vs)) (scrub_json (JArr vs))"
  unfolding reads_def
proof (intro conjI allI impI)
  fix fuel depth and r :: string
  assume f: "length (render (JArr vs)) \<le> fuel" and d: "depth + nesting (scrub_json (JArr vs)) \<le> max_depth"
  then obtain f' where f': "fuel = Suc f'" "length (commas (map render vs)) < f'" by (cases fuel) auto
  have lt: "\<not> max_depth \<le> depth" using d unfolding nesting_scrub by simp
  show "parse_value fuel depth (render (JArr vs) @ r) = Some (scrub_json (JArr vs), r)"
  proof (cases "vs = []")
    case True
    then show ?thesis using lt by (simp add: f'(1))
  next
    case False
    have "\<forall>v\<in>set vs. Suc depth + nesting v \<le> max_depth"
      using d nesting_array unfolding nesting_scrub by fastforce
    then have "parse_elements f' (Suc depth) (commas (map render vs) @ CHR '']'' # r) = Some (map scrub_json vs, r)"
      by (intro parse_elements_commas) (use False assms f' in auto)
    moreover have good: "plain_json (hd vs)" and ne: "\<forall>t\<in>set (map render vs). t \<noteq> []"
      using False assms render_first by fastforce+
    obtain c cs where c: "render (hd vs) = c # cs" "\<not> json_space c" "c \<noteq> CHR '']''"
      using render_first [OF good] by blast
    moreover obtain u where "commas (map render vs) = hd (hd (map render vs)) # u"
      using commas_first [OF _ ne] False by auto
    then have "commas (map render vs) = c # u" using False c(1) by (simp add: hd_map)
    ultimately show ?thesis using lt by (simp add: f'(1) skip_space_def json_space_def)
  qed
qed simp

lemma reads_object:
  assumes "\<forall>(k, v)\<in>set ms. reads (render v) (scrub_json v)"
  shows "reads (render (JObj ms)) (scrub_json (JObj ms))"
  unfolding reads_def
proof (intro conjI allI impI)
  fix fuel depth and r :: string
  assume f: "length (render (JObj ms)) \<le> fuel" and d: "depth + nesting (scrub_json (JObj ms)) \<le> max_depth"
  then obtain f' where f': "fuel = Suc f'" "length (commas (map member_text ms)) < f'"
    unfolding render_object by (cases fuel) auto
  have lt: "\<not> max_depth \<le> depth" using d unfolding nesting_scrub by simp
  show "parse_value fuel depth (render (JObj ms) @ r) = Some (scrub_json (JObj ms), r)"
  proof (cases "ms = []")
    case True
    then show ?thesis using lt by (simp add: f'(1))
  next
    case False
    have "\<forall>(k, v)\<in>set ms. Suc depth + nesting v \<le> max_depth"
      using d nesting_object unfolding nesting_scrub by fastforce
    then have "parse_members f' (Suc depth) (commas (map member_text ms) @ CHR ''}'' # r) = Some (map (\<lambda>(k, v). (scrub k, scrub_json v)) ms, r)"
      by (intro parse_members_commas) (use False assms f' in auto)
    moreover have ne: "\<forall>t\<in>set (map member_text ms). t \<noteq> []" and hd: "hd (hd (map member_text ms)) = dq"
      using False by (cases ms; auto simp: member_text_def json_quote_def)+
    obtain u where "commas (map member_text ms) = dq # u"
      using commas_first [OF _ ne] False unfolding hd by auto
    ultimately show ?thesis
      unfolding render_object using lt by (simp add: f'(1))
  qed
qed simp

lemma reads_render: "plain_json v \<Longrightarrow> reads (render v) (scrub_json v)"
proof (induction v)
  case (JArr vs)
  then show ?case by (intro reads_array) auto
next
  case (JObj ms)
  then show ?case by (intro reads_object) fastforce
qed (auto simp: reads_atoms reads_string reads_number simp del: render.simps(5,6))

lemma good_json_plain: "good_json v \<Longrightarrow> plain_json v"
proof (induction v)
  case (JObj ms)
  then show ?case by fastforce
qed (auto simp: number_text_FormatInt)

text \<open>Whatever the strings hold, what is encoded is one value, and white space may follow it.\<close>

lemma parse_scrubbed:
  assumes "plain_json v" "nesting v \<le> max_depth"
  shows "parse_json (render v) = Some (scrub_json v)" "parse_json (render v @ [CHR 0x0A]) = Some (scrub_json v)"
  using readsD [OF reads_render [OF assms(1)], of "3 * length (render v) + 3" 0 "[]"]
    readsD [OF reads_render [OF assms(1)], of "3 * length (render v @ [CHR 0x0A]) + 3" 0 "[CHR 0x0A]"] assms(2)
  by (simp_all add: parse_json_def skip_space_def json_space_def)

lemma parse_render:
  assumes "good_json v" "nesting v \<le> max_depth"
  shows "parse_json (render v) = Some v"
  using parse_scrubbed(1) [OF good_json_plain [OF assms(1)] assms(2)] good_json_scrubbed [OF assms(1)] by simp

end
