(* ===== verification/Telemetry.thy ===== *)
theory Telemetry
  imports Metrics Identifiers Config Wire_Json
begin

section \<open>Log lines and spans\<close>

text \<open>
  The JSON logger and the OTLP exporter of \<^verbatim>\<open>backend/telemetry.go\<close>: the line that is printed and
  the request that is posted. Values of type \<open>any\<close> are attributes; a Go map is marshalled with its
  keys in order. \<open>fmt_float\<close> is the JSON text of a finite \<open>float64\<close>; the others do not marshal.
  The POST runs in a goroutine of its own and its result is ignored.
\<close>

subsection \<open>Attributes\<close>

datatype attr = ABool bool | AInt int64 | AUint "64 word" | AFloat float64 | AStr string

type_synonym attrs = "(string \<times> attr) list"

definition FormatUint :: "64 word \<Rightarrow> string" where
  "FormatUint w = FormatInt (uint w)"

text \<open>A Go map with these entries, the later winning, as a JSON object.\<close>

definition go_map :: "(string \<times> json) list \<Rightarrow> json" where
  "go_map kvs = JObj (map (\<lambda>k. (k, the (map_of (rev kvs) k))) (sort (remdups (map fst kvs))))"

definition float_json :: "(real \<Rightarrow> string) \<Rightarrow> float64 \<Rightarrow> json option" where
  "float_json fmt_float v = (case v of Fin x \<Rightarrow> Some (JNum (fmt_float x)) | _ \<Rightarrow> None)"

fun attr_json :: "(real \<Rightarrow> string) \<Rightarrow> attr \<Rightarrow> json option" where
  "attr_json fmt_float (ABool b) = Some (JBool b)"
| "attr_json fmt_float (AInt n) = Some (JNum (FormatInt n))"
| "attr_json fmt_float (AUint w) = Some (JNum (FormatUint w))"
| "attr_json fmt_float (AFloat v) = float_json fmt_float v"
| "attr_json fmt_float (AStr s) = Some (JStr s)"

definition marshal_attrs :: "(attr \<Rightarrow> json option) \<Rightarrow> attrs \<Rightarrow> (string \<times> json) list option" where
  "marshal_attrs f kvs = those (map (\<lambda>(k, a). map_option (Pair k) (f a)) kvs)"

subsection \<open>The logger\<close>

record JSONLogger =
  lgEnabled :: bool
  lgInstanceID :: string

definition NewJSONLogger :: "bool \<Rightarrow> string \<Rightarrow> JSONLogger" where
  "NewJSONLogger enabled instanceID = \<lparr>lgEnabled = enabled, lgInstanceID = instanceID\<rparr>"

text \<open>\<open>Event\<close>: the line printed, if any, at the time \<open>now\<close>.\<close>

definition Event :: "(real \<Rightarrow> string) \<Rightarrow> string \<Rightarrow> JSONLogger \<Rightarrow> string \<Rightarrow> string \<Rightarrow> attrs \<Rightarrow> string option" where
  "Event fmt_float now l level event flds =
     (if \<not> lgEnabled l then None
      else map_option
        (\<lambda>kvs. render (go_map ([(''timestamp'', JStr now), (''level'', JStr level), (''event'', JStr event),
           (''instanceId'', JStr (lgInstanceID l))] @ kvs)))
        (marshal_attrs (attr_json fmt_float) flds))"

subsection \<open>The exporter\<close>

record span =
  spTraceID :: string
  spSpanID :: string
  spParentID :: string
  spName :: string
  spStart :: int64
  spEnd :: "int64 option"
  spAttributes :: attrs
  spError :: string

record OTLPExporter =
  exEndpoint :: string
  exServiceName :: string
  exInstanceID :: string

definition TrimRight :: "string \<Rightarrow> char \<Rightarrow> string" where
  "TrimRight s c = rev (dropWhile (\<lambda>d. d = c) (rev s))"

definition NewOTLPExporter :: "string \<Rightarrow> string \<Rightarrow> string \<Rightarrow> OTLPExporter" where
  "NewOTLPExporter endpoint serviceName instanceID =
     \<lparr>exEndpoint = TrimRight endpoint (CHR ''/''), exServiceName = serviceName, exInstanceID = instanceID\<rparr>"

fun otlpValue :: "(real \<Rightarrow> string) \<Rightarrow> attr \<Rightarrow> json option" where
  "otlpValue fmt_float (ABool b) = Some (go_map [(''boolValue'', JBool b)])"
| "otlpValue fmt_float (AInt n) = Some (go_map [(''intValue'', JStr (FormatInt n))])"
| "otlpValue fmt_float (AUint w) = Some (go_map [(''intValue'', JStr (FormatUint w))])"
| "otlpValue fmt_float (AFloat v) = map_option (\<lambda>j. go_map [(''doubleValue'', j)]) (float_json fmt_float v)"
| "otlpValue fmt_float (AStr s) = Some (go_map [(''stringValue'', JStr s)])"

definition key_value :: "string \<Rightarrow> json \<Rightarrow> json" where
  "key_value k v = go_map [(''key'', JStr k), (''value'', v)]"

definition otlp_span :: "span \<Rightarrow> int64 \<Rightarrow> json list \<Rightarrow> json" where
  "otlp_span s now attributes = go_map
     ([(''traceId'', JStr (spTraceID s)), (''spanId'', JStr (spSpanID s)), (''name'', JStr (spName s)),
       (''kind'', JNum ''2''), (''startTimeUnixNano'', JStr (FormatInt (spStart s))),
       (''endTimeUnixNano'', JStr (FormatInt (case spEnd s of None \<Rightarrow> now | Some t \<Rightarrow> t))),
       (''attributes'', JArr attributes),
       (''status'', if spError s \<noteq> [] then go_map [(''code'', JNum ''2''), (''message'', JStr (spError s))]
                    else go_map [(''code'', JNum ''1'')])] @
      (if spParentID s \<noteq> [] then [(''parentSpanId'', JStr (spParentID s))] else []))"

definition otlp_body :: "OTLPExporter \<Rightarrow> json \<Rightarrow> json" where
  "otlp_body e sp = go_map [(''resourceSpans'', JArr [go_map
     [(''resource'', go_map [(''attributes'', JArr
        [key_value ''service.name'' (go_map [(''stringValue'', JStr (exServiceName e))]),
         key_value ''service.instance.id'' (go_map [(''stringValue'', JStr (exInstanceID e))])])]),
      (''scopeSpans'', JArr [go_map
        [(''scope'', go_map [(''name'', JStr ''livecollab.manual-otlp''), (''version'', JStr ''3.0.0'')]),
         (''spans'', JArr [sp])]])]])]"

text \<open>\<open>Export\<close>: the address and the body of the request, if one is made.\<close>

definition Export :: "(real \<Rightarrow> string) \<Rightarrow> int64 \<Rightarrow> OTLPExporter \<Rightarrow> span \<Rightarrow> (string \<times> string) option" where
  "Export fmt_float now e s =
     (if exEndpoint e = [] then None
      else map_option
        (\<lambda>kvs. (exEndpoint e @ ''/v1/traces'',
           render (otlp_body e (otlp_span s now (map (\<lambda>(k, v). key_value k v) kvs)))))
        (marshal_attrs (otlpValue fmt_float) (sort_key fst (spAttributes s))))"

record Telemetry =
  tlMetrics :: Metrics
  tlLogger :: JSONLogger
  tlTracer :: OTLPExporter

definition NewTelemetry :: "Config \<Rightarrow> Telemetry" where
  "NewTelemetry config = \<lparr>tlMetrics = NewMetrics, tlLogger = NewJSONLogger (JSONLogs config) (InstanceID config),
     tlTracer = NewOTLPExporter (OTLPEndpoint config) (ServiceName config) (InstanceID config)\<rparr>"

subsection \<open>Effects\<close>

text \<open>
  What a handler does beside its result, in order: calls of the metrics, trace records, log
  events, and spans.
\<close>

datatype effect = Metric metric | Traced TraceEvent | Logged string string attrs | Exported span

definition zero_span :: span where
  "zero_span = \<lparr>spTraceID = [], spSpanID = [], spParentID = [], spName = [], spStart = 0, spEnd = None,
     spAttributes = [], spError = []\<rparr>"

end
