(* ===== verification/Resume.thy ===== *)
theory Resume
  imports Replay_Loop Room Telemetry
begin

section \<open>Resuming a client\<close>

text \<open>
  \<open>resumeClient\<close> of \<^verbatim>\<open>backend/ws.go\<close>: the boundary, the announcement, the replay, and the
  handoff to live delivery. While it runs, the room's watcher offers live updates to the same
  client: \<open>reOffers i\<close> are those offered before the handler's \<open>i\<close>-th write. They go through
  \<open>writeContentUpdate\<close> as \<open>Room.BroadcastJSON\<close> sends them. Other backends run between the
  handler's calls to Redis, as the \<open>net\<close> says. Metrics, trace records, log events and spans
  are returned as effects in the order of the calls; the times in them are the environment's.
\<close>

record 'db resume_env =
  reNet :: "'db net"
  reOffers :: "nat \<Rightarrow> Message list"
  reElapsed :: float64
  reDurationMs :: real
  reLogMs :: real
  reStarted :: int64
  reEnded :: int64
  reTraceID :: string
  reSpanID :: string
  reInstanceID :: string

datatype resume_error =
    StoreFailed store_error
  | CursorAhead int64 int64
  | WriteFailed string

definition offered :: "'db resume_env \<Rightarrow> nat \<Rightarrow> client \<Rightarrow> client" where
  "offered env i c = fold offer_update (reOffers env i) c"

definition resume_started :: "int64 \<Rightarrow> DistributedEvent \<Rightarrow> Message" where
  "resume_started lastSeq boundary = zero_message\<lparr>
     mType := ''resume_started'', mFromSequence := lastSeq, mLatestSequence := eSequence boundary,
     mServerVersion := eVersion boundary\<rparr>"

definition resume_complete :: "int64 \<Rightarrow> DistributedEvent \<Rightarrow> nat \<Rightarrow> Message" where
  "resume_complete lastSeq boundary n = zero_message\<lparr>
     mType := ''resume_complete'', mFromSequence := lastSeq, mLatestSequence := eSequence boundary,
     mServerVersion := eVersion boundary, mReplayed := int n\<rparr>"

definition replay_trace :: "'db resume_env \<Rightarrow> string \<Rightarrow> string \<Rightarrow> DistributedEvent \<Rightarrow> TraceEvent" where
  "replay_trace env rid clientID event = zero_trace\<lparr>
     tStage := ''resume_event_replayed'', tInstanceID := reInstanceID env, tRoomID := rid,
     tOperationID := eOperationID event, tClientID := clientID, tEventSequence := eSequence event,
     tStreamID := eStreamID event, tServerVersion := eVersion event, tContent := eContent event\<rparr>"

text \<open>The callback: the client, the number of events replayed, and the effects so far.\<close>

definition replay_visit :: "'db resume_env \<Rightarrow> string \<Rightarrow> (client \<times> nat \<times> effect list) visitor" where
  "replay_visit env rid event st = (case st of (c, n, effs) \<Rightarrow>
     (case WriteJSON (offered env (Suc n) c) (messageFromDistributedEvent event) of
        (Ok u, c') \<Rightarrow> (Ok (), (c', Suc n, effs @ [Traced (replay_trace env rid (cClientID c') event)]))
      | (Err e, c') \<Rightarrow> (Err e, (c', n, effs))
      | (Panic, c') \<Rightarrow> (Panic, (c', n, effs))))"

text \<open>\<open>err.Error()\<close> of the two errors that wrap \<open>errReplayGap\<close>; other errors do not.\<close>

fun gap_reason :: "store_error \<Rightarrow> string option" where
  "gap_reason (ReplayEnded expected b) = Some (''replay sequence gap: ended before sequence '' @
     FormatInt expected @ '' (boundary '' @ FormatInt b @ '')'')"
| "gap_reason (ReplayGap expected got) = Some (''replay sequence gap: expected sequence '' @
     FormatInt expected @ '', received '' @ FormatInt got)"
| "gap_reason _ = None"

definition gap_effects :: "'db resume_env \<Rightarrow> string \<Rightarrow> string \<Rightarrow> int64 \<Rightarrow> nat \<Rightarrow> store_error \<Rightarrow> effect list" where
  "gap_effects env rid clientID lastSeq n e = (case gap_reason e of
     None \<Rightarrow> []
   | Some reason \<Rightarrow> [Metric SequenceGap, Traced (zero_trace\<lparr>
       tStage := ''resume_gap_detected'', tInstanceID := reInstanceID env, tRoomID := rid,
       tClientID := clientID, tEventSequence := wrap64 (lastSeq + int n + 1), tReason := reason\<rparr>)])"

definition complete_effects :: "'db resume_env \<Rightarrow> string \<Rightarrow> string \<Rightarrow> int64 \<Rightarrow> DistributedEvent \<Rightarrow> nat \<Rightarrow> effect list" where
  "complete_effects env rid clientID lastSeq boundary n =
     [Metric ResumeSucceeded, Metric (ReplayedEvents (int n)), Metric (ObserveResume (reElapsed env)),
      Logged ''info'' ''resume_complete''
        [(''traceId'', AStr (reTraceID env)), (''roomId'', AStr rid), (''clientId'', AStr clientID),
         (''fromSequence'', AInt lastSeq), (''latestSequence'', AInt (eSequence boundary)),
         (''replayed'', AInt (int n)), (''durationMs'', AFloat (Fin (reLogMs env)))],
      Exported (zero_span\<lparr>
        spTraceID := reTraceID env, spSpanID := reSpanID env, spName := ''livecollab.websocket.resume'',
        spStart := reStarted env, spEnd := Some (reEnded env), spAttributes :=
          [(''room.id'', AStr rid), (''client.id'', AStr clientID), (''resume.from_sequence'', AInt lastSeq),
           (''resume.latest_sequence'', AInt (eSequence boundary)), (''resume.replayed'', AInt (int n))]\<rparr>),
      Traced (zero_trace\<lparr>
        tStage := ''resume_complete'', tTraceID := reTraceID env, tSpanID := reSpanID env,
        tDurationMs := reDurationMs env, tInstanceID := reInstanceID env, tRoomID := rid,
        tClientID := clientID, tEventSequence := eSequence boundary, tServerVersion := eVersion boundary,
        tReason := ''replayed_'' @ FormatInt (int n)\<rparr>)]"

definition resumeClient :: "'db exec \<Rightarrow> 'db resume_env \<Rightarrow> string \<Rightarrow> client \<Rightarrow> int64 \<Rightarrow> 'db \<Rightarrow>
    ((resume_error, unit) outcome \<times> client \<times> effect list \<times> 'db) option" where
  "resumeClient exec env rid c lastSeq db = (case ReplayBoundary exec (reNet env) rid db of
     (Err e, db) \<Rightarrow> Some (Err (StoreFailed e), c, [], db)
   | (Panic, db) \<Rightarrow> Some (Panic, c, [], db)
   | (Ok boundary, db) \<Rightarrow>
      if eSequence boundary < lastSeq then Some (Err (CursorAhead lastSeq (eSequence boundary)), c, [], db)
      else (case WriteJSON (offered env 0 c) (resume_started lastSeq boundary) of
          (Err e, c) \<Rightarrow> Some (Err (WriteFailed e), c, [], db)
        | (Panic, c) \<Rightarrow> Some (Panic, c, [], db)
        | (Ok u, c) \<Rightarrow>
           (case EventsAfterSequence exec (after_calls 1 (reNet env)) rid lastSeq boundary
               (replay_visit env rid) db (c, 0, []) of
              None \<Rightarrow> None
            | Some (Err e, db, (c, n, effs)) \<Rightarrow>
                Some (Err (StoreFailed e), c, effs @ gap_effects env rid (cClientID c) lastSeq n e, db)
            | Some (Panic, db, (c, n, effs)) \<Rightarrow> Some (Panic, c, effs, db)
            | Some (Ok u, db, (c, n, effs)) \<Rightarrow>
               (case finishReplay (resume_complete lastSeq boundary n) (offered env (Suc n) c) of
                  (Err e, c) \<Rightarrow> Some (Err (WriteFailed e), c, effs, db)
                | (Panic, c) \<Rightarrow> Some (Panic, c, effs, db)
                | (Ok u, c) \<Rightarrow> Some (Ok (), c, effs @ complete_effects env rid (cClientID c) lastSeq boundary n, db)))))"

end
