(* ===== verification/Resume_Facts.thy ===== *)
theory Resume_Facts
  imports Resume
begin

section \<open>What a resumed client receives\<close>

text \<open>
  The invariant of a client during a replay, with the live updates that others offer to it in between, and its
  frames when \<open>resumeClient\<close> is done.
\<close>

definition pending_msgs :: "client \<Rightarrow> Message set" where
  "pending_msgs c = ran (map_of (pending_list c))"

definition all_offers :: "'db resume_env \<Rightarrow> nat \<Rightarrow> nat \<Rightarrow> Message set" where
  "all_offers env i j = (\<Union>k\<in>{i..j}. set (reOffers env k))"

lemma all_offers_split: "i \<le> j \<Longrightarrow> all_offers env i j = set (reOffers env i) \<union> all_offers env (Suc i) j"
  by (simp add: all_offers_def atLeastAtMost_insertL [symmetric, of i j])

lemma all_offers_empty [simp]: "j < i \<Longrightarrow> all_offers env i j = {}"
  by (simp add: all_offers_def)

lemma client_write_same_id: "cClientID (snd (client_write c f)) = cClientID c"
  by (auto simp: client_write_def split: option.splits prod.splits)

lemma put_frame_clientID [simp]: "cClientID (put_frame f c) = cClientID c"
  by (simp add: put_frame_def)

lemma put_frame_pending_list [simp]: "pending_list (put_frame f c) = pending_list c"
  by (simp add: pending_list_def)

subsection \<open>Live updates during the replay\<close>

lemma offer_buffering:
  assumes "buffering c" "is_content m"
  shows "buffering (offer_update m c)" "lastSequence (offer_update m c) = lastSequence c"
    "client_frames (offer_update m c) = client_frames c" "no_faults (offer_update m c) = no_faults c"
    "fst ` set (pending_list (offer_update m c)) =
       fst ` set (pending_list c) \<union> (if lastSequence c < mSequence m then {mSequence m} else {})"
  by (rule buffering_update [OF assms], simp)+

lemma offer_buffering_same:
  assumes "buffering c"
  shows "cClientID (offer_update m c) = cClientID c"
    "pending_msgs (offer_update m c) \<subseteq> insert m (pending_msgs c)"
proof -
  from assms obtain p where p: "pending c = Some p" "replaying c"
    by (auto simp: buffering_def pending_ok_def)
  then show "cClientID (offer_update m c) = cClientID c"
    by (simp add: writeContentUpdate_def)
  show "pending_msgs (offer_update m c) \<subseteq> insert m (pending_msgs c)"
    using p by (auto simp: writeContentUpdate_def pending_msgs_def pending_list_def update_conv' ran_def)
qed

lemma offers_buffering:
  assumes "buffering c" "\<forall>m\<in>set ms. is_content m"
  shows "buffering (fold offer_update ms c) \<and> lastSequence (fold offer_update ms c) = lastSequence c \<and>
    client_frames (fold offer_update ms c) = client_frames c \<and>
    no_faults (fold offer_update ms c) = no_faults c \<and> cClientID (fold offer_update ms c) = cClientID c \<and>
    fst ` set (pending_list (fold offer_update ms c)) =
      fst ` set (pending_list c) \<union> {s \<in> mSequence ` set ms. lastSequence c < s} \<and>
    pending_msgs (fold offer_update ms c) \<subseteq> set ms \<union> pending_msgs c"
  using assms
proof (induction ms arbitrary: c)
  case (Cons m ms)
  let ?c = "offer_update m c"
  note step = offer_buffering [OF Cons.prems(1), of m] offer_buffering_same [OF Cons.prems(1), of m]
  have m: "is_content m" using Cons.prems(2) by simp
  have IH: "buffering (fold offer_update ms ?c) \<and> lastSequence (fold offer_update ms ?c) = lastSequence ?c \<and>
    client_frames (fold offer_update ms ?c) = client_frames ?c \<and>
    no_faults (fold offer_update ms ?c) = no_faults ?c \<and> cClientID (fold offer_update ms ?c) = cClientID ?c \<and>
    fst ` set (pending_list (fold offer_update ms ?c)) =
      fst ` set (pending_list ?c) \<union> {s \<in> mSequence ` set ms. lastSequence ?c < s} \<and>
    pending_msgs (fold offer_update ms ?c) \<subseteq> set ms \<union> pending_msgs ?c"
    by (rule Cons.IH) (use step(1) m Cons.prems(2) in auto)
  then show ?case using step m by (auto simp del: fold_simps simp: fold_Cons)
qed simp

text \<open>The state of a replaying client, between two writes of the handler.\<close>

definition replay_state :: "'db resume_env \<Rightarrow> client \<Rightarrow> int \<Rightarrow> nat \<Rightarrow> frame list \<Rightarrow> client \<Rightarrow> bool" where
  "replay_state env c0 n k fs c \<longleftrightarrow> buffering c \<and> no_faults c \<and> lastSequence c = n \<and>
     cClientID c = cClientID c0 \<and> client_frames c = client_frames c0 @ fs \<and>
     fst ` set (pending_list c) = {s \<in> mSequence ` all_offers env 0 k. n < s} \<and>
     pending_msgs c \<subseteq> all_offers env 0 k"

definition content_offers :: "'db resume_env \<Rightarrow> bool" where
  "content_offers env \<longleftrightarrow> (\<forall>i. \<forall>m\<in>set (reOffers env i). is_content m)"

lemma all_offers_snoc: "all_offers env 0 (Suc k) = all_offers env 0 k \<union> set (reOffers env (Suc k))"
  by (auto simp: all_offers_def atLeastAtMostSuc_conv)

lemma replay_state_offered:
  assumes "replay_state env c0 n k fs c" "content_offers env"
  shows "replay_state env c0 n (Suc k) fs (offered env (Suc k) c)"
  using assms offers_buffering [of c "reOffers env (Suc k)"]
  by (auto simp: replay_state_def content_offers_def offered_def all_offers_snoc)

lemma replay_state_start:
  assumes "no_faults c" "content_offers env"
  shows "replay_state env c n 0 [] (offered env 0 (beginReplay n c))"
proof -
  have "buffering (beginReplay n c)" by (rule buffering_beginReplay [OF no_faults_has_conn [OF assms(1)]])
  moreover have "lastSequence (beginReplay n c) = n" "no_faults (beginReplay n c)"
    "client_frames (beginReplay n c) = client_frames c" "cClientID (beginReplay n c) = cClientID c"
    "pending_list (beginReplay n c) = []"
    using assms(1) by (simp_all add: beginReplay_def no_faults_def client_frames_def pending_list_def)
  ultimately show ?thesis
    using offers_buffering [of "beginReplay n c" "reOffers env 0"] assms(2)
    by (auto simp: replay_state_def content_offers_def offered_def all_offers_def pending_msgs_def)
qed

lemma buffering_put_frame [simp]: "buffering (put_frame f c) = buffering c"
  by (auto simp: buffering_def pending_ok_def has_conn_def put_frame_def)

lemma replay_state_write:
  "replay_state env c0 n k fs c \<Longrightarrow> replay_state env c0 n k (fs @ [FMessage m]) (put_frame (FMessage m) c)"
  by (simp add: replay_state_def pending_msgs_def)

lemma replay_state_no_faults: "replay_state env c0 n k fs c \<Longrightarrow> no_faults c"
  by (simp add: replay_state_def)

lemma visit_all_replay:
  assumes "replay_state env c0 n k fs c" "content_offers env"
  shows "\<exists>c'. visit_all (replay_visit env rid) es (c, k, effs) =
      (Ok (), (c', k + length es, effs @ map (\<lambda>e. Traced (replay_trace env rid (cClientID c0) e)) es)) \<and>
    replay_state env c0 n (k + length es) (fs @ map (\<lambda>e. FMessage (messageFromDistributedEvent e)) es) c'"
  using assms(1)
proof (induction es arbitrary: k c fs effs)
  case (Cons e es)
  let ?o = "offered env (Suc k) c"
  let ?c = "put_frame (FMessage (messageFromDistributedEvent e)) ?o"
  have o: "replay_state env c0 n (Suc k) fs ?o" by (rule replay_state_offered [OF Cons.prems assms(2)])
  have w: "WriteJSON ?o (messageFromDistributedEvent e) = (Ok (), ?c)"
    by (rule WriteJSON_no_faults [OF replay_state_no_faults [OF o]])
  have st: "replay_state env c0 n (Suc k) (fs @ [FMessage (messageFromDistributedEvent e)]) ?c"
    by (rule replay_state_write [OF o])
  have id: "cClientID ?c = cClientID c0" using st by (simp add: replay_state_def)
  have v: "replay_visit env rid e (c, k, effs) =
      (Ok (), (?c, Suc k, effs @ [Traced (replay_trace env rid (cClientID c0) e)]))"
    using w id by (simp add: replay_visit_def)
  from Cons.IH [OF st, of "effs @ [Traced (replay_trace env rid (cClientID c0) e)]"] v show ?case
    by simp
qed simp

subsection \<open>The flush, with the messages\<close>

lemma flush_pending_messages:
  assumes "no_faults c" "\<forall>s\<in>set ss. \<exists>m. map_of (pending_list c) s = Some m \<and> is_content m"
  shows "\<exists>c'. flush_pending ss c = (Ok (), c') \<and> \<not> replaying c' \<and>
    lastSequence c' = (if ss = [] then lastSequence c else last ss) \<and> cClientID c' = cClientID c \<and>
    content_log c' = content_log c @ map (\<lambda>s. the (map_of (pending_list c) s)) ss \<and>
    client_frames c' = client_frames c @ map (\<lambda>s. FMessage (the (map_of (pending_list c) s))) ss"
  using assms
proof (induction ss arbitrary: c)
  case (Cons s ss)
  then obtain m where m: "map_of (pending_list c) s = Some m" "is_content m" by auto
  let ?c = "(put_frame (FMessage m) c)\<lparr>lastSequence := s\<rparr>"
  have "no_faults ?c" "pending_list ?c = pending_list c"
    using Cons.prems by (simp_all add: pending_list_def)
  with Cons.IH [of ?c] Cons.prems m show ?case by (auto simp: WriteJSON_no_faults)
qed simp

lemma finishReplay_messages:
  assumes st: "replay_state env c0 n k fs c" and nc: "\<not> is_content cm" and le: "n \<le> mLatestSequence cm"
  shows "\<exists>c' ms. finishReplay cm c = (Ok (), c') \<and> \<not> replaying c' \<and> cClientID c' = cClientID c0 \<and>
    content_log c' = content_log c @ ms \<and> client_frames c' = client_frames c @ FMessage cm # map FMessage ms \<and>
    map mSequence ms = sorted_list_of_set {s \<in> mSequence ` all_offers env 0 k. mLatestSequence cm < s} \<and>
    set ms \<subseteq> all_offers env 0 k \<and>
    lastSequence c' = (if ms = [] then mLatestSequence cm else mSequence (last ms))"
proof -
  from st obtain p where buf: "pending c = Some p" "distinct (map fst p)"
    "\<forall>s m. map_of p s = Some m \<longrightarrow> mSequence m = s \<and> is_content m" and nf: "no_faults c"
    by (auto simp: replay_state_def buffering_def pending_ok_def)
  then have pl: "pending_list c = p" by (simp add: pending_list_def)
  have keys: "fst ` set p = {s \<in> mSequence ` all_offers env 0 k. n < s}"
    and vals: "ran (map_of p) \<subseteq> all_offers env 0 k" and ids: "cClientID c = cClientID c0"
    using st by (simp_all add: replay_state_def pl pending_msgs_def)
  define b where "b = mLatestSequence cm"
  define ss where "ss = sort (filter (\<lambda>s. b < s) (map fst p))"
  let ?c = "(put_frame (FMessage cm) c)\<lparr>lastSequence := b\<rparr>"
  have plc: "pending_list ?c = p" using pl by (simp add: pending_list_def)
  have some: "\<exists>m. map_of p s = Some m" if "s \<in> set ss" for s
    using that by (auto simp: ss_def) (metis domIff fst_conv image_eqI map_of_eq_None_iff not_None_eq)
  have "\<forall>s\<in>set ss. \<exists>m. map_of (pending_list ?c) s = Some m \<and> is_content m"
    using some buf(3) plc by metis
  then obtain c' where c': "flush_pending ss ?c = (Ok (), c')" "\<not> replaying c'"
    "lastSequence c' = (if ss = [] then b else last ss)" "cClientID c' = cClientID c"
    "content_log c' = content_log ?c @ map (\<lambda>s. the (map_of p s)) ss"
    "client_frames c' = client_frames ?c @ map (\<lambda>s. FMessage (the (map_of p s))) ss"
    using flush_pending_messages [of ?c ss] nf plc by auto
  define ms where "ms = map (\<lambda>s. the (map_of p s)) ss"
  have seqs: "map mSequence ms = ss"
    unfolding ms_def map_map comp_def using some buf(3) by (metis (no_types, lifting) map_idI option.sel)
  have "set ss = {s \<in> mSequence ` all_offers env 0 k. b < s}"
    using keys le by (auto simp: ss_def b_def)
  then have sset: "ss = sorted_list_of_set {s \<in> mSequence ` all_offers env 0 k. b < s}"
    using buf(2) by (metis ss_def distinct_filter distinct_sort sorted_list_of_set.idem_if_sorted_distinct sorted_sort)
  have "set ms \<subseteq> ran (map_of p)" using some by (auto simp: ms_def ran_def)
  moreover have "finishReplay cm c = (Ok (), c')"
    using c'(1) nf pl by (simp add: finishReplay_def WriteJSON_no_faults Let_def ss_def b_def pending_list_def)
  moreover have "lastSequence c' = (if ms = [] then b else mSequence (last ms))"
    using c'(3) seqs by (metis last_map map_is_Nil_conv)
  moreover have "content_log c' = content_log c @ ms" using c'(5) nf nc by (simp add: ms_def)
  moreover have "client_frames c' = client_frames c @ FMessage cm # map FMessage ms" using c'(6) nf by (simp add: ms_def)
  ultimately show ?thesis
    by (intro exI [of _ c'] exI [of _ ms]) (use c'(2,4) ids vals seqs sset in \<open>auto simp: b_def\<close>)
qed

subsection \<open>The whole handler\<close>

lemma content_events: "List.map_filter content_of (map (\<lambda>e. FMessage (messageFromDistributedEvent e)) es) =
    map messageFromDistributedEvent es"
  by (induction es) (simp_all add: map_filter_simps is_content_def)

lemma resumeClient_delivers:
  assumes S: "redis_server E V K" and up: "links_up (reNet env)" and app: "appending V K rid (reNet env)"
    and K: "K db" and R: "redis_room (V db) rid L" and n: "n \<le> length L"
    and nf: "no_faults c" and co: "content_offers env"
  shows "\<exists>L0 post c' ms db'.
    resumeClient (document_exec E) env rid (beginReplay (int n) c) (int n) db =
      Some (Ok (), c', map (\<lambda>e. Traced (replay_trace env rid (cClientID c) e)) (drop n L0) @
        complete_effects env rid (cClientID c) (int n) (boundary_of L0) (length L0 - n), db') \<and>
    K db' \<and> prefix L L0 \<and> redis_room (V db') rid (L0 @ post) \<and> \<not> replaying c' \<and>
    content_log c' = content_log c @ map messageFromDistributedEvent (drop n L0) @ ms \<and>
    client_frames c' = client_frames c @ FMessage (resume_started (int n) (boundary_of L0)) #
      map (\<lambda>e. FMessage (messageFromDistributedEvent e)) (drop n L0) @
      FMessage (resume_complete (int n) (boundary_of L0) (length L0 - n)) # map FMessage ms \<and>
    map mSequence ms = sorted_list_of_set
      {s \<in> mSequence ` all_offers env 0 (Suc (length L0 - n)). int (length L0) < s} \<and>
    set ms \<subseteq> all_offers env 0 (Suc (length L0 - n)) \<and>
    lastSequence c' = (if ms = [] then int (length L0) else mSequence (last ms))"
proof -
  obtain es d where b: "ReplayBoundary (document_exec E) (reNet env) rid db = (Ok (boundary_of (L @ es)), d)"
    "K d" "redis_room (V d) rid (L @ es)"
    by (rule ReplayBoundary_reads [OF S up app K R])
  define L0 where "L0 = L @ es"
  have L0: "n \<le> length L0" "prefix L L0" using n by (simp_all add: L0_def)
  have bs: "eSequence (boundary_of L0) = int (length L0)"
    using b(3) boundary_sequence by (simp add: L0_def redis_room_def)
  let ?started = "resume_started (int n) (boundary_of L0)"
  let ?o = "offered env 0 (beginReplay (int n) c)"
  let ?c1 = "put_frame (FMessage ?started) ?o"
  have o: "replay_state env c (int n) 0 [] ?o" by (rule replay_state_start [OF nf co])
  have w: "WriteJSON ?o ?started = (Ok (), ?c1)" by (rule WriteJSON_no_faults [OF replay_state_no_faults [OF o]])
  have st1: "replay_state env c (int n) 0 [FMessage ?started] ?c1"
    using replay_state_write [OF o, of ?started] by simp
  obtain c2 where c2: "visit_all (replay_visit env rid) (drop n L0) (?c1, 0, []) =
      (Ok (), (c2, length L0 - n, map (\<lambda>e. Traced (replay_trace env rid (cClientID c) e)) (drop n L0)))"
    "replay_state env c (int n) (length L0 - n)
      (FMessage ?started # map (\<lambda>e. FMessage (messageFromDistributedEvent e)) (drop n L0)) c2"
    using visit_all_replay [OF st1 co, of rid "drop n L0" "[]"] by auto
  obtain db' post where ev: "EventsAfterSequence (document_exec E) (after_calls 1 (reNet env)) rid (int n) (boundary_of L0)
      (replay_visit env rid) d (?c1, 0, []) =
      Some (fst (replay_outcome (replay_visit env rid) (drop n L0) (?c1, 0, [])), db',
        snd (replay_outcome (replay_visit env rid) (drop n L0) (?c1, 0, [])))"
    "K db'" "redis_room (V db') rid (L0 @ [] @ post)"
    using EventsAfterSequence_visits [OF S after_calls_facts(1) [OF up] after_calls_facts(2) [OF app] L0(1) b(2), of "[]"] b(3)
    by (metis L0_def append_Nil2)
  let ?c3 = "offered env (Suc (length L0 - n)) c2"
  have st3: "replay_state env c (int n) (Suc (length L0 - n))
      (FMessage ?started # map (\<lambda>e. FMessage (messageFromDistributedEvent e)) (drop n L0)) ?c3"
    by (rule replay_state_offered [OF c2(2) co])
  have compl: "\<not> is_content (resume_complete (int n) (boundary_of L0) (length L0 - n))"
    "mLatestSequence (resume_complete (int n) (boundary_of L0) (length L0 - n)) = int (length L0)"
    using bs by (simp_all add: resume_complete_def is_content_def)
  obtain c' ms where f: "finishReplay (resume_complete (int n) (boundary_of L0) (length L0 - n)) ?c3 = (Ok (), c')"
    "\<not> replaying c'" "cClientID c' = cClientID c" "content_log c' = content_log ?c3 @ ms"
    "client_frames c' = client_frames ?c3 @ FMessage (resume_complete (int n) (boundary_of L0) (length L0 - n)) # map FMessage ms"
    "map mSequence ms = sorted_list_of_set {s \<in> mSequence ` all_offers env 0 (Suc (length L0 - n)). int (length L0) < s}"
    "set ms \<subseteq> all_offers env 0 (Suc (length L0 - n))"
    "lastSequence c' = (if ms = [] then int (length L0) else mSequence (last ms))"
    using finishReplay_messages [OF st3 compl(1)] compl(2) L0(1) by auto
  have frames3: "client_frames ?c3 = client_frames c @
      (FMessage ?started # map (\<lambda>e. FMessage (messageFromDistributedEvent e)) (drop n L0))"
    using st3 by (simp add: replay_state_def)
  from content_log_frames [OF frames3] have log3: "content_log ?c3 = content_log c @ map messageFromDistributedEvent (drop n L0)"
    by (simp add: map_filter_simps content_events) (simp add: resume_started_def is_content_def)
  have res: "resumeClient (document_exec E) env rid (beginReplay (int n) c) (int n) db =
      Some (Ok (), c', map (\<lambda>e. Traced (replay_trace env rid (cClientID c) e)) (drop n L0) @
        complete_effects env rid (cClientID c) (int n) (boundary_of L0) (length L0 - n), db')"
    using b(1) w ev(1) c2(1) f(1,3) L0(1) bs
    by (simp add: resumeClient_def L0_def [symmetric] replay_outcome_def)
  show ?thesis
    using res ev(2,3) L0(2) f log3 frames3 by (intro exI [of _ L0] exI [of _ post] exI [of _ c'] exI [of _ ms] exI [of _ db']) simp
qed

text \<open>A cursor beyond the boundary is refused before anything is written to the client.\<close>

lemma resumeClient_ahead:
  "ReplayBoundary exec (reNet env) rid db = (Ok b, db') \<Longrightarrow> eSequence b < lastSeq \<Longrightarrow>
   resumeClient exec env rid c lastSeq db = Some (Err (CursorAhead lastSeq (eSequence b)), c, [], db')"
  by (simp add: resumeClient_def)

end
