(* ===== verification/Watcher.thy ===== *)
theory Watcher
  imports Room_Facts Redis_Reads Telemetry
begin

section \<open>The stream watcher of a room\<close>

text \<open>
  \<open>watchRoom\<close>, \<open>messageFromDistributedEvent\<close> and \<open>streamLagSeconds\<close> of
  \<^verbatim>\<open>backend/manager.go\<close>: the loop that reads the stream of a distributed room behind the
  last entry it has seen, applies each event to the room's cache and sends it to every client
  of the room. Between two rounds the other handlers of the backend may change the cached
  document: \<open>waOthers\<close>.
\<close>

record watch_env =
  waInitialSequence :: int64
  waInstanceID :: string
  waTelemetry :: bool
  waNowNanos :: "string \<Rightarrow> int"
  waOthers :: "nat \<Rightarrow> Room \<Rightarrow> Room"

record watch =
  wLast :: string
  wRoom :: Room
  wHeap :: heap
  wEffects :: "effect list"

text \<open>
  \<open>time.Since\<close> saturates at the ends of \<open>int64\<close> nanoseconds; \<open>now\<close> is the clock in
  nanoseconds since the epoch.
\<close>

definition streamLagSeconds :: "int \<Rightarrow> string \<Rightarrow> real option" where
  "streamLagSeconds now streamID =
     (case parse_int64 (takeWhile (\<lambda>c. c \<noteq> CHR ''-'') streamID) of
        Inl e \<Rightarrow> None
      | Inr millis \<Rightarrow>
         if millis \<le> 0 then None
         else (let ns = max min_int64 (min max_int64 (now - millis * 1000000));
                   lag = real_of_int ns / 1000000000
               in Some (if lag < 0 then 0 else lag)))"

definition stream_trace :: "watch_env \<Rightarrow> string \<Rightarrow> DistributedEvent \<Rightarrow> TraceEvent" where
  "stream_trace env rid event = zero_trace\<lparr>
     tStage := ''stream_event_received'', tInstanceID := waInstanceID env, tRoomID := rid,
     tOperationID := eOperationID event, tClientID := eClientID event,
     tEventSequence := eSequence event, tStreamID := eStreamID event,
     tServerVersion := eVersion event, tContent := eContent event\<rparr>"

definition stream_effects :: "watch_env \<Rightarrow> string \<Rightarrow> DistributedEvent \<Rightarrow> effect list" where
  "stream_effects env rid event =
     (if waTelemetry env
      then Metric StreamEvent # (case streamLagSeconds (waNowNanos env (eStreamID event)) (eStreamID event) of
             None \<Rightarrow> [] | Some lag \<Rightarrow> [Metric (ObserveStreamLag (Fin lag))])
      else []) @ [Traced (stream_trace env rid event)] @
     (if waTelemetry env
      then [Logged ''info'' ''stream_event_applied''
        [(''roomId'', AStr rid), (''operationId'', AStr (eOperationID event)), (''clientId'', AStr (eClientID event)),
         (''eventSequence'', AInt (eSequence event)), (''serverVersion'', AInt (eVersion event)),
         (''streamId'', AStr (eStreamID event))]]
      else [])"

text \<open>The body of the loop over a batch; \<open>None\<close> is a panic in a broadcast.\<close>

fun watch_events :: "watch_env \<Rightarrow> DistributedEvent list \<Rightarrow> watch \<Rightarrow> watch option" where
  "watch_events env [] w = Some w"
| "watch_events env (event # events) w =
     (let w1 = w\<lparr>wLast := eStreamID event\<rparr> in
      if eSequence event \<le> waInitialSequence env then watch_events env events w1
      else (let r = snd (ApplyDistributedEvent event (wRoom w1)) in
        case BroadcastJSON (messageFromDistributedEvent event) r (wHeap w1) of
          None \<Rightarrow> None
        | Some h \<Rightarrow> watch_events env events (w1\<lparr>wRoom := r, wHeap := h,
              wEffects := wEffects w1 @ stream_effects env (rID r) event\<rparr>)))"

text \<open>One iteration of the loop, the \<open>k\<close>-th; after an error it is tried again.\<close>

definition watch_round :: "'db exec \<Rightarrow> 'db net \<Rightarrow> watch_env \<Rightarrow> nat \<Rightarrow> watch \<Rightarrow> 'db \<Rightarrow> watch option \<times> 'db" where
  "watch_round exec net env k w db =
     (let w = w\<lparr>wRoom := waOthers env k (wRoom w)\<rparr> in
      case ReadAfterStreamID exec (after_calls k net) (rID (wRoom w)) (wLast w) 250 db of
        (Err e, db) \<Rightarrow> (Some w, db)
      | (Panic, db) \<Rightarrow> (None, db)
      | (Ok events, db) \<Rightarrow> (watch_events env events w, db))"

fun watch_rounds :: "'db exec \<Rightarrow> 'db net \<Rightarrow> watch_env \<Rightarrow> nat \<Rightarrow> nat \<Rightarrow> watch \<Rightarrow> 'db \<Rightarrow> watch option \<times> 'db" where
  "watch_rounds exec net env k 0 w db = (Some w, db)"
| "watch_rounds exec net env k (Suc n) w db = (case watch_round exec net env k w db of
     (None, db) \<Rightarrow> (None, db)
   | (Some w, db) \<Rightarrow> watch_rounds exec net env (Suc k) n w db)"

text \<open>
  The loop itself: before every round it looks whether the context of the manager is done, \<open>done_at k\<close>, and then returns,
  which the second component says. \<open>n\<close> bounds the rounds.
\<close>

fun watchRoom :: "'db exec \<Rightarrow> 'db net \<Rightarrow> watch_env \<Rightarrow> (nat \<Rightarrow> bool) \<Rightarrow> nat \<Rightarrow> nat \<Rightarrow> watch \<Rightarrow> 'db \<Rightarrow> (watch \<times> bool) option \<times> 'db" where
  "watchRoom exec net env done_at k 0 w db = (Some (w, False), db)"
| "watchRoom exec net env done_at k (Suc n) w db =
     (if done_at k then (Some (w, True), db)
      else case watch_round exec net env k w db of
          (None, db) \<Rightarrow> (None, db)
        | (Some w, db) \<Rightarrow> watchRoom exec net env done_at (Suc k) n w db)"

definition start_watch :: "Room \<Rightarrow> heap \<Rightarrow> watch" where
  "start_watch r h = \<lparr>wLast = ''0-0'', wRoom = r, wHeap = h, wEffects = []\<rparr>"

text \<open>
  The rounds of the loop are those of \<open>watch_rounds\<close>, up to the first at which the context is done; the watcher then ends without
  another read of the stream.
\<close>

lemma watchRoom_runs:
  "\<forall>j. k \<le> j \<and> j < k + n \<longrightarrow> \<not> done_at j \<Longrightarrow>
    watchRoom exec net env done_at k n w db = apfst (map_option (\<lambda>w. (w, False))) (watch_rounds exec net env k n w db)"
proof (induction n arbitrary: k w db)
  case (Suc n)
  have "\<not> done_at k" "\<forall>j. Suc k \<le> j \<and> j < Suc k + n \<longrightarrow> \<not> done_at j" using Suc.prems by auto
  with Suc.IH show ?case by (auto split: prod.split option.split)
qed simp

lemma watchRoom_ends:
  assumes "done_at j" "k \<le> j" "j < k + n" "\<forall>i. k \<le> i \<and> i < j \<longrightarrow> \<not> done_at i"
  shows "watchRoom exec net env done_at k n w db = apfst (map_option (\<lambda>w. (w, True))) (watch_rounds exec net env k (j - k) w db)"
  using assms(2-)
proof (induction n arbitrary: k w db)
  case (Suc n)
  show ?case
  proof (cases "j = k")
    case True
    then show ?thesis using assms(1) by simp
  next
    case False
    then have j: "\<not> done_at k" "Suc k \<le> j" "j < Suc k + n" "j - k = Suc (j - Suc k)" using Suc.prems by auto
    have IH: "watchRoom exec net env done_at (Suc k) n w db = apfst (map_option (\<lambda>w. (w, True))) (watch_rounds exec net env (Suc k) (j - Suc k) w db)" for w db
      using Suc.prems(3) by (intro Suc.IH j(2,3)) simp
    show ?thesis using j(1) unfolding j(4) by (auto simp: IH split: prod.split option.split)
  qed
qed simp

subsection \<open>A batch\<close>

definition fresh_events :: "watch_env \<Rightarrow> DistributedEvent list \<Rightarrow> DistributedEvent list" where
  "fresh_events env es = filter (\<lambda>e. waInitialSequence env < eSequence e) es"

lemma fresh_events_simps [simp]:
  "fresh_events env [] = []" "fresh_events env (xs @ ys) = fresh_events env xs @ fresh_events env ys"
  by (simp_all add: fresh_events_def)

definition offer_events :: "DistributedEvent list \<Rightarrow> client \<Rightarrow> client" where
  "offer_events es c = fold offer_update (map messageFromDistributedEvent es) c"

lemma is_content_event [simp]: "is_content (messageFromDistributedEvent e)"
  by (simp add: is_content_def)

lemma has_conn_offer [simp]: "has_conn (offer_update m c) = has_conn c"
proof -
  have "has_conn (snd (WriteJSON c m)) = has_conn c"
    by (auto simp: WriteJSON_def client_write_def has_conn_def split: option.splits prod.splits)
  then show ?thesis
    by (auto simp: writeContentUpdate_def has_conn_def split: option.splits prod.splits outcome.splits)
qed

lemma deliver_event:
  assumes "pending_ok c"
  shows "deliver_message True (messageFromDistributedEvent e) c =
      Some (if has_conn c then offer_update (messageFromDistributedEvent e) c else c)"
    and "pending_ok (offer_update (messageFromDistributedEvent e) c)"
proof -
  obtain c' where d: "deliver_message True (messageFromDistributedEvent e) c = Some c'" "pending_ok c'"
    using deliver_message_total [OF assms] by blast
  then show eq: "deliver_message True (messageFromDistributedEvent e) c =
      Some (if has_conn c then offer_update (messageFromDistributedEvent e) c else c)"
    by (auto simp: deliver_message_def has_conn_def split: if_splits prod.splits outcome.splits)
  show "pending_ok (offer_update (messageFromDistributedEvent e) c)"
  proof (cases "has_conn c")
    case True
    with d eq show ?thesis by simp
  next
    case False
    show ?thesis
    proof (cases "replaying c")
      case True
      then obtain p where p: "pending c = Some p" "distinct (map fst p)"
        "\<forall>s m. map_of p s = Some m \<longrightarrow> mSequence m = s \<and> is_content m \<and> lastSequence c < s"
        using assms by (auto simp: pending_ok_def)
      then show ?thesis
        using True assms by (auto simp: writeContentUpdate_def pending_ok_def distinct_update update_Some_unfold)
    next
      case live: False
      with False assms show ?thesis
        by (auto simp: writeContentUpdate_def WriteJSON_def client_write_def has_conn_def)
    qed
  qed
qed

text \<open>Every client of the room that has a connection is offered every fresh event, in order.\<close>

lemma broadcast_event:
  assumes "heap_ok h" "rStore r" "distinct (rClients r)"
  obtains h' where "BroadcastJSON (messageFromDistributedEvent e) r h = Some h'" "heap_ok h'"
    "\<And>q. h' q = (if q \<in> set (rClients r) \<and> has_conn (h q)
       then offer_update (messageFromDistributedEvent e) (h q) else h q)"
proof -
  obtain h' where h': "BroadcastJSON (messageFromDistributedEvent e) r h = Some h'" "heap_ok h'"
    using BroadcastJSON_total [OF assms(1)] by blast
  have b: "broadcast_to (deliver_message True (messageFromDistributedEvent e)) (rClients r) h = Some h'"
    using h'(1) assms(2) by (simp add: BroadcastJSON_def clientsSnapshot_def)
  have "h' q = (if q \<in> set (rClients r) \<and> has_conn (h q)
       then offer_update (messageFromDistributedEvent e) (h q) else h q)" for q
  proof (cases "q \<in> set (rClients r)")
    case True
    then have "Some (h' q) = deliver_message True (messageFromDistributedEvent e) (h q)"
      using broadcast_to_member [OF b assms(3)] by simp
    also have "\<dots> = Some (if has_conn (h q) then offer_update (messageFromDistributedEvent e) (h q) else h q)"
      by (rule deliver_event(1)) (use assms(1) in \<open>simp add: heap_ok_def\<close>)
    finally show ?thesis using True by simp
  next
    case False
    then show ?thesis using broadcast_to_frame [OF b] by simp
  qed
  with h' that show thesis by blast
qed

lemma offer_events_simps [simp]:
  "offer_events [] c = c"
  "offer_events (e # es) c = offer_events es (offer_update (messageFromDistributedEvent e) c)"
  by (simp_all add: offer_events_def)

lemma offer_events_append: "offer_events (xs @ ys) c = offer_events ys (offer_events xs c)"
  by (simp add: offer_events_def)

lemma has_conn_offer_events [simp]: "has_conn (offer_events es c) = has_conn c"
  by (induction es arbitrary: c) simp_all

definition event_step :: "DistributedEvent \<Rightarrow> Room \<Rightarrow> Room" where
  "event_step e r = snd (ApplyDistributedEvent e r)"

lemma event_step_frame [simp]:
  "rStore (event_step e r) = rStore r" "rClients (event_step e r) = rClients r" "rID (event_step e r) = rID r"
  by (simp_all add: event_step_def)

definition good_watch :: "watch \<Rightarrow> bool" where
  "good_watch w \<longleftrightarrow> rStore (wRoom w) \<and> distinct (rClients (wRoom w)) \<and> heap_ok (wHeap w)"

lemma watch_events_run:
  assumes "good_watch w"
  shows "\<exists>w'. watch_events env es w = Some w' \<and> good_watch w' \<and>
    wLast w' = (if es = [] then wLast w else eStreamID (last es)) \<and>
    wRoom w' = fold event_step (fresh_events env es) (wRoom w) \<and>
    rClients (wRoom w') = rClients (wRoom w) \<and> rID (wRoom w') = rID (wRoom w) \<and>
    (\<forall>q. wHeap w' q = (if q \<in> set (rClients (wRoom w)) \<and> has_conn (wHeap w q)
       then offer_events (fresh_events env es) (wHeap w q) else wHeap w q))"
  using assms
proof (induction es arbitrary: w)
  case Nil
  then show ?case by (simp add: fresh_events_def)
next
  case (Cons e es)
  show ?case
  proof (cases "eSequence e \<le> waInitialSequence env")
    case True
    let ?w = "w\<lparr>wLast := eStreamID e\<rparr>"
    have g: "good_watch ?w" using Cons.prems by (simp add: good_watch_def)
    have st: "watch_events env (e # es) w = watch_events env es ?w" using True by simp
    have f: "fresh_events env (e # es) = fresh_events env es" using True by (simp add: fresh_events_def)
    show ?thesis
      unfolding st f using Cons.IH [OF g] by auto
  next
    case False
    let ?r = "event_step e (wRoom w)"
    obtain h' where h': "BroadcastJSON (messageFromDistributedEvent e) ?r (wHeap w) = Some h'" "heap_ok h'"
      "\<And>q. h' q = (if q \<in> set (rClients ?r) \<and> has_conn (wHeap w q)
         then offer_update (messageFromDistributedEvent e) (wHeap w q) else wHeap w q)"
      using broadcast_event [of "wHeap w" ?r e] Cons.prems by (auto simp: good_watch_def)
    let ?w = "w\<lparr>wLast := eStreamID e, wRoom := ?r, wHeap := h', wEffects := wEffects w @ stream_effects env (rID ?r) e\<rparr>"
    have g: "good_watch ?w" using Cons.prems h'(2) by (simp add: good_watch_def)
    have st: "watch_events env (e # es) w = watch_events env es ?w"
      using False h'(1) by (simp add: Let_def event_step_def)
    have f: "fresh_events env (e # es) = e # fresh_events env es"
      using False by (simp add: fresh_events_def)
    from Cons.IH [OF g] obtain w' where w': "watch_events env es ?w = Some w'" "good_watch w'"
      "wLast w' = (if es = [] then wLast ?w else eStreamID (last es))"
      "wRoom w' = fold event_step (fresh_events env es) (wRoom ?w)"
      "rClients (wRoom w') = rClients (wRoom ?w)" "rID (wRoom w') = rID (wRoom ?w)"
      "\<forall>q. wHeap w' q = (if q \<in> set (rClients (wRoom ?w)) \<and> has_conn (wHeap ?w q)
         then offer_events (fresh_events env es) (wHeap ?w q) else wHeap ?w q)"
      by blast
    show ?thesis
      unfolding st f by (intro exI [of _ w']) (use w' h'(3) in auto)
  qed
qed

end
