(* ===== verification/Watcher_Facts.thy ===== *)
theory Watcher_Facts
  imports Watcher Room_Cache
begin

section \<open>The watcher misses no event and sends none twice\<close>

text \<open>
  The position of the watcher is the number of log entries it has passed. Each round whose
  call gets through moves it forward over the next entries, up to a hundred; a round whose call
  fails leaves everything as it was.
\<close>

definition at_position :: "DistributedEvent list \<Rightarrow> nat \<Rightarrow> string \<Rightarrow> bool" where
  "at_position L p sid \<longleftrightarrow> p \<le> length L \<and> sid = (if p = 0 then ''0-0'' else eStreamID (L ! (p - 1)))"

lemma at_position_extend: "at_position L p sid \<Longrightarrow> at_position (L @ es) p sid"
  by (auto simp: at_position_def nth_append)

text \<open>What a read behind a position returns.\<close>

lemma ReadAfter_page:
  assumes S: "redis_server E V K" and up: "link_of net 0 = LinkUp" and K: "K (before net 0 db)"
    and R: "redis_room (V (before net 0 db)) rid L" and p: "at_position L p sid"
  obtains db' where "ReadAfterStreamID (document_exec E) net rid sid ms db = (Ok (take 100 (drop p L)), db')"
    "K db'" "V db' = V (before net 0 db)"
proof -
  let ?db = "before net 0 db" and ?k = "roomStreamKey rid"
  let ?page = "take 100 (drop p L)"
  have st: "is_stream (V ?db ?k)" "stream_of (V ?db ?k) = map entry_of L" and ok: "log_ok L"
    using R by (simp_all add: redis_room_def)
  have "entry_at (map entry_of L) p sid" using p by (auto simp: entry_at_def at_position_def)
  from step_xread [OF S K st this, of "FormatInt ms"]
  have step: "redis_step E V K [''XREAD'', ''COUNT'', ''100'', ''BLOCK'', FormatInt ms, ''STREAMS'', ?k, sid] ?db
      (xread_reply ?k (map entry_of ?page)) (V ?db)"
    by (simp add: take_map drop_map)
  obtain d where d: "E [''XREAD'', ''COUNT'', ''100'', ''BLOCK'', FormatInt ms, ''STREAMS'', ?k, sid] ?db =
      (xread_reply ?k (map entry_of ?page), d)" "V d = V ?db" "K d"
    by (rule redis_step_do [OF step])
  have parse: "parseStreamEntries (GArr (map entry_gval (map entry_of ?page))) = Ok ?page"
    by (rule parseStreamEntries_log) (use log_ok_int64 [OF ok] in \<open>auto dest!: in_set_takeD in_set_dropD\<close>)
  have "ReadAfterStreamID (document_exec E) net rid sid ms db = (Ok ?page, d)"
  proof (cases "?page = []")
    case True
    with d(1) up show ?thesis
      by (simp add: ReadAfterStreamID_def do_at_def redis_do_def xread_reply_def)
  next
    case False
    then have "xread_reply ?k (map entry_of ?page) = RArr [RArr [RBulk ?k, stream_reply (map entry_of ?page)]]"
      by (simp add: xread_reply_def)
    with d(1) up parse show ?thesis
      by (simp add: ReadAfterStreamID_def do_at_def redis_do_def)
  qed
  with d(2,3) that show thesis by blast
qed

lemma ReadAfter_no_link:
  "link_of net 0 = DialFails e \<or> link_of net 0 = WriteFails e \<Longrightarrow>
   ReadAfterStreamID exec net rid sid ms db = (Err (CallError (NetError e)), before net 0 db)"
  by (auto simp: ReadAfterStreamID_def do_at_def redis_do_def)

subsection \<open>One round\<close>

text \<open>
  Links that either work or fail before the command; other handlers that keep the identity
  and the members of the room.
\<close>

definition no_cuts :: "'db net \<Rightarrow> bool" where
  "no_cuts net \<longleftrightarrow> (\<forall>i. link_of net i = LinkUp \<or>
     (\<exists>e. link_of net i = DialFails e \<or> link_of net i = WriteFails e))"

definition quiet_others :: "watch_env \<Rightarrow> bool" where
  "quiet_others env \<longleftrightarrow> (\<forall>k r. rStore (waOthers env k r) = rStore r \<and>
     rClients (waOthers env k r) = rClients r \<and> rID (waOthers env k r) = rID r)"

text \<open>The watcher at position \<open>p\<close> of the log of its room.\<close>

definition watching :: "('db \<Rightarrow> view) \<Rightarrow> ('db \<Rightarrow> bool) \<Rightarrow> string \<Rightarrow> DistributedEvent list \<Rightarrow> nat \<Rightarrow> watch \<Rightarrow> 'db \<Rightarrow> bool" where
  "watching V K rid L p w db \<longleftrightarrow> K db \<and> redis_room (V db) rid L \<and> good_watch w \<and> rID (wRoom w) = rid \<and>
     at_position L p (wLast w)"

text \<open>What the clients of the room have been offered since.\<close>

definition heap_offered :: "watch_env \<Rightarrow> DistributedEvent list \<Rightarrow> watch \<Rightarrow> watch \<Rightarrow> bool" where
  "heap_offered env es w w' \<longleftrightarrow> rClients (wRoom w') = rClients (wRoom w) \<and>
     (\<forall>q. wHeap w' q = (if q \<in> set (rClients (wRoom w)) \<and> has_conn (wHeap w q)
        then offer_events (fresh_events env es) (wHeap w q) else wHeap w q))"

lemma heap_offered_trans:
  "heap_offered env xs w1 w2 \<Longrightarrow> heap_offered env ys w2 w3 \<Longrightarrow> heap_offered env (xs @ ys) w1 w3"
  by (simp add: heap_offered_def offer_events_append)

text \<open>The position behind a page.\<close>

lemma at_position_page:
  assumes "at_position L p sid"
  shows "at_position L (p + length (take n (drop p L))) (if take n (drop p L) = [] then sid else eStreamID (last (take n (drop p L))))"
proof (cases "take n (drop p L) = []")
  case True
  show ?thesis unfolding True using assms by simp
next
  case False
  then have "last (take n (drop p L)) = L ! (p + length (take n (drop p L)) - 1)"
    by (auto simp: last_conv_nth min_def)
  then show ?thesis using assms False by (auto simp: at_position_def min_def)
qed

lemma watch_round_step:
  assumes S: "redis_server E V K" and nc: "no_cuts net" and app: "appending V K rid net"
    and q: "quiet_others env" and w: "watching V K rid L p w db"
  shows "\<exists>w' db' es p'. watch_round (document_exec E) net env k w db = (Some w', db') \<and>
    watching V K rid (L @ es) p' w' db' \<and> p \<le> p' \<and>
    (link_of net k = LinkUp \<longrightarrow> min (length L) (p + 100) \<le> p') \<and>
    heap_offered env (take (p' - p) (drop p (L @ es))) w w'"
proof -
  let ?w = "w\<lparr>wRoom := waOthers env k (wRoom w)\<rparr>" and ?net = "after_calls k net"
  have R: "K db" "redis_room (V db) rid L" and g: "good_watch ?w" and id: "rID (wRoom ?w) = rid"
    and pos: "at_position L p (wLast w)" and cl: "rClients (wRoom ?w) = rClients (wRoom w)"
    using w q by (simp_all add: watching_def good_watch_def quiet_others_def)
  have app': "appending V K rid ?net" by (rule after_calls_facts(2) [OF app])
  obtain es where K0: "K (before ?net 0 db)" and R0: "redis_room (V (before ?net 0 db)) rid (L @ es)"
    using appendingE [OF app' R] by blast
  note pos' = at_position_extend [OF pos, of es]
  have lk: "link_of ?net 0 = link_of net k" by (simp add: after_calls_def)
  show ?thesis
  proof (cases "link_of net k = LinkUp")
    case False
    then obtain e where lf: "link_of ?net 0 = DialFails e \<or> link_of ?net 0 = WriteFails e"
      using nc lk unfolding no_cuts_def by metis
    have "watch_round (document_exec E) net env k w db = (Some ?w, before ?net 0 db)"
      using ReadAfter_no_link [OF lf] id by (simp add: watch_round_def Let_def)
    moreover have "watching V K rid (L @ es) p ?w (before ?net 0 db)"
      using K0 R0 g id pos' by (simp add: watching_def)
    moreover have "heap_offered env (take (p - p) (drop p (L @ es))) w ?w"
      using cl by (simp add: heap_offered_def)
    ultimately show ?thesis using False by blast
  next
    case True
    let ?page = "take 100 (drop p (L @ es))"
    obtain d where d: "ReadAfterStreamID (document_exec E) ?net rid (wLast w) 250 db = (Ok ?page, d)"
      "K d" "V d = V (before ?net 0 db)"
      by (rule ReadAfter_page [OF S _ K0 R0 pos']) (use True lk in simp)
    obtain w' where w': "watch_events env ?page ?w = Some w'" "good_watch w'"
      "wLast w' = (if ?page = [] then wLast ?w else eStreamID (last ?page))"
      "rClients (wRoom w') = rClients (wRoom ?w)" "rID (wRoom w') = rID (wRoom ?w)"
      "\<forall>q. wHeap w' q = (if q \<in> set (rClients (wRoom ?w)) \<and> has_conn (wHeap ?w q)
         then offer_events (fresh_events env ?page) (wHeap ?w q) else wHeap ?w q)"
      using watch_events_run [OF g] by blast
    have run: "watch_round (document_exec E) net env k w db = (Some w', d)"
      using d(1) w'(1) id by (simp add: watch_round_def Let_def)
    define p' where "p' = p + length ?page"
    have p: "p \<le> length (L @ es)" using pos' by (simp add: at_position_def)
    have p': "p \<le> p'" "p' \<le> length (L @ es)" "min (length L) (p + 100) \<le> p'" "take (p' - p) (drop p (L @ es)) = ?page"
      using p by (auto simp: p'_def min_def)
    have wl: "wLast ?w = wLast w" by simp
    have "at_position (L @ es) p' (wLast w')"
      using at_position_page [OF pos', of 100] unfolding p'_def w'(3) wl .
    then have "watching V K rid (L @ es) p' w' d"
      using d(2,3) R0 w'(2,5) id by (simp add: watching_def)
    moreover have "heap_offered env (take (p' - p) (drop p (L @ es))) w w'"
      unfolding p'(4) using w'(4,6) cl by (simp add: heap_offered_def)
    ultimately show ?thesis using run p'(1,3) by blast
  qed
qed

subsection \<open>Many rounds\<close>

definition up_rounds :: "'db net \<Rightarrow> nat \<Rightarrow> nat \<Rightarrow> nat" where
  "up_rounds net k n = length (filter (\<lambda>i. link_of net i = LinkUp) [k..<k + n])"

lemma up_rounds_Suc:
  "up_rounds net k (Suc n) = (if link_of net k = LinkUp then 1 else 0) + up_rounds net (Suc k) n"
  by (simp add: up_rounds_def upt_conv_Cons del: upt_Suc)

lemma up_rounds_0 [simp]: "up_rounds net k 0 = 0"
  by (simp add: up_rounds_def)

lemma take_drop_join:
  "p \<le> p' \<Longrightarrow> p' \<le> p'' \<Longrightarrow> take (p' - p) (drop p L) @ take (p'' - p') (drop p' L) = take (p'' - p) (drop p L)"
proof -
  assume a: "p \<le> p'" "p' \<le> p''"
  have "drop p' L = drop (p' - p) (drop p L)" using a by simp
  moreover have "p'' - p = (p' - p) + (p'' - p')" using a by simp
  ultimately show ?thesis by (metis take_add)
qed

lemma watch_rounds_run:
  assumes S: "redis_server E V K" and nc: "no_cuts net" and app: "appending V K rid net" and q: "quiet_others env"
    and "watching V K rid L p w db"
  shows "\<exists>w' db' es p'. watch_rounds (document_exec E) net env k n w db = (Some w', db') \<and>
    watching V K rid (L @ es) p' w' db' \<and> p \<le> p' \<and> min (length L) (p + 100 * up_rounds net k n) \<le> p' \<and>
    heap_offered env (take (p' - p) (drop p (L @ es))) w w'"
  using assms(5)
proof (induction n arbitrary: k L p w db)
  case 0
  then have "heap_offered env (take (p - p) (drop p (L @ []))) w w" by (simp add: heap_offered_def)
  with 0 show ?case by (intro exI [of _ w] exI [of _ db] exI [of _ "[]"] exI [of _ p]) simp
next
  case (Suc n)
  obtain w1 db1 es1 p1 where 1: "watch_round (document_exec E) net env k w db = (Some w1, db1)"
    "watching V K rid (L @ es1) p1 w1 db1" "p \<le> p1"
    "link_of net k = LinkUp \<longrightarrow> min (length L) (p + 100) \<le> p1"
    "heap_offered env (take (p1 - p) (drop p (L @ es1))) w w1"
    using watch_round_step [OF S nc app q Suc.prems] by blast
  obtain w2 db2 es2 p2 where 2: "watch_rounds (document_exec E) net env (Suc k) n w1 db1 = (Some w2, db2)"
    "watching V K rid ((L @ es1) @ es2) p2 w2 db2" "p1 \<le> p2"
    "min (length (L @ es1)) (p1 + 100 * up_rounds net (Suc k) n) \<le> p2"
    "heap_offered env (take (p2 - p1) (drop p1 ((L @ es1) @ es2))) w1 w2"
    using Suc.IH [OF 1(2)] by blast
  have p1: "p1 \<le> length (L @ es1)" using 1(2) by (simp add: watching_def at_position_def)
  have "take (p1 - p) (drop p (L @ es1)) = take (p1 - p) (drop p ((L @ es1) @ es2))"
    using p1 1(3) by (simp del: append_assoc)
  then have "heap_offered env (take (p2 - p) (drop p ((L @ es1) @ es2))) w w2"
    using heap_offered_trans [OF 1(5) 2(5)] take_drop_join [OF 1(3) 2(3), of "(L @ es1) @ es2"] by metis
  moreover have "min (length L) (p + 100 * up_rounds net k (Suc n)) \<le> p2"
    using 1(3,4) 2(3,4) by (auto simp: up_rounds_Suc)
  moreover have "watch_rounds (document_exec E) net env k (Suc n) w db = (Some w2, db2)"
    using 1(1) 2(1) by simp
  ultimately show ?case
    using 2(2) 1(3) 2(3) by (intro exI [of _ w2] exI [of _ db2] exI [of _ "es1 @ es2"] exI [of _ p2]) auto
qed

subsection \<open>What one client receives\<close>

text \<open>A live client without write faults gets exactly the events beyond its mark, each once.\<close>

lemma offer_events_log:
  assumes "live c" "no_faults c"
  shows "content_log (offer_events es c) =
    content_log c @ maxima mSequence (Some (lastSequence c)) (map messageFromDistributedEvent es)"
  using live_gate.fold_maxima [OF assms(1) _ assms(2), of "map messageFromDistributedEvent es"]
  by (simp add: offer_events_def)

lemma fresh_segment:
  assumes "log_ok L" "p' \<le> length L" "0 \<le> s"
  shows "map eSequence (filter (\<lambda>e. s < eSequence e) (take p' L)) = [s + 1..int p']"
  using assms(2)
proof (induction p')
  case 0
  then show ?case using assms(3) by simp
next
  case (Suc p')
  then have IH: "map eSequence (filter (\<lambda>e. s < eSequence e) (take p' L)) = [s + 1..int p']"
    and seq: "eSequence (L ! p') = int p' + 1"
    using log_ok_nth(1) [OF assms(1), of p'] by simp_all
  show ?case
  proof (cases "s < int p' + 1")
    case True
    then have "[s + 1..int p' + 1] = [s + 1..int p'] @ [int p' + 1]" by (subst upto_snoc) simp_all
    then show ?thesis using Suc.prems IH seq True by (simp add: take_Suc_conv_app_nth add.commute)
  next
    case False
    then show ?thesis using Suc.prems IH seq by (simp add: take_Suc_conv_app_nth)
  qed
qed

lemma maxima_segment:
  assumes "map mSequence ms = [a + 1..b]" "s \<le> a"
  shows "maxima mSequence (Some s) ms = ms"
proof (cases ms)
  case (Cons m ms')
  then have "a + 1 \<le> b" using assms(1) by (cases "a + 1 \<le> b") simp_all
  then have "mSequence m = a + 1" "map mSequence ms' = [(a + 1) + 1..b]"
    using assms(1) Cons by (simp_all add: upto_cons)
  with maxima_consecutive [of mSequence ms' "a + 1" b] Cons assms(2) show ?thesis by simp
qed simp

end
