(* ===== verification/Delivery_Properties.thy ===== *)
theory Delivery_Properties
  imports Resume_Facts Watcher_Facts Mem_Room
begin

section \<open>Properties of delivery\<close>

text \<open>
  The claims about what reaches a client: replay, the handoff from replay to live delivery,
  the watcher's fan-out, and the two guarded streams of a socket.
\<close>

subsection \<open>Resuming\<close>

text \<open>
  C2: A client that reconnects with cursor \<open>n\<close> and whose socket works receives, from
  \<open>resumeClient\<close>, exactly the events \<open>n + 1, n + 2, \<dots>\<close> of the room's log up to a boundary that
  is at least the log at the start, each once and in order, and then the live updates beyond
  the boundary that the watcher offered meanwhile, each once and in order, whatever was
  offered when and however often. The handler returns, the client is in live mode, and the
  metrics count one success and the replayed events.
\<close>

theorem resume_exactly_once:
  assumes "redis_server E V K" "links_up (reNet env)" "appending V K rid (reNet env)"
    and "K db" "redis_room (V db) rid L" "n \<le> length L" "no_faults c" "content_offers env"
  shows "\<exists>L0 post c' ms db'.
    resumeClient (document_exec E) env rid (beginReplay (int n) c) (int n) db =
      Some (Ok (), c', map (\<lambda>e. Traced (replay_trace env rid (cClientID c) e)) (drop n L0) @
        complete_effects env rid (cClientID c) (int n) (boundary_of L0) (length L0 - n), db') \<and>
    prefix L L0 \<and> redis_room (V db') rid (L0 @ post) \<and> \<not> replaying c' \<and>
    content_log c' = content_log c @ map messageFromDistributedEvent (drop n L0) @ ms \<and>
    map mSequence ms = sorted_list_of_set
      {s \<in> mSequence ` all_offers env 0 (Suc (length L0 - n)). int (length L0) < s} \<and>
    set ms \<subseteq> all_offers env 0 (Suc (length L0 - n)) \<and>
    lastSequence c' = (if ms = [] then int (length L0) else mSequence (last ms))"
  using resumeClient_delivers [OF assms] by blast

definition demo_client :: client where
  "demo_client = \<lparr>cConn = Some new_conn, cUsername = ''ann'', cRoomID = ''r1'', cClientID = ''c1'',
     cConnectionID = ''k1'', cInstanceID = ''i1'', presenceRevision = 0, presenceSent = False,
     replaying = False, lastSequence = 0, pending = None\<rparr>"

definition demo_env :: "view resume_env" where
  "demo_env = \<lparr>reNet = calm, reOffers = (\<lambda>i. [messageFromDistributedEvent (demo_event 4 ''abcd'')]),
     reElapsed = Fin 0, reDurationMs = 0, reLogMs = 0, reStarted = 0, reEnded = 0, reTraceID = [], reSpanID = [], reInstanceID = ''i1''\<rparr>"

lemma demo_client_facts: "no_faults demo_client" "content_log demo_client = []" "live demo_client"
  by (simp_all add: demo_client_def no_faults_def new_conn_def content_log_def client_frames_def
      live_def has_conn_def map_filter_simps)

theorem resume_exactly_once_witness:
  "\<exists>c' effs db' L0 ms. resumeClient (document_exec mem_exec) demo_env ''r1'' (beginReplay 1 demo_client) 1 demo_db =
      Some (Ok (), c', effs, db') \<and> prefix demo_log L0 \<and>
    content_log c' = map messageFromDistributedEvent (drop 1 L0) @ ms"
  using resume_exactly_once [of mem_exec id mem_ok demo_env "''r1''" demo_db demo_log 1 demo_client]
    mem_redis_server demo_room demo_client_facts
  by (simp add: demo_env_def content_offers_def demo_log_def) blast

text \<open>
  The paged replay \<open>EventsAfterSequence\<close> returns, for a log of any length and with others
  appending between its pages, and calls \<open>visit\<close> with exactly the events after the cursor up
  to the boundary, in order, stopping at the first one whose visit fails.
\<close>

theorem replay_visits_interval:
  assumes "redis_server E V K" "links_up net" "appending V K rid net"
    and "n \<le> length L0" "K db" "redis_room (V db) rid (L0 @ post)"
  shows "\<exists>db' post'. EventsAfterSequence (document_exec E) net rid (int n) (boundary_of L0) visit db s =
      Some (fst (replay_outcome visit (drop n L0) s), db', snd (replay_outcome visit (drop n L0) s)) \<and>
    redis_room (V db') rid (L0 @ post @ post')"
  by (rule EventsAfterSequence_visits [OF assms, of visit s]) blast

theorem replay_visits_interval_witness:
  "\<exists>db'. EventsAfterSequence (document_exec mem_exec) calm ''r1'' 1 (boundary_of demo_log)
      (\<lambda>e s. (Ok (), s @ [eContent e])) demo_db [] = Some (Ok (), db', [''ab'', ''abc''])"
  using replay_visits_interval [of mem_exec id mem_ok calm "''r1''" 1 demo_log demo_db "[]"
      "\<lambda>e s. (Ok (), s @ [eContent e])" "[]"] mem_redis_server demo_room
  by (auto simp: replay_outcome_def demo_log_def demo_event_def)

text \<open>
  A cursor beyond the boundary is refused: \<open>resumeClient\<close> returns an error, has written
  nothing to the client, and counts nothing.
\<close>

theorem resume_cursor_ahead:
  assumes "ReplayBoundary exec (reNet env) rid db = (Ok b, db')" "eSequence b < lastSeq"
  shows "resumeClient exec env rid c lastSeq db = Some (Err (CursorAhead lastSeq (eSequence b)), c, [], db')"
  by (rule resumeClient_ahead [OF assms])

theorem resume_cursor_ahead_witness:
  "\<exists>db'. resumeClient (document_exec mem_exec) demo_env ''r1'' demo_client 9 demo_db =
     Some (Err (CursorAhead 9 3), demo_client, [], db')"
proof -
  obtain d where "ReplayBoundary (document_exec mem_exec) (reNet demo_env) ''r1'' demo_db = (Ok (boundary_of demo_log), d)"
    by (rule ReplayBoundary_at [OF mem_redis_server, of "reNet demo_env" demo_db "''r1''" demo_log])
      (simp_all add: demo_env_def)
  from resume_cursor_ahead [OF this, of 9 demo_client] show ?thesis
    by (simp add: boundary_of_def demo_log_def)
qed

text \<open>
  C15: The handoff is exact for every interleaving. While the resume handler writes the events
  \<open>n + 1, \<dots>, b\<close>, the watcher offers every update \<open>b + 1, \<dots>, k\<close> at some moment, in any
  order, repeatedly, and mixed with older ones: after \<open>finishReplay\<close> the socket has received
  \<open>n + 1, \<dots>, k\<close>, each once and in order, and the client is live with mark \<open>k\<close>.
\<close>

theorem handoff_exact:
  assumes "no_faults c"
    and "\<forall>m\<in>set (replayed_of acts). is_content m" "map mSequence (replayed_of acts) = [n + 1..b]"
    and "\<forall>m\<in>set (live_of acts). is_content m" "{s \<in> mSequence ` set (live_of acts). b < s} = {b + 1..k}"
    and "n \<le> b" "b \<le> k" "\<not> is_content cm" "mLatestSequence cm = b"
  shows "\<exists>c'. handoff acts cm (beginReplay n c) = (Ok (), c') \<and> \<not> replaying c' \<and> lastSequence c' = k \<and>
    map mSequence (content_log c') = map mSequence (content_log c) @ [n + 1..k]"
  by (rule handoff_delivers_interval [OF assms(1) refl assms(2-)])

theorem handoff_exact_witness:
  "\<exists>c'. handoff [LiveUpdate (messageFromDistributedEvent (demo_event 4 ''abcd'')),
        Replayed (messageFromDistributedEvent (demo_event 2 ''ab'')),
        LiveUpdate (messageFromDistributedEvent (demo_event 5 ''abcde'')),
        LiveUpdate (messageFromDistributedEvent (demo_event 3 ''abc'')),
        Replayed (messageFromDistributedEvent (demo_event 3 ''abc'')),
        LiveUpdate (messageFromDistributedEvent (demo_event 4 ''abcd''))]
      (resume_complete 1 (demo_event 3 ''abc'') 2) (beginReplay 1 demo_client) = (Ok (), c') \<and>
    map mSequence (content_log c') = [2, 3, 4, 5]"
proof -
  let ?acts = "[LiveUpdate (messageFromDistributedEvent (demo_event 4 ''abcd'')),
        Replayed (messageFromDistributedEvent (demo_event 2 ''ab'')),
        LiveUpdate (messageFromDistributedEvent (demo_event 5 ''abcde'')),
        LiveUpdate (messageFromDistributedEvent (demo_event 3 ''abc'')),
        Replayed (messageFromDistributedEvent (demo_event 3 ''abc'')),
        LiveUpdate (messageFromDistributedEvent (demo_event 4 ''abcd''))]"
  let ?cm = "resume_complete 1 (demo_event 3 ''abc'') 2"
  have ivl: "[1 + 1..3::int] = [2, 3]" "[1 + 1..5::int] = [2, 3, 4, 5]" by code_simp+
  have a: "\<forall>m\<in>set (replayed_of ?acts). is_content m" "\<forall>m\<in>set (live_of ?acts). is_content m"
    by (simp_all add: is_content_def)
  have b: "map mSequence (replayed_of ?acts) = [1 + 1..3]" unfolding ivl by simp
  have c: "{s \<in> mSequence ` set (live_of ?acts). 3 < s} = {3 + 1..5}" by auto
  have d: "\<not> is_content ?cm" "mLatestSequence ?cm = 3" by (simp_all add: resume_complete_def is_content_def)
  obtain c' where "handoff ?acts ?cm (beginReplay 1 demo_client) = (Ok (), c')"
    "map mSequence (content_log c') = map mSequence (content_log demo_client) @ [1 + 1..5]"
    using handoff_exact [OF demo_client_facts(1) a(1) b a(2) c _ _ d] by auto
  then show ?thesis unfolding ivl demo_client_facts(2) by (intro exI [of _ c']) simp
qed

subsection \<open>Live delivery\<close>

text \<open>
  C5: The watcher of a room, started with the room hydrated at sequence \<open>s\<close>, sends each
  connected client whose socket works exactly the events of the log beyond \<open>s\<close> and beyond the
  client's own mark, in order and each once, over any number of rounds, with calls to Redis
  failing, other backends appending, and other handlers changing the cached document in
  between. After \<open>n\<close> rounds that got through it has passed at least \<open>100 * n\<close> events of the log,
  or all that were there at the start.
\<close>

theorem watcher_exactly_once:
  assumes "redis_server E V K" "no_cuts net" "appending V K rid net" "quiet_others env"
    and "K db" "redis_room (V db) rid L" "good_watch (start_watch r h)" "rID r = rid"
    and "q \<in> set (rClients r)" "live (h q)" "no_faults (h q)"
    and "0 \<le> waInitialSequence env" "lastSequence (h q) \<le> waInitialSequence env"
  shows "\<exists>w' db' es p. watch_rounds (document_exec E) net env 0 n (start_watch r h) db = (Some w', db') \<and>
    redis_room (V db') rid (L @ es) \<and> p \<le> length (L @ es) \<and>
    min (length L) (100 * up_rounds net 0 n) \<le> p \<and>
    content_log (wHeap w' q) = content_log (h q) @ map messageFromDistributedEvent
      (filter (\<lambda>e. waInitialSequence env < eSequence e) (take p (L @ es)))"
proof -
  have "watching V K rid L 0 (start_watch r h) db"
    using assms(5-8) by (simp add: watching_def at_position_def start_watch_def)
  from watch_rounds_run [OF assms(1-4) this, of 0 n] obtain w' db' es p where run:
    "watch_rounds (document_exec E) net env 0 n (start_watch r h) db = (Some w', db')"
    "watching V K rid (L @ es) p w' db'" "min (length L) (100 * up_rounds net 0 n) \<le> p"
    "heap_offered env (take p (L @ es)) (start_watch r h) w'"
    by auto
  let ?evs = "fresh_events env (take p (L @ es))"
  have ok: "log_ok (L @ es)" and p: "p \<le> length (L @ es)" and R: "redis_room (V db') rid (L @ es)"
    using run(2) by (simp_all add: watching_def redis_room_def at_position_def)
  have "wHeap w' q = offer_events ?evs (h q)"
    using run(4) assms(9,10) by (simp add: heap_offered_def start_watch_def live_def)
  moreover have "maxima mSequence (Some (lastSequence (h q))) (map messageFromDistributedEvent ?evs) =
      map messageFromDistributedEvent ?evs"
    using fresh_segment [OF ok p assms(12)] assms(13)
    by (intro maxima_segment [of _ "waInitialSequence env" "int p"]) (simp_all add: fresh_events_def comp_def)
  ultimately have "content_log (wHeap w' q) = content_log (h q) @ map messageFromDistributedEvent ?evs"
    using offer_events_log [OF assms(10,11), of ?evs] by simp
  then show ?thesis using run(1,3) R p unfolding fresh_events_def by blast
qed

definition demo_watch_env :: watch_env where
  "demo_watch_env = \<lparr>waInitialSequence = 1, waInstanceID = ''i1'', waTelemetry = True,
     waNowNanos = (\<lambda>s. 0), waOthers = (\<lambda>k r. r)\<rparr>"

definition demo_watch_room :: Room where
  "demo_watch_room = \<lparr>rID = ''r1'', rContent = ''a'', rVersion = 1, rSequence = 1, rClients = [7],
     rStore = True, localPresenceRevision = 0\<rparr>"

theorem watcher_exactly_once_witness:
  "\<exists>w' db'. watch_rounds (document_exec mem_exec) calm demo_watch_env 0 1
      (start_watch demo_watch_room (\<lambda>q. demo_client)) demo_db = (Some w', db') \<and>
    (\<exists>es p. 3 \<le> p \<and> content_log (wHeap w' 7) = map messageFromDistributedEvent
       (filter (\<lambda>e. 1 < eSequence e) (take p (demo_log @ es))))"
proof -
  have n: "no_cuts calm" and q: "quiet_others demo_watch_env" and u: "up_rounds (calm :: view net) 0 1 = 1"
    by (simp_all add: no_cuts_def quiet_others_def demo_watch_env_def up_rounds_def)
  have g: "good_watch (start_watch demo_watch_room (\<lambda>q. demo_client))"
    by (simp add: good_watch_def start_watch_def demo_watch_room_def heap_ok_def pending_ok_def demo_client_def)
  have r: "redis_room (id demo_db) ''r1'' demo_log" "rID demo_watch_room = ''r1''" "7 \<in> set (rClients demo_watch_room)"
    and s: "0 \<le> waInitialSequence demo_watch_env" "lastSequence demo_client \<le> waInitialSequence demo_watch_env"
    by (simp_all add: demo_watch_room_def demo_watch_env_def) (simp add: demo_client_def)
  obtain w' db' es p where *:
    "watch_rounds (document_exec mem_exec) calm demo_watch_env 0 1 (start_watch demo_watch_room (\<lambda>q. demo_client)) demo_db = (Some w', db')"
    "min (length demo_log) (100 * up_rounds (calm :: view net) 0 1) \<le> p"
    "content_log (wHeap w' 7) = content_log demo_client @ map messageFromDistributedEvent
       (filter (\<lambda>e. waInitialSequence demo_watch_env < eSequence e) (take p (demo_log @ es)))"
    using watcher_exactly_once [of mem_exec id mem_ok calm "''r1''" demo_watch_env demo_db demo_log demo_watch_room
      "\<lambda>q. demo_client" 7 1, OF mem_redis_server n calm_appending(1) q demo_room(2) r(1) g r(2,3)
      demo_client_facts(3,1) s] by blast
  have "3 \<le> p" using *(2) unfolding u by (simp add: demo_log_def)
  moreover have "content_log (wHeap w' 7) = map messageFromDistributedEvent (filter (\<lambda>e. 1 < eSequence e) (take p (demo_log @ es)))"
    unfolding *(3) demo_client_facts(2) by (simp add: demo_watch_env_def)
  ultimately show ?thesis using *(1) by blast
qed

text \<open>
  On every live socket, even one whose writes fail now and then, the content updates that
  go out have strictly growing sequences, all beyond the mark the client had, and they are a
  subsequence of what was offered: no update is sent twice or behind a newer one.
\<close>

theorem socket_updates_increase:
  assumes "live c" "\<forall>m\<in>set ms. is_content m"
  shows "\<exists>ds. content_log (fold offer_update ms c) = content_log c @ ds \<and> subseq ds ms \<and>
    sorted_wrt (<) (map mSequence ds) \<and> (\<forall>d\<in>set ds. lastSequence c < mSequence d)"
proof -
  obtain ds where ds: "content_log (fold offer_update ms c) = content_log c @ ds"
    "delivery mSequence (Some (lastSequence c)) ds" "subseq ds ms"
    using live_gate.fold_delivery [OF assms] by blast
  from ds(1,3) delivery_sorted [OF ds(2)] delivery_above [OF ds(2)] show ?thesis
    by (intro exI [of _ ds]) simp
qed

definition flaky_client :: client where
  "flaky_client = demo_client\<lparr>cConn := Some (new_conn\<lparr>write_fault := (\<lambda>i. if i = 1 then Some ''reset'' else None)\<rparr>)\<rparr>"

theorem socket_updates_increase_witness:
  "\<exists>ds. content_log (fold offer_update (map messageFromDistributedEvent demo_log) flaky_client) = content_log flaky_client @ ds \<and>
    sorted_wrt (<) (map mSequence ds)"
  using socket_updates_increase [of flaky_client "map messageFromDistributedEvent demo_log"]
  by (simp add: flaky_client_def live_def has_conn_def) (auto simp: demo_client_def is_content_def)

text \<open>
  On every socket the presence snapshots that go out have strictly growing revisions: a
  delayed snapshot never follows a newer one. While no write fails, a snapshot is dropped only
  when its revision is not above every revision sent before.
\<close>

theorem socket_presence_increases:
  assumes "has_conn c"
  shows "\<exists>ds. presence_log (fold offer_presence ss c) = presence_log c @ ds \<and> subseq ds ss \<and>
    sorted_wrt (<) (map psRevision ds) \<and> (\<forall>d\<in>set ds. above (presence_mark c) (psRevision d)) \<and>
    (no_faults c \<longrightarrow> ds = maxima psRevision (presence_mark c) ss)"
proof -
  obtain ds where ds: "presence_log (fold offer_presence ss c) = presence_log c @ ds"
    "delivery psRevision (presence_mark c) ds" "subseq ds ss"
    using presence_gate.fold_delivery [OF assms, of ss] by auto
  moreover have "no_faults c \<Longrightarrow> ds = maxima psRevision (presence_mark c) ss"
    using presence_gate.fold_maxima [OF assms, of ss] ds(1) by simp
  ultimately show ?thesis
    using delivery_sorted [OF ds(2)] delivery_all_above [OF ds(2)] by (intro exI [of _ ds]) simp
qed

theorem socket_presence_increases_witness:
  "presence_log (fold offer_presence [\<lparr>psRevision = 2, psParticipants = []\<rparr>, \<lparr>psRevision = 1, psParticipants = []\<rparr>,
      \<lparr>psRevision = 3, psParticipants = []\<rparr>] demo_client) =
   [\<lparr>psRevision = 2, psParticipants = []\<rparr>, \<lparr>psRevision = 3, psParticipants = []\<rparr>]"
  using socket_presence_increases [of demo_client "[\<lparr>psRevision = 2, psParticipants = []\<rparr>,
      \<lparr>psRevision = 1, psParticipants = []\<rparr>, \<lparr>psRevision = 3, psParticipants = []\<rparr>]"] demo_client_facts(1)
  by (auto simp: demo_client_def has_conn_def presence_log_def client_frames_def new_conn_def
      map_filter_simps presence_mark_def)

end
