(* ===== verification/Transport_Properties.thy ===== *)
theory Transport_Properties
  imports Redis_Room Metrics
begin

section \<open>Properties of the Redis protocol, of trace and metrics\<close>

text \<open>
  The claims about \<^verbatim>\<open>backend/redis_client.go\<close>, and facts about the trace file and the counters.
\<close>

text \<open>
  C39: Over a connection that works, \<open>RedisClient.Do\<close> is the server's command function: the
  bytes written are parsed back into the words of the command, whatever bytes they contain,
  and the reply that was sent is the reply decoded, for nested arrays and error replies too.
\<close>

theorem call_is_command:
  assumes "int64_ok (int (length args))" "\<forall>a\<in>set args. int64_ok (int (length a))"
    and "wf_reply (fst (exec args db))"
  shows "Do (serve exec) LinkUp args db = apfst decode (exec args db)"
  using assms by (rule Do_serve)

theorem call_is_command_witness:
  "Do (serve (\<lambda>args n. (RArr [RBulk (concat args), RInt 7, RNil], Suc n))) LinkUp
     [''GET'', [CHR 0x0D, CHR 0x0A]] 0 =
   (Ok (GArr [GStr (''GET'' @ [CHR 0x0D, CHR 0x0A]), GInt 7, GNil]), 1)"
  using call_is_command [of "[''GET'', [CHR 0x0D, CHR 0x0A]]"
      "\<lambda>args n. (RArr [RBulk (concat args), RInt 7, RNil], Suc n)" 0]
  by (simp add: int64_ok_def)

text \<open>
  A reply that is cut off anywhere before its end is reported as an error by
  \<open>readRESP\<close>: it is never taken for a shorter reply, and never panics.
\<close>

theorem cut_reply_is_error:
  assumes "wf_reply r" "n < length (encode r)"
  shows "\<exists>e. fst (readRESP (take n (encode r))) = Err e"
  using readRESP_encode_take(1) [OF assms] by (simp add: is_Err_def)

theorem cut_reply_is_error_witness:
  "\<exists>e. fst (readRESP (take 9 (encode (RArr [RBulk ''ab'', RInt 12])))) = Err e"
  by (rule cut_reply_is_error) (simp_all add: int64_ok_def FormatInt_def fmt_nat.simps)

text \<open>
  Parsing what \<open>strconv.FormatInt\<close> printed gives the number back without an error, for
  every \<open>int64\<close>; so versions and sequences pass through Redis unchanged.
\<close>

theorem int_roundtrip:
  assumes "int64_ok n"
  shows "ParseInt (FormatInt n) = (n, None) \<and> redisInt64 (GStr (FormatInt n)) = Inr n"
  using assms by (simp add: ParseInt_FormatInt)

theorem int_roundtrip_witness:
  "ParseInt (FormatInt min_int64) = (min_int64, None)"
  using int_roundtrip [of min_int64] by (simp add: int64_ok_def)

text \<open>
  \<open>parseStreamEntries\<close> reads the entries that \<open>applyOperationScript\<close> writes back as the
  same events: stream identifier, sequence, version, names and content, for any strings.
\<close>

theorem stream_roundtrip:
  assumes "\<forall>e\<in>set es. int64_ok (eSequence e) \<and> int64_ok (eVersion e)"
  shows "bind_outcome (map_outcome CallError id (decode (stream_reply (map entry_of es)))) parseStreamEntries = Ok es"
  using parseStreamEntries_log [OF assms] by simp

theorem stream_roundtrip_witness:
  "bind_outcome (map_outcome CallError id (decode (stream_reply (map entry_of
     [\<lparr>eStreamID = ''5-0'', eSequence = 1, eVersion = 1, eOperationID = ''o'', eClientID = ''c'',
       eUsername = ''version'', eContent = ''sequence''\<rparr>])))) parseStreamEntries =
   Ok [\<lparr>eStreamID = ''5-0'', eSequence = 1, eVersion = 1, eOperationID = ''o'', eClientID = ''c'',
       eUsername = ''version'', eContent = ''sequence''\<rparr>]"
  by (rule stream_roundtrip) (simp add: int64_ok_def)

text \<open>
  The lines of a trace file are numbered \<open>1, 2, 3, \<dots>\<close> in the order of the calls of
  \<open>Record\<close>, and no event is lost while writes succeed.
\<close>

theorem trace_numbered:
  assumes "NewTraceRecorder path None = Inr r" "path \<noteq> []"
  shows "\<exists>ls. trFile (record_all tes r) = Some ls \<and> map tStage ls = map (tStage \<circ> snd) tes \<and>
    map tSequence ls = map of_nat [1..<Suc (length tes)]"
proof -
  have r: "trFile r = Some []" "\<not> trClosed r" "trSequence r = 0" using assms by (auto simp: NewTraceRecorder_def)
  from record_all_numbers [of r "[]" tes] r show ?thesis by (auto simp del: upt_Suc)
qed

theorem trace_numbered_witness:
  "\<exists>ls. trFile (record_all [(''t1'', zero_trace), (''t2'', zero_trace)] \<lparr>trSequence = 0, trFile = Some [], trClosed = False\<rparr>) = Some ls \<and>
    map tSequence ls = [1, 2]"
  using trace_numbered [of "''x''" "\<lparr>trSequence = 0, trFile = Some [], trClosed = False\<rparr>" "[(''t1'', zero_trace), (''t2'', zero_trace)]"]
  by (auto simp: NewTraceRecorder_def numeral_2_eq_2)

text \<open>
  After any observations a histogram's buckets are sorted, its total is the number of
  values that were not negative and not special, and the count of each bucket is the number of
  those at most its bound (all counts modulo \<open>2\<^sup>6\<^sup>4\<close>).
\<close>

theorem histogram_counts:
  "histogram_ok (observed vs) (fold (observe rnd) vs (newHistogram bs))"
  using fold_observe_ok [OF newHistogram_ok [of bs], of vs rnd] by simp

end
