(* ===== verification/Manager.thy ===== *)
theory Manager
  imports Room_Cache Config
begin

section \<open>The room manager\<close>

text \<open>
  \<^verbatim>\<open>backend/manager.go\<close> and the watcher bookkeeping of \<^verbatim>\<open>backend/presence.go\<close>. Rooms
  are objects: the map of rooms holds pointers, and a watcher keeps the pointer it was
  started with. A goroutine that is started is recorded as an entry of \<open>mStarted\<close>: the room
  and the sequence it was hydrated at. \<open>mStore\<close> says whether a store is configured.
\<close>

type_synonym room_ptr = nat

record manager =
  mRooms :: "string \<Rightarrow> room_ptr option"
  mObjs :: "room_ptr \<Rightarrow> Room"
  mNext :: room_ptr
  mStore :: bool
  mInstanceID :: string
  mWatchers :: "string set"
  mStarted :: "(room_ptr \<times> int64) list"
  mPresenceWatchers :: "string set"
  mPresenceStarted :: "room_ptr list"
  mTiming :: PresenceTiming
  mSweeping :: bool
  mClosed :: bool

definition empty_room :: Room where
  "empty_room = \<lparr>rID = [], rContent = [], rVersion = 0, rSequence = 0, rClients = [], rStore = False,
     localPresenceRevision = 0\<rparr>"

definition NewRoomManager :: manager where
  "NewRoomManager = \<lparr>mRooms = Map.empty, mObjs = (\<lambda>p. empty_room), mNext = 0, mStore = False,
     mInstanceID = [], mWatchers = {}, mStarted = [], mPresenceWatchers = {}, mPresenceStarted = [],
     mTiming = \<lparr>HeartbeatInterval = 0, LeaseDuration = 0, SweepInterval = 0\<rparr>, mSweeping = False, mClosed = False\<rparr>"

text \<open>\<open>timing\<close> is the optional argument; the sweeper runs when there is a store.\<close>

definition NewDistributedRoomManager :: "bool \<Rightarrow> string \<Rightarrow> PresenceTiming list \<Rightarrow> manager" where
  "NewDistributedRoomManager store instanceID timing = NewRoomManager\<lparr>
     mStore := store, mInstanceID := instanceID,
     mTiming := withDefaults (case timing of [] \<Rightarrow> \<lparr>HeartbeatInterval = 0, LeaseDuration = 0, SweepInterval = 0\<rparr>
        | t # ts \<Rightarrow> t),
     mSweeping := store\<rparr>"

definition Close :: "manager \<Rightarrow> manager" where
  "Close m = m\<lparr>mClosed := True\<rparr>"

definition ensureWatcher :: "room_ptr \<Rightarrow> manager \<Rightarrow> manager" where
  "ensureWatcher p m =
     (if \<not> mStore m then m
      else if rID (mObjs m p) \<in> mWatchers m then m
      else m\<lparr>mWatchers := insert (rID (mObjs m p)) (mWatchers m),
             mStarted := mStarted m @ [(p, rSequence (mObjs m p))]\<rparr>)"

definition ensurePresenceWatcher :: "room_ptr \<Rightarrow> manager \<Rightarrow> manager" where
  "ensurePresenceWatcher p m =
     (if \<not> mStore m then m
      else if rID (mObjs m p) \<in> mPresenceWatchers m then m
      else m\<lparr>mPresenceWatchers := insert (rID (mObjs m p)) (mPresenceWatchers m),
             mPresenceStarted := mPresenceStarted m @ [p]\<rparr>)"

definition new_room :: "Room \<Rightarrow> manager \<Rightarrow> room_ptr \<times> manager" where
  "new_room r m = (mNext m, m\<lparr>mObjs := (mObjs m)(mNext m := r), mNext := Suc (mNext m)\<rparr>)"

text \<open>\<open>RoomManager.CreateRoom\<close>; \<open>roomID\<close> is what \<open>generateRoomID\<close> returned.\<close>

definition CreateRoom_manager :: "'db exec \<Rightarrow> 'db net \<Rightarrow> string \<Rightarrow> manager \<Rightarrow> 'db \<Rightarrow>
    room_ptr store_result \<times> manager \<times> 'db" where
  "CreateRoom_manager exec net roomID m db =
     (case new_room (empty_room\<lparr>rID := roomID, rStore := mStore m\<rparr>) m of (p, m1) \<Rightarrow>
      (case (if mStore m then CreateRoom exec net roomID db else (Ok (), db)) of
         (Err e, db) \<Rightarrow> (Err e, m, db)
       | (Panic, db) \<Rightarrow> (Panic, m, db)
       | (Ok u, db) \<Rightarrow> (Ok p, ensureWatcher p (m1\<lparr>mRooms := (mRooms m1)(roomID \<mapsto> p)\<rparr>), db)))"

text \<open>
  \<open>RoomManager.GetRoom\<close>. The store is read without the lock; \<open>others\<close> is what the other
  handlers of the backend do to the manager meanwhile.
\<close>

definition GetRoom :: "'db exec \<Rightarrow> 'db net \<Rightarrow> (manager \<Rightarrow> manager) \<Rightarrow> string \<Rightarrow> manager \<Rightarrow> 'db \<Rightarrow>
    room_ptr option store_result \<times> manager \<times> 'db" where
  "GetRoom exec net others roomID m db = (case mRooms m roomID of
     Some p \<Rightarrow> (Ok (Some p), ensureWatcher p m, db)
   | None \<Rightarrow>
      if \<not> mStore m then (Ok None, m, db)
      else (case GetSnapshot_store exec net roomID db of
          (Panic, db) \<Rightarrow> (Panic, others m, db)
        | (Err e, db) \<Rightarrow> (Ok None, others m, db)
        | (Ok None, db) \<Rightarrow> (Ok None, others m, db)
        | (Ok (Some s), db) \<Rightarrow>
           (let m1 = others m in
            case mRooms m1 roomID of
              Some p \<Rightarrow> (Ok (Some p), ensureWatcher p m1, db)
            | None \<Rightarrow>
               (case new_room (empty_room\<lparr>rID := roomID, rContent := sContent s, rVersion := sVersion s,
                    rSequence := sSequence s, rStore := mStore m1\<rparr>) m1 of (p, m2) \<Rightarrow>
                (Ok (Some p), ensureWatcher p (m2\<lparr>mRooms := (mRooms m2)(roomID \<mapsto> p)\<rparr>), db)))))"

definition DeleteRoom :: "string \<Rightarrow> manager \<Rightarrow> manager" where
  "DeleteRoom roomID m = (if mStore m then m else m\<lparr>mRooms := (mRooms m)(roomID := None)\<rparr>)"

subsection \<open>The invariant\<close>

text \<open>
  Every room in the map is an allocated object under its own identifier and of the manager's
  mode; with a store, every room in the map is watched, and each watcher runs on the object
  that the map holds, one watcher for each identifier.
\<close>

definition manager_ok :: "manager \<Rightarrow> bool" where
  "manager_ok m \<longleftrightarrow>
     (\<forall>rid p. mRooms m rid = Some p \<longrightarrow> p < mNext m \<and> rID (mObjs m p) = rid \<and> rStore (mObjs m p) = mStore m) \<and>
     (\<forall>(p, s)\<in>set (mStarted m). mRooms m (rID (mObjs m p)) = Some p) \<and>
     distinct (map fst (mStarted m)) \<and>
     mWatchers m = (\<lambda>(p, s). rID (mObjs m p)) ` set (mStarted m) \<and>
     (if mStore m then \<forall>rid. mRooms m rid \<noteq> None \<longrightarrow> rid \<in> mWatchers m else mStarted m = [])"

lemma manager_okD:
  assumes "manager_ok m"
  shows "mRooms m rid = Some p \<Longrightarrow> p < mNext m \<and> rID (mObjs m p) = rid \<and> rStore (mObjs m p) = mStore m"
    and "(p, s) \<in> set (mStarted m) \<Longrightarrow> mRooms m (rID (mObjs m p)) = Some p"
    and "distinct (map fst (mStarted m))"
    and "mWatchers m = (\<lambda>(p, s). rID (mObjs m p)) ` set (mStarted m)"
    and "mStore m \<Longrightarrow> mRooms m rid \<noteq> None \<Longrightarrow> rid \<in> mWatchers m"
    and "\<not> mStore m \<Longrightarrow> mStarted m = []"
proof -
  note parts = assms [unfolded manager_ok_def]
  show "mRooms m rid = Some p \<Longrightarrow> p < mNext m \<and> rID (mObjs m p) = rid \<and> rStore (mObjs m p) = mStore m"
    using parts by simp
  show "(p, s) \<in> set (mStarted m) \<Longrightarrow> mRooms m (rID (mObjs m p)) = Some p"
    using conjunct1 [OF conjunct2 [OF parts]] by fast
  show "distinct (map fst (mStarted m))" "mWatchers m = (\<lambda>(p, s). rID (mObjs m p)) ` set (mStarted m)"
    using parts by simp_all
  have modes: "if mStore m then \<forall>rid. mRooms m rid \<noteq> None \<longrightarrow> rid \<in> mWatchers m else mStarted m = []"
    using parts by (elim conjE)
  show "mStore m \<Longrightarrow> mRooms m rid \<noteq> None \<Longrightarrow> rid \<in> mWatchers m" "\<not> mStore m \<Longrightarrow> mStarted m = []"
    using modes by (simp_all del: not_None_eq)
qed

lemma NewRoomManager_ok: "manager_ok NewRoomManager"
  by (simp add: manager_ok_def NewRoomManager_def)

lemma NewDistributedRoomManager_ok: "manager_ok (NewDistributedRoomManager store i t)"
  by (simp add: manager_ok_def NewDistributedRoomManager_def NewRoomManager_def)

text \<open>A room that is in the map of an intact manager is watched already.\<close>

lemma ensureWatcher_known:
  "manager_ok m \<Longrightarrow> mRooms m rid = Some p \<Longrightarrow> ensureWatcher p m = m"
  using manager_okD(1,5) [of m rid] by (simp add: ensureWatcher_def)

text \<open>Entering a new room under its identifier, and starting its watcher.\<close>

definition enter_room :: "Room \<Rightarrow> manager \<Rightarrow> manager" where
  "enter_room r m = ensureWatcher (mNext m)
     ((snd (new_room r m))\<lparr>mRooms := (mRooms m)(rID r \<mapsto> mNext m)\<rparr>)"

lemma enter_room_eq:
  assumes "manager_ok m" "mRooms m (rID r) = None"
  shows "enter_room r m = m\<lparr>mObjs := (mObjs m)(mNext m := r), mNext := Suc (mNext m),
    mRooms := (mRooms m)(rID r \<mapsto> mNext m),
    mWatchers := (if mStore m then insert (rID r) (mWatchers m) else mWatchers m),
    mStarted := (if mStore m then mStarted m @ [(mNext m, rSequence r)] else mStarted m)\<rparr>"
proof -
  have "rID r \<notin> mWatchers m"
  proof
    assume "rID r \<in> mWatchers m"
    then obtain p s where ps: "(p, s) \<in> set (mStarted m)" "rID (mObjs m p) = rID r"
      unfolding manager_okD(4) [OF assms(1)] by auto
    with manager_okD(2) [OF assms(1) ps(1)] assms(2) show False by simp
  qed
  then show ?thesis by (simp add: enter_room_def new_room_def ensureWatcher_def)
qed

lemma manager_ok_enter:
  assumes m: "manager_ok m" and r: "rStore r = mStore m" and fresh: "mRooms m (rID r) = None"
  shows "manager_ok (enter_room r m)"
proof -
  let ?n = "mNext m"
  have old: "p \<noteq> ?n" "rID (mObjs m p) \<noteq> rID r" "rID (((mObjs m)(?n := r)) p) = rID (mObjs m p)"
    if "(p, s) \<in> set (mStarted m)" for p s
  proof -
    note known = manager_okD(2) [OF m that]
    show ne: "p \<noteq> ?n" using manager_okD(1) [OF m known] by simp
    show "rID (mObjs m p) \<noteq> rID r" using known fresh by auto
    show "rID (((mObjs m)(?n := r)) p) = rID (mObjs m p)" using ne by simp
  qed
  have img: "(\<lambda>(p, s). rID (((mObjs m)(?n := r)) p)) ` set (mStarted m) = mWatchers m"
    unfolding manager_okD(4) [OF m] using old by (intro image_cong) auto
  have dom: "\<forall>rid p. ((mRooms m)(rID r \<mapsto> ?n)) rid = Some p \<longrightarrow>
      p < Suc ?n \<and> rID (((mObjs m)(?n := r)) p) = rid \<and> rStore (((mObjs m)(?n := r)) p) = mStore m"
  proof (intro allI impI)
    fix rid p assume a: "((mRooms m)(rID r \<mapsto> ?n)) rid = Some p"
    show "p < Suc ?n \<and> rID (((mObjs m)(?n := r)) p) = rid \<and> rStore (((mObjs m)(?n := r)) p) = mStore m"
    proof (cases "rid = rID r")
      case True
      with a r show ?thesis by auto
    next
      case False
      with a manager_okD(1) [OF m, of rid p] show ?thesis by auto
    qed
  qed
  have run: "\<forall>(p, s)\<in>set (mStarted m). ((mRooms m)(rID r \<mapsto> ?n)) (rID (((mObjs m)(?n := r)) p)) = Some p"
  proof (clarify)
    fix p s assume a: "(p, s) \<in> set (mStarted m)"
    show "((mRooms m)(rID r \<mapsto> ?n)) (rID (((mObjs m)(?n := r)) p)) = Some p"
      using old(2,3) [OF a] manager_okD(2) [OF m a] by simp
  qed
  have new: "?n \<notin> fst ` set (mStarted m)"
  proof
    assume "?n \<in> fst ` set (mStarted m)"
    then obtain s where "(?n, s) \<in> set (mStarted m)" by auto
    from old(1) [OF this] show False by simp
  qed
  show ?thesis
  proof (cases "mStore m")
    case False
    then show ?thesis
      unfolding enter_room_eq [OF m fresh] manager_ok_def
      using dom run manager_okD(6) [OF m] manager_okD(4) [OF m] by simp
  next
    case True
    have cover: "\<forall>rid. ((mRooms m)(rID r \<mapsto> ?n)) rid \<noteq> None \<longrightarrow> rid \<in> insert (rID r) (mWatchers m)"
      using manager_okD(5) [OF m True] by auto
    show ?thesis
      unfolding enter_room_eq [OF m fresh] manager_ok_def
      using True dom run new img cover manager_okD(3) [OF m] by (simp del: fun_upd_apply) simp
  qed
qed

subsection \<open>The operations\<close>

lemma CreateRoom_manager_cases:
  assumes "CreateRoom_manager exec net roomID m db = (res, m', db')"
  shows "(\<exists>p. res = Ok p \<and> p = mNext m \<and> m' = enter_room (empty_room\<lparr>rID := roomID, rStore := mStore m\<rparr>) m) \<or>
    ((\<forall>p. res \<noteq> Ok p) \<and> m' = m)"
  using assms
  by (auto simp: CreateRoom_manager_def new_room_def enter_room_def split: prod.splits outcome.splits if_splits)

lemma CreateRoom_manager_ok:
  assumes "manager_ok m" "mRooms m roomID = None"
    and "CreateRoom_manager exec net roomID m db = (res, m', db')"
  shows "manager_ok m'"
  using CreateRoom_manager_cases [OF assms(3)] manager_ok_enter [OF assms(1)] assms(1,2) by auto

lemma GetRoom_ok:
  assumes "manager_ok m" "manager_ok (others m)" "GetRoom exec net others roomID m db = (res, m', db')"
  shows "manager_ok m'"
proof (cases "mRooms m roomID")
  case (Some p)
  with assms show ?thesis by (simp add: GetRoom_def ensureWatcher_known)
next
  case None
  have enter: "manager_ok (enter_room r (others m))" if "mRooms (others m) roomID = None" "rID r = roomID"
      "rStore r = mStore (others m)" for r
    using manager_ok_enter [OF assms(2)] that by simp
  show ?thesis
    using assms None enter
    by (auto simp: GetRoom_def Let_def ensureWatcher_known new_room_def enter_room_def
        split: prod.splits outcome.splits if_splits option.splits)
qed

lemma DeleteRoom_ok: "manager_ok m \<Longrightarrow> manager_ok (DeleteRoom roomID m)"
  unfolding manager_ok_def DeleteRoom_def by auto

text \<open>Hydrating a room that Redis has and the backend does not hold.\<close>

lemma GetRoom_hydrates:
  assumes "redis_server E V K" "K db" "redis_room (V db) rid L" "manager_ok m" "mStore m" "mRooms m rid = None"
  obtains p m' db' where "GetRoom (document_exec E) calm (\<lambda>m. m) rid m db = (Ok (Some p), m', db')"
    "K db'" "V db' = V db" "manager_ok m'" "mRooms m' rid = Some p" "cache_ok L (mObjs m' p)"
    "room_snapshot (mObjs m' p) = snapshot_of L" "(p, int (length L)) \<in> set (mStarted m')"
proof -
  obtain db' where g: "GetSnapshot_store (document_exec E) calm rid db = (Ok (Some (snapshot_of L)), db')" "K db'" "V db' = V db"
    by (rule GetSnapshot_calm [OF assms(1-3)])
  let ?r = "empty_room\<lparr>rID := rid, rContent := sContent (snapshot_of L), rVersion := int (length L),
      rSequence := int (length L), rStore := True\<rparr>"
  define m' where "m' = enter_room ?r m"
  have fresh: "mRooms m (rID ?r) = None" using assms(6) by simp
  have e: "GetRoom (document_exec E) calm (\<lambda>m. m) rid m db = (Ok (Some (mNext m)), m', db')"
    using assms(5,6) g(1) by (simp add: GetRoom_def Let_def new_room_def enter_room_def m'_def)
  have ok: "manager_ok m'" unfolding m'_def by (rule manager_ok_enter [OF assms(4) _ fresh]) (use assms(5) in simp)
  have f: "mRooms m' rid = Some (mNext m)" "mObjs m' (mNext m) = ?r" "(mNext m, int (length L)) \<in> set (mStarted m')"
    unfolding m'_def enter_room_eq [OF assms(4) fresh] using assms(5) by simp_all
  have "room_snapshot ?r = snapshot_of L" by (simp add: room_snapshot_def snapshot_of_def)
  moreover from this have "cache_ok L ?r" by (intro cache_okI [of _ L]) simp_all
  ultimately show thesis using that [OF e g(2,3) ok f(1) _ _ f(3)] unfolding f(2) by simp
qed

end
