(* ===== verification/Manager_Properties.thy ===== *)
theory Manager_Properties
  imports Manager Mem_Room
begin

section \<open>Properties of the room manager and of the configuration\<close>

subsection \<open>Reachable managers\<close>

text \<open>
  The managers a backend can get to: from a new one, by its operations in any order, with any
  behaviour of Redis and of the network. Identifiers of new rooms are ones that are not in
  use on this backend. While \<open>GetRoom\<close> reads the store, other handlers may take the manager
  to any other reachable one.
\<close>

inductive manager_reach :: "'db exec \<Rightarrow> manager \<Rightarrow> bool" for exec where
  local: "manager_reach exec NewRoomManager"
| distributed: "manager_reach exec (NewDistributedRoomManager store instanceID timing)"
| create: "manager_reach exec m \<Longrightarrow> mRooms m roomID = None \<Longrightarrow>
    CreateRoom_manager exec net roomID m db = (res, m', db') \<Longrightarrow> manager_reach exec m'"
| get: "manager_reach exec m \<Longrightarrow> manager_reach exec (others m) \<Longrightarrow>
    GetRoom exec net others roomID m db = (res, m', db') \<Longrightarrow> manager_reach exec m'"
| delete: "manager_reach exec m \<Longrightarrow> manager_reach exec (DeleteRoom roomID m)"
| closing: "manager_reach exec m \<Longrightarrow> manager_reach exec (Close m)"
| presence: "manager_reach exec m \<Longrightarrow> manager_reach exec (ensurePresenceWatcher p m)"

inductive_simps manager_reach_simps: "manager_reach exec m"

lemma manager_ok_frame:
  assumes "manager_ok m" "mRooms m' = mRooms m" "mObjs m' = mObjs m" "mNext m' = mNext m"
    "mStore m' = mStore m" "mStarted m' = mStarted m" "mWatchers m' = mWatchers m"
  shows "manager_ok m'"
  using assms(1) unfolding manager_ok_def assms(2-) .

lemma reach_ok: "manager_reach exec m \<Longrightarrow> manager_ok m"
proof (induction rule: manager_reach.induct)
  case local
  show ?case by (rule NewRoomManager_ok)
next
  case (distributed store i t)
  show ?case by (rule NewDistributedRoomManager_ok)
next
  case (create m roomID net db res m' db')
  show ?case by (rule CreateRoom_manager_ok [OF create.IH create.hyps(2,3)])
next
  case (get m others net roomID db res m' db')
  show ?case by (rule GetRoom_ok [OF get.IH get.hyps(3)])
next
  case (delete m roomID)
  then show ?case by (simp add: DeleteRoom_ok)
next
  case (closing m)
  show ?case by (rule manager_ok_frame [OF closing.IH]) (simp_all add: Close_def)
next
  case (presence m p)
  show ?case by (rule manager_ok_frame [OF presence.IH]) (simp_all add: ensurePresenceWatcher_def)
qed

text \<open>
  The same without the condition on the identifiers of new rooms: \<open>generateRoomID\<close> may return any. What is left of the
  invariant is the bookkeeping of the watchers, by identifier.
\<close>

inductive manager_runs :: "'db exec \<Rightarrow> manager \<Rightarrow> bool" for exec where
  local: "manager_runs exec NewRoomManager"
| distributed: "manager_runs exec (NewDistributedRoomManager store instanceID timing)"
| create: "manager_runs exec m \<Longrightarrow> CreateRoom_manager exec net roomID m db = (res, m', db') \<Longrightarrow> manager_runs exec m'"
| get: "manager_runs exec m \<Longrightarrow> manager_runs exec (others m) \<Longrightarrow>
    GetRoom exec net others roomID m db = (res, m', db') \<Longrightarrow> manager_runs exec m'"
| delete: "manager_runs exec m \<Longrightarrow> manager_runs exec (DeleteRoom roomID m)"
| closing: "manager_runs exec m \<Longrightarrow> manager_runs exec (Close m)"
| presence: "manager_runs exec m \<Longrightarrow> manager_runs exec (ensurePresenceWatcher p m)"

lemma reach_runs: "manager_reach exec m \<Longrightarrow> manager_runs exec m"
  by (induction rule: manager_reach.induct) (blast intro: manager_runs.intros)+

abbreviation watcher_ids :: "manager \<Rightarrow> string list" where
  "watcher_ids m \<equiv> map (\<lambda>(p, s). rID (mObjs m p)) (mStarted m)"

definition watch_books :: "manager \<Rightarrow> bool" where
  "watch_books m \<longleftrightarrow> (\<forall>rid p. mRooms m rid = Some p \<longrightarrow> p < mNext m \<and> rID (mObjs m p) = rid) \<and>
     (\<forall>(p, s)\<in>set (mStarted m). p < mNext m) \<and> distinct (watcher_ids m) \<and> mWatchers m = set (watcher_ids m)"

definition watch_ok :: "manager \<Rightarrow> bool" where
  "watch_ok m \<longleftrightarrow> watch_books m \<and> (mStore m \<longrightarrow> (\<forall>rid p. mRooms m rid = Some p \<longrightarrow> rid \<in> mWatchers m))"

lemma watch_ensure:
  assumes "watch_books m" "p < mNext m"
  shows "watch_books (ensureWatcher p m)" "mRooms (ensureWatcher p m) = mRooms m" "mStore (ensureWatcher p m) = mStore m"
    "mStore m \<Longrightarrow> mWatchers (ensureWatcher p m) = insert (rID (mObjs m p)) (mWatchers m)"
  using assms by (auto simp: watch_books_def ensureWatcher_def)

lemma watch_ok_ensure: "watch_ok m \<Longrightarrow> mRooms m rid = Some p \<Longrightarrow> watch_ok (ensureWatcher p m)"
  using watch_ensure [of m p] by (auto simp: watch_ok_def watch_books_def)

lemma watch_ok_enter:
  assumes "watch_ok m" shows "watch_ok (enter_room r m)"
proof -
  define m1 where "m1 = (snd (new_room r m))\<lparr>mRooms := (mRooms m)(rID r \<mapsto> mNext m)\<rparr>"
  have m1: "mObjs m1 = (mObjs m)(mNext m := r)" "mStarted m1 = mStarted m" "mWatchers m1 = mWatchers m" "mNext m1 = Suc (mNext m)"
    "mStore m1 = mStore m" "mRooms m1 = (mRooms m)(rID r \<mapsto> mNext m)" by (simp_all add: m1_def new_room_def)
  have w: "\<forall>rid p. mRooms m rid = Some p \<longrightarrow> p < mNext m \<and> rID (mObjs m p) = rid" "\<forall>(p, s)\<in>set (mStarted m). p < mNext m"
    "distinct (watcher_ids m)" "mWatchers m = set (watcher_ids m)" "mStore m \<longrightarrow> (\<forall>rid p. mRooms m rid = Some p \<longrightarrow> rid \<in> mWatchers m)"
    using assms unfolding watch_ok_def watch_books_def by blast+
  have ids: "watcher_ids m1 = watcher_ids m" using w(2) by (auto simp: m1)
  have rooms: "p < mNext m1 \<and> rID (mObjs m1 p) = rid" if "mRooms m1 rid = Some p" for rid p
    using that w(1) [rule_format, of rid p] by (auto simp: m1 split: if_splits)
  have "watch_books m1" unfolding watch_books_def ids using rooms w(2-4) by (auto simp: m1)
  note e = watch_ensure [OF this, of "mNext m"]
  have "rid \<in> insert (rID r) (mWatchers m)" if "mStore m" "((mRooms m)(rID r \<mapsto> mNext m)) rid = Some p" for rid p
    using that w(5) by (auto split: if_splits)
  then show ?thesis
    using e unfolding enter_room_def m1_def [symmetric] watch_ok_def by (auto simp: m1)
qed

text \<open>A room that was not in the map: nothing, the one another handler entered, or a new one.\<close>

lemma GetRoom_entered:
  assumes "mRooms m roomID = None" "GetRoom exec net others roomID m db = (res, m', db')"
  shows "m' = m \<or> m' = others m \<or> (\<exists>p. mRooms (others m) roomID = Some p \<and> m' = ensureWatcher p (others m)) \<or>
    (\<exists>r. m' = enter_room r (others m))"
proof -
  have "m' = m \<or> m' = others m \<or> (\<exists>p. mRooms (others m) roomID = Some p \<and> m' = ensureWatcher p (others m)) \<or>
    (\<exists>r. rID r = roomID \<and> m' = ensureWatcher (mNext (others m)) ((snd (new_room r (others m)))\<lparr>mRooms := (mRooms (others m))(roomID \<mapsto> mNext (others m))\<rparr>))"
    using assms by (force simp: GetRoom_def Let_def new_room_def split: prod.splits outcome.splits if_splits option.splits)
  then show ?thesis unfolding enter_room_def by metis
qed

lemma runs_watch: "manager_runs exec m \<Longrightarrow> watch_ok m"
proof (induction rule: manager_runs.induct)
  case (create m net roomID db res m' db')
  then show ?case using CreateRoom_manager_cases [OF create.hyps(2)] watch_ok_enter by auto
next
  case (get m others net roomID db res m' db')
  show ?case
  proof (cases "mRooms m roomID")
    case (Some p)
    then show ?thesis using get.hyps(3) watch_ok_ensure [OF get.IH(1) Some] by (simp add: GetRoom_def)
  next
    case None
    then show ?thesis
      using get.hyps(3) get.IH watch_ok_ensure [OF get.IH(2)] GetRoom_entered [OF None get.hyps(3)] watch_ok_enter [OF get.IH(2)]
      by auto
  qed
qed (auto simp: watch_ok_def watch_books_def NewDistributedRoomManager_def NewRoomManager_def DeleteRoom_def Close_def
    ensurePresenceWatcher_def)

lemma one_of_distinct:
  assumes "distinct (map f xs)" "y \<in> f ` set xs" shows "length (filter (\<lambda>x. f x = y) xs) = 1"
  using assms
proof (induction xs)
  case (Cons x xs)
  then show ?case by (cases "f x = y") (auto simp: filter_empty_conv image_iff)
qed simp

text \<open>
  C25: On a backend with a store, whatever identifiers new rooms get, in every manager that it can reach each room in the map has
  exactly one stream watcher under its identifier, so no event is broadcast twice by one backend. As long as new rooms got
  identifiers that were not in use on the backend, that watcher runs on the very object that the map holds, so no client's room is
  left without a watcher.
\<close>

theorem one_watcher_per_room:
  assumes "manager_runs exec m" "mStore m" "mRooms m rid = Some p"
  shows "length (filter (\<lambda>(q, s). rID (mObjs m q) = rid) (mStarted m)) = 1 \<and>
    (manager_reach exec m \<longrightarrow> fst (hd (filter (\<lambda>(q, s). rID (mObjs m q) = rid) (mStarted m))) = p)"
proof -
  let ?F = "filter (\<lambda>(q, s). rID (mObjs m q) = rid) (mStarted m)"
  have w: "distinct (watcher_ids m)" "rid \<in> set (watcher_ids m)"
    using runs_watch [OF assms(1)] assms(2,3) by (auto simp: watch_ok_def watch_books_def)
  have f: "(\<lambda>x. (case x of (q, s) \<Rightarrow> rID (mObjs m q)) = rid) = (\<lambda>(q, s). rID (mObjs m q) = rid)" by (auto simp: fun_eq_iff)
  have one: "length ?F = 1" using one_of_distinct [OF w(1), of rid] w(2) unfolding f by simp
  have "fst (hd ?F) = p" if r: "manager_reach exec m"
  proof -
    obtain q s where hd: "hd ?F = (q, s)" by force
    have "?F \<noteq> []" using one by auto
    then have "(q, s) \<in> set ?F" using hd_in_set hd by metis
    then show ?thesis using manager_okD(2) [OF reach_ok [OF r], of q s] assms(3) hd by auto
  qed
  with one show ?thesis by blast
qed

definition demo_manager :: manager where
  "demo_manager = fst (snd (CreateRoom_manager (document_exec mem_exec) calm ''r2''
     (NewDistributedRoomManager True ''i1'' []) (\<lambda>k. None)))"

lemma demo_manager_reach: "manager_reach (document_exec mem_exec) demo_manager"
proof (rule manager_reach.create)
  let ?m = "NewDistributedRoomManager True ''i1'' []"
  show "manager_reach (document_exec mem_exec) ?m" by (rule manager_reach.distributed)
  show "mRooms ?m ''r2'' = None" by (simp add: NewDistributedRoomManager_def NewRoomManager_def)
  let ?c = "CreateRoom_manager (document_exec mem_exec) calm ''r2'' ?m (\<lambda>k. None)"
  show "?c = (fst ?c, demo_manager, snd (snd ?c))" by (simp add: demo_manager_def)
qed

lemma demo_manager_eq: "demo_manager = enter_room (empty_room\<lparr>rID := ''r2'', rStore := True\<rparr>)
    (NewDistributedRoomManager True ''i1'' [])"
proof -
  obtain db' where "CreateRoom (document_exec mem_exec) calm ''r2'' (\<lambda>k. None) = (Ok (), db')"
    using CreateRoom_runs [OF mem_redis_server, of "\<lambda>k. None" "''r2''"] by auto
  then show ?thesis
    by (simp add: demo_manager_def CreateRoom_manager_def new_room_def enter_room_def
        NewDistributedRoomManager_def NewRoomManager_def)
qed

theorem one_watcher_per_room_witness:
  "length (filter (\<lambda>(q, s). rID (mObjs demo_manager q) = ''r2'') (mStarted demo_manager)) = 1"
proof -
  have "mStore demo_manager" "mRooms demo_manager ''r2'' = Some 0"
    unfolding demo_manager_eq
    by (simp_all add: enter_room_def new_room_def ensureWatcher_def NewDistributedRoomManager_def NewRoomManager_def)
  from one_watcher_per_room [OF reach_runs [OF demo_manager_reach] this] demo_manager_reach show ?thesis by simp
qed

text \<open>
  \<open>generateRoomID\<close> can return an identifier that is in use on the backend. \<open>CreateRoom\<close>
  then puts a new, empty object under it that no stream watcher serves: the watcher of the
  identifier goes on serving the object that was replaced, and clients that join from then on
  get no live update.
\<close>

theorem create_collision_unwatched:
  assumes "manager_reach exec m" "mStore m" "mRooms m roomID = Some q"
    and "CreateRoom_manager exec net roomID m db = (Ok p, m', db')"
  shows "mRooms m' roomID = Some p \<and> p \<noteq> q \<and> rClients (mObjs m' p) = [] \<and> p \<notin> fst ` set (mStarted m')"
proof -
  have ok: "manager_ok m" by (rule reach_ok [OF assms(1)])
  let ?r = "empty_room\<lparr>rID := roomID, rStore := mStore m\<rparr>"
  have p: "p = mNext m" and m': "m' = enter_room ?r m"
    using CreateRoom_manager_cases [OF assms(4)] by auto
  have "roomID \<in> mWatchers m" by (rule manager_okD(5) [OF ok assms(2)]) (simp add: assms(3))
  then have e: "m' = m\<lparr>mObjs := (mObjs m)(p := ?r), mNext := Suc p, mRooms := (mRooms m)(roomID \<mapsto> p)\<rparr>"
    unfolding m' by (simp add: enter_room_def new_room_def ensureWatcher_def p)
  have "p \<notin> fst ` set (mStarted m)"
  proof
    assume "p \<in> fst ` set (mStarted m)"
    then obtain s where "(p, s) \<in> set (mStarted m)" by auto
    from manager_okD(1) [OF ok manager_okD(2) [OF ok this]] show False by (simp add: p)
  qed
  moreover have "q < mNext m" using manager_okD(1) [OF ok assms(3)] by simp
  ultimately show ?thesis by (simp add: e p empty_room_def)
qed

theorem create_collision_unwatched_witness:
  "\<exists>p m' db'. CreateRoom_manager (document_exec mem_exec) calm ''r2'' demo_manager (\<lambda>k. None) = (Ok p, m', db') \<and>
    mRooms m' ''r2'' = Some p \<and> p \<notin> fst ` set (mStarted m')"
proof -
  have st: "mStore demo_manager" "mRooms demo_manager ''r2'' = Some 0"
    unfolding demo_manager_eq
    by (simp_all add: enter_room_def new_room_def ensureWatcher_def NewDistributedRoomManager_def NewRoomManager_def)
  obtain db' where "CreateRoom (document_exec mem_exec) calm ''r2'' (\<lambda>k. None) = (Ok (), db')"
    using CreateRoom_runs [OF mem_redis_server, of "\<lambda>k. None" "''r2''"] by auto
  then obtain p m' where "CreateRoom_manager (document_exec mem_exec) calm ''r2'' demo_manager (\<lambda>k. None) = (Ok p, m', db')"
    by (simp add: CreateRoom_manager_def new_room_def st)
  with create_collision_unwatched [OF demo_manager_reach st this] show ?thesis by blast
qed

text \<open>
  On a backend with a store, \<open>GetRoom\<close> of an identifier it does not hold finds a
  room that Redis has, hydrates its cache with the content, version and sequence of the
  log, and starts its watcher from that sequence; a second \<open>GetRoom\<close> returns the same object.
\<close>

theorem get_room_hydrates:
  assumes "redis_server E V K" "K db" "redis_room (V db) rid L"
    and "manager_reach (document_exec E) m" "mStore m" "mRooms m rid = None"
  shows "\<exists>p m' db'. GetRoom (document_exec E) calm (\<lambda>m. m) rid m db = (Ok (Some p), m', db') \<and>
    V db' = V db \<and> mRooms m' rid = Some p \<and> cache_ok L (mObjs m' p) \<and>
    room_snapshot (mObjs m' p) = snapshot_of L \<and> (p, int (length L)) \<in> set (mStarted m') \<and>
    GetRoom (document_exec E) calm (\<lambda>m. m) rid m' db' = (Ok (Some p), m', db')"
proof -
  obtain p m' db' where *: "GetRoom (document_exec E) calm (\<lambda>m. m) rid m db = (Ok (Some p), m', db')"
    "V db' = V db" "manager_ok m'" "mRooms m' rid = Some p" "cache_ok L (mObjs m' p)"
    "room_snapshot (mObjs m' p) = snapshot_of L" "(p, int (length L)) \<in> set (mStarted m')"
    by (rule GetRoom_hydrates [OF assms(1-3) reach_ok [OF assms(4)] assms(5,6)])
  moreover have "GetRoom (document_exec E) calm (\<lambda>m. m) rid m' db' = (Ok (Some p), m', db')"
    using ensureWatcher_known [OF *(3,4)] *(4) by (simp add: GetRoom_def)
  ultimately show ?thesis by (intro exI [of _ p] exI [of _ m'] exI [of _ db']) simp
qed

theorem get_room_hydrates_witness:
  "\<exists>p m' db'. GetRoom (document_exec mem_exec) calm (\<lambda>m. m) ''r1'' (NewDistributedRoomManager True ''i1'' []) demo_db =
      (Ok (Some p), m', db') \<and> room_snapshot (mObjs m' p) = \<lparr>sContent = ''abc'', sVersion = 3, sSequence = 3\<rparr>"
proof -
  have "snapshot_of demo_log = \<lparr>sContent = ''abc'', sVersion = 3, sSequence = 3\<rparr>"
    by (simp add: snapshot_of_def demo_log_def)
  moreover have "mStore (NewDistributedRoomManager True ''i1'' [])"
    "mRooms (NewDistributedRoomManager True ''i1'' []) ''r1'' = None"
    by (simp_all add: NewDistributedRoomManager_def NewRoomManager_def)
  moreover have "redis_room (id demo_db) ''r1'' demo_log" by simp
  ultimately show ?thesis
    using get_room_hydrates [of mem_exec id mem_ok demo_db "''r1''" demo_log
        "NewDistributedRoomManager True ''i1'' []"]
      mem_redis_server demo_room(2) manager_reach.distributed [of "document_exec mem_exec" True "''i1''" "[]"]
    by metis
qed

subsection \<open>Configuration\<close>

text \<open>
  Whatever the environment, the loaded policy is reject unless the policy variable,
  trimmed and in lower case, is \<open>accept\<close>; there is at least one allowed origin, none is empty or
  has blanks around it; the port and the names are not empty; and, unless the heartbeat is set
  beyond 97 years, the presence timing is positive with a lease of at least three heartbeats.
\<close>

theorem config_sane:
  "(StaleWritePolicy (LoadConfig env host) = StaleWriteAccept \<longleftrightarrow>
      ToLower (TrimSpace (env ''LIVECOLLAB_STALE_WRITE_POLICY'')) = ''accept'') \<and>
   AllowedOrigins (LoadConfig env host) \<noteq> [] \<and>
   list_all (\<lambda>s. s \<noteq> [] \<and> TrimSpace s = s) (AllowedOrigins (LoadConfig env host)) \<and>
   Port (LoadConfig env host) \<noteq> [] \<and> InstanceID (LoadConfig env host) \<noteq> [] \<and> ServiceName (LoadConfig env host) \<noteq> [] \<and>
   (heartbeat_limit < wrap64 (envInt64 env ''LIVECOLLAB_PRESENCE_HEARTBEAT_MS'' 10000 * Millisecond) \<or>
    timing_ok (Presence (LoadConfig env host)))"
proof -
  have "TrimSpace ''http://localhost:5173'' = ''http://localhost:5173''"
    "TrimSpace ''http://127.0.0.1:5173'' = ''http://127.0.0.1:5173''"
    by (simp_all add: TrimSpace_def is_space_def)
  then have "list_all (\<lambda>s. s \<noteq> [] \<and> TrimSpace s = s) (AllowedOrigins (LoadConfig env host))"
    using splitAndTrim_entries by (auto simp: LoadConfig_def Let_def list_all_iff)
  moreover have "timing_ok (Presence (LoadConfig env host))"
    if "\<not> heartbeat_limit < wrap64 (envInt64 env ''LIVECOLLAB_PRESENCE_HEARTBEAT_MS'' 10000 * Millisecond)"
    using that by (simp add: LoadConfig_def Let_def withDefaults_ok)
  ultimately show ?thesis
    by (auto simp: LoadConfig_def Let_def policy_of_def or_default_def)
qed

text \<open>
  A browser origin is allowed exactly when it is absent, listed, or the list has the
  wildcard; in particular an unlisted origin is refused when there is no wildcard.
\<close>

theorem origin_allowed_iff:
  "originAllowed origin allowed \<longleftrightarrow> origin = [] \<or> ''*'' \<in> set allowed \<or> origin \<in> set allowed"
  by (simp add: originAllowed_def origin_in_iff)

end
