(* ===== verification/Wire_Codec.thy ===== *)
theory Wire_Codec
  imports Wire_Json
begin

section \<open>Messages and participants as JSON\<close>

text \<open>
  The field tags of \<open>Message\<close> (\<^verbatim>\<open>backend/client.go\<close>) and of \<open>Participant\<close> and
  \<open>PresenceUpdate\<close> (\<^verbatim>\<open>backend/presence.go\<close>): \<open>json.Marshal\<close> as the members of an object,
  a field marked \<open>omitempty\<close> only when it is not empty, and \<open>json.Unmarshal\<close> into a zero value.
\<close>

definition member_if :: "bool \<Rightarrow> string \<Rightarrow> json \<Rightarrow> (string \<times> json) list" where
  "member_if b k v = (if b then [(k, v)] else [])"

definition member_opt :: "string \<Rightarrow> ('a \<Rightarrow> json) \<Rightarrow> 'a option \<Rightarrow> (string \<times> json) list" where
  "member_opt k f x = (case x of None \<Rightarrow> [] | Some a \<Rightarrow> [(k, f a)])"

definition json_int :: "int64 \<Rightarrow> json" where
  "json_int n = JNum (FormatInt n)"

subsection \<open>Participants\<close>

definition participant_fields :: "string list" where
  "participant_fields = [''connectionId'', ''clientId'', ''username'', ''instanceId'']"

definition participant_json :: "Participant \<Rightarrow> json" where
  "participant_json p = JObj
     [(''connectionId'', JStr (pConnectionID p)), (''clientId'', JStr (pClientID p)),
      (''username'', JStr (pUsername p)), (''instanceId'', JStr (pInstanceID p))]"

definition marshal_participant :: "Participant \<Rightarrow> string" where
  "marshal_participant p = render (participant_json p)"

definition zero_participant :: Participant where
  "zero_participant = \<lparr>pConnectionID = [], pClientID = [], pUsername = [], pInstanceID = []\<rparr>"

definition unmarshal_participant :: "string \<Rightarrow> Participant option" where
  "unmarshal_participant s = (case parse_json s of
     Some JNull \<Rightarrow> Some zero_participant
   | Some (JObj ms) \<Rightarrow>
      (let text = (\<lambda>f. decode_field into_string (values_of participant_fields ms f) []) in
       do {
         k \<leftarrow> text ''connectionId''; c \<leftarrow> text ''clientId'';
         u \<leftarrow> text ''username''; i \<leftarrow> text ''instanceId'';
         Some \<lparr>pConnectionID = k, pClientID = c, pUsername = u, pInstanceID = i\<rparr>
       })
   | _ \<Rightarrow> None)"

definition valid_participant :: "Participant \<Rightarrow> bool" where
  "valid_participant p \<longleftrightarrow> valid_utf8 (pConnectionID p) \<and> valid_utf8 (pClientID p) \<and>
     valid_utf8 (pUsername p) \<and> valid_utf8 (pInstanceID p)"

text \<open>\<open>PresenceUpdate\<close>: the type, and the fields of the embedded snapshot.\<close>

definition presence_update_json :: "PresenceSnapshot \<Rightarrow> json" where
  "presence_update_json s = JObj
     [(''type'', JStr ''presence_update''), (''presenceRevision'', json_int (psRevision s)),
      (''participants'', JArr (map participant_json (psParticipants s)))]"

subsection \<open>Messages\<close>

definition message_fields :: "string list" where
  "message_fields = [''type'', ''content'', ''username'', ''users'', ''operationId'', ''clientId'',
     ''baseVersion'', ''previousVersion'', ''serverVersion'', ''sequence'', ''streamId'',
     ''fromSequence'', ''latestSequence'', ''replayed'', ''accepted'', ''stale'', ''reason'']"

definition message_members :: "Message \<Rightarrow> (string \<times> json) list" where
  "message_members m = concat
     [[(''type'', JStr (mType m))],
      member_if (mContent m \<noteq> []) ''content'' (JStr (mContent m)),
      member_if (mUsername m \<noteq> []) ''username'' (JStr (mUsername m)),
      member_if (mUsers m \<noteq> []) ''users'' (JArr (map JStr (mUsers m))),
      member_if (mOperationID m \<noteq> []) ''operationId'' (JStr (mOperationID m)),
      member_if (mClientID m \<noteq> []) ''clientId'' (JStr (mClientID m)),
      member_opt ''baseVersion'' json_int (mBaseVersion m),
      member_if (mPreviousVersion m \<noteq> 0) ''previousVersion'' (json_int (mPreviousVersion m)),
      member_if (mServerVersion m \<noteq> 0) ''serverVersion'' (json_int (mServerVersion m)),
      member_if (mSequence m \<noteq> 0) ''sequence'' (json_int (mSequence m)),
      member_if (mStreamID m \<noteq> []) ''streamId'' (JStr (mStreamID m)),
      member_if (mFromSequence m \<noteq> 0) ''fromSequence'' (json_int (mFromSequence m)),
      member_if (mLatestSequence m \<noteq> 0) ''latestSequence'' (json_int (mLatestSequence m)),
      member_if (mReplayed m \<noteq> 0) ''replayed'' (json_int (mReplayed m)),
      member_opt ''accepted'' JBool (mAccepted m),
      member_if (mStale m) ''stale'' (JBool True),
      member_if (mReason m \<noteq> []) ''reason'' (JStr (mReason m))]"

definition message_json :: "Message \<Rightarrow> json" where
  "message_json m = JObj (message_members m)"

definition marshal_message :: "Message \<Rightarrow> string" where
  "marshal_message m = render (message_json m)"

definition unmarshal_message :: "string \<Rightarrow> Message option" where
  "unmarshal_message s = (case parse_json s of
     Some JNull \<Rightarrow> Some zero_message
   | Some (JObj ms) \<Rightarrow>
      (let vals = values_of message_fields ms;
           text = (\<lambda>f. decode_field into_string (vals f) []);
           num = (\<lambda>f. decode_field into_int64 (vals f) 0) in
       do {
         ty \<leftarrow> text ''type''; content \<leftarrow> text ''content''; username \<leftarrow> text ''username'';
         users \<leftarrow> decode_field into_strings (vals ''users'') [];
         operation \<leftarrow> text ''operationId''; client \<leftarrow> text ''clientId'';
         base \<leftarrow> decode_field (into_pointer into_int64 0) (vals ''baseVersion'') None;
         previous \<leftarrow> num ''previousVersion''; server \<leftarrow> num ''serverVersion''; sequence \<leftarrow> num ''sequence'';
         stream \<leftarrow> text ''streamId''; from_seq \<leftarrow> num ''fromSequence''; latest \<leftarrow> num ''latestSequence'';
         replayed \<leftarrow> num ''replayed'';
         accepted \<leftarrow> decode_field (into_pointer into_bool False) (vals ''accepted'') None;
         stale \<leftarrow> decode_field into_bool (vals ''stale'') False; reason \<leftarrow> text ''reason'';
         Some \<lparr>mType = ty, mContent = content, mUsername = username, mUsers = users,
           mOperationID = operation, mClientID = client, mBaseVersion = base,
           mPreviousVersion = previous, mServerVersion = server, mSequence = sequence,
           mStreamID = stream, mFromSequence = from_seq, mLatestSequence = latest,
           mReplayed = replayed, mAccepted = accepted, mStale = stale, mReason = reason\<rparr>
       })
   | _ \<Rightarrow> None)"

definition valid_message :: "Message \<Rightarrow> bool" where
  "valid_message m \<longleftrightarrow> list_all valid_utf8 ([mType m, mContent m, mUsername m, mOperationID m,
       mClientID m, mStreamID m, mReason m] @ mUsers m) \<and>
     list_all int64_ok ([mPreviousVersion m, mServerVersion m, mSequence m, mFromSequence m,
       mLatestSequence m, mReplayed m] @ (case mBaseVersion m of None \<Rightarrow> [] | Some n \<Rightarrow> [n]))"

subsection \<open>Round trips\<close>

lemma good_json_int [simp]: "good_json (json_int n)"
  by (auto simp: json_int_def)

lemma nesting_json_int [simp]: "nesting (json_int n) = 0"
  by (simp add: json_int_def)

lemma valid_utf8_ascii: "list_all (\<lambda>c. ord c < 0x80) s \<Longrightarrow> valid_utf8 s"
  by (induction s) simp_all

lemma field_names_valid [simp]: "f \<in> set participant_fields \<union> set message_fields \<union> {''presenceRevision'', ''participants'', ''presence_update''} \<Longrightarrow> valid_utf8 f"
  by (rule valid_utf8_ascii) (auto simp: participant_fields_def message_fields_def)

lemma values_of_simps:
  "values_of names [] f = []"
  "values_of names ((k, v) # ms) f = (if names_field names f k then [v] else []) @ values_of names ms f"
  "values_of names (ms @ ms') f = values_of names ms f @ values_of names ms' f"
  "values_of names (member_if b k v) f = (if b \<and> names_field names f k then [v] else [])"
  "values_of names (member_opt k h x) f =
     (if names_field names f k then case x of None \<Rightarrow> [] | Some a \<Rightarrow> [h a] else [])"
  by (simp_all add: values_of_def member_if_def member_opt_def split: option.split)

lemma names_field_name: "k \<in> set names \<Longrightarrow> names_field names f k \<longleftrightarrow> k = f"
  by (simp add: names_field_def)

lemma unmarshal_participant_render:
  assumes "valid_participant p"
  shows "unmarshal_participant (marshal_participant p) = Some p"
proof -
  have "good_json (participant_json p)" "nesting (participant_json p) = 1"
    using assms field_names_valid [of "''connectionId''"] field_names_valid [of "''clientId''"]
      field_names_valid [of "''username''"] field_names_valid [of "''instanceId''"]
    by (simp_all add: participant_json_def valid_participant_def participant_fields_def del: valid_utf8.simps)
  then have "parse_json (marshal_participant p) = Some (participant_json p)"
    unfolding marshal_participant_def by (intro parse_render) (simp_all add: max_depth_def)
  then show ?thesis
    by (simp add: unmarshal_participant_def participant_json_def values_of_simps names_field_name
        participant_fields_def)
qed

lemma into_strings_map: "into_strings [] (JArr (map JStr us)) = Some us"
proof -
  have "those (map (\<lambda>(i, v). into_string (if i < length ([] :: string list) then [] ! i else []) v)
      (enumerate n (map JStr us))) = Some us" for n
    by (induction us arbitrary: n) simp_all
  then show ?thesis by simp
qed

lemma decode_empty_or: "decode_field d (if b then [v] else []) a = (if b then d a v else Some a)"
  by (simp split: option.split)

lemma into_int64_json_int: "int64_ok n \<Longrightarrow> into_int64 z (json_int n) = Some n"
  by (simp add: json_int_def)

lemma message_field_mem [simp]:
  "''type'' \<in> set message_fields" "''content'' \<in> set message_fields" "''username'' \<in> set message_fields"
  "''users'' \<in> set message_fields" "''operationId'' \<in> set message_fields" "''clientId'' \<in> set message_fields"
  "''baseVersion'' \<in> set message_fields" "''previousVersion'' \<in> set message_fields"
  "''serverVersion'' \<in> set message_fields" "''sequence'' \<in> set message_fields"
  "''streamId'' \<in> set message_fields" "''fromSequence'' \<in> set message_fields"
  "''latestSequence'' \<in> set message_fields" "''replayed'' \<in> set message_fields"
  "''accepted'' \<in> set message_fields" "''stale'' \<in> set message_fields" "''reason'' \<in> set message_fields"
  by (simp_all add: message_fields_def)

definition good_members :: "(string \<times> json) list \<Rightarrow> bool" where
  "good_members ms \<longleftrightarrow> (\<forall>(k, v)\<in>set ms. k \<in> set message_fields \<and> good_json v \<and> nesting v \<le> 1)"

lemma good_members_simps:
  "good_members []" "good_members (ms @ ms') \<longleftrightarrow> good_members ms \<and> good_members ms'"
  "good_members ((k, v) # ms) \<longleftrightarrow> k \<in> set message_fields \<and> good_json v \<and> nesting v \<le> 1 \<and> good_members ms"
  "(b \<Longrightarrow> k \<in> set message_fields \<and> good_json v \<and> nesting v \<le> 1) \<Longrightarrow> good_members (member_if b k v)"
  "(\<And>a. k \<in> set message_fields \<and> good_json (f a) \<and> nesting (f a) \<le> 1) \<Longrightarrow> good_members (member_opt k f x)"
  by (auto simp: good_members_def member_if_def member_opt_def split: option.split)

lemma good_members_object:
  assumes "good_members ms" shows "good_json (JObj ms)" "nesting (JObj ms) \<le> 2"
  using assms by (auto simp: good_members_def intro!: Max.boundedI)

lemma message_json_good:
  assumes "valid_message m"
  shows "good_json (message_json m)" "nesting (message_json m) \<le> 2"
proof -
  have "Max (insert 0 (set (map nesting (map JStr (mUsers m))))) = 0"
    by (intro Max_eqI) auto
  then have "nesting (JArr (map JStr (mUsers m))) = 1" by simp
  then have "good_members (message_members m)"
    using assms by (simp add: message_members_def valid_message_def list_all_iff good_members_simps
        del: nesting.simps(1))
  then show "good_json (message_json m)" "nesting (message_json m) \<le> 2"
    unfolding message_json_def by (rule good_members_object)+
qed

lemma unmarshal_message_render:
  assumes "valid_message m"
  shows "unmarshal_message (marshal_message m) = Some m"
proof -
  have "parse_json (marshal_message m) = Some (message_json m)"
    unfolding marshal_message_def using message_json_good [OF assms]
    by (intro parse_render) (simp_all add: max_depth_def)
  moreover define ms where "ms = message_members m"
  then have ms: "message_json m = JObj ms" by (simp add: message_json_def)
  have vals: "values_of message_fields ms ''type'' = [JStr (mType m)]"
    "values_of message_fields ms ''content'' = (if mContent m \<noteq> [] then [JStr (mContent m)] else [])"
    "values_of message_fields ms ''username'' = (if mUsername m \<noteq> [] then [JStr (mUsername m)] else [])"
    "values_of message_fields ms ''users'' = (if mUsers m \<noteq> [] then [JArr (map JStr (mUsers m))] else [])"
    "values_of message_fields ms ''operationId'' = (if mOperationID m \<noteq> [] then [JStr (mOperationID m)] else [])"
    "values_of message_fields ms ''clientId'' = (if mClientID m \<noteq> [] then [JStr (mClientID m)] else [])"
    "values_of message_fields ms ''baseVersion'' = (case mBaseVersion m of None \<Rightarrow> [] | Some n \<Rightarrow> [json_int n])"
    "values_of message_fields ms ''previousVersion'' = (if mPreviousVersion m \<noteq> 0 then [json_int (mPreviousVersion m)] else [])"
    "values_of message_fields ms ''serverVersion'' = (if mServerVersion m \<noteq> 0 then [json_int (mServerVersion m)] else [])"
    "values_of message_fields ms ''sequence'' = (if mSequence m \<noteq> 0 then [json_int (mSequence m)] else [])"
    "values_of message_fields ms ''streamId'' = (if mStreamID m \<noteq> [] then [JStr (mStreamID m)] else [])"
    "values_of message_fields ms ''fromSequence'' = (if mFromSequence m \<noteq> 0 then [json_int (mFromSequence m)] else [])"
    "values_of message_fields ms ''latestSequence'' = (if mLatestSequence m \<noteq> 0 then [json_int (mLatestSequence m)] else [])"
    "values_of message_fields ms ''replayed'' = (if mReplayed m \<noteq> 0 then [json_int (mReplayed m)] else [])"
    "values_of message_fields ms ''accepted'' = (case mAccepted m of None \<Rightarrow> [] | Some b \<Rightarrow> [JBool b])"
    "values_of message_fields ms ''stale'' = (if mStale m then [JBool True] else [])"
    "values_of message_fields ms ''reason'' = (if mReason m \<noteq> [] then [JStr (mReason m)] else [])"
    unfolding ms_def message_members_def
    by (simp_all add: values_of_simps names_field_name)
  have "into_pointer into_int64 0 None (json_int n) = Some (Some n)" if "int64_ok n" for n
    using that by (simp add: into_pointer_def into_int64_json_int json_int_def)
  then have base: "decode_field (into_pointer into_int64 0) (case mBaseVersion m of None \<Rightarrow> [] | Some n \<Rightarrow> [json_int n]) None
      = Some (mBaseVersion m)"
    using assms by (auto simp: valid_message_def split: option.split)
  have acc: "decode_field (into_pointer into_bool False) (case mAccepted m of None \<Rightarrow> [] | Some b \<Rightarrow> [JBool b]) None
      = Some (mAccepted m)"
    by (auto simp: into_pointer_def split: option.split)
  have num: "decode_field into_int64 (if n \<noteq> 0 then [json_int n] else []) 0 = Some n" if "int64_ok n" for n
    using that by (simp add: into_int64_json_int)
  have txtf: "decode_field into_string (if s \<noteq> [] then [JStr s] else []) [] = Some s" for s by simp
  have users: "decode_field into_strings (if mUsers m \<noteq> [] then [JArr (map JStr (mUsers m))] else []) [] = Some (mUsers m)"
    using into_strings_map [of "mUsers m"] by simp
  have stale: "decode_field into_bool (if mStale m then [JBool True] else []) False = Some (mStale m)" by simp
  have ok: "int64_ok (mPreviousVersion m)" "int64_ok (mServerVersion m)" "int64_ok (mSequence m)"
    "int64_ok (mFromSequence m)" "int64_ok (mLatestSequence m)" "int64_ok (mReplayed m)"
    using assms by (simp_all add: valid_message_def)
  ultimately show ?thesis
    unfolding unmarshal_message_def ms Let_def
    by (simp only: option.case json.case vals base acc num [OF ok(1)] num [OF ok(2)] num [OF ok(3)]
        num [OF ok(4)] num [OF ok(5)] num [OF ok(6)] txtf users stale Option.bind.bind_lunit) simp
qed

end
