(* ===== verification/Presence_Store.thy ===== *)
theory Presence_Store
  imports Redis_Store Wire_Codec Config
begin

section \<open>The presence store\<close>

text \<open>
  \<^verbatim>\<open>backend/redis_presence.go\<close>: the keys of a room's presence, and the operations of
  \<open>RedisStore\<close> on it. A duration is a number of nanoseconds.
\<close>

subsection \<open>Keys\<close>

definition roomPresenceKey :: "string \<Rightarrow> string" where
  "roomPresenceKey roomID = room_prefix @ roomID @ '':presence''"

definition roomPresenceRevisionKey :: "string \<Rightarrow> string" where
  "roomPresenceRevisionKey roomID = room_prefix @ roomID @ '':presence-revision''"

definition roomPresenceStreamKey :: "string \<Rightarrow> string" where
  "roomPresenceStreamKey roomID = room_prefix @ roomID @ '':presence-events''"

definition roomPresenceExpiryKey :: "string \<Rightarrow> string" where
  "roomPresenceExpiryKey roomID = room_prefix @ roomID @ '':presence-expiry''"

subsection \<open>Operations\<close>

text \<open>\<open>Duration.Milliseconds\<close>: division of Go integers cuts towards zero.\<close>

definition Milliseconds :: "int64 \<Rightarrow> int64" where
  "Milliseconds d = (if d < 0 then - ((- d) div 1000000) else d div 1000000)"

datatype presence_error =
    PresenceStore store_error
  | NoConnectionID
  | LeaseNotPositive
  | BadPresenceReply gval
  | BadPresenceRecord

type_synonym 'a presence_result = "(presence_error, 'a) outcome"

definition presence_args :: "string \<Rightarrow> string \<Rightarrow> string list \<Rightarrow> string list" where
  "presence_args script roomID args =
     [''EVAL'', script, ''4'', roomPresenceKey roomID, roomPresenceRevisionKey roomID,
      roomPresenceStreamKey roomID, roomPresenceExpiryKey roomID] @ args"

definition presenceEval :: "'db exec \<Rightarrow> 'db net \<Rightarrow> string \<Rightarrow> string \<Rightarrow> string list \<Rightarrow> 'db \<Rightarrow>
    (resp_error, gval) outcome \<times> 'db" where
  "presenceEval exec net script roomID args db = do_at exec net 0 (presence_args script roomID args) db"

text \<open>The result of a call, or its error.\<close>

definition presence_call :: "(resp_error, gval) outcome \<times> 'db \<Rightarrow> (gval \<Rightarrow> 'a presence_result) \<Rightarrow>
    'a presence_result \<times> 'db" where
  "presence_call r f = (case r of
     (Ok v, db) \<Rightarrow> (f v, db)
   | (Err e, db) \<Rightarrow> (Err (PresenceStore (CallError e)), db)
   | (Panic, db) \<Rightarrow> (Panic, db))"

definition JoinPresence :: "'db exec \<Rightarrow> 'db net \<Rightarrow> string \<Rightarrow> Participant \<Rightarrow> int64 list \<Rightarrow> 'db \<Rightarrow>
    unit presence_result \<times> 'db" where
  "JoinPresence exec net roomID p lease db =
     (if pConnectionID p = [] then (Err NoConnectionID, db)
      else
        (let duration = (case lease of [] \<Rightarrow> defaultPresenceLease | d # _ \<Rightarrow> d) in
         if Milliseconds duration \<le> 0 then (Err LeaseNotPositive, db)
         else presence_call
           (presenceEval exec net joinPresenceScript roomID
              [pConnectionID p, marshal_participant p, FormatInt (Milliseconds duration)] db)
           (\<lambda>v. Ok ())))"

definition LeavePresence :: "'db exec \<Rightarrow> 'db net \<Rightarrow> string \<Rightarrow> string \<Rightarrow> 'db \<Rightarrow> unit presence_result \<times> 'db" where
  "LeavePresence exec net roomID connectionID db =
     presence_call (presenceEval exec net leavePresenceScript roomID [connectionID] db) (\<lambda>v. Ok ())"

definition presence_int :: "gval \<Rightarrow> (int64 \<Rightarrow> 'a presence_result) \<Rightarrow> 'a presence_result" where
  "presence_int v f = (case redisInt64 v of Inr n \<Rightarrow> f n | Inl e \<Rightarrow> Err (BadPresenceReply v))"

definition RenewPresence :: "'db exec \<Rightarrow> 'db net \<Rightarrow> string \<Rightarrow> string \<Rightarrow> int64 \<Rightarrow> 'db \<Rightarrow>
    bool presence_result \<times> 'db" where
  "RenewPresence exec net roomID connectionID lease db =
     (if Milliseconds lease \<le> 0 then (Err LeaseNotPositive, db)
      else presence_call
        (presenceEval exec net renewPresenceScript roomID [connectionID, FormatInt (Milliseconds lease)] db)
        (\<lambda>raw. presence_int raw (\<lambda>renewed. Ok (renewed = 1))))"

definition PrunePresence :: "'db exec \<Rightarrow> 'db net \<Rightarrow> string \<Rightarrow> 'db \<Rightarrow> int64 presence_result \<times> 'db" where
  "PrunePresence exec net roomID db =
     presence_call (presenceEval exec net prunePresenceScript roomID [] db) (\<lambda>raw. presence_int raw Ok)"

text \<open>The records of a snapshot: the first that does not decode is an error.\<close>

fun decode_records :: "gval list \<Rightarrow> Participant list presence_result" where
  "decode_records [] = Ok []"
| "decode_records (v # vs) = (case unmarshal_participant (redisString v) of
     None \<Rightarrow> Err BadPresenceRecord
   | Some p \<Rightarrow> bind_outcome (decode_records vs) (\<lambda>ps. Ok (p # ps)))"

definition GetPresence :: "'db exec \<Rightarrow> 'db net \<Rightarrow> string \<Rightarrow> 'db \<Rightarrow> PresenceSnapshot presence_result \<times> 'db" where
  "GetPresence exec net roomID db =
     presence_call (presenceEval exec net presenceSnapshotScript roomID [] db)
       (\<lambda>raw. case raw of
          GArr [v0, v1] \<Rightarrow> presence_int v0 (\<lambda>revision.
            (case v1 of
               GArr records \<Rightarrow> bind_outcome (decode_records records) (\<lambda>ps.
                 Ok \<lparr>psRevision = revision, psParticipants = sortParticipants ps\<rparr>)
             | _ \<Rightarrow> Err (BadPresenceReply v1)))
        | _ \<Rightarrow> Err (BadPresenceReply raw))"

text \<open>\<open>ScanPresenceRooms\<close>: the rooms of one page of the key space, and the next cursor.\<close>

definition ScanPresenceRooms :: "'db exec \<Rightarrow> 'db net \<Rightarrow> string \<Rightarrow> 'db \<Rightarrow>
    (string list \<times> string) presence_result \<times> 'db" where
  "ScanPresenceRooms exec net cursor db =
     presence_call (do_at exec net 0
         [''SCAN'', cursor, ''MATCH'', ''livecollab:room:*:presence'', ''COUNT'', ''100''] db)
       (\<lambda>raw. case raw of
          GArr [cursor', v] \<Rightarrow>
            (case v of
               GArr keys \<Rightarrow>
                 Ok (map (\<lambda>k. TrimSuffix (TrimPrefix (redisString k) room_prefix) '':presence'') keys, redisString cursor')
             | _ \<Rightarrow> Err (BadPresenceReply v))
        | _ \<Rightarrow> Err (BadPresenceReply raw))"

text \<open>\<open>ReadPresenceChanges\<close>: the cursor after the batch; the result has the cursor beside the error.\<close>

fun last_entry :: "gval list \<Rightarrow> string \<Rightarrow> string \<times> gval option" where
  "last_entry [] cursor = (cursor, None)"
| "last_entry (v # vs) cursor = (case v of
     GArr [sid, flds] \<Rightarrow> last_entry vs (redisString sid)
   | _ \<Rightarrow> (cursor, Some v))"

definition ReadPresenceChanges :: "'db exec \<Rightarrow> 'db net \<Rightarrow> string \<Rightarrow> string \<Rightarrow> 'db \<Rightarrow>
    (string \<times> unit presence_result) \<times> 'db" where
  "ReadPresenceChanges exec net roomID cursor db =
     (case do_at exec net 0 [''XREAD'', ''COUNT'', ''100'', ''BLOCK'', ''250'', ''STREAMS'',
          roomPresenceStreamKey roomID, cursor] db of
        (Panic, db) \<Rightarrow> ((cursor, Panic), db)
      | (Err e, db) \<Rightarrow> ((cursor, Err (PresenceStore (CallError e))), db)
      | (Ok raw, db) \<Rightarrow>
         ((case raw of
             GNil \<Rightarrow> (cursor, Ok ())
           | GArr [GArr [name, GArr entries]] \<Rightarrow>
               (case last_entry entries cursor of
                  (c, None) \<Rightarrow> (c, Ok ())
                | (c, Some v) \<Rightarrow> (c, Err (BadPresenceReply v)))
           | _ \<Rightarrow> (cursor, Err (BadPresenceReply raw))), db))"

end
