(* ===== verification/Presence_Laws.thy ===== *)
theory Presence_Laws
  imports Redis_Occ
begin

section \<open>Hashes, sorted sets and the clock of Redis\<close>

text \<open>
  What the presence scripts rely on of Redis beyond \<open>redis_server\<close>: the documented behaviour
  of the hash and sorted-set commands and of \<open>TIME\<close>. A hash or a sorted set without elements
  is no key. The order in which \<open>HKEYS\<close> and \<open>HVALS\<close> list a hash is left open. Scores are
  whole numbers, printed as such. \<open>C\<close> is the clock of a state, in milliseconds.
\<close>

definition hash_of :: "redis_value option \<Rightarrow> string \<rightharpoonup> string" where
  "hash_of x = (case x of Some (RVHash h) \<Rightarrow> h | _ \<Rightarrow> Map.empty)"

definition is_hash :: "redis_value option \<Rightarrow> bool" where
  "is_hash x \<longleftrightarrow> (case x of None \<Rightarrow> True | Some (RVHash h) \<Rightarrow> h \<noteq> Map.empty \<and> finite (dom h) | _ \<Rightarrow> False)"

definition hash_value :: "(string \<rightharpoonup> string) \<Rightarrow> redis_value option" where
  "hash_value h = (if h = Map.empty then None else Some (RVHash h))"

definition zset_of :: "redis_value option \<Rightarrow> string \<rightharpoonup> int" where
  "zset_of x = (case x of Some (RVZset z) \<Rightarrow> z | _ \<Rightarrow> Map.empty)"

definition is_zset :: "redis_value option \<Rightarrow> bool" where
  "is_zset x \<longleftrightarrow> (case x of None \<Rightarrow> True | Some (RVZset z) \<Rightarrow> z \<noteq> Map.empty | _ \<Rightarrow> False)"

definition zset_value :: "(string \<rightharpoonup> int) \<Rightarrow> redis_value option" where
  "zset_value z = (if z = Map.empty then None else Some (RVZset z))"

text \<open>Scores and times that doubles hold exactly; the clock stays far below them.\<close>

abbreviation score_limit :: int where "score_limit \<equiv> 9007199254740992"
abbreviation clock_limit :: int where "clock_limit \<equiv> 4503599627370496"

definition time_laws :: "'db exec \<Rightarrow> ('db \<Rightarrow> view) \<Rightarrow> ('db \<Rightarrow> bool) \<Rightarrow> ('db \<Rightarrow> int) \<Rightarrow> bool" where
  "time_laws E V K C \<longleftrightarrow> (\<forall>db. K db \<longrightarrow>
     (\<exists>s u. 0 \<le> s \<and> 0 \<le> u \<and> u < 1000000 \<and> C db = s * 1000 + u div 1000 \<and> C db < clock_limit \<and>
        redis_step E V K [''TIME''] db (RArr [RBulk (FormatInt s), RBulk (FormatInt u)]) (V db)))"

definition hset_laws :: "'db exec \<Rightarrow> ('db \<Rightarrow> view) \<Rightarrow> ('db \<Rightarrow> bool) \<Rightarrow> bool" where
  "hset_laws E V K \<longleftrightarrow>
     (\<forall>db k f v. K db \<longrightarrow> is_hash (V db k) \<longrightarrow>
        redis_step E V K [''HSETNX'', k, f, v] db (RInt (if f \<in> dom (hash_of (V db k)) then 0 else 1))
          (if f \<in> dom (hash_of (V db k)) then V db else (V db)(k \<mapsto> RVHash ((hash_of (V db k))(f \<mapsto> v))))) \<and>
     (\<forall>db k f. K db \<longrightarrow> is_hash (V db k) \<longrightarrow>
        redis_step E V K [''HDEL'', k, f] db (RInt (if f \<in> dom (hash_of (V db k)) then 1 else 0))
          ((V db)(k := hash_value ((hash_of (V db k))(f := None)))))"

definition hread_laws :: "'db exec \<Rightarrow> ('db \<Rightarrow> view) \<Rightarrow> ('db \<Rightarrow> bool) \<Rightarrow> bool" where
  "hread_laws E V K \<longleftrightarrow>
     (\<forall>db k f. K db \<longrightarrow> is_hash (V db k) \<longrightarrow>
        redis_step E V K [''HEXISTS'', k, f] db (RInt (if f \<in> dom (hash_of (V db k)) then 1 else 0)) (V db)) \<and>
     (\<forall>db k. K db \<longrightarrow> is_hash (V db k) \<longrightarrow>
        (\<exists>fs. distinct fs \<and> set fs = dom (hash_of (V db k)) \<and>
           redis_step E V K [''HKEYS'', k] db (RArr (map RBulk fs)) (V db))) \<and>
     (\<forall>db k. K db \<longrightarrow> is_hash (V db k) \<longrightarrow>
        (\<exists>fs. distinct fs \<and> set fs = dom (hash_of (V db k)) \<and>
           redis_step E V K [''HVALS'', k] db (RArr (map (\<lambda>f. RBulk (the (hash_of (V db k) f))) fs)) (V db)))"

definition zset_laws :: "'db exec \<Rightarrow> ('db \<Rightarrow> view) \<Rightarrow> ('db \<Rightarrow> bool) \<Rightarrow> bool" where
  "zset_laws E V K \<longleftrightarrow>
     (\<forall>db k n f. K db \<longrightarrow> is_zset (V db k) \<longrightarrow> \<bar>n\<bar> < score_limit \<longrightarrow>
        redis_step E V K [''ZADD'', k, FormatInt n, f] db (RInt (if f \<in> dom (zset_of (V db k)) then 0 else 1))
          ((V db)(k \<mapsto> RVZset ((zset_of (V db k))(f \<mapsto> n))))) \<and>
     (\<forall>db k n f. K db \<longrightarrow> is_zset (V db k) \<longrightarrow> \<bar>n\<bar> < score_limit \<longrightarrow> f \<in> dom (zset_of (V db k)) \<longrightarrow>
        redis_step E V K [''ZADD'', k, ''XX'', FormatInt n, f] db (RInt 0)
          ((V db)(k \<mapsto> RVZset ((zset_of (V db k))(f \<mapsto> n))))) \<and>
     (\<forall>db k f. K db \<longrightarrow> is_zset (V db k) \<longrightarrow>
        redis_step E V K [''ZSCORE'', k, f] db
          (case zset_of (V db k) f of None \<Rightarrow> RNil | Some n \<Rightarrow> RBulk (FormatInt n)) (V db)) \<and>
     (\<forall>db k f. K db \<longrightarrow> is_zset (V db k) \<longrightarrow>
        redis_step E V K [''ZREM'', k, f] db (RInt (if f \<in> dom (zset_of (V db k)) then 1 else 0))
          ((V db)(k := zset_value ((zset_of (V db k))(f := None))))) \<and>
     (\<forall>db k n. K db \<longrightarrow> is_zset (V db k) \<longrightarrow> \<bar>n\<bar> < score_limit \<longrightarrow>
        (\<exists>r. redis_step E V K [''ZREMRANGEBYSCORE'', k, ''-inf'', FormatInt n] db (RInt r)
          ((V db)(k := zset_value ((zset_of (V db k)) |` {f. \<exists>m. zset_of (V db k) f = Some m \<and> n < m})))))"

definition presence_server :: "'db exec \<Rightarrow> ('db \<Rightarrow> view) \<Rightarrow> ('db \<Rightarrow> bool) \<Rightarrow> ('db \<Rightarrow> int) \<Rightarrow> bool" where
  "presence_server E V K C \<longleftrightarrow> redis_server E V K \<and> time_laws E V K C \<and> hset_laws E V K \<and>
     hread_laws E V K \<and> zset_laws E V K"

lemma presence_server_base: "presence_server E V K C \<Longrightarrow> redis_server E V K"
  by (simp add: presence_server_def)

subsection \<open>Values\<close>

lemma hash_value_simps [simp]:
  "hash_of (hash_value h) = h" "finite (dom h) \<Longrightarrow> is_hash (hash_value h)"
  "hash_of None = Map.empty" "is_hash None" "hash_of (Some (RVHash h)) = h"
  by (auto simp: hash_value_def hash_of_def is_hash_def)

lemma zset_value_simps [simp]:
  "zset_of (zset_value z) = z" "is_zset (zset_value z)" "zset_of None = Map.empty" "is_zset None"
  "zset_of (Some (RVZset z)) = z"
  by (auto simp: zset_value_def zset_of_def is_zset_def)

lemma hash_value_of: "is_hash x \<Longrightarrow> hash_value (hash_of x) = x"
  by (auto simp: is_hash_def hash_of_def hash_value_def split: option.splits redis_value.splits)

lemma zset_value_of: "is_zset x \<Longrightarrow> zset_value (zset_of x) = x"
  by (auto simp: is_zset_def zset_of_def zset_value_def split: option.splits redis_value.splits)

lemma upd_not_empty [simp]: "hash_value (h(f \<mapsto> v)) = Some (RVHash (h(f \<mapsto> v)))"
  "zset_value (z(f \<mapsto> n)) = Some (RVZset (z(f \<mapsto> n)))"
  by (simp_all add: hash_value_def zset_value_def)

subsection \<open>Steps of a script\<close>

text \<open>
  \<open>runs V K m db Q\<close>: the script \<open>m\<close> in the state \<open>db\<close> ends without an error, with a value
  and a view that satisfy \<open>Q\<close>. A bind runs its first part and then the second from any state
  that the first can leave. \<open>yields\<close> is the case where value and view are known.
\<close>

definition runs :: "('db \<Rightarrow> view) \<Rightarrow> ('db \<Rightarrow> bool) \<Rightarrow> ('db, 'a) script \<Rightarrow> 'db \<Rightarrow> ('a \<Rightarrow> view \<Rightarrow> bool) \<Rightarrow> bool" where
  "runs V K m db Q \<longleftrightarrow> (\<exists>x db'. m db = (Inr x, db') \<and> K db' \<and> Q x (V db'))"

abbreviation yields :: "('db \<Rightarrow> view) \<Rightarrow> ('db \<Rightarrow> bool) \<Rightarrow> ('db, 'a) script \<Rightarrow> 'db \<Rightarrow> 'a \<Rightarrow> view \<Rightarrow> bool" where
  "yields V K m db x v \<equiv> runs V K m db (\<lambda>y w. y = x \<and> w = v)"

lemma runs_bind:
  assumes "runs V K m db Q" "\<And>x d. K d \<Longrightarrow> Q x (V d) \<Longrightarrow> runs V K (f x) d R"
  shows "runs V K (lua_bind m f) db R"
  using assms by (force simp: runs_def lua_bind_def)

lemma yields_bind:
  assumes "yields V K m db x v" "\<And>d. K d \<Longrightarrow> V d = v \<Longrightarrow> runs V K (f x) d R"
  shows "runs V K (lua_bind m f) db R"
  by (rule runs_bind [OF assms(1)]) (use assms(2) in auto)

lemma runs_mono: "runs V K m db Q \<Longrightarrow> (\<And>x w. Q x w \<Longrightarrow> R x w) \<Longrightarrow> runs V K m db R"
  by (force simp: runs_def)

lemma runs_return [simp]: "runs V K (lua_return x) db Q \<longleftrightarrow> Q x (V db) \<and> K db"
  by (auto simp: runs_def lua_return_def)

lemma runs_lift [simp]: "runs V K (lua_lift (Inr x)) db Q \<longleftrightarrow> Q x (V db) \<and> K db"
  by (auto simp: runs_def lua_lift_def)

lemma runs_bind_lift [simp]: "runs V K (lua_bind (lua_lift (Inr x)) f) db Q = runs V K (f x) db Q"
  by (simp add: runs_def)

lemma runs_bind_return [simp]: "runs V K (lua_bind (lua_return x) f) db Q = runs V K (f x) db Q"
  by (simp add: runs_def lua_bind_def lua_return_def)

lemma yields_step:
  "redis_step E V K args db r v \<Longrightarrow> lua_of_reply r = Inr x \<Longrightarrow> yields V K (redis_call E args) db x v"
  by (cases "E args db") (simp add: runs_def redis_step_def redis_call_def)

lemma runs_script:
  assumes "runs V K m db Q"
  obtains x db' where "run_script m db = (reply_of_lua x, db')" "K db'" "Q x (V db')"
  using assms by (auto simp: runs_def run_script_def)

subsection \<open>The laws as steps\<close>

text \<open>The client of these laws are the scripts.\<close>

locale presence_redis =
  fixes E :: "'db exec" and V :: "'db \<Rightarrow> view" and K :: "'db \<Rightarrow> bool" and C :: "'db \<Rightarrow> int"
  assumes server: "presence_server E V K C"
begin

lemma base: "redis_server E V K"
  by (rule presence_server_base [OF server])

lemma step_get: "K db \<Longrightarrow> V db k = Some (RVString s) \<Longrightarrow> yields V K (redis_call E [''GET'', k]) db (LStr s) (V db)"
  by (rule yields_step [of _ _ _ _ _ "RBulk s"]) (use base in \<open>auto simp: redis_law_defs\<close>)

lemma step_get_none: "K db \<Longrightarrow> V db k = None \<Longrightarrow> yields V K (redis_call E [''GET'', k]) db LFalse (V db)"
  by (rule yields_step [of _ _ _ _ _ RNil]) (use base in \<open>auto simp: redis_law_defs\<close>)

lemma step_incr_new:
  "K db \<Longrightarrow> V db k = None \<Longrightarrow>
   yields V K (redis_call E [''INCR'', k]) db (LNum 1) ((V db)(k \<mapsto> RVString (FormatInt 1)))"
  by (rule yields_step [OF law_incr_new [OF base]]) (auto simp: to_double_small)

lemma step_incr:
  "K db \<Longrightarrow> V db k = Some (RVString (FormatInt n)) \<Longrightarrow> 0 \<le> n \<Longrightarrow> n < log_limit \<Longrightarrow>
   yields V K (redis_call E [''INCR'', k]) db (LNum (n + 1)) ((V db)(k \<mapsto> RVString (FormatInt (n + 1))))"
  by (rule yields_step [of _ _ _ _ _ "RInt (n + 1)"])
    (use base in \<open>auto simp: redis_law_defs int64_ok_def to_double_small\<close>)

lemma step_xadd:
  assumes "K db" "is_stream (V db k)" "length (stream_of (V db k)) < 100000000000000"
  obtains sid where "sid \<notin> insert ''0-0'' (fst ` set (stream_of (V db k)))"
    "yields V K (redis_call E [''XADD'', k, ''*'', a, b]) db (LStr sid)
     ((V db)(k \<mapsto> RVStream (stream_of (V db k) @ [(sid, [(a, b)])])))"
proof (rule call_xadd [OF base assms, of "[(a, b)]"])
  fix sid db'
  assume "sid \<notin> insert ''0-0'' (fst ` set (stream_of (V db k)))"
    "call_gives E V K ([''XADD'', k, ''*''] @ flatten_fields [(a, b)]) db (LStr sid)
       ((V db)(k \<mapsto> RVStream (stream_of (V db k) @ [(sid, [(a, b)])]))) db'"
  then show thesis by (intro that) (auto simp: runs_def call_gives_def flatten_fields_def)
qed simp

lemma step_now:
  assumes "K db"
  shows "yields V K (lua_now E) db (LNum (C db)) (V db)" "0 \<le> C db" "C db < clock_limit"
proof -
  from server assms obtain s u where t: "0 \<le> s" "0 \<le> u" "u < 1000000" "C db = s * 1000 + u div 1000"
    "C db < clock_limit" "redis_step E V K [''TIME''] db (RArr [RBulk (FormatInt s), RBulk (FormatInt u)]) (V db)"
    unfolding presence_server_def time_laws_def by blast
  then show c: "0 \<le> C db" "C db < clock_limit" by simp_all
  have d: "to_double s = s" "to_double u = u" "to_double (s * 1000) = s * 1000" "to_double (C db) = C db"
    using t(1-5) by (auto intro!: to_double_small)
  then have ms: "clock_ms (LTable [LStr (FormatInt s), LStr (FormatInt u)]) = Inr (LNum (C db))"
    using t(4) by (simp add: clock_ms_def lua_index_def)
  have "yields V K (redis_call E [''TIME'']) db (LTable [LStr (FormatInt s), LStr (FormatInt u)]) (V db)"
    by (rule yields_step [OF t(6)]) simp
  then show "yields V K (lua_now E) db (LNum (C db)) (V db)"
    unfolding lua_now_def by (rule yields_bind) (simp add: ms)
qed

lemma step_hsetnx:
  assumes "K db" "is_hash (V db k)"
  shows "yields V K (redis_call E [''HSETNX'', k, f, v]) db (LNum (if f \<in> dom (hash_of (V db k)) then 0 else 1))
    (if f \<in> dom (hash_of (V db k)) then V db else (V db)(k \<mapsto> RVHash ((hash_of (V db k))(f \<mapsto> v))))"
proof (rule yields_step)
  show "redis_step E V K [''HSETNX'', k, f, v] db (RInt (if f \<in> dom (hash_of (V db k)) then 0 else 1))
    (if f \<in> dom (hash_of (V db k)) then V db else (V db)(k \<mapsto> RVHash ((hash_of (V db k))(f \<mapsto> v))))"
    using server assms unfolding presence_server_def hset_laws_def by blast
qed (auto simp: to_double_small)

lemma step_hdel:
  assumes "K db" "is_hash (V db k)"
  shows "yields V K (redis_call E [''HDEL'', k, f]) db (LNum (if f \<in> dom (hash_of (V db k)) then 1 else 0))
    ((V db)(k := hash_value ((hash_of (V db k))(f := None))))"
proof (rule yields_step)
  show "redis_step E V K [''HDEL'', k, f] db (RInt (if f \<in> dom (hash_of (V db k)) then 1 else 0))
    ((V db)(k := hash_value ((hash_of (V db k))(f := None))))"
    using server assms unfolding presence_server_def hset_laws_def by blast
qed (auto simp: to_double_small)

lemma step_hexists:
  assumes "K db" "is_hash (V db k)"
  shows "yields V K (redis_call E [''HEXISTS'', k, f]) db (LNum (if f \<in> dom (hash_of (V db k)) then 1 else 0)) (V db)"
proof (rule yields_step)
  show "redis_step E V K [''HEXISTS'', k, f] db (RInt (if f \<in> dom (hash_of (V db k)) then 1 else 0)) (V db)"
    using server assms unfolding presence_server_def hread_laws_def by blast
qed (auto simp: to_double_small)

lemma lua_of_bulks: "lua_of_replies (map RBulk ss) = Inr (map LStr ss)"
  by (induction ss) simp_all

lemma step_hkeys:
  assumes "K db" "is_hash (V db k)"
  obtains fs where "distinct fs" "set fs = dom (hash_of (V db k))"
    "yields V K (redis_call E [''HKEYS'', k]) db (LTable (map LStr fs)) (V db)"
proof -
  obtain fs where "distinct fs" "set fs = dom (hash_of (V db k))"
    "redis_step E V K [''HKEYS'', k] db (RArr (map RBulk fs)) (V db)"
    using server assms unfolding presence_server_def hread_laws_def by blast
  then show thesis by (intro that) (auto intro!: yields_step simp: lua_of_bulks)
qed

lemma step_hvals:
  assumes "K db" "is_hash (V db k)"
  obtains fs where "distinct fs" "set fs = dom (hash_of (V db k))"
    "yields V K (redis_call E [''HVALS'', k]) db (LTable (map (\<lambda>f. LStr (the (hash_of (V db k) f))) fs)) (V db)"
proof -
  obtain fs where "distinct fs" "set fs = dom (hash_of (V db k))"
    "redis_step E V K [''HVALS'', k] db (RArr (map (\<lambda>f. RBulk (the (hash_of (V db k) f))) fs)) (V db)"
    using server assms unfolding presence_server_def hread_laws_def by blast
  then show thesis
    using lua_of_bulks [of "map (\<lambda>f. the (hash_of (V db k) f)) fs"]
    by (intro that) (auto intro!: yields_step simp: comp_def)
qed

lemma step_zscore:
  assumes "K db" "is_zset (V db k)"
  shows "yields V K (redis_call E [''ZSCORE'', k, f]) db
    (case zset_of (V db k) f of None \<Rightarrow> LFalse | Some n \<Rightarrow> LStr (FormatInt n)) (V db)"
proof (rule yields_step)
  show "redis_step E V K [''ZSCORE'', k, f] db
    (case zset_of (V db k) f of None \<Rightarrow> RNil | Some n \<Rightarrow> RBulk (FormatInt n)) (V db)"
    using server assms unfolding presence_server_def zset_laws_def by blast
qed (auto split: option.split)

lemma step_zadd:
  assumes "K db" "is_zset (V db k)" "\<bar>n\<bar> < score_limit"
  shows "runs V K (redis_call E [''ZADD'', k, FormatInt n, f]) db
    (\<lambda>_ w. w = (V db)(k \<mapsto> RVZset ((zset_of (V db k))(f \<mapsto> n))))"
proof -
  have "redis_step E V K [''ZADD'', k, FormatInt n, f] db (RInt (if f \<in> dom (zset_of (V db k)) then 0 else 1))
          ((V db)(k \<mapsto> RVZset ((zset_of (V db k))(f \<mapsto> n))))"
    using server assms unfolding presence_server_def zset_laws_def by blast
  from yields_step [OF this lua_of_reply.simps(2)] show ?thesis by (rule runs_mono) simp
qed

lemma step_zadd_xx:
  assumes "K db" "is_zset (V db k)" "\<bar>n\<bar> < score_limit" "f \<in> dom (zset_of (V db k))"
  shows "runs V K (redis_call E [''ZADD'', k, ''XX'', FormatInt n, f]) db
    (\<lambda>_ w. w = (V db)(k \<mapsto> RVZset ((zset_of (V db k))(f \<mapsto> n))))"
proof -
  have "redis_step E V K [''ZADD'', k, ''XX'', FormatInt n, f] db (RInt 0)
          ((V db)(k \<mapsto> RVZset ((zset_of (V db k))(f \<mapsto> n))))"
    using server assms unfolding presence_server_def zset_laws_def by blast
  from yields_step [OF this lua_of_reply.simps(2)] show ?thesis by (rule runs_mono) simp
qed

lemma step_zrem:
  assumes "K db" "is_zset (V db k)"
  shows "runs V K (redis_call E [''ZREM'', k, f]) db
    (\<lambda>_ w. w = (V db)(k := zset_value ((zset_of (V db k))(f := None))))"
proof -
  have "redis_step E V K [''ZREM'', k, f] db (RInt (if f \<in> dom (zset_of (V db k)) then 1 else 0))
          ((V db)(k := zset_value ((zset_of (V db k))(f := None))))"
    using server assms unfolding presence_server_def zset_laws_def by blast
  from yields_step [OF this lua_of_reply.simps(2)] show ?thesis by (rule runs_mono) simp
qed

lemma step_zremrange:
  assumes "K db" "is_zset (V db k)" "\<bar>n\<bar> < score_limit"
  shows "runs V K (redis_call E [''ZREMRANGEBYSCORE'', k, ''-inf'', FormatInt n]) db
    (\<lambda>_ w. w = (V db)(k := zset_value ((zset_of (V db k)) |` {f. \<exists>m. zset_of (V db k) f = Some m \<and> n < m})))"
proof -
  obtain r where "redis_step E V K [''ZREMRANGEBYSCORE'', k, ''-inf'', FormatInt n] db (RInt r)
    ((V db)(k := zset_value ((zset_of (V db k)) |` {f. \<exists>m. zset_of (V db k) f = Some m \<and> n < m})))"
    using server assms unfolding presence_server_def zset_laws_def by blast
  from yields_step [OF this lua_of_reply.simps(2)] show ?thesis by (rule runs_mono) simp
qed

end

end
