(* ===== verification/Presence_Spec.thy ===== *)
theory Presence_Spec
  imports Presence_Store Presence_Laws
begin

section \<open>What the presence of a room is\<close>

text \<open>
  The abstract state of a room's presence, its five steps, and \<open>redis_presence\<close>, which relates
  it to the four keys in Redis. Theory \<open>Presence_Refine\<close> shows that the scripts are these steps.
\<close>

subsection \<open>State and steps\<close>

record presence =
  prMembers :: "string \<rightharpoonup> string"
  prExpiry :: "string \<rightharpoonup> int"
  prRevision :: int

definition no_presence :: presence where
  "no_presence = \<lparr>prMembers = Map.empty, prExpiry = Map.empty, prRevision = 0\<rparr>"

text \<open>A member whose lease is over, or that never had one.\<close>

definition lapsed :: "int \<Rightarrow> presence \<Rightarrow> string \<Rightarrow> bool" where
  "lapsed now P f = (case prExpiry P f of None \<Rightarrow> True | Some n \<Rightarrow> n \<le> now)"

definition spec_join :: "int \<Rightarrow> string \<Rightarrow> string \<Rightarrow> int \<Rightarrow> presence \<Rightarrow> presence" where
  "spec_join now f rec lease P =
     (if f \<in> dom (prMembers P) then P
      else \<lparr>prMembers = (prMembers P)(f \<mapsto> rec), prExpiry = (prExpiry P)(f \<mapsto> now + lease),
            prRevision = prRevision P + 1\<rparr>)"

definition spec_leave :: "string \<Rightarrow> presence \<Rightarrow> presence" where
  "spec_leave f P = \<lparr>prMembers = (prMembers P)(f := None), prExpiry = (prExpiry P)(f := None),
     prRevision = prRevision P + (if f \<in> dom (prMembers P) then 1 else 0)\<rparr>"

definition renewable :: "int \<Rightarrow> string \<Rightarrow> presence \<Rightarrow> bool" where
  "renewable now f P \<longleftrightarrow> f \<in> dom (prMembers P) \<and> \<not> lapsed now P f"

definition spec_renew :: "int \<Rightarrow> string \<Rightarrow> int \<Rightarrow> presence \<Rightarrow> presence" where
  "spec_renew now f lease P =
     (if renewable now f P \<and> the (prExpiry P f) < now + lease
      then P\<lparr>prExpiry := (prExpiry P)(f \<mapsto> now + lease)\<rparr> else P)"

definition spec_prune :: "int \<Rightarrow> presence \<Rightarrow> presence" where
  "spec_prune now P =
     \<lparr>prMembers = prMembers P |` {f. \<not> lapsed now P f}, prExpiry = prExpiry P |` {f. \<not> lapsed now P f},
      prRevision = prRevision P + (if \<exists>f\<in>dom (prMembers P). lapsed now P f then 1 else 0)\<rparr>"

definition pruned_count :: "int \<Rightarrow> presence \<Rightarrow> nat" where
  "pruned_count now P = card {f\<in>dom (prMembers P). lapsed now P f}"

subsection \<open>The keys\<close>

definition presence_keys :: "string \<Rightarrow> string list" where
  "presence_keys rid = [roomPresenceKey rid, roomPresenceRevisionKey rid, roomPresenceStreamKey rid, roomPresenceExpiryKey rid]"

lemmas presence_key_defs = roomPresenceKey_def roomPresenceRevisionKey_def roomPresenceStreamKey_def
  roomPresenceExpiryKey_def

lemma presence_key_inject [simp]:
  "roomPresenceKey r = roomPresenceKey r' \<longleftrightarrow> r = r'"
  "roomPresenceRevisionKey r = roomPresenceRevisionKey r' \<longleftrightarrow> r = r'"
  "roomPresenceStreamKey r = roomPresenceStreamKey r' \<longleftrightarrow> r = r'"
  "roomPresenceExpiryKey r = roomPresenceExpiryKey r' \<longleftrightarrow> r = r'"
  by (simp_all add: presence_key_defs)

lemma suffix_last: "xs @ ys = xs' @ ys' \<Longrightarrow> ys \<noteq> [] \<Longrightarrow> ys' \<noteq> [] \<Longrightarrow> last ys = last ys'"
  by (metis last_appendR)

lemma presence_key_kinds [simp]:
  "roomPresenceKey r \<noteq> roomPresenceRevisionKey r'" "roomPresenceRevisionKey r \<noteq> roomPresenceKey r'"
  "roomPresenceKey r \<noteq> roomPresenceStreamKey r'" "roomPresenceStreamKey r \<noteq> roomPresenceKey r'"
  "roomPresenceKey r \<noteq> roomPresenceExpiryKey r'" "roomPresenceExpiryKey r \<noteq> roomPresenceKey r'"
  "roomPresenceRevisionKey r \<noteq> roomPresenceStreamKey r'" "roomPresenceStreamKey r \<noteq> roomPresenceRevisionKey r'"
  "roomPresenceRevisionKey r \<noteq> roomPresenceExpiryKey r'" "roomPresenceExpiryKey r \<noteq> roomPresenceRevisionKey r'"
  "roomPresenceStreamKey r \<noteq> roomPresenceExpiryKey r'" "roomPresenceExpiryKey r \<noteq> roomPresenceStreamKey r'"
  unfolding presence_key_defs by (auto dest!: suffix_last)

text \<open>No key of a room's presence is a key of a document, of the same room or of another.\<close>

lemma tail_differs:
  "n \<le> length ys \<Longrightarrow> n \<le> length zs \<Longrightarrow> drop (length ys - n) ys \<noteq> drop (length zs - n) zs \<Longrightarrow> xs @ ys \<noteq> xs' @ zs"
proof
  assume n: "n \<le> length ys" "n \<le> length zs" and d: "drop (length ys - n) ys \<noteq> drop (length zs - n) zs"
    and eq: "xs @ ys = xs' @ zs"
  have "drop (length (xs @ ys) - n) (xs @ ys) = drop (length ys - n) ys"
    "drop (length (xs' @ zs) - n) (xs' @ zs) = drop (length zs - n) zs" using n by simp_all
  with d eq show False by metis
qed

lemma document_keys_apart: "set (presence_keys r) \<inter> set (room_keys r') = {}"
proof -
  note d = tail_differs [of 7 _ _ "room_prefix @ r" "room_prefix @ r'"]
  show ?thesis
    unfolding presence_keys_def room_keys_def presence_key_defs room_key_defs append_assoc [symmetric]
    by (simp add: d flip: append_assoc)
qed

lemma presence_keys_disjoint: "r \<noteq> r' \<Longrightarrow> set (presence_keys r) \<inter> set (presence_keys r') = {}"
  by (auto simp: presence_keys_def)

definition notices :: "int \<Rightarrow> (string \<times> string) list list" where
  "notices n = map (\<lambda>i. [(''revision'', FormatInt (int i))]) [1..<Suc (nat n)]"

definition redis_presence :: "view \<Rightarrow> string \<Rightarrow> presence \<Rightarrow> bool" where
  "redis_presence v rid P \<longleftrightarrow> finite (dom (prMembers P)) \<and> 0 \<le> prRevision P \<and> prRevision P \<le> log_limit \<and>
     int (card (dom (prMembers P))) \<le> prRevision P \<and>
     (\<forall>f n. prExpiry P f = Some n \<longrightarrow> \<bar>n\<bar> < score_limit) \<and>
     v (roomPresenceKey rid) = hash_value (prMembers P) \<and>
     v (roomPresenceExpiryKey rid) = zset_value (prExpiry P) \<and>
     v (roomPresenceRevisionKey rid) =
       (if prRevision P = 0 then None else Some (RVString (FormatInt (prRevision P)))) \<and>
     is_stream (v (roomPresenceStreamKey rid)) \<and>
     map snd (stream_of (v (roomPresenceStreamKey rid))) = notices (prRevision P)"

lemma redis_presence_frame:
  "(\<And>k. k \<in> set (presence_keys rid) \<Longrightarrow> v' k = v k) \<Longrightarrow> redis_presence v' rid P = redis_presence v rid P"
  by (simp add: redis_presence_def presence_keys_def)

lemma no_presence_empty: "redis_presence (\<lambda>k. None) rid no_presence"
  by (simp add: redis_presence_def no_presence_def notices_def hash_value_def zset_value_def is_stream_def)

lemma length_notices: "length (notices n) = nat n"
  by (simp add: notices_def)

lemma notices_snoc: "0 \<le> n \<Longrightarrow> notices (n + 1) = notices n @ [[(''revision'', FormatInt (n + 1))]]"
  by (simp add: notices_def nat_add_distrib add.commute)

lemma redis_presence_unique:
  assumes "redis_presence v rid P" "redis_presence v rid Q" shows "P = Q"
proof -
  have "prMembers P = prMembers Q" "prExpiry P = prExpiry Q"
    using assms hash_value_simps(1) zset_value_simps(1) by (metis redis_presence_def)+
  moreover have "prRevision P = prRevision Q"
    using assms by (auto simp: redis_presence_def FormatInt_inject int64_ok_def split: if_splits)
  ultimately show ?thesis by simp
qed

end
