(* ===== verification/Presence_Refine.thy ===== *)
theory Presence_Refine
  imports Presence_Spec
begin

section \<open>The presence scripts implement the steps\<close>

text \<open>
  Each presence script, run on the four keys of a room in a state that \<open>redis_presence\<close>
  describes, is the abstract step of \<open>Presence_Spec\<close> at the time of Redis, and touches no other key.
\<close>

lemma lua_le_num [simp]: "lua_le (LNum a) (LNum b) = Inr (a \<le> b)" by simp

lemma tonumber_FormatInt: "\<bar>n\<bar> < score_limit \<Longrightarrow> tonumber (LStr (FormatInt n)) = LNum n"
  by (simp add: to_double_small)

lemma lua_expired_score:
  "(\<And>n. x = Some n \<Longrightarrow> \<bar>n\<bar> < score_limit) \<Longrightarrow>
   lua_expired (case x of None \<Rightarrow> LFalse | Some n \<Rightarrow> LStr (FormatInt n)) (LNum now) =
     Inr (case x of None \<Rightarrow> True | Some n \<Rightarrow> n \<le> now)"
  by (auto simp: lua_expired_def truthy_def tonumber_FormatInt simp del: tonumber.simps split: option.split)

text \<open>The view after a step: the new presence under the four keys, all other keys as before.\<close>

definition presence_after :: "string \<Rightarrow> view \<Rightarrow> presence \<Rightarrow> view \<Rightarrow> bool" where
  "presence_after rid v P v' \<longleftrightarrow> redis_presence v' rid P \<and> (\<forall>k. k \<notin> set (presence_keys rid) \<longrightarrow> v' k = v k)"

lemma presence_same: "redis_presence v rid P \<Longrightarrow> presence_after rid v P v"
  by (simp add: presence_after_def)

text \<open>A revision up by one, with its notice.\<close>

definition notified :: "string \<Rightarrow> view \<Rightarrow> int \<Rightarrow> view \<Rightarrow> bool" where
  "notified rid v n w \<longleftrightarrow> w (roomPresenceRevisionKey rid) = Some (RVString (FormatInt n)) \<and>
     is_stream (w (roomPresenceStreamKey rid)) \<and>
     map snd (stream_of (w (roomPresenceStreamKey rid))) = notices n \<and>
     (\<forall>k. k \<noteq> roomPresenceRevisionKey rid \<and> k \<noteq> roomPresenceStreamKey rid \<longrightarrow> w k = v k)"

lemma lift_known: "lua_bind (lua_lift (Inr x)) f = f x"
  by (simp add: fun_eq_iff)

context presence_redis
begin

lemma revision_read:
  assumes "K db" "redis_presence (V db) rid P"
  shows "yields V K (lua_revision E (roomPresenceRevisionKey rid)) db (LNum (prRevision P)) (V db)"
proof (cases "prRevision P = 0")
  case True
  then have "V db (roomPresenceRevisionKey rid) = None" using assms(2) by (simp add: redis_presence_def)
  from step_get_none [OF assms(1) this] show ?thesis
    unfolding lua_revision_def by (rule yields_bind) (simp add: True dec_value_def digit_val_def to_double_small)
next
  case False
  then have "V db (roomPresenceRevisionKey rid) = Some (RVString (FormatInt (prRevision P)))"
    using assms(2) by (simp add: redis_presence_def)
  from step_get [OF assms(1) this] show ?thesis
    unfolding lua_revision_def
    by (rule yields_bind) (use assms(2) in \<open>simp add: redis_presence_def to_double_small\<close>)
qed

lemma notify:
  assumes "K db" "redis_presence w rid P" "prRevision P < log_limit"
    and "V db (roomPresenceRevisionKey rid) = w (roomPresenceRevisionKey rid)"
    "V db (roomPresenceStreamKey rid) = w (roomPresenceStreamKey rid)"
  shows "runs V K (lua_notify E (roomPresenceRevisionKey rid) (roomPresenceStreamKey rid)) db
      (\<lambda>x v'. x = LNum (prRevision P + 1) \<and> notified rid (V db) (prRevision P + 1) v')"
proof -
  let ?k2 = "roomPresenceRevisionKey rid" and ?k3 = "roomPresenceStreamKey rid" and ?n = "prRevision P"
  let ?v1 = "(V db)(?k2 \<mapsto> RVString (FormatInt (?n + 1)))"
  note w = assms(2) [unfolded redis_presence_def]
  have 1: "yields V K (redis_call E [''INCR'', ?k2]) db (LNum (?n + 1)) ?v1"
    using step_incr_new [OF assms(1), of ?k2] step_incr [OF assms(1), of ?k2 ?n] w assms(3,4)
    by (cases "?n = 0") simp_all
  have es: "is_stream (V db ?k3)" "map snd (stream_of (V db ?k3)) = notices ?n" using w assms(5) by simp_all
  then have "length (stream_of (V db ?k3)) = nat ?n" by (metis length_map length_notices)
  then have len: "length (stream_of (V db ?k3)) < 100000000000000" using w by linarith
  have n: "tostring (LNum (?n + 1)) = FormatInt (?n + 1)" using w assms(3) by simp
  show ?thesis
    unfolding lua_notify_def
  proof (rule yields_bind [OF 1])
    fix d1 assume d1: "K d1" "V d1 = ?v1"
    then have s3: "V d1 ?k3 = V db ?k3" by simp
    obtain sid where 2: "yields V K (redis_call E [''XADD'', ?k3, ''*'', ''revision'', FormatInt (?n + 1)]) d1 (LStr sid)
       ((V d1)(?k3 \<mapsto> RVStream (stream_of (V d1 ?k3) @ [(sid, [(''revision'', FormatInt (?n + 1))])])))"
      using step_xadd [OF d1(1), of ?k3 "''revision''" "FormatInt (?n + 1)"] es(1) len unfolding s3 by blast
    show "runs V K (lua_bind (redis_call E [''XADD'', ?k3, ''*'', ''revision'', tostring (LNum (?n + 1))])
        (\<lambda>_. lua_return (LNum (?n + 1)))) d1 (\<lambda>x v'. x = LNum (?n + 1) \<and> notified rid (V db) (?n + 1) v')"
      unfolding n by (rule yields_bind [OF 2])
        (use d1(2) es(2) w in \<open>simp add: notified_def notices_snoc is_stream_def\<close>)
  qed
qed

subsection \<open>Join\<close>

lemma join_enters:
  assumes "K d" "redis_presence v rid P" "prRevision P < log_limit" "f \<notin> dom (prMembers P)" "\<bar>now + lease\<bar> < score_limit"
    and "V d = v(roomPresenceKey rid \<mapsto> RVHash ((prMembers P)(f \<mapsto> rec)))"
  shows "runs V K (lua_bind (redis_call E [''ZADD'', roomPresenceExpiryKey rid, FormatInt (now + lease), f])
      (\<lambda>_. lua_notify E (roomPresenceRevisionKey rid) (roomPresenceStreamKey rid))) d
    (\<lambda>x w. x = LNum (prRevision P + 1) \<and> presence_after rid v (spec_join now f rec lease P) w)"
proof -
  note w = assms(2) [unfolded redis_presence_def]
  have "runs V K (redis_call E [''ZADD'', roomPresenceExpiryKey rid, FormatInt (now + lease), f]) d
      (\<lambda>_ w. w = (V d)(roomPresenceExpiryKey rid \<mapsto> RVZset ((prExpiry P)(f \<mapsto> now + lease))))"
    using step_zadd [OF assms(1), of "roomPresenceExpiryKey rid" "now + lease" f] assms(5,6) w by simp
  then show ?thesis
  proof (rule runs_bind, goal_cases)
    case (1 x d3)
    show ?case
      by (rule runs_mono [OF notify [OF 1(1) assms(2,3)]])
        (use assms(3-6) 1(2) w in \<open>auto simp: presence_after_def redis_presence_def notified_def spec_join_def presence_keys_def card_insert_if\<close>)
  qed
qed

lemma join_script:
  assumes "K db" "redis_presence (V db) rid P" "prRevision P < log_limit" "0 < lease" "lease < clock_limit"
  obtains db' where "lua_join E (presence_keys rid) [f, rec, FormatInt lease] db =
      (RInt (prRevision (spec_join (C db) f rec lease P)), db')"
    "K db'" "presence_after rid (V db) (spec_join (C db) f rec lease P) (V db')"
proof -
  let ?k1 = "roomPresenceKey rid" and ?k2 = "roomPresenceRevisionKey rid"
    and ?k3 = "roomPresenceStreamKey rid" and ?k4 = "roomPresenceExpiryKey rid"
  let ?P = "spec_join (C db) f rec lease P"
  let ?Q = "\<lambda>x v. x = LNum (prRevision ?P) \<and> presence_after rid (V db) ?P v"
  note now = step_now [OF assms(1)]
  have h: "is_hash (V db ?k1)" "hash_of (V db ?k1) = prMembers P" using assms(2) by (simp_all add: redis_presence_def)
  have num: "tonumber (LStr (FormatInt lease)) = LNum lease"
    using assms(4,5) by (simp add: to_double_small)
  have sum: "lua_add (LNum (C db)) (LNum lease) = Inr (LNum (C db + lease))"
    "lua_arg (LNum (C db + lease)) = Inr (FormatInt (C db + lease))" "\<bar>C db + lease\<bar> < score_limit"
    using now(2,3) assms(4,5) by (simp_all add: to_double_small)
  have "runs V K (join_body E ?k1 ?k2 ?k3 ?k4 f rec (FormatInt lease)) db ?Q"
    unfolding join_body_def
  proof (rule yields_bind [OF now(1)], goal_cases)
    case (1 d1)
    have "is_hash (V d1 ?k1)" using 1(2) h(1) by simp
    from step_hsetnx [OF 1(1) this] show ?case
    proof (rule yields_bind, goal_cases)
      case (1 d2)
      note d2 = 1 [unfolded \<open>V d1 = V db\<close> h(2)]
      show ?case
      proof (cases "f \<in> dom (prMembers P)")
        case True
        then show ?thesis
          using runs_mono [OF revision_read [OF d2(1), of rid P]] d2(2) h(2) \<open>V d1 = V db\<close> assms(2) presence_same [OF assms(2)]
          by (simp add: spec_join_def)
      next
        case False
        then show ?thesis
          using join_enters [OF d2(1) assms(2,3) False sum(3), of rec] d2(2) h(2) \<open>V d1 = V db\<close> num sum(1,2)
          by (simp add: spec_join_def)
      qed
    qed
  qed
  then show thesis
    by (rule runs_script) (rule that, simp_all add: lua_join_def presence_keys_def)
qed

subsection \<open>Leave\<close>

lemma leave_ends:
  assumes "K d" "redis_presence v rid P" "prRevision P < log_limit"
    and "V d = v(roomPresenceKey rid := hash_value ((prMembers P)(f := None)),
      roomPresenceExpiryKey rid := zset_value ((prExpiry P)(f := None)))"
  shows "runs V K (if f \<notin> dom (prMembers P) then lua_revision E (roomPresenceRevisionKey rid)
      else lua_notify E (roomPresenceRevisionKey rid) (roomPresenceStreamKey rid)) d
    (\<lambda>x w. x = LNum (prRevision (spec_leave f P)) \<and> presence_after rid v (spec_leave f P) w)"
proof -
  note w = assms(2) [unfolded redis_presence_def]
  show ?thesis
  proof (cases "f \<in> dom (prMembers P)")
    case True
    have "runs V K (lua_notify E (roomPresenceRevisionKey rid) (roomPresenceStreamKey rid)) d
        (\<lambda>x w. x = LNum (prRevision (spec_leave f P)) \<and> presence_after rid v (spec_leave f P) w)"
      by (rule runs_mono [OF notify [OF assms(1-3)]])
        (use True assms(3,4) w in \<open>auto simp: presence_after_def redis_presence_def notified_def spec_leave_def presence_keys_def\<close>)
    then show ?thesis using True by simp
  next
    case False
    then have "(prMembers P)(f := None) = prMembers P" by (auto simp: fun_eq_iff)
    then have after: "presence_after rid v (spec_leave f P) (V d)"
      using assms(4) w False by (auto simp: presence_after_def redis_presence_def spec_leave_def presence_keys_def)
    then have "redis_presence (V d) rid (spec_leave f P)" by (simp add: presence_after_def)
    from runs_mono [OF revision_read [OF assms(1) this]] show ?thesis using False after by simp
  qed
qed

lemma leave_script:
  assumes "K db" "redis_presence (V db) rid P" "prRevision P < log_limit"
  obtains db' where "lua_leave E (presence_keys rid) [f] db = (RInt (prRevision (spec_leave f P)), db')"
    "K db'" "presence_after rid (V db) (spec_leave f P) (V db')"
proof -
  let ?k1 = "roomPresenceKey rid" and ?k2 = "roomPresenceRevisionKey rid"
    and ?k3 = "roomPresenceStreamKey rid" and ?k4 = "roomPresenceExpiryKey rid"
  let ?Q = "\<lambda>x v. x = LNum (prRevision (spec_leave f P)) \<and> presence_after rid (V db) (spec_leave f P) v"
  note w = assms(2) [unfolded redis_presence_def]
  let ?v1 = "(V db)(?k1 := hash_value ((prMembers P)(f := None)))"
  have "yields V K (redis_call E [''HDEL'', ?k1, f]) db (LNum (if f \<in> dom (prMembers P) then 1 else 0)) ?v1"
    using step_hdel [OF assms(1), of ?k1 f] w by simp
  then have "runs V K (leave_body E ?k1 ?k2 ?k3 ?k4 f) db ?Q"
    unfolding leave_body_def
  proof (rule yields_bind, goal_cases)
    case (1 d1)
    have "runs V K (redis_call E [''ZREM'', ?k4, f]) d1 (\<lambda>_ v. v = ?v1(?k4 := zset_value ((prExpiry P)(f := None))))"
      using step_zrem [OF 1(1), of ?k4 f] 1(2) w by simp
    then show ?case by (rule runs_bind) (use leave_ends [OF _ assms(2,3), of _ f] in \<open>cases "f \<in> dom (prMembers P)"; simp\<close>)
  qed
  then show thesis
    by (rule runs_script) (rule that, simp_all add: lua_leave_def presence_keys_def)
qed

subsection \<open>Renew\<close>

lemma renew_extends:
  assumes "K d" "redis_presence (V d) rid P" "renewable (C db) f P" "prExpiry P f = Some n" "n < C db + lease"
    and "\<bar>C db + lease\<bar> < score_limit"
  shows "runs V K (lua_bind (redis_call E [''ZADD'', roomPresenceExpiryKey rid, ''XX'', FormatInt (C db + lease), f])
      (\<lambda>_. lua_return (LNum 1))) d (\<lambda>x v. x = LNum 1 \<and> presence_after rid (V d) (spec_renew (C db) f lease P) v)"
proof -
  note w = assms(2) [unfolded redis_presence_def]
  have "runs V K (redis_call E [''ZADD'', roomPresenceExpiryKey rid, ''XX'', FormatInt (C db + lease), f]) d
      (\<lambda>_ v. v = (V d)(roomPresenceExpiryKey rid \<mapsto> RVZset ((prExpiry P)(f \<mapsto> C db + lease))))"
    using step_zadd_xx [OF assms(1), of "roomPresenceExpiryKey rid" "C db + lease" f] w assms(4,6) by auto
  then show ?thesis
    by (rule runs_bind)
      (use assms(3-6) w in \<open>auto simp: presence_after_def redis_presence_def spec_renew_def presence_keys_def\<close>)
qed

lemma renew_script:
  assumes "K db" "redis_presence (V db) rid P" "0 < lease" "lease < clock_limit"
  obtains db' where "lua_renew E (presence_keys rid) [f, FormatInt lease] db =
      (RInt (if renewable (C db) f P then 1 else 0), db')"
    "K db'" "presence_after rid (V db) (spec_renew (C db) f lease P) (V db')"
proof -
  let ?k1 = "roomPresenceKey rid" and ?k2 = "roomPresenceRevisionKey rid"
    and ?k3 = "roomPresenceStreamKey rid" and ?k4 = "roomPresenceExpiryKey rid"
  let ?P = "spec_renew (C db) f lease P" and ?next = "C db + lease"
  let ?r = "if renewable (C db) f P then 1 else 0"
  let ?Q = "\<lambda>x v. x = LNum ?r \<and> presence_after rid (V db) ?P v"
  let ?e = "case prExpiry P f of None \<Rightarrow> LFalse | Some n \<Rightarrow> LStr (FormatInt n)"
  note w = assms(2) [unfolded redis_presence_def]
  note now = step_now [OF assms(1)]
  have num: "tonumber (LStr (FormatInt lease)) = LNum lease"
    using assms(3,4) by (simp add: to_double_small)
  have sum: "lua_add (LNum (C db)) (LNum lease) = Inr (LNum ?next)" "lua_arg (LNum ?next) = Inr (FormatInt ?next)"
    "\<bar>?next\<bar> < score_limit"
    using now(2,3) assms(3,4) by (simp_all add: to_double_small)
  have lapsed: "lua_expired ?e (LNum (C db)) = Inr (lapsed (C db) P f)"
    using w by (subst lua_expired_score) (auto simp: lapsed_def)
  have "runs V K (renew_body E ?k1 ?k2 ?k3 ?k4 f (FormatInt lease)) db ?Q"
    unfolding renew_body_def
  proof (rule yields_bind [OF now(1)], rule yields_bind [where x = ?e and v = "V db"], goal_cases)
    case (1 d1)
    then show ?case using step_zscore [OF 1(1), of ?k4 f] w by simp
  next
    case (2 d1 d2)
    have "yields V K (redis_call E [''HEXISTS'', ?k1, f]) d2 (LNum (if f \<in> dom (prMembers P) then 1 else 0)) (V db)"
      using step_hexists [OF 2(3), of ?k1 f] 2(4) w by simp
    then show ?case
    proof (rule yields_bind, goal_cases)
      case (1 d3)
      show ?case
      proof (cases "renewable (C db) f P")
        case False
        then show ?thesis
          using 1 presence_same [OF assms(2)] unfolding lapsed by (auto simp: renewable_def spec_renew_def)
      next
        case True
        then obtain n where n: "prExpiry P f = Some n" "tonumber (LStr (FormatInt n)) = LNum n"
          using w tonumber_FormatInt by (auto simp: renewable_def lapsed_def split: option.splits)
        have "?P = P" if "\<not> n < ?next" using that n(1) by (simp add: spec_renew_def)
        then show ?thesis
          using True 1 presence_same [OF assms(2)] n num sum renew_extends [OF 1(1) _ True n(1) _ sum(3), of rid] assms(2)
          unfolding lapsed by (auto simp: renewable_def simp del: tonumber.simps lua_add.simps lua_arg.simps)
      qed
    qed
  qed
  then show thesis
    by (rule runs_script) (rule that, simp_all add: lua_renew_def presence_keys_def)
qed

subsection \<open>Prune and snapshot\<close>

definition over :: "int \<Rightarrow> (string \<rightharpoonup> int) \<Rightarrow> string \<Rightarrow> bool" where
  "over now Z f = (case Z f of None \<Rightarrow> True | Some n \<Rightarrow> n \<le> now)"

definition overs :: "int \<Rightarrow> (string \<rightharpoonup> int) \<Rightarrow> string list \<Rightarrow> string set" where
  "overs now Z fs = {f\<in>set fs. over now Z f}"

lemma overs_Cons:
  "f \<notin> set fs \<Longrightarrow> overs now Z (f # fs) = (if over now Z f then insert f (overs now (Z(f := None)) fs) else overs now Z fs)"
  "f \<notin> set fs \<Longrightarrow> f \<notin> overs now Z' fs"
  "finite (overs now Z fs)" "card (overs now Z fs) \<le> length fs"
  by (auto simp: overs_def over_def intro: order_trans [OF card_mono card_length])

lemma restrict_drop: "(M(f := None)) |` (- A) = M |` (- insert f A)"
  by (auto simp: restrict_map_def fun_eq_iff)

lemma restrict_none [simp]: "M |` (- {}) = M"
  by (simp add: restrict_map_def)

lemma upd_twice: "k1 \<noteq> k4 \<Longrightarrow> v(k1 := a, k4 := b, k1 := c, k4 := d) = v(k1 := c, k4 := d)"
  by (simp add: fun_upd_twist)

text \<open>One member of the loop: its lease is on, or it is over and the member goes.\<close>

lemma prune_stays:
  assumes "yields V K (redis_call E [''ZSCORE'', k4, f]) db e (V db)" "lua_expired e now = Inr False"
    and "\<And>d. K d \<Longrightarrow> V d = V db \<Longrightarrow> runs V K (lua_prune_loop E k1 k4 now vs r) d Q"
  shows "runs V K (lua_prune_loop E k1 k4 now (LStr f # vs) r) db Q"
proof -
  have "runs V K (lua_bind (redis_call E [''ZSCORE'', k4, f]) (\<lambda>expiry. lua_bind (lua_lift (lua_expired expiry now)) (\<lambda>gone.
      if \<not> gone then lua_prune_loop E k1 k4 now vs r else rest expiry gone))) db Q" for rest
    by (rule yields_bind [OF assms(1)]) (simp add: assms(2,3))
  then show ?thesis by simp
qed

lemma prune_drops:
  assumes "yields V K (redis_call E [''ZSCORE'', k4, f]) db e (V db)" "lua_expired e now = Inr True"
    and "\<And>d. K d \<Longrightarrow> V d = V db \<Longrightarrow> yields V K (redis_call E [''HDEL'', k1, f]) d n va" "lua_add r n = Inr r'"
    and "\<And>d. K d \<Longrightarrow> V d = va \<Longrightarrow> runs V K (redis_call E [''ZREM'', k4, f]) d (\<lambda>_ v. v = vb)"
    and "\<And>d. K d \<Longrightarrow> V d = vb \<Longrightarrow> runs V K (lua_prune_loop E k1 k4 now vs r') d Q"
  shows "runs V K (lua_prune_loop E k1 k4 now (LStr f # vs) r) db Q"
proof -
  have rem: "runs V K (lua_bind (redis_call E [''ZREM'', k4, f]) (\<lambda>_. lua_prune_loop E k1 k4 now vs r')) d Q"
    if "K d" "V d = va" for d by (rule runs_bind [OF assms(5) [OF that]]) (rule assms(6))
  have del: "runs V K (lua_bind (redis_call E [''HDEL'', k1, f]) (\<lambda>n. lua_bind (lua_lift (lua_add r n)) (\<lambda>r.
      lua_bind (redis_call E [''ZREM'', k4, f]) (\<lambda>_. lua_prune_loop E k1 k4 now vs r)))) d Q"
    if "K d" "V d = V db" for d by (rule yields_bind [OF assms(3) [OF that]]) (simp add: assms(4) rem)
  have "runs V K (lua_bind (redis_call E [''ZSCORE'', k4, f]) (\<lambda>expiry. lua_bind (lua_lift (lua_expired expiry now)) (\<lambda>gone.
      if \<not> gone then stays else lua_bind (redis_call E [''HDEL'', k1, f]) (\<lambda>n. lua_bind (lua_lift (lua_add r n)) (\<lambda>r.
      lua_bind (redis_call E [''ZREM'', k4, f]) (\<lambda>_. lua_prune_loop E k1 k4 now vs r)))))) db Q" for stays
    by (rule yields_bind [OF assms(1)]) (simp add: assms(2) del)
  then show ?thesis by simp
qed

lemma prune_loop:
  assumes "K db" "finite (dom M)" "V db k1 = hash_value M" "V db k4 = zset_value Z" "k1 \<noteq> k4"
    and "\<forall>f n. Z f = Some n \<longrightarrow> \<bar>n\<bar> < score_limit" "distinct fs" "set fs \<subseteq> dom M"
    and "int r + int (length fs) < score_limit"
  shows "runs V K (lua_prune_loop E k1 k4 (LNum now) (map LStr fs) (LNum (int r))) db
    (\<lambda>x v. x = LNum (int (r + card (overs now Z fs))) \<and>
      v = (V db)(k1 := hash_value (M |` (- overs now Z fs)), k4 := zset_value (Z |` (- overs now Z fs))))"
  using assms
proof (induction fs arbitrary: db M Z r)
  case Nil
  have "overs now Z [] = {}" by (simp add: overs_def)
  then show ?case using Nil by (simp add: fun_upd_idem)
next
  case (Cons f fs)
  let ?G = "overs now Z (f # fs)"
  let ?e = "case Z f of None \<Rightarrow> LFalse | Some n \<Rightarrow> LStr (FormatInt n)"
  have f: "f \<notin> set fs" "f \<in> dom M" using Cons.prems by auto
  have score: "yields V K (redis_call E [''ZSCORE'', k4, f]) db ?e (V db)"
    using step_zscore [OF Cons.prems(1), of k4 f] Cons.prems(4) by simp
  have e: "lua_expired ?e (LNum now) = Inr (over now Z f)"
    using Cons.prems(6) by (subst lua_expired_score) (auto simp: over_def)
  show ?case
  proof (cases "over now Z f")
    case False
    then have G: "?G = overs now Z fs" using overs_Cons(1) [OF f(1)] by simp
    have rest: "runs V K (lua_prune_loop E k1 k4 (LNum now) (map LStr fs) (LNum (int r))) d
      (\<lambda>x v. x = LNum (int (r + card ?G)) \<and> v = (V db)(k1 := hash_value (M |` (- ?G)), k4 := zset_value (Z |` (- ?G))))"
      if d: "K d" "V d = V db" for d unfolding G d(2) [symmetric] by (rule Cons.IH) (use Cons.prems d in auto)
    show ?thesis unfolding list.map by (rule prune_stays [OF score _ rest]) (use e False in simp_all)
  next
    case True
    define M1 Z1 where "M1 = M(f := None)" and "Z1 = Z(f := None)"
    have G: "?G = insert f (overs now Z1 fs)" using overs_Cons(1) [OF f(1)] True by (simp add: Z1_def)
    then have cardG: "card ?G = Suc (card (overs now Z1 fs))" using overs_Cons(2) [OF f(1)] overs_Cons(3) by simp
    have add: "lua_add (LNum (int r)) (LNum 1) = Inr (LNum (int (Suc r)))"
      using Cons.prems(9) by (simp add: to_double_small)
    show ?thesis unfolding list.map
    proof (rule prune_drops [OF score, where n = "LNum 1" and r' = "LNum (int (Suc r))" and va = "(V db)(k1 := hash_value M1)"
          and vb = "(V db)(k1 := hash_value M1, k4 := zset_value Z1)"], goal_cases)
      case (2 d)
      then show ?case using step_hdel [OF 2(1), of k1 f] Cons.prems(2,3) f(2) by (auto simp: M1_def)
    next
      case (4 d)
      then show ?case using step_zrem [OF 4(1), of k4 f] Cons.prems(4,5) by (simp add: M1_def Z1_def)
    next
      case (5 d)
      have facts: "finite (dom M1)" "V d k1 = hash_value M1" "V d k4 = zset_value Z1"
        "\<forall>g n. Z1 g = Some n \<longrightarrow> \<bar>n\<bar> < score_limit" "set fs \<subseteq> dom M1"
        using Cons.prems 5(2) f by (auto simp: M1_def Z1_def)
      have "runs V K (lua_prune_loop E k1 k4 (LNum now) (map LStr fs) (LNum (int (Suc r)))) d
        (\<lambda>x v. x = LNum (int (Suc r + card (overs now Z1 fs))) \<and>
           v = (V d)(k1 := hash_value (M1 |` (- overs now Z1 fs)), k4 := zset_value (Z1 |` (- overs now Z1 fs))))"
        by (rule Cons.IH [OF 5(1) facts(1-3) Cons.prems(5) facts(4) _ facts(5)]) (use Cons.prems in simp_all)
      moreover have "(V d)(k1 := hash_value (M1 |` (- overs now Z1 fs)), k4 := zset_value (Z1 |` (- overs now Z1 fs))) =
          (V db)(k1 := hash_value (M |` (- ?G)), k4 := zset_value (Z |` (- ?G)))"
        unfolding 5(2) G M1_def Z1_def restrict_drop upd_twice [OF Cons.prems(5)] ..
      ultimately show ?case by (elim runs_mono) (simp only: cardG add_Suc add_Suc_right)
    qed (use e True add in auto)
  qed
qed

text \<open>The end of the script: leases that are over lose their score, and a removal is announced.\<close>

lemma prune_scores:
  assumes "K d" "V d (roomPresenceExpiryKey rid) = zset_value (prExpiry P |` (- {f\<in>dom (prMembers P). lapsed now P f}))" "\<bar>now\<bar> < score_limit"
  shows "runs V K (redis_call E [''ZREMRANGEBYSCORE'', roomPresenceExpiryKey rid, ''-inf'', FormatInt now]) d
    (\<lambda>_ v. v = (V d)(roomPresenceExpiryKey rid := zset_value (prExpiry (spec_prune now P))))"
proof -
  let ?Z = "prExpiry P |` (- {f\<in>dom (prMembers P). lapsed now P f})"
  have Z: "?Z |` {f. \<exists>m. ?Z f = Some m \<and> now < m} = prExpiry (spec_prune now P)"
    by (auto simp: spec_prune_def restrict_map_def fun_eq_iff dom_def lapsed_def split: option.splits)
  have z: "zset_of (V d (roomPresenceExpiryKey rid)) = ?Z" "is_zset (V d (roomPresenceExpiryKey rid))" using assms(2) by simp_all
  from step_zremrange [OF assms(1) z(2) assms(3), unfolded z(1) Z] show ?thesis .
qed

lemma spec_prune_small:
  assumes "redis_presence v rid P"
  shows "finite (dom (prMembers (spec_prune now P)))" "int (card (dom (prMembers (spec_prune now P)))) \<le> prRevision P"
    "\<forall>f n. prExpiry (spec_prune now P) f = Some n \<longrightarrow> \<bar>n\<bar> < score_limit"
    "prRevision (spec_prune now P) = prRevision P + (if pruned_count now P = 0 then 0 else 1)"
proof -
  note w = assms [unfolded redis_presence_def]
  have dom: "dom (prMembers (spec_prune now P)) \<subseteq> dom (prMembers P)" by (auto simp: spec_prune_def)
  show "finite (dom (prMembers (spec_prune now P)))" "int (card (dom (prMembers (spec_prune now P)))) \<le> prRevision P"
    using w finite_subset [OF dom] card_mono [OF _ dom] by force+
  show "\<forall>f n. prExpiry (spec_prune now P) f = Some n \<longrightarrow> \<bar>n\<bar> < score_limit"
    using w by (auto simp: spec_prune_def restrict_map_def split: if_splits)
  have "finite {f\<in>dom (prMembers P). lapsed now P f}" using w by simp
  then show "prRevision (spec_prune now P) = prRevision P + (if pruned_count now P = 0 then 0 else 1)"
    by (auto simp: pruned_count_def spec_prune_def card_gt_0_iff)
qed

lemma prune_announces:
  assumes "K d" "V d = v(roomPresenceKey rid := hash_value (prMembers (spec_prune now P)),
      roomPresenceExpiryKey rid := zset_value (prExpiry (spec_prune now P)))"
    and "redis_presence v rid P" "prRevision P < log_limit"
  shows "runs V K (if pruned_count now P = 0 then lua_return x
      else lua_bind (lua_notify E (roomPresenceRevisionKey rid) (roomPresenceStreamKey rid)) (\<lambda>_. lua_return x)) d
    (\<lambda>y w. y = x \<and> presence_after rid v (spec_prune now P) w)"
proof (cases "pruned_count now P = 0")
  case True
  then show ?thesis
    using assms spec_prune_small [OF assms(3), of now]
    by (simp add: presence_after_def redis_presence_def presence_keys_def)
next
  case False
  have "runs V K (lua_notify E (roomPresenceRevisionKey rid) (roomPresenceStreamKey rid)) d
      (\<lambda>x w. x = LNum (prRevision P + 1) \<and> notified rid (V d) (prRevision P + 1) w)"
    by (rule notify [OF assms(1,3,4)]) (use assms(2) in simp_all)
  then have "runs V K (lua_bind (lua_notify E (roomPresenceRevisionKey rid) (roomPresenceStreamKey rid)) (\<lambda>_. lua_return x)) d
      (\<lambda>y w. y = x \<and> presence_after rid v (spec_prune now P) w)"
    by (rule runs_bind)
      (use assms(2-4) False spec_prune_small [OF assms(3), of now] in
        \<open>simp add: presence_after_def redis_presence_def notified_def presence_keys_def\<close>)
  then show ?thesis using False by simp
qed

lemma prune_body:
  assumes "K db" "redis_presence (V db) rid P" "prRevision P < log_limit"
  shows "runs V K (lua_prune_body E (roomPresenceKey rid) (roomPresenceRevisionKey rid) (roomPresenceStreamKey rid)
      (roomPresenceExpiryKey rid)) db
    (\<lambda>x v. x = LNum (int (pruned_count (C db) P)) \<and> presence_after rid (V db) (spec_prune (C db) P) v)"
proof -
  let ?k1 = "roomPresenceKey rid" and ?k4 = "roomPresenceExpiryKey rid"
  let ?P = "spec_prune (C db) P" and ?G = "{f\<in>dom (prMembers P). lapsed (C db) P f}"
  note w = assms(2) [unfolded redis_presence_def]
  note now = step_now [OF assms(1)]
  show ?thesis
    unfolding lua_prune_body_def
  proof (rule yields_bind [OF now(1)], goal_cases)
    case (1 d1)
    obtain fs where fs: "distinct fs" "set fs = dom (prMembers P)"
      "yields V K (redis_call E [''HKEYS'', ?k1]) d1 (LTable (map LStr fs)) (V db)"
      using step_hkeys [OF 1(1), of ?k1] 1(2) w by auto
    have G: "overs (C db) (prExpiry P) fs = ?G" "card ?G = pruned_count (C db) P" "prMembers P |` (- ?G) = prMembers ?P"
      using fs(2) by (auto simp: overs_def over_def lapsed_def pruned_count_def spec_prune_def restrict_map_def fun_eq_iff dom_def)
    show ?case
    proof (rule yields_bind [OF fs(3)], goal_cases)
      case (1 d2)
      let ?v = "(V db)(?k1 := hash_value (prMembers ?P), ?k4 := zset_value (prExpiry P |` (- ?G)))"
      have "int 0 + int (length fs) < score_limit" using w fs(1,2) distinct_card [of fs] by simp
      then have "runs V K (lua_prune_loop E ?k1 ?k4 (LNum (C db)) (map LStr fs) (LNum (int 0))) d2
          (\<lambda>x v. x = LNum (int (0 + card (overs (C db) (prExpiry P) fs))) \<and>
            v = (V d2)(?k1 := hash_value (prMembers P |` (- overs (C db) (prExpiry P) fs)),
              ?k4 := zset_value (prExpiry P |` (- overs (C db) (prExpiry P) fs))))"
        by (intro prune_loop) (use 1 w fs in simp_all)
      then have "yields V K (lua_prune_loop E ?k1 ?k4 (LNum (C db)) (map LStr fs) (LNum 0)) d2 (LNum (int (pruned_count (C db) P))) ?v"
        unfolding G using 1(2) by simp
      then have "runs V K (lua_bind (lua_prune_loop E ?k1 ?k4 (LNum (C db)) (map LStr fs) (LNum 0)) (\<lambda>removed.
          lua_bind (redis_call E [''ZREMRANGEBYSCORE'', ?k4, ''-inf'', FormatInt (C db)]) (\<lambda>_.
          lua_bind (lua_lift (lua_le removed (LNum 0))) (\<lambda>none. if none then lua_return removed
          else lua_bind (lua_notify E (roomPresenceRevisionKey rid) (roomPresenceStreamKey rid)) (\<lambda>_. lua_return removed))))) d2
        (\<lambda>x v. x = LNum (int (pruned_count (C db) P)) \<and> presence_after rid (V db) ?P v)"
      proof (rule yields_bind, goal_cases)
        case (1 d3)
        have "runs V K (redis_call E [''ZREMRANGEBYSCORE'', ?k4, ''-inf'', FormatInt (C db)]) d3
            (\<lambda>_ v. v = ?v(?k4 := zset_value (prExpiry ?P)))"
          using prune_scores [OF 1(1), of rid P "C db"] 1(2) now(2,3) by simp
        then show ?case
          by (rule runs_bind) (use prune_announces [OF _ _ assms(2,3), where now = "C db"] in \<open>simp split del: if_split\<close>)
      qed
      then show ?case using now(2,3) by (simp add: lua_ipairs_def lift_known)
    qed
  qed
qed

lemma prune_script:
  assumes "K db" "redis_presence (V db) rid P" "prRevision P < log_limit"
  obtains db' where "lua_prune E (presence_keys rid) [] db = (RInt (int (pruned_count (C db) P)), db')"
    "K db'" "presence_after rid (V db) (spec_prune (C db) P) (V db')"
  by (rule runs_script [OF prune_body [OF assms]]) (rule that, simp_all add: lua_prune_def presence_keys_def)

lemma replies_of_strings: "replies_of_lua (map (\<lambda>f. LStr (g f)) fs) = map (\<lambda>f. RBulk (g f)) fs"
  by (induction fs) simp_all

lemma snapshot_script:
  assumes "K db" "redis_presence (V db) rid P" "prRevision P < log_limit"
  obtains fs db' where "distinct fs" "set fs = dom (prMembers (spec_prune (C db) P))"
    "lua_presence_snapshot E (presence_keys rid) [] db =
      (RArr [RBulk (FormatInt (prRevision (spec_prune (C db) P))),
         RArr (map (\<lambda>f. RBulk (the (prMembers (spec_prune (C db) P) f))) fs)], db')"
    "K db'" "presence_after rid (V db) (spec_prune (C db) P) (V db')"
proof -
  let ?k1 = "roomPresenceKey rid" and ?k2 = "roomPresenceRevisionKey rid"
    and ?k3 = "roomPresenceStreamKey rid" and ?k4 = "roomPresenceExpiryKey rid"
  let ?P = "spec_prune (C db) P"
  let ?Q = "\<lambda>x v. \<exists>fs. distinct fs \<and> set fs = dom (prMembers ?P) \<and>
      x = LTable [LStr (FormatInt (prRevision ?P)), LTable (map (\<lambda>f. LStr (the (prMembers ?P f))) fs)] \<and>
      presence_after rid (V db) ?P v"
  have "runs V K (snapshot_body E ?k1 ?k2 ?k3 ?k4) db ?Q"
    unfolding snapshot_body_def
  proof (rule runs_bind [OF prune_body [OF assms]])
    fix x d1 assume d1: "K d1" "x = LNum (int (pruned_count (C db) P)) \<and> presence_after rid (V db) ?P (V d1)"
    then have p: "redis_presence (V d1) rid ?P" by (simp add: presence_after_def)
    note w = p [unfolded redis_presence_def]
    have zero: "FormatInt 0 = ''0''" by (simp add: FormatInt_def fmt_nat.simps digit_def) code_simp
    have 1: "runs V K (redis_call E [''GET'', ?k2]) d1
        (\<lambda>x v. lua_or x (LStr ''0'') = LStr (FormatInt (prRevision ?P)) \<and> v = V d1)"
    proof (cases "prRevision ?P = 0")
      case True
      then have "V d1 ?k2 = None" using w by simp
      from step_get_none [OF d1(1) this] show ?thesis by (rule runs_mono) (simp add: True zero)
    next
      case False
      then have "V d1 ?k2 = Some (RVString (FormatInt (prRevision ?P)))" using w by simp
      from step_get [OF d1(1) this] show ?thesis by (rule runs_mono) simp
    qed
    show "runs V K (lua_bind (redis_call E [''GET'', ?k2]) (\<lambda>revision.
        lua_bind (redis_call E [''HVALS'', ?k1]) (\<lambda>vals.
        lua_return (LTable [lua_or revision (LStr ''0''), vals])))) d1 ?Q"
    proof (rule runs_bind [OF 1])
      fix y d2 assume d2: "K d2" "lua_or y (LStr ''0'') = LStr (FormatInt (prRevision ?P)) \<and> V d2 = V d1"
      obtain fs where fs: "distinct fs" "set fs = dom (prMembers ?P)"
        "yields V K (redis_call E [''HVALS'', ?k1]) d2 (LTable (map (\<lambda>f. LStr (the (prMembers ?P f))) fs)) (V d1)"
        using step_hvals [OF d2(1), of ?k1] d2(2) w by auto
      show "runs V K (lua_bind (redis_call E [''HVALS'', ?k1]) (\<lambda>vals.
          lua_return (LTable [lua_or y (LStr ''0''), vals]))) d2 ?Q"
        by (rule yields_bind [OF fs(3)]) (use fs(1,2) d1 d2 in auto)
    qed
  qed
  then show thesis
    by (rule runs_script) (use that in \<open>auto simp: lua_presence_snapshot_def presence_keys_def replies_of_strings\<close>)
qed

end

subsection \<open>The scripts as commands of the server\<close>

lemma presence_scripts_differ:
  "distinct (map fst (document_scripts :: (string \<times> 'db lua_script) list))"
proof -
  have "distinct (map (take 26) [createRoomScript, applyOperationScript, joinPresenceScript, leavePresenceScript,
      renewPresenceScript, prunePresenceScript, presenceSnapshotScript])"
    by code_simp
  then have "distinct [createRoomScript, applyOperationScript, joinPresenceScript, leavePresenceScript,
      renewPresenceScript, prunePresenceScript, presenceSnapshotScript]"
    unfolding distinct_map by (rule conjunct1)
  then show ?thesis by (simp only: document_scripts_def presence_scripts_def append.simps list.map fst_conv)
qed

lemma script_lookup:
  "(t, f) \<in> set document_scripts \<Longrightarrow>
   document_exec E (presence_args t rid args) db = f E (presence_keys rid) args db"
  using map_of_is_SomeI [OF presence_scripts_differ, of t f]
  by (simp add: document_exec_def with_eval_def presence_args_def presence_keys_def)

lemma presence_exec:
  "document_exec E (presence_args joinPresenceScript rid args) db = lua_join E (presence_keys rid) args db"
  "document_exec E (presence_args leavePresenceScript rid args) db = lua_leave E (presence_keys rid) args db"
  "document_exec E (presence_args renewPresenceScript rid args) db = lua_renew E (presence_keys rid) args db"
  "document_exec E (presence_args prunePresenceScript rid args) db = lua_prune E (presence_keys rid) args db"
  "document_exec E (presence_args presenceSnapshotScript rid args) db = lua_presence_snapshot E (presence_keys rid) args db"
  by (rule script_lookup, simp add: document_scripts_def presence_scripts_def)+

end
