(* ===== verification/Presence_Ops.thy ===== *)
theory Presence_Ops
  imports Presence_Refine
begin

section \<open>The operations of the presence store\<close>

text \<open>
  The operations of \<^verbatim>\<open>backend/redis_presence.go\<close> on the abstract presence: what each call
  does to it at the time of Redis, over a link that works or not, what \<open>GetPresence\<close> and
  \<open>RenewPresence\<close> return, and what any sequence of calls by any backends keeps.
\<close>

subsection \<open>Calls\<close>

datatype presence_call = PJoin Participant int64 | PLeave string | PRenew string int64 | PPrune | PGet

definition over_link :: "link \<Rightarrow> 'db net" where
  "over_link l = \<lparr>before = (\<lambda>i db. db), link_of = (\<lambda>i. l)\<rparr>"

fun run_call :: "'db exec \<Rightarrow> link \<Rightarrow> string \<Rightarrow> presence_call \<Rightarrow> 'db \<Rightarrow> 'db" where
  "run_call exec l rid (PJoin p d) db = snd (JoinPresence exec (over_link l) rid p [d] db)"
| "run_call exec l rid (PLeave f) db = snd (LeavePresence exec (over_link l) rid f db)"
| "run_call exec l rid (PRenew f d) db = snd (RenewPresence exec (over_link l) rid f d db)"
| "run_call exec l rid PPrune db = snd (PrunePresence exec (over_link l) rid db)"
| "run_call exec l rid PGet db = snd (GetPresence exec (over_link l) rid db)"

fun spec_call :: "int \<Rightarrow> presence_call \<Rightarrow> presence \<Rightarrow> presence" where
  "spec_call now (PJoin p d) P =
     (if pConnectionID p = [] \<or> Milliseconds d \<le> 0 then P
      else spec_join now (pConnectionID p) (marshal_participant p) (Milliseconds d) P)"
| "spec_call now (PLeave f) P = spec_leave f P"
| "spec_call now (PRenew f d) P = (if Milliseconds d \<le> 0 then P else spec_renew now f (Milliseconds d) P)"
| "spec_call now PPrune P = spec_prune now P"
| "spec_call now PGet P = spec_prune now P"

fun call_ok :: "presence_call \<Rightarrow> bool" where
  "call_ok (PJoin p d) = int64_ok d"
| "call_ok (PRenew f d) = int64_ok d"
| "call_ok _ = True"

lemma Milliseconds_bound: "int64_ok d \<Longrightarrow> Milliseconds d < clock_limit"
  by (auto simp: Milliseconds_def int64_ok_def)

lemma presence_call_snd [simp]: "snd (presence_call r f) = snd r"
  by (simp add: presence_call_def split: prod.split outcome.split)

text \<open>A call reaches Redis, or it does not: never in part. Its reply may still be lost.\<close>

fun reaches :: "link \<Rightarrow> bool" where
  "reaches (DialFails e) = False"
| "reaches (WriteFails e) = False"
| "reaches _ = True"

lemma redis_do_state:
  "snd (redis_do exec l args db) = (if reaches l then snd (redis_do exec LinkUp args db) else db)"
  by (cases l) (simp_all add: redis_do_def)

lemma presenceEval_over [simp]: "presenceEval exec (over_link l) script rid args db = redis_do exec l (presence_args script rid args) db"
  by (simp add: presenceEval_def do_at_def over_link_def)

context presence_redis
begin

text \<open>What the script of a call does, when the call is made.\<close>

lemma script_effect:
  assumes "K db" "redis_presence (V db) rid P" "prRevision P < log_limit" "call_ok c"
  shows "K (run_call (document_exec E) LinkUp rid c db) \<and>
    presence_after rid (V db) (spec_call (C db) c P) (V (run_call (document_exec E) LinkUp rid c db))"
proof (cases c)
  case (PJoin p d)
  show ?thesis
  proof (cases "pConnectionID p = [] \<or> Milliseconds d \<le> 0")
    case True
    then show ?thesis using PJoin assms(1) presence_same [OF assms(2)] by (auto simp: JoinPresence_def)
  next
    case False
    obtain db' where "lua_join E (presence_keys rid) [pConnectionID p, marshal_participant p, FormatInt (Milliseconds d)] db =
      (RInt (prRevision (spec_join (C db) (pConnectionID p) (marshal_participant p) (Milliseconds d) P)), db')" "K db'"
      "presence_after rid (V db) (spec_join (C db) (pConnectionID p) (marshal_participant p) (Milliseconds d) P) (V db')"
      using join_script [OF assms(1-3), of "Milliseconds d"] False Milliseconds_bound [of d] assms(4) PJoin by auto
    then show ?thesis using False PJoin by (simp add: JoinPresence_def presence_exec redis_do_def)
  qed
next
  case (PLeave f)
  obtain db' where "lua_leave E (presence_keys rid) [f] db = (RInt (prRevision (spec_leave f P)), db')"
    "K db'" "presence_after rid (V db) (spec_leave f P) (V db')"
    by (rule leave_script [OF assms(1-3)])
  then show ?thesis using PLeave by (simp add: LeavePresence_def presence_exec redis_do_def)
next
  case (PRenew f d)
  show ?thesis
  proof (cases "Milliseconds d \<le> 0")
    case True
    then show ?thesis using PRenew assms(1) presence_same [OF assms(2)] by (simp add: RenewPresence_def)
  next
    case False
    obtain db' where "lua_renew E (presence_keys rid) [f, FormatInt (Milliseconds d)] db =
      (RInt (if renewable (C db) f P then 1 else 0), db')" "K db'"
      "presence_after rid (V db) (spec_renew (C db) f (Milliseconds d) P) (V db')"
      using renew_script [OF assms(1,2), of "Milliseconds d" f] False Milliseconds_bound [of d] assms(4) PRenew by auto
    then show ?thesis using False PRenew by (simp add: RenewPresence_def presence_exec redis_do_def)
  qed
next
  case PPrune
  obtain db' where "lua_prune E (presence_keys rid) [] db = (RInt (int (pruned_count (C db) P)), db')"
    "K db'" "presence_after rid (V db) (spec_prune (C db) P) (V db')"
    by (rule prune_script [OF assms(1-3)])
  then show ?thesis using PPrune by (simp add: PrunePresence_def presence_exec redis_do_def)
next
  case PGet
  obtain fs db' where "lua_presence_snapshot E (presence_keys rid) [] db =
      (RArr [RBulk (FormatInt (prRevision (spec_prune (C db) P))),
         RArr (map (\<lambda>f. RBulk (the (prMembers (spec_prune (C db) P) f))) fs)], db')"
    "K db'" "presence_after rid (V db) (spec_prune (C db) P) (V db')"
    by (rule snapshot_script [OF assms(1-3)])
  then show ?thesis using PGet by (simp add: GetPresence_def presence_exec redis_do_def)
qed

lemma run_call_state:
  "run_call exec l rid c db = (if reaches l then run_call exec LinkUp rid c db else db)"
  by (cases c) (simp_all add: JoinPresence_def LeavePresence_def RenewPresence_def PrunePresence_def GetPresence_def
      Let_def redis_do_state(1) [of exec l])

lemma call_effect:
  assumes "K db" "redis_presence (V db) rid P" "prRevision P < log_limit" "call_ok c"
  shows "K (run_call (document_exec E) l rid c db) \<and>
    presence_after rid (V db) (if reaches l then spec_call (C db) c P else P) (V (run_call (document_exec E) l rid c db))"
  using script_effect [OF assms] assms(1) presence_same [OF assms(2)] run_call_state [of "document_exec E" l rid c db]
  by simp

end

subsection \<open>Results\<close>

text \<open>The records are those of the members' own participants.\<close>

definition good_records :: "presence \<Rightarrow> bool" where
  "good_records P \<longleftrightarrow> (\<forall>f rec. prMembers P f = Some rec \<longrightarrow>
     (\<exists>p. valid_participant p \<and> pConnectionID p = f \<and> rec = marshal_participant p))"

text \<open>The participants whose lease is running at a time.\<close>

definition live_participants :: "int \<Rightarrow> presence \<Rightarrow> Participant set" where
  "live_participants now P = {p. valid_participant p \<and> \<not> lapsed now P (pConnectionID p) \<and>
     prMembers P (pConnectionID p) = Some (marshal_participant p)}"

lemma good_records_prune: "good_records P \<Longrightarrow> good_records (spec_prune now P)"
  by (auto simp: good_records_def spec_prune_def restrict_map_def split: if_splits)

definition participant_of :: "presence \<Rightarrow> string \<Rightarrow> Participant" where
  "participant_of P f = the (unmarshal_participant (the (prMembers P f)))"

lemma participant_of_member:
  assumes "good_records P" "f \<in> dom (prMembers P)"
  shows "valid_participant (participant_of P f)" "pConnectionID (participant_of P f) = f"
    "prMembers P f = Some (marshal_participant (participant_of P f))"
    "unmarshal_participant (the (prMembers P f)) = Some (participant_of P f)"
proof -
  obtain p where "valid_participant p" "pConnectionID p = f" "prMembers P f = Some (marshal_participant p)"
    using assms unfolding good_records_def by blast
  then show "valid_participant (participant_of P f)" "pConnectionID (participant_of P f) = f"
    "prMembers P f = Some (marshal_participant (participant_of P f))"
    "unmarshal_participant (the (prMembers P f)) = Some (participant_of P f)"
    by (simp_all add: participant_of_def unmarshal_participant_render)
qed

lemma decode_records_members:
  "good_records P \<Longrightarrow> set fs \<subseteq> dom (prMembers P) \<Longrightarrow>
   decode_records (map (\<lambda>f. GStr (the (prMembers P f))) fs) = Ok (map (participant_of P) fs)"
proof (induction fs)
  case (Cons f fs)
  then have "unmarshal_participant (the (prMembers P f)) = Some (participant_of P f)"
    using participant_of_member(4) [of P f] by simp
  with Cons show ?case by (simp add: redisString_def)
qed simp

lemma live_participants_prune:
  assumes "good_records P" "set fs = dom (prMembers (spec_prune now P))"
  shows "participant_of (spec_prune now P) ` set fs = live_participants now P"
proof -
  let ?P = "spec_prune now P"
  have g: "good_records ?P" by (rule good_records_prune [OF assms(1)])
  show ?thesis
  proof (intro set_eqI iffI)
    fix p assume "p \<in> participant_of ?P ` set fs"
    then obtain f where f: "f \<in> dom (prMembers ?P)" "p = participant_of ?P f" using assms(2) by auto
    then show "p \<in> live_participants now P"
      using participant_of_member(1-3) [OF g f(1)]
      by (auto simp: live_participants_def spec_prune_def restrict_map_def split: if_splits)
  next
    fix p assume p: "p \<in> live_participants now P"
    then have m: "prMembers ?P (pConnectionID p) = Some (marshal_participant p)" "valid_participant p"
      by (simp_all add: live_participants_def spec_prune_def)
    then have "participant_of ?P (pConnectionID p) = p"
      by (simp add: participant_of_def unmarshal_participant_render)
    then show "p \<in> participant_of ?P ` set fs" using m(1) assms(2) by force
  qed
qed

context presence_redis
begin

lemma GetPresence_runs:
  assumes "K db" "redis_presence (V db) rid P" "prRevision P < log_limit" "good_records P"
  obtains s db' where "GetPresence (document_exec E) (over_link LinkUp) rid db = (Ok s, db')"
    "K db'" "presence_after rid (V db) (spec_prune (C db) P) (V db')"
    "psRevision s = prRevision (spec_prune (C db) P)" "set (psParticipants s) = live_participants (C db) P"
    "sorted_wrt (<) (map pConnectionID (psParticipants s))"
proof -
  let ?P = "spec_prune (C db) P"
  obtain fs db' where fs: "distinct fs" "set fs = dom (prMembers ?P)"
    and x: "lua_presence_snapshot E (presence_keys rid) [] db =
      (RArr [RBulk (FormatInt (prRevision ?P)), RArr (map (\<lambda>f. RBulk (the (prMembers ?P f))) fs)], db')"
    and d: "K db'" "presence_after rid (V db) ?P (V db')"
    by (rule snapshot_script [OF assms(1-3)])
  have g: "good_records ?P" by (rule good_records_prune [OF assms(4)])
  have rev: "int64_ok (prRevision ?P)"
    using d(2) by (auto simp: presence_after_def redis_presence_def int64_ok_def)
  let ?ps = "map (participant_of ?P) fs"
  have items: "decode_items (map (\<lambda>f. RBulk (the (prMembers ?P f))) fs) = Ok (map (\<lambda>f. GStr (the (prMembers ?P f))) fs)"
    using decode_items_map [of "map (\<lambda>f. the (prMembers ?P f)) fs"] by (simp add: comp_def)
  have dec: "decode_records (map (\<lambda>f. GStr (the (prMembers ?P f))) fs) = Ok ?ps"
    by (rule decode_records_members [OF g]) (simp add: fs(2))
  have ids: "map pConnectionID ?ps = fs"
    unfolding map_map by (rule map_idI) (use participant_of_member(2) [OF g] fs(2) in simp)
  let ?s = "\<lparr>psRevision = prRevision ?P, psParticipants = sortParticipants ?ps\<rparr>"
  have "GetPresence (document_exec E) (over_link LinkUp) rid db = (Ok ?s, db')"
    using dec rev by (simp add: GetPresence_def presence_exec redis_do_def x items presence_call_def presence_int_def)
  moreover have "set (psParticipants ?s) = live_participants (C db) P"
    using live_participants_prune [OF assms(4) fs(2)] by simp
  moreover have "mset (map pConnectionID (sortParticipants ?ps)) = mset fs"
    unfolding mset_map sortParticipants_perm using ids by (metis mset_map)
  then have "distinct (map pConnectionID (sortParticipants ?ps))" using fs(1) by (metis mset_eq_imp_distinct_iff)
  then have "sorted_wrt (<) (map pConnectionID (psParticipants ?s))"
    by (simp add: strict_sorted_iff)
  ultimately show thesis using that d by simp
qed

lemma RenewPresence_runs:
  assumes "K db" "redis_presence (V db) rid P" "int64_ok d" "0 < Milliseconds d"
  obtains db' where "RenewPresence (document_exec E) (over_link LinkUp) rid f d db = (Ok (renewable (C db) f P), db')"
    "K db'" "presence_after rid (V db) (spec_renew (C db) f (Milliseconds d) P) (V db')"
proof (rule renew_script [OF assms(1,2,4) Milliseconds_bound [OF assms(3)], of f])
  fix db'
  assume *: "lua_renew E (presence_keys rid) [f, FormatInt (Milliseconds d)] db = (RInt (if renewable (C db) f P then 1 else 0), db')"
    "K db'" "presence_after rid (V db) (spec_renew (C db) f (Milliseconds d) P) (V db')"
  show thesis
    by (rule that [OF _ *(2,3)])
      (use * assms(4) in \<open>auto simp: RenewPresence_def presence_exec redis_do_def presence_call_def presence_int_def\<close>)
qed

lemma JoinPresence_runs:
  assumes "K db" "redis_presence (V db) rid P" "prRevision P < log_limit" "int64_ok d" "0 < Milliseconds d" "pConnectionID p \<noteq> []"
  obtains db' where "JoinPresence (document_exec E) (over_link LinkUp) rid p [d] db = (Ok (), db')"
    "K db'" "presence_after rid (V db) (spec_join (C db) (pConnectionID p) (marshal_participant p) (Milliseconds d) P) (V db')"
proof (rule join_script [OF assms(1-3,5) Milliseconds_bound [OF assms(4)], of "pConnectionID p" "marshal_participant p"])
  fix db'
  assume *: "lua_join E (presence_keys rid) [pConnectionID p, marshal_participant p, FormatInt (Milliseconds d)] db =
      (RInt (prRevision (spec_join (C db) (pConnectionID p) (marshal_participant p) (Milliseconds d) P)), db')" "K db'"
    "presence_after rid (V db) (spec_join (C db) (pConnectionID p) (marshal_participant p) (Milliseconds d) P) (V db')"
  show thesis
    by (rule that [OF _ *(2,3)])
      (use * assms(5,6) in \<open>simp add: JoinPresence_def presence_exec redis_do_def presence_call_def\<close>)
qed

lemma LeavePresence_runs:
  assumes "K db" "redis_presence (V db) rid P" "prRevision P < log_limit"
  obtains db' where "LeavePresence (document_exec E) (over_link LinkUp) rid f db = (Ok (), db')"
    "K db'" "presence_after rid (V db) (spec_leave f P) (V db')"
proof (rule leave_script [OF assms, of f])
  fix db'
  assume *: "lua_leave E (presence_keys rid) [f] db = (RInt (prRevision (spec_leave f P)), db')" "K db'"
    "presence_after rid (V db) (spec_leave f P) (V db')"
  show thesis
    by (rule that [OF _ *(2,3)]) (use * in \<open>simp add: LeavePresence_def presence_exec redis_do_def presence_call_def\<close>)
qed

end

end
