(* ===== verification/Mem_Presence.thy ===== *)
theory Mem_Presence
  imports Presence_Laws Presence_Store Mem_Redis "HOL-Library.List_Lexorder"
begin

section \<open>A server with a clock that has the presence laws\<close>

text \<open>
  The in-memory server of \<open>Mem_Redis\<close> with a clock in milliseconds, and the hash, sorted-set
  and time commands of the presence scripts. A hash lists its fields in order.
\<close>

definition hash_keys :: "(string \<rightharpoonup> string) \<Rightarrow> string list" where
  "hash_keys h = sorted_list_of_set (dom h)"

text \<open>The commands the presence scripts add; the rest is left to \<open>mem_exec\<close>.\<close>

definition presence_command :: "string list \<Rightarrow> bool" where
  "presence_command args \<longleftrightarrow> hd args \<in>
     {''TIME'', ''HSETNX'', ''HDEL'', ''HEXISTS'', ''HKEYS'', ''HVALS'', ''ZADD'', ''ZSCORE'', ''ZREM'', ''ZREMRANGEBYSCORE'', ''SCAN''}"

definition int_of :: "string \<Rightarrow> int" where
  "int_of s = (case parse_int64 s of Inr n \<Rightarrow> n | Inl e \<Rightarrow> 0)"

fun mem_hash :: "string list \<Rightarrow> view \<Rightarrow> reply \<times> view" where
  "mem_hash [c, k] v =
     (if c = ''HKEYS'' then (RArr (map RBulk (hash_keys (hash_of (v k)))), v)
      else (RArr (map (\<lambda>f. RBulk (the (hash_of (v k) f))) (hash_keys (hash_of (v k)))), v))"
| "mem_hash [c, k, f] v =
     (if c = ''HEXISTS'' then (RInt (if f \<in> dom (hash_of (v k)) then 1 else 0), v)
      else (RInt (if f \<in> dom (hash_of (v k)) then 1 else 0), v(k := hash_value ((hash_of (v k))(f := None)))))"
| "mem_hash [c, k, f, x] v =
     (if f \<in> dom (hash_of (v k)) then (RInt 0, v) else (RInt 1, v(k \<mapsto> RVHash ((hash_of (v k))(f \<mapsto> x)))))"
| "mem_hash args v = (RErr ''ERR'', v)"

fun mem_zset :: "string list \<Rightarrow> view \<Rightarrow> reply \<times> view" where
  "mem_zset [c, k, f] v =
     (if c = ''ZSCORE'' then (case zset_of (v k) f of None \<Rightarrow> RNil | Some n \<Rightarrow> RBulk (FormatInt n), v)
      else (RInt (if f \<in> dom (zset_of (v k)) then 1 else 0), v(k := zset_value ((zset_of (v k))(f := None)))))"
| "mem_zset [c, k, a, b] v =
     (if c = ''ZADD'' then (RInt (if b \<in> dom (zset_of (v k)) then 0 else 1), v(k \<mapsto> RVZset ((zset_of (v k))(b \<mapsto> int_of a))))
      else (RInt 0, v(k := zset_value ((zset_of (v k)) |` {f. \<exists>m. zset_of (v k) f = Some m \<and> int_of b < m}))))"
| "mem_zset [c, k, xx, a, b] v = (RInt 0, v(k \<mapsto> RVZset ((zset_of (v k))(b \<mapsto> int_of a))))"
| "mem_zset args v = (RErr ''ERR'', v)"

text \<open>A scan that lists all keys of presences in one page.\<close>

definition is_presence_key :: "string \<Rightarrow> bool" where
  "is_presence_key k \<longleftrightarrow> (\<exists>rid. k = roomPresenceKey rid)"

definition scan_presences :: "view \<Rightarrow> reply" where
  "scan_presences v = RArr [RBulk ''0'', RArr (map RBulk (sorted_list_of_set {k \<in> dom v. is_presence_key k}))]"

definition clock_exec :: "(view \<times> int) exec" where
  "clock_exec args db =
     (if \<not> presence_command args then (case mem_exec args (fst db) of (r, v) \<Rightarrow> (r, (v, snd db)))
      else if hd args = ''TIME'' then
        (RArr [RBulk (FormatInt (snd db div 1000)), RBulk (FormatInt (snd db mod 1000 * 1000))], db)
      else if hd args = ''SCAN'' then (scan_presences (fst db), db)
      else (case (if hd (hd args) = CHR ''H'' then mem_hash else mem_zset) args (fst db) of (r, v) \<Rightarrow> (r, (v, snd db))))"

definition clock_ok :: "view \<times> int \<Rightarrow> bool" where
  "clock_ok db \<longleftrightarrow> mem_ok (fst db) \<and> 0 \<le> snd db \<and> snd db < clock_limit"

lemma int_of_FormatInt: "\<bar>n\<bar> < score_limit \<Longrightarrow> int_of (FormatInt n) = n"
  by (subgoal_tac "int64_ok n") (auto simp: int_of_def int64_ok_def)

lemma hash_keys: "is_hash x \<Longrightarrow> distinct (hash_keys (hash_of x)) \<and> set (hash_keys (hash_of x)) = dom (hash_of x)"
  by (auto simp: hash_keys_def is_hash_def hash_of_def split: option.splits redis_value.splits)

text \<open>A change of a hash or a sorted set is none to a stream.\<close>

lemma stream_of_values [simp]: "stream_of (hash_value h) = []" "stream_of (zset_value z) = []"
  by (simp_all add: hash_value_def zset_value_def)

lemma mem_ok_no_stream: "mem_ok v \<Longrightarrow> stream_of x = [] \<Longrightarrow> mem_ok (v(k := x))"
  by (simp add: mem_ok_def del: upt_Suc)

lemma mem_ok_hash [simp]: "mem_ok v \<Longrightarrow> mem_ok (v(k \<mapsto> RVHash h))" "mem_ok v \<Longrightarrow> mem_ok (v(k := hash_value h))"
  "mem_ok v \<Longrightarrow> mem_ok (v(k \<mapsto> RVZset z))" "mem_ok v \<Longrightarrow> mem_ok (v(k := zset_value z))"
  by (simp_all add: mem_ok_no_stream)

subsection \<open>The laws hold\<close>

lemma clock_step:
  "redis_step mem_exec id mem_ok args (fst db) r v \<Longrightarrow> clock_ok db \<Longrightarrow> \<not> presence_command args \<Longrightarrow>
   redis_step clock_exec fst clock_ok args db r v"
  by (auto simp: redis_step_def clock_exec_def clock_ok_def split: prod.split)

lemma clock_string_laws:
  "get_laws clock_exec fst clock_ok" "set_laws clock_exec fst clock_ok" "ping_laws clock_exec fst clock_ok"
  "incr_laws clock_exec fst clock_ok"
  using mem_string_laws mem_incr_laws unfolding get_laws_def set_laws_def ping_laws_def incr_laws_def
  by (auto intro!: clock_step simp: presence_command_def clock_ok_def)

lemma clock_stream_laws:
  "xrevrange_laws clock_exec fst clock_ok" "xrange_laws clock_exec fst clock_ok" "xread_laws clock_exec fst clock_ok"
proof -
  note base = mem_xrevrange_laws [unfolded xrevrange_laws_def id_apply, rule_format]
    mem_xrange_laws [unfolded xrange_laws_def id_apply, THEN conjunct1, rule_format]
    mem_xrange_laws [unfolded xrange_laws_def id_apply, THEN conjunct2, rule_format]
    mem_xread_laws [unfolded xread_laws_def id_apply, THEN conjunct1, rule_format]
    mem_xread_laws [unfolded xread_laws_def id_apply, THEN conjunct2, rule_format]
  have ok: "mem_ok (fst db)" if "clock_ok db" for db using that by (simp add: clock_ok_def)
  show "xrevrange_laws clock_exec fst clock_ok" unfolding xrevrange_laws_def
    using base(1) [OF ok] by (auto intro!: clock_step simp: presence_command_def id_def simp del: One_nat_def)
  show "xrange_laws clock_exec fst clock_ok" unfolding xrange_laws_def
    by (intro conjI allI impI clock_step [unfolded id_def]) (erule (3) base(2) [OF ok] base(3) [OF ok] | simp add: presence_command_def)+
  show "xread_laws clock_exec fst clock_ok" unfolding xread_laws_def
    by (intro conjI allI impI clock_step [unfolded id_def]) (erule (3) base(4) [OF ok] base(5) [OF ok] | simp add: presence_command_def)+
qed

lemma clock_xadd_laws: "xadd_laws clock_exec fst clock_ok"
  unfolding xadd_laws_def
proof (intro conjI allI impI)
  fix db k and fs :: "(string \<times> string) list"
  assume a: "clock_ok db" "is_stream (fst db k)" "length (stream_of (fst db k)) < 100000000000000" "fs \<noteq> []"
  then obtain sid where "sid \<notin> insert ''0-0'' (fst ` set (stream_of (fst db k)))" "length sid \<le> 41"
    "redis_step mem_exec id mem_ok ([''XADD'', k, ''*''] @ flatten_fields fs) (fst db) (RBulk sid)
             ((fst db)(k \<mapsto> RVStream (stream_of (fst db k) @ [(sid, fs)])))"
    using mem_xadd_laws [unfolded xadd_laws_def, THEN conjunct1, rule_format, of "fst db" k fs]
    by (auto simp: clock_ok_def)
  then show "\<exists>sid. sid \<notin> insert ''0-0'' (fst ` set (stream_of (fst db k))) \<and> length sid \<le> 41 \<and>
      redis_step clock_exec fst clock_ok ([''XADD'', k, ''*''] @ flatten_fields fs) db (RBulk sid)
        ((fst db)(k \<mapsto> RVStream (stream_of (fst db k) @ [(sid, fs)])))"
    using a(1) by (auto intro!: exI [of _ sid] clock_step simp: presence_command_def)
next
  fix db k assume "clock_ok db"
  then show "distinct (''0-0'' # map fst (stream_of (fst db k)))" using mem_ok_distinct by (simp add: clock_ok_def)
qed

lemma clock_time_laws: "time_laws clock_exec fst clock_ok snd"
  unfolding time_laws_def
proof (intro allI impI)
  fix db :: "view \<times> int" assume a: "clock_ok db"
  show "\<exists>s u. 0 \<le> s \<and> 0 \<le> u \<and> u < 1000000 \<and> snd db = s * 1000 + u div 1000 \<and> snd db < clock_limit \<and>
      redis_step clock_exec fst clock_ok [''TIME''] db (RArr [RBulk (FormatInt s), RBulk (FormatInt u)]) (fst db)"
    by (rule exI [of _ "snd db div 1000"], rule exI [of _ "snd db mod 1000 * 1000"])
      (use a in \<open>simp add: clock_ok_def redis_step_def clock_exec_def presence_command_def pos_imp_zdiv_nonneg_iff\<close>)
qed

lemma clock_hash_laws: "hset_laws clock_exec fst clock_ok" "hread_laws clock_exec fst clock_ok"
  unfolding hset_laws_def hread_laws_def
  by (auto simp: redis_step_def clock_exec_def presence_command_def clock_ok_def hash_keys
      intro!: exI [of _ "hash_keys (hash_of _)"])

lemma clock_zset_laws: "zset_laws clock_exec fst clock_ok"
  unfolding zset_laws_def
  by (simp add: redis_step_def clock_exec_def presence_command_def clock_ok_def int_of_FormatInt)

lemma clock_presence_server: "presence_server clock_exec fst clock_ok snd"
  by (simp add: presence_server_def redis_server_def clock_string_laws clock_stream_laws clock_xadd_laws
      clock_time_laws clock_hash_laws clock_zset_laws)

interpretation clk: presence_redis clock_exec fst clock_ok snd
  by unfold_locales (rule clock_presence_server)

lemma clock_ok_empty [simp]: "0 \<le> t \<Longrightarrow> t < clock_limit \<Longrightarrow> clock_ok (\<lambda>k. None, t)"
  by (simp add: clock_ok_def)

text \<open>Time passing: the keys stay.\<close>

definition at_ms :: "int \<Rightarrow> view \<times> int \<Rightarrow> view \<times> int" where
  "at_ms t db = (fst db, t)"

lemma at_ms_simps [simp]: "fst (at_ms t db) = fst db" "snd (at_ms t db) = t"
  by (simp_all add: at_ms_def)

lemma at_ms_ok: "0 \<le> t \<Longrightarrow> t < clock_limit \<Longrightarrow> clock_ok db \<Longrightarrow> clock_ok (at_ms t db)"
  by (simp add: clock_ok_def)

end
