(* ===== verification/Presence_Leases.thy ===== *)
theory Presence_Leases
  imports Presence_Ops Mem_Presence
begin

section \<open>Leases over time\<close>

text \<open>
  Any sequence of presence calls on a room, by any backends and over links that fail, with time
  passing between them: the keys in Redis follow \<open>spec_run\<close>, the same calls on the abstract
  presence. What such a run keeps: the revision tells changes of the members apart, a
  running lease holds its member, and a lease that nobody extends ends.
\<close>

subsection \<open>Runs\<close>

text \<open>
  Calls in the order in which Redis takes them. Before each, time passes; a tick leaves the keys
  as they are. Each call goes over its own link.
\<close>

type_synonym 'db presence_acts = "(('db \<Rightarrow> 'db) \<times> link \<times> presence_call) list"

fun presence_run :: "'db exec \<Rightarrow> string \<Rightarrow> 'db presence_acts \<Rightarrow> 'db \<Rightarrow> 'db" where
  "presence_run exec rid [] db = db"
| "presence_run exec rid ((tick, l, c) # xs) db = presence_run exec rid xs (run_call exec l rid c (tick db))"

definition tick_ok :: "('db \<Rightarrow> view) \<Rightarrow> ('db \<Rightarrow> bool) \<Rightarrow> ('db \<Rightarrow> 'db) \<Rightarrow> bool" where
  "tick_ok V K tick \<longleftrightarrow> (\<forall>db. K db \<longrightarrow> K (tick db) \<and> V (tick db) = V db)"

definition run_ok :: "('db \<Rightarrow> view) \<Rightarrow> ('db \<Rightarrow> bool) \<Rightarrow> 'db presence_acts \<Rightarrow> bool" where
  "run_ok V K xs \<longleftrightarrow> (\<forall>(tick, l, c)\<in>set xs. tick_ok V K tick \<and> call_ok c)"

text \<open>The calls with the time of Redis at which they arrive, or would have.\<close>

fun call_log :: "'db exec \<Rightarrow> ('db \<Rightarrow> int) \<Rightarrow> string \<Rightarrow> 'db presence_acts \<Rightarrow> 'db \<Rightarrow> (int \<times> link \<times> presence_call) list" where
  "call_log exec C rid [] db = []"
| "call_log exec C rid ((tick, l, c) # xs) db =
     (C (tick db), l, c) # call_log exec C rid xs (run_call exec l rid c (tick db))"

fun spec_run :: "(int \<times> link \<times> presence_call) list \<Rightarrow> presence \<Rightarrow> presence" where
  "spec_run [] P = P"
| "spec_run ((now, l, c) # ys) P = spec_run ys (if reaches l then spec_call now c P else P)"

lemma length_call_log [simp]: "length (call_log exec C rid xs db) = length xs"
  by (induction xs arbitrary: db) auto

subsection \<open>The revision\<close>

text \<open>One call changes the revision when it changes the members, by one, and only then.\<close>

lemma spec_prune_revision:
  "prRevision (spec_prune now P) = prRevision P \<and> prMembers (spec_prune now P) = prMembers P \<or>
   prRevision (spec_prune now P) = prRevision P + 1 \<and> prMembers (spec_prune now P) \<noteq> prMembers P"
proof (cases "\<exists>f\<in>dom (prMembers P). lapsed now P f")
  case True
  then obtain f where "f \<in> dom (prMembers P)" "lapsed now P f" by blast
  then have "prMembers P f \<noteq> None" "prMembers (spec_prune now P) f = None"
    by (auto simp: spec_prune_def restrict_map_def)
  then have "prMembers (spec_prune now P) \<noteq> prMembers P" by metis
  then show ?thesis using True by (simp add: spec_prune_def)
next
  case False
  then have "\<not> lapsed now P f" if "prMembers P f = Some a" for f a using that by blast
  then have "prMembers (spec_prune now P) f = prMembers P f" for f
    by (cases "prMembers P f") (auto simp: spec_prune_def restrict_map_def)
  then show ?thesis using False by (auto simp: spec_prune_def fun_eq_iff)
qed

lemma spec_call_revision:
  "prRevision (spec_call now c P) = prRevision P \<and> prMembers (spec_call now c P) = prMembers P \<or>
   prRevision (spec_call now c P) = prRevision P + 1 \<and> prMembers (spec_call now c P) \<noteq> prMembers P"
proof (cases c)
  case (PJoin p d)
  have "(prMembers P)(f \<mapsto> r) \<noteq> prMembers P" if "f \<notin> dom (prMembers P)" for f r
    using that by (metis domI fun_upd_same)
  then show ?thesis using PJoin by (auto simp: spec_join_def)
next
  case (PLeave f)
  then show ?thesis by (cases "f \<in> dom (prMembers P)") (auto simp: spec_leave_def dom_def fun_upd_idem_iff)
next
  case (PRenew f d)
  then show ?thesis by (simp add: spec_renew_def)
qed (use spec_prune_revision in simp_all)

lemma spec_run_revision:
  "prRevision P \<le> prRevision (spec_run ys P) \<and>
   prRevision (spec_run ys P) \<le> prRevision P + int (length ys) \<and>
   (prRevision (spec_run ys P) = prRevision P \<longrightarrow> prMembers (spec_run ys P) = prMembers P)"
proof (induction ys arbitrary: P)
  case (Cons y ys)
  obtain now l c where y: "y = (now, l, c)" by (cases y) auto
  show ?case
    using Cons.IH [of P] Cons.IH [of "spec_call now c P"] spec_call_revision [of now c P] by (auto simp: y)
qed simp

lemma spec_run_append: "spec_run (xs @ ys) P = spec_run ys (spec_run xs P)"
  by (induction xs P rule: spec_run.induct) simp_all

lemma call_log_append:
  "call_log exec C rid (xs @ ys) db = call_log exec C rid xs db @ call_log exec C rid ys (presence_run exec rid xs db)"
  by (induction exec C rid xs db rule: call_log.induct) simp_all

text \<open>The presence after the first \<open>i\<close> calls of a run.\<close>

definition presence_at :: "'db exec \<Rightarrow> ('db \<Rightarrow> int) \<Rightarrow> string \<Rightarrow> 'db presence_acts \<Rightarrow> 'db \<Rightarrow> presence \<Rightarrow> nat \<Rightarrow> presence" where
  "presence_at exec C rid xs db P i = spec_run (call_log exec C rid (take i xs) db) P"

lemma presence_at_0 [simp]: "presence_at exec C rid xs db P 0 = P"
  by (simp add: presence_at_def)

lemma presence_at_later:
  assumes "i \<le> j"
  shows "\<exists>ys. presence_at exec C rid xs db P j = spec_run ys (presence_at exec C rid xs db P i) \<and> length ys \<le> j - i"
proof -
  have "take j xs = take i xs @ take (j - i) (drop i xs)" using assms by (metis le_add_diff_inverse take_add)
  then show ?thesis unfolding presence_at_def
    by (intro exI [of _ "call_log exec C rid (take (j - i) (drop i xs)) (presence_run exec rid (take i xs) db)"])
      (simp add: call_log_append spec_run_append)
qed

lemma presence_at_Suc:
  assumes "i < length xs"
  shows "prRevision (presence_at exec C rid xs db P (Suc i)) = prRevision (presence_at exec C rid xs db P i) +
    (if prMembers (presence_at exec C rid xs db P (Suc i)) = prMembers (presence_at exec C rid xs db P i) then 0 else 1)"
proof -
  obtain tick l c where x: "xs ! i = (tick, l, c)" by (cases "xs ! i") auto
  have "presence_at exec C rid xs db P (Suc i) = spec_run [(C (tick (presence_run exec rid (take i xs) db)), l, c)] (presence_at exec C rid xs db P i)"
    unfolding presence_at_def take_Suc_conv_app_nth [OF assms] x by (simp add: call_log_append spec_run_append)
  then show ?thesis
    using spec_call_revision [of "C (tick (presence_run exec rid (take i xs) db))" c "presence_at exec C rid xs db P i"] by auto
qed

subsection \<open>Redis follows\<close>

context presence_redis
begin

lemma presence_run_effect:
  assumes "K db" "redis_presence (V db) rid P" "prRevision P + int (length xs) \<le> log_limit" "run_ok V K xs"
  shows "K (presence_run (document_exec E) rid xs db) \<and>
    presence_after rid (V db) (spec_run (call_log (document_exec E) C rid xs db) P)
      (V (presence_run (document_exec E) rid xs db))"
  using assms
proof (induction xs arbitrary: db P)
  case Nil
  then show ?case using presence_same by simp
next
  case (Cons x xs)
  obtain tick l c where x: "x = (tick, l, c)" by (cases x) auto
  have t: "K (tick db)" "V (tick db) = V db" "call_ok c" "run_ok V K xs"
    using Cons.prems(1,4) x by (auto simp: run_ok_def tick_ok_def)
  have p: "redis_presence (V (tick db)) rid P" "prRevision P < log_limit" using Cons.prems(2,3) t(2) by simp_all
  let ?Q = "if reaches l then spec_call (C (tick db)) c P else P"
  let ?db = "run_call (document_exec E) l rid c (tick db)"
  have Q: "K ?db" "presence_after rid (V (tick db)) ?Q (V ?db)"
    using call_effect [OF t(1) p t(3), of l] by simp_all
  have "prRevision ?Q + int (length xs) \<le> log_limit"
    using spec_call_revision [of "C (tick db)" c P] Cons.prems(3) by auto
  then have "K (presence_run (document_exec E) rid xs ?db) \<and>
    presence_after rid (V ?db) (spec_run (call_log (document_exec E) C rid xs ?db) ?Q)
      (V (presence_run (document_exec E) rid xs ?db))"
    using Q by (intro Cons.IH t(4)) (simp_all add: presence_after_def)
  then show ?case using Q(2) t(2) by (simp add: presence_after_def x)
qed

end

subsection \<open>A running lease holds\<close>

text \<open>A member whose lease runs beyond every call stays, with its record, unless it leaves.\<close>

lemma spec_call_held:
  assumes "prMembers P f = Some rec" "prExpiry P f = Some n" "now < n" "c \<noteq> PLeave f"
  shows "prMembers (spec_call now c P) f = Some rec \<and> (\<exists>m. prExpiry (spec_call now c P) f = Some m \<and> n \<le> m)"
  using assms
  by (cases c) (auto simp: spec_join_def spec_leave_def spec_renew_def spec_prune_def lapsed_def restrict_map_def)

lemma spec_run_held:
  assumes "prMembers P f = Some rec" "prExpiry P f = Some n"
    and "\<forall>(now, l, c)\<in>set ys. now < n \<and> c \<noteq> PLeave f"
  shows "prMembers (spec_run ys P) f = Some rec \<and> (\<exists>m. prExpiry (spec_run ys P) f = Some m \<and> n \<le> m)"
  using assms
proof (induction ys arbitrary: P n)
  case (Cons y ys)
  obtain now l c where y: "y = (now, l, c)" by (cases y) auto
  show ?case
  proof (cases "reaches l")
    case True
    obtain m where m: "prMembers (spec_call now c P) f = Some rec" "prExpiry (spec_call now c P) f = Some m" "n \<le> m"
      using spec_call_held [OF Cons.prems(1,2), of now c] Cons.prems(3) y by auto
    have "\<forall>(now, l, c)\<in>set ys. now < m \<and> c \<noteq> PLeave f" using Cons.prems(3) m(3) by fastforce
    from Cons.IH [OF m(1,2) this] m(3) True show ?thesis by (auto simp: y)
  next
    case False
    then show ?thesis using Cons.IH [OF Cons.prems(1,2)] Cons.prems(3) y by simp
  qed
qed simp

subsection \<open>A lease ends\<close>

text \<open>The leases that the calls of a log grant: the member, and the time at which the lease ends.\<close>

fun grants :: "int \<times> link \<times> presence_call \<Rightarrow> (string \<times> int) list" where
  "grants (now, l, PJoin p d) = [(pConnectionID p, now + Milliseconds d)]"
| "grants (now, l, PRenew f d) = [(f, now + Milliseconds d)]"
| "grants _ = []"

lemma spec_call_grants:
  "prExpiry (spec_call now c P) f = Some n \<Longrightarrow> prExpiry P f = Some n \<or> (f, n) \<in> set (grants (now, l, c))"
  by (cases c) (auto simp: spec_join_def spec_leave_def spec_renew_def spec_prune_def restrict_map_def split: if_splits)

lemma spec_run_grants:
  "prExpiry (spec_run ys P) f = Some n \<Longrightarrow> prExpiry P f = Some n \<or> (f, n) \<in> set (concat (map grants ys))"
proof (induction ys arbitrary: P)
  case (Cons y ys)
  obtain now l c where y: "y = (now, l, c)" by (cases y) auto
  show ?case
    using Cons.IH [of P] Cons.IH [of "spec_call now c P"] Cons.prems spec_call_grants [of now c P f n l]
    by (auto simp: y split: if_splits)
qed simp

subsection \<open>Records\<close>

fun joins_valid :: "presence_call \<Rightarrow> bool" where
  "joins_valid (PJoin p d) = valid_participant p"
| "joins_valid _ = True"

lemma spec_call_good: "good_records P \<Longrightarrow> joins_valid c \<Longrightarrow> good_records (spec_call now c P)"
  by (cases c) (auto simp: good_records_prune, auto simp: good_records_def spec_join_def spec_leave_def spec_renew_def)

lemma spec_run_good:
  "good_records P \<Longrightarrow> \<forall>(now, l, c)\<in>set ys. joins_valid c \<Longrightarrow> good_records (spec_run ys P)"
proof (induction ys arbitrary: P)
  case (Cons y ys)
  then show ?case using spec_call_good by (cases y) auto
qed simp

lemma call_log_calls: "snd ` set (call_log exec C rid xs db) = snd ` set xs"
  by (induction exec C rid xs db rule: call_log.induct) auto

lemma run_good:
  assumes "good_records P" "\<forall>(tick, l, c)\<in>set xs. joins_valid c"
  shows "good_records (spec_run (call_log exec C rid xs db) P)"
proof (rule spec_run_good [OF assms(1)])
  have "\<forall>(l, c)\<in>snd ` set xs. joins_valid c" using assms(2) by force
  then show "\<forall>(now, l, c)\<in>set (call_log exec C rid xs db). joins_valid c"
    unfolding call_log_calls [symmetric, of xs exec C rid db] by force
qed

subsection \<open>A snapshot after a run\<close>

context presence_redis
begin

lemma run_then_get:
  assumes "K db" "redis_presence (V db) rid P" "prRevision P + int (length xs) < log_limit" "run_ok V K xs"
    and "good_records P" "\<forall>(tick, l, c)\<in>set xs. joins_valid c" "tick_ok V K tick"
  obtains s db' where
    "GetPresence (document_exec E) (over_link LinkUp) rid (tick (presence_run (document_exec E) rid xs db)) = (Ok s, db')"
    "set (psParticipants s) = live_participants (C (tick (presence_run (document_exec E) rid xs db)))
      (spec_run (call_log (document_exec E) C rid xs db) P)"
proof -
  let ?d = "tick (presence_run (document_exec E) rid xs db)" and ?ys = "call_log (document_exec E) C rid xs db"
  have "K (presence_run (document_exec E) rid xs db)"
    "presence_after rid (V db) (spec_run ?ys P) (V (presence_run (document_exec E) rid xs db))"
    using presence_run_effect [OF assms(1,2) _ assms(4)] assms(3) by simp_all
  then have d: "K ?d" "redis_presence (V ?d) rid (spec_run ?ys P)"
    using assms(7) by (simp_all add: tick_ok_def presence_after_def)
  have "prRevision (spec_run ?ys P) < log_limit" using spec_run_revision [of P ?ys] assms(3) by simp
  from GetPresence_runs [OF d this run_good [OF assms(5,6)]] that show thesis by metis
qed

end

end
