(* ===== verification/Presence_Properties.thy ===== *)
theory Presence_Properties
  imports Presence_Leases Mem_Room
begin

section \<open>Properties of presence\<close>

text \<open>
  The claims about the presence store and the JSON it keeps its records in. They hold for every
  server with the laws of \<open>Presence_Laws\<close>; the witnesses use the server of \<open>Mem_Presence\<close>.
\<close>

definition ann :: Participant where
  "ann = \<lparr>pConnectionID = ''k1'', pClientID = ''c1'', pUsername = ''ann'', pInstanceID = ''i1''\<rparr>"

definition ann_present :: presence where
  "ann_present = \<lparr>prMembers = [''k1'' \<mapsto> marshal_participant ann], prExpiry = [''k1'' \<mapsto> 46000], prRevision = 1\<rparr>"

text \<open>Ann joins at one second with a lease of 45 seconds.\<close>

abbreviation ann_joins :: "(view \<times> int) presence_acts" where
  "ann_joins \<equiv> [(at_ms 1000, LinkUp, PJoin ann 45000000000)]"

abbreviation no_db :: "view \<times> int" where
  "no_db \<equiv> (\<lambda>k. None, 0)"

definition ann_db :: "view \<times> int" where
  "ann_db = presence_run (document_exec clock_exec) ''r1'' ann_joins no_db"

lemma at_ms_tick: "0 \<le> t \<Longrightarrow> t < clock_limit \<Longrightarrow> tick_ok fst clock_ok (at_ms t)"
  by (simp add: tick_ok_def at_ms_ok)

lemma ann_valid: "valid_participant ann"
  by code_simp

lemma ann_good: "good_records ann_present"
  using ann_valid by (auto simp: good_records_def ann_present_def ann_def)

lemma ann_member: "prMembers ann_present (pConnectionID ann) = Some (marshal_participant ann)"
  "prExpiry ann_present (pConnectionID ann) = Some 46000" "pConnectionID ann = ''k1''" "prRevision ann_present = 1"
  by (simp_all add: ann_present_def ann_def)

lemma ann_join_present: "spec_call 1000 (PJoin ann 45000000000) no_presence = ann_present"
  by (simp add: spec_join_def no_presence_def ann_present_def ann_def Milliseconds_def)

lemma ann_joins_ok: "run_ok fst clock_ok ann_joins"
  by (simp add: run_ok_def at_ms_tick int64_ok_def)

lemma ann_facts: "clock_ok ann_db" "redis_presence (fst ann_db) ''r1'' ann_present"
  and ann_db_rest: "k \<notin> set (presence_keys ''r1'') \<Longrightarrow> fst ann_db k = None"
proof -
  have "clock_ok (presence_run (document_exec clock_exec) ''r1'' ann_joins no_db) \<and> presence_after ''r1'' (fst no_db)
      (spec_run (call_log (document_exec clock_exec) snd ''r1'' ann_joins no_db) no_presence)
      (fst (presence_run (document_exec clock_exec) ''r1'' ann_joins no_db))"
    by (rule clk.presence_run_effect) (use ann_joins_ok no_presence_empty in \<open>simp_all add: no_presence_def\<close>)
  then show "clock_ok ann_db" "redis_presence (fst ann_db) ''r1'' ann_present"
    "k \<notin> set (presence_keys ''r1'') \<Longrightarrow> fst ann_db k = None"
    unfolding ann_db_def using ann_join_present by (simp_all add: presence_after_def)
qed

subsection \<open>The store\<close>

text \<open>
  C8: The presence store implements the abstract presence: over any sequence of joins, leaves,
  renewals, prunes and snapshots on a room, by any backends, over links that fail before the
  command or lose its reply, with time passing, the four keys are those of the same
  calls on the abstract presence at the times of Redis, and no other key changes.
\<close>

theorem presence_store_refines:
  assumes "presence_server E V K C" "K db" "redis_presence (V db) rid P"
    and "prRevision P + int (length xs) \<le> log_limit" "run_ok V K xs"
  shows "redis_presence (V (presence_run (document_exec E) rid xs db)) rid
      (spec_run (call_log (document_exec E) C rid xs db) P) \<and>
    (\<forall>k. k \<notin> set (presence_keys rid) \<longrightarrow> V (presence_run (document_exec E) rid xs db) k = V db k)"
  using presence_redis.presence_run_effect [OF presence_redis.intro [OF assms(1)] assms(2-5)]
  by (simp add: presence_after_def)

theorem presence_store_refines_witness:
  "redis_presence (fst ann_db) ''r1'' ann_present \<and> fst ann_db (roomContentKey ''r2'') = None"
  using presence_store_refines [OF clock_presence_server, of no_db "''r1''" no_presence ann_joins]
    ann_joins_ok no_presence_empty ann_join_present document_keys_apart [of "''r1''" "''r2''"]
  by (auto simp: no_presence_def ann_db_def room_keys_def)

text \<open>
  C19: The revision tells presence states apart: over any such sequence each call moves it by one if it changes the members, and
  leaves it otherwise. So it never decreases, and when it is what it was the members are what they were; the guard of
  \<open>writePresence\<close>, which drops a snapshot whose revision is not newer, drops no news.
\<close>

theorem presence_revision_guards:
  assumes "presence_server E V K C" "K db" "redis_presence (V db) rid P"
    and "prRevision P + int (length xs) \<le> log_limit" "run_ok V K xs"
  shows "\<exists>Q. Q 0 = P \<and> (\<forall>i. redis_presence (V (presence_run (document_exec E) rid (take i xs) db)) rid (Q i)) \<and>
    (\<forall>i. i < length xs \<longrightarrow> prRevision (Q (Suc i)) = prRevision (Q i) + (if prMembers (Q (Suc i)) = prMembers (Q i) then 0 else 1)) \<and>
    (\<forall>i j. i \<le> j \<longrightarrow> prRevision (Q i) \<le> prRevision (Q j) \<and>
      (prRevision (Q i) = prRevision (Q j) \<longrightarrow> prMembers (Q i) = prMembers (Q j)))"
proof (intro exI [of _ "presence_at (document_exec E) C rid xs db P"] conjI allI impI)
  fix i
  have "prRevision P + int (length (take i xs)) \<le> log_limit" "run_ok V K (take i xs)"
    using assms(4,5) by (auto simp: run_ok_def dest: in_set_takeD)
  from presence_redis.presence_run_effect [OF presence_redis.intro [OF assms(1)] assms(2,3) this]
  show "redis_presence (V (presence_run (document_exec E) rid (take i xs) db)) rid (presence_at (document_exec E) C rid xs db P i)"
    by (simp add: presence_at_def presence_after_def)
next
  fix i j :: nat assume "i \<le> j"
  from presence_at_later [OF this, of "document_exec E" C rid xs db P] spec_run_revision
  show "prRevision (presence_at (document_exec E) C rid xs db P i) \<le> prRevision (presence_at (document_exec E) C rid xs db P j)"
    "prRevision (presence_at (document_exec E) C rid xs db P i) = prRevision (presence_at (document_exec E) C rid xs db P j) \<Longrightarrow>
      prMembers (presence_at (document_exec E) C rid xs db P i) = prMembers (presence_at (document_exec E) C rid xs db P j)"
    by metis+
qed (simp, rule presence_at_Suc)

theorem presence_revision_guards_witness:
  "\<exists>Q. redis_presence (fst (presence_run (document_exec clock_exec) ''r1''
      [(at_ms 2000, ReplyCut 3, PRenew ''k1'' 9000000000), (at_ms 3000, LinkUp, PGet)] ann_db)) ''r1'' Q \<and> 1 \<le> prRevision Q"
proof -
  let ?xs = "[(at_ms 2000, ReplyCut 3, PRenew ''k1'' 9000000000), (at_ms 3000, LinkUp, PGet)]"
  have ok: "run_ok fst clock_ok ?xs" by (auto simp: run_ok_def at_ms_tick int64_ok_def)
  have "prRevision ann_present + int (length ?xs) \<le> log_limit" by (simp add: ann_present_def)
  from presence_revision_guards [OF clock_presence_server ann_facts this ok] obtain Q where Q: "Q 0 = ann_present"
    "redis_presence (fst (presence_run (document_exec clock_exec) ''r1'' (take 2 ?xs) ann_db)) ''r1'' (Q 2)"
    "prRevision (Q 0) \<le> prRevision (Q (2::nat))" by blast
  have "take 2 ?xs = ?xs" by simp
  from Q(2) [unfolded this] Q(1,3) show ?thesis by (intro exI [of _ "Q 2"]) (simp add: ann_present_def)
qed

text \<open>
  C22: \<open>GetPresence\<close> returns exactly the participants whose lease is running, ordered by their
  connection with none twice, under the revision that it leaves in Redis; it drops the lapsed
  members on the way, with one new revision when there are any.
\<close>

theorem presence_snapshot_exact:
  assumes "presence_server E V K C" "K db" "redis_presence (V db) rid P" "prRevision P < log_limit" "good_records P"
  shows "\<exists>s db'. GetPresence (document_exec E) (over_link LinkUp) rid db = (Ok s, db') \<and>
    redis_presence (V db') rid (spec_prune (C db) P) \<and> psRevision s = prRevision (spec_prune (C db) P) \<and>
    set (psParticipants s) = live_participants (C db) P \<and> sorted_wrt (<) (map pConnectionID (psParticipants s))"
  using presence_redis.GetPresence_runs [OF presence_redis.intro [OF assms(1)] assms(2-5)]
  unfolding presence_after_def by metis

theorem presence_snapshot_exact_witness:
  "\<exists>s db'. GetPresence (document_exec clock_exec) (over_link LinkUp) ''r1'' (at_ms 2000 ann_db) = (Ok s, db') \<and>
    psParticipants s = [ann] \<and> psRevision s = 1"
proof -
  have live: "live_participants 2000 ann_present = {ann}"
    using ann_valid ann_good participant_of_member [of ann_present "''k1''"]
    by (auto simp: live_participants_def ann_present_def lapsed_def ann_def split: if_splits)
      (metis (no_types) option.inject unmarshal_participant_render)
  have rev: "prRevision (spec_prune 2000 ann_present) = 1" by (simp add: spec_prune_def ann_present_def lapsed_def)
  obtain s db' where s: "GetPresence (document_exec clock_exec) (over_link LinkUp) ''r1'' (at_ms 2000 ann_db) = (Ok s, db')"
    "psRevision s = 1" "set (psParticipants s) = {ann}" "sorted_wrt (<) (map pConnectionID (psParticipants s))"
    using presence_snapshot_exact [OF clock_presence_server, of "at_ms 2000 ann_db" "''r1''" ann_present]
      ann_facts ann_good live rev at_ms_ok [OF _ _ ann_facts(1), of 2000] by (auto simp: ann_present_def)
  have "distinct (psParticipants s)" using s(4) by (metis distinct_map strict_sorted_iff)
  then have "psParticipants s = [ann]" using s(3)
    by (metis distinct_singleton set_empty2 distinct.simps(2) list.exhaust list.set_intros(1) list.set_intros(2) singletonD insert_not_empty list.set(1))
  then show ?thesis using s(1,2) by blast
qed

text \<open>
  A renewal answers whether the lease was still running. If it was, the lease then ends at
  the later of its old end and the new one; if it was not, or the connection is no member, nothing
  changes: a renewal never brings a member back and never shortens a lease, and it is no change
  of the members.
\<close>

theorem renewal_never_resurrects:
  assumes "presence_server E V K C" "K db" "redis_presence (V db) rid P" "int64_ok d" "0 < Milliseconds d"
  shows "\<exists>db' Q. RenewPresence (document_exec E) (over_link LinkUp) rid f d db = (Ok (renewable (C db) f P), db') \<and>
    redis_presence (V db') rid Q \<and> prMembers Q = prMembers P \<and> prRevision Q = prRevision P \<and>
    prExpiry Q = (if renewable (C db) f P
      then (prExpiry P)(f \<mapsto> max (the (prExpiry P f)) (C db + Milliseconds d)) else prExpiry P)"
proof -
  obtain db' where *: "RenewPresence (document_exec E) (over_link LinkUp) rid f d db = (Ok (renewable (C db) f P), db')"
    "presence_after rid (V db) (spec_renew (C db) f (Milliseconds d) P) (V db')"
    by (rule presence_redis.RenewPresence_runs [OF presence_redis.intro [OF assms(1)] assms(2-5)])
  show ?thesis
    by (intro exI [of _ db'] exI [of _ "spec_renew (C db) f (Milliseconds d) P"])
      (use * in \<open>auto simp: presence_after_def spec_renew_def renewable_def lapsed_def max_def fun_eq_iff split: option.splits\<close>)
qed

theorem renewal_never_resurrects_witness:
  "\<exists>db'. RenewPresence (document_exec clock_exec) (over_link LinkUp) ''r1'' ''k1'' 45000000000 (at_ms 46000 ann_db) = (Ok False, db')"
  using renewal_never_resurrects [OF clock_presence_server, of "at_ms 46000 ann_db" "''r1''" ann_present 45000000000 "''k1''"]
    ann_facts at_ms_ok [OF _ _ ann_facts(1), of 46000]
  by (auto simp: int64_ok_def Milliseconds_def renewable_def ann_present_def lapsed_def)

subsection \<open>Leases\<close>

text \<open>
  A running lease holds: a participant with a lease to time \<open>n\<close> is in the snapshot of every
  backend before \<open>n\<close>, whatever joins, renewals, prunes and snapshots of any backends came in
  between, over whatever links, unless its own connection left.
\<close>

theorem lease_holds:
  assumes "presence_server E V K C" "K db" "redis_presence (V db) rid P" "good_records P"
    and "prRevision P + int (length xs) < log_limit" "run_ok V K xs" "\<forall>(tick, l, c)\<in>set xs. joins_valid c"
    and "valid_participant p" "prMembers P (pConnectionID p) = Some (marshal_participant p)" "prExpiry P (pConnectionID p) = Some n"
    and "\<forall>(now, l, c)\<in>set (call_log (document_exec E) C rid xs db). now < n \<and> c \<noteq> PLeave (pConnectionID p)"
    and "tick_ok V K tick" "C (tick (presence_run (document_exec E) rid xs db)) < n"
  shows "\<exists>s db'. GetPresence (document_exec E) (over_link LinkUp) rid (tick (presence_run (document_exec E) rid xs db)) = (Ok s, db') \<and>
    p \<in> set (psParticipants s)"
proof -
  let ?Q = "spec_run (call_log (document_exec E) C rid xs db) P"
  obtain s db' where "GetPresence (document_exec E) (over_link LinkUp) rid (tick (presence_run (document_exec E) rid xs db)) = (Ok s, db')"
    "set (psParticipants s) = live_participants (C (tick (presence_run (document_exec E) rid xs db))) ?Q"
    by (rule presence_redis.run_then_get [OF presence_redis.intro [OF assms(1)] assms(2,3,5,6,4,7,12)])
  moreover obtain m where "prMembers ?Q (pConnectionID p) = Some (marshal_participant p)" "prExpiry ?Q (pConnectionID p) = Some m" "n \<le> m"
    using spec_run_held [OF assms(9-11)] by blast
  ultimately show ?thesis using assms(8,13) by (auto simp: live_participants_def lapsed_def)
qed

theorem lease_holds_witness:
  "\<exists>s db'. GetPresence (document_exec clock_exec) (over_link LinkUp) ''r1'' (at_ms 45999
      (presence_run (document_exec clock_exec) ''r1'' [(at_ms 30000, LinkUp, PPrune), (at_ms 40000, ReplyCut 0, PLeave ''k2'')] ann_db))
      = (Ok s, db') \<and> ann \<in> set (psParticipants s)"
  by (rule lease_holds [OF clock_presence_server ann_facts ann_good, of
        "[(at_ms 30000, LinkUp, PPrune), (at_ms 40000, ReplyCut 0, PLeave ''k2'')]" ann 46000 "at_ms 45999"])
    (use ann_valid ann_member in \<open>simp_all add: run_ok_def at_ms_tick\<close>)

text \<open>
  A lease ends: when no lease of a connection, neither the one it had nor one granted to it
  by a later join or renewal, reaches beyond the time of a snapshot, the snapshot does not list it.
  So the participants of a backend that stopped sending heartbeats are gone when their leases are.
\<close>

theorem lease_ends:
  assumes "presence_server E V K C" "K db" "redis_presence (V db) rid P" "good_records P"
    and "prRevision P + int (length xs) < log_limit" "run_ok V K xs" "\<forall>(tick, l, c)\<in>set xs. joins_valid c"
    and "tick_ok V K tick" "now = C (tick (presence_run (document_exec E) rid xs db))"
    and "\<forall>n. prExpiry P f = Some n \<or> (f, n) \<in> set (concat (map grants (call_log (document_exec E) C rid xs db))) \<longrightarrow> n \<le> now"
  shows "\<exists>s db'. GetPresence (document_exec E) (over_link LinkUp) rid (tick (presence_run (document_exec E) rid xs db)) = (Ok s, db') \<and>
    f \<notin> pConnectionID ` set (psParticipants s)"
proof -
  let ?Q = "spec_run (call_log (document_exec E) C rid xs db) P"
  obtain s db' where "GetPresence (document_exec E) (over_link LinkUp) rid (tick (presence_run (document_exec E) rid xs db)) = (Ok s, db')"
    "set (psParticipants s) = live_participants now ?Q"
    unfolding assms(9) by (rule presence_redis.run_then_get [OF presence_redis.intro [OF assms(1)] assms(2,3,5,6,4,7,8)])
  moreover have "lapsed now ?Q f"
    using spec_run_grants [of "call_log (document_exec E) C rid xs db" P f] assms(10)
    unfolding lapsed_def by (auto split: option.split)
  ultimately show ?thesis by (auto simp: live_participants_def)
qed

theorem lease_ends_witness:
  "\<exists>s db'. GetPresence (document_exec clock_exec) (over_link LinkUp) ''r1'' (at_ms 60000
      (presence_run (document_exec clock_exec) ''r1'' [(at_ms 15000, LinkUp, PRenew ''k1'' 45000000000)] ann_db))
      = (Ok s, db') \<and> ''k1'' \<notin> pConnectionID ` set (psParticipants s)"
  by (rule lease_ends [OF clock_presence_server ann_facts ann_good, of
        "[(at_ms 15000, LinkUp, PRenew ''k1'' 45000000000)]" "at_ms 60000" 60000 "''k1''"])
    (simp_all add: ann_present_def run_ok_def at_ms_tick int64_ok_def Milliseconds_def)

subsection \<open>Documents and presence\<close>

text \<open>
  Documents and presence share Redis and do not disturb each other: presence calls on a room
  leave the log of every room, and an edit leaves the presence of every room, as they were.
\<close>

theorem presence_and_documents_apart:
  fixes w :: write_op
  assumes "presence_server E V K C" "K db" "redis_presence (V db) rid P" "redis_room (V db) rid L" "int (length L) < log_limit"
    and "prRevision P + int (length xs) \<le> log_limit" "run_ok V K xs"
  shows "(\<forall>rid' L'. redis_room (V (presence_run (document_exec E) rid xs db)) rid' L' \<longleftrightarrow> redis_room (V db) rid' L') \<and>
    (\<forall>rid' Q. redis_presence (V (snd (ApplyContentUpdate_store (document_exec E) calm rid (wContent w) (wBase w) policy oid cid u db)))
      rid' Q \<longleftrightarrow> redis_presence (V db) rid' Q)"
proof (intro conjI allI)
  fix rid' L'
  have "presence_after rid (V db) (spec_run (call_log (document_exec E) C rid xs db) P)
      (V (presence_run (document_exec E) rid xs db))"
    using presence_redis.presence_run_effect [OF presence_redis.intro [OF assms(1)] assms(2,3,6,7)] by blast
  then show "redis_room (V (presence_run (document_exec E) rid xs db)) rid' L' \<longleftrightarrow> redis_room (V db) rid' L'"
    using document_keys_apart [of rid rid'] by (intro redis_room_frame) (auto simp: presence_after_def)
next
  fix rid' Q
  obtain sid db' where *: "ApplyContentUpdate_store (document_exec E) calm rid (wContent w) (wBase w) policy oid cid u db =
      (Ok (occ_result policy w (snapshot_of L) sid), db')"
    "applied V K rid L (before calm 0 db) policy w oid cid u sid db'"
    using store_apply_linkup [OF presence_server_base [OF assms(1)], of calm db rid L w policy oid cid u] assms(2,4,5)
    by auto
  have "V db' k = V db k" if "k \<in> set (presence_keys rid')" for k
  proof -
    have "k \<notin> set (room_keys rid)" using that document_keys_apart [of rid' rid] by blast
    then show ?thesis using *(2) by (auto simp: applied_def room_keys_def script_keys_def split: if_splits)
  qed
  then show "redis_presence (V (snd (ApplyContentUpdate_store (document_exec E) calm rid (wContent w) (wBase w) policy oid cid u db)))
      rid' Q \<longleftrightarrow> redis_presence (V db) rid' Q"
    using * redis_presence_frame [of rid' "V db'" "V db" Q] by simp
qed

lemma demo_presence: "redis_presence demo_db ''r1'' no_presence"
proof -
  have "demo_db k = None" if "k \<in> set (presence_keys ''r1'')" for k
    using document_keys_apart [of "''r1''" "''r1''"] that by (auto simp: mem_room_def room_keys_def)
  then show ?thesis using redis_presence_frame [of "''r1''" demo_db "\<lambda>k. None" no_presence] no_presence_empty by simp
qed

theorem presence_and_documents_apart_witness:
  "redis_room (fst (presence_run (document_exec clock_exec) ''r1'' ann_joins (demo_db, 0))) ''r1'' demo_log"
proof -
  have "clock_ok (demo_db, 0)" by (simp add: clock_ok_def)
  note apart = presence_and_documents_apart [OF clock_presence_server this, of "''r1''" no_presence demo_log ann_joins
      "\<lparr>wContent = [], wBase = 0\<rparr>", THEN conjunct1, rule_format, THEN iffD2]
  have "int (length demo_log) < log_limit" "prRevision no_presence + int (length ann_joins) \<le> log_limit"
    by (simp_all add: demo_log_def no_presence_def)
  then show ?thesis
    by (intro apart ann_joins_ok) (simp_all only: fst_conv demo_presence demo_room)
qed

subsection \<open>JSON\<close>

text \<open>
  C37: A message or a presence record that is marshalled and unmarshalled comes back, whatever the
  strings hold (quotes, control characters, any valid UTF-8) and for every 64-bit number, with
  the absent fields absent: \<open>json.Unmarshal\<close> after \<open>json.Marshal\<close> is the identity on them.
\<close>

theorem message_roundtrip:
  assumes "valid_message m" "valid_participant p"
  shows "unmarshal_message (marshal_message m) = Some m \<and> unmarshal_participant (marshal_participant p) = Some p"
  using unmarshal_message_render [OF assms(1)] unmarshal_participant_render [OF assms(2)] by simp

definition odd_message :: Message where
  "odd_message = zero_message\<lparr>mType := ''content_update'', mContent := [CHR 0x22, CHR 0x0A, CHR ''<'', CHR 0xC3, CHR 0xA9],
     mBaseVersion := Some 0, mSequence := 9223372036854775807, mAccepted := Some False\<rparr>"

theorem message_roundtrip_witness:
  "unmarshal_message (marshal_message odd_message) = Some odd_message"
proof -
  have "valid_message odd_message" by code_simp
  from message_roundtrip [OF this ann_valid] show ?thesis by simp
qed

end
