(* ===== verification/Operation.thy ===== *)
theory Operation
  imports Room_Facts Telemetry "HOL-Library.Monad_Syntax"
begin

section \<open>A content update from a client\<close>

text \<open>
  \<open>handleContentUpdate\<close> of \<^verbatim>\<open>backend/ws.go\<close>: a message from a socket becomes a write to the
  document, an answer to the sender, and, in a room without Redis, a broadcast. The handler of
  one connection runs beside those of the others and the watcher: \<open>opOthers i\<close> is what they do to
  the shared world before the handler's \<open>i\<close>-th access to it, and \<open>opNet i\<close> what happens to the
  calls of its \<open>i\<close>-th access to Redis. \<open>None\<close> is a panic.
\<close>

subsection \<open>The shared world\<close>

record 'db world =
  woRoom :: Room
  woHeap :: heap
  woDb :: 'db

record 'db op_env =
  opNet :: "nat \<Rightarrow> 'db net"
  opOthers :: "nat \<Rightarrow> 'db world \<Rightarrow> 'db world"
  opConfig :: Config
  opTraceID :: string
  opSpanID :: string
  opStarted :: int64
  opEnded :: int64
  opElapsed :: float64
  opDurationMs :: float64
  opErrorText :: "store_error \<Rightarrow> string"

definition put_client :: "ptr \<Rightarrow> client \<Rightarrow> 'db world \<Rightarrow> 'db world" where
  "put_client p c w = w\<lparr>woHeap := (woHeap w)(p := c)\<rparr>"

text \<open>A write to the socket of a client: whether it succeeded.\<close>

definition send_json :: "ptr \<Rightarrow> Message \<Rightarrow> 'db world \<Rightarrow> (bool \<times> 'db world) option" where
  "send_json p m w = (case WriteJSON (woHeap w p) m of
     (Ok u, c) \<Rightarrow> Some (True, put_client p c w)
   | (Err e, c) \<Rightarrow> Some (False, put_client p c w)
   | (Panic, c) \<Rightarrow> None)"

definition read_snapshot :: "'db exec \<Rightarrow> 'db net \<Rightarrow> 'db world \<Rightarrow> (RoomSnapshot \<times> 'db world) option" where
  "read_snapshot exec net w = (case GetSnapshot exec net (woRoom w) (woDb w) of
     (Ok s, r, db) \<Rightarrow> Some (s, w\<lparr>woRoom := r, woDb := db\<rparr>)
   | _ \<Rightarrow> None)"

definition write_document :: "'db exec \<Rightarrow> 'db net \<Rightarrow> string \<Rightarrow> int64 \<Rightarrow> StaleWritePolicy \<Rightarrow> string \<Rightarrow> string \<Rightarrow>
    string \<Rightarrow> 'db world \<Rightarrow> ((store_error + ApplyContentResult) \<times> 'db world) option" where
  "write_document exec net content base policy operation clientID username w =
     (case ApplyOperation exec net content base policy operation clientID username (woRoom w) (woDb w) of
        (Ok result, r, db) \<Rightarrow> Some (Inr result, w\<lparr>woRoom := r, woDb := db\<rparr>)
      | (Err e, r, db) \<Rightarrow> Some (Inl e, w\<lparr>woRoom := r, woDb := db\<rparr>)
      | (Panic, r, db) \<Rightarrow> None)"

subsection \<open>Messages\<close>

definition invalid_result :: "Message \<Rightarrow> string \<Rightarrow> RoomSnapshot \<Rightarrow> Message" where
  "invalid_result incoming clientID snapshot = zero_message\<lparr>
     mType := ''operation_result'', mOperationID := mOperationID incoming, mClientID := clientID,
     mAccepted := Some False, mReason := ''operation_id_and_base_version_required'',
     mServerVersion := sVersion snapshot, mSequence := sSequence snapshot\<rparr>"

definition failed_result :: "Message \<Rightarrow> Message" where
  "failed_result incoming = zero_message\<lparr>
     mType := ''operation_result'', mOperationID := mOperationID incoming, mAccepted := Some False,
     mReason := ''storage_error''\<rparr>"

definition operation_result :: "Message \<Rightarrow> string \<Rightarrow> ApplyContentResult \<Rightarrow> Message" where
  "operation_result incoming clientID r = zero_message\<lparr>
     mType := ''operation_result'', mOperationID := mOperationID incoming, mClientID := clientID,
     mBaseVersion := Some (arBaseVersion r), mPreviousVersion := arPreviousVersion r,
     mServerVersion := arServerVersion r, mSequence := arSequence r, mStreamID := arStreamID r,
     mAccepted := Some (arAccepted r), mStale := arStale r, mReason := arReason r\<rparr>"

definition resync_state :: "string list \<Rightarrow> ApplyContentResult \<Rightarrow> Message" where
  "resync_state users r = zero_message\<lparr>
     mType := ''room_state'', mContent := arContent r, mUsers := users,
     mServerVersion := arServerVersion r, mSequence := arSequence r, mReason := ''resync_after_conflict''\<rparr>"

definition local_update :: "string \<Rightarrow> Message \<Rightarrow> string \<Rightarrow> ApplyContentResult \<Rightarrow> Message" where
  "local_update username incoming clientID r = zero_message\<lparr>
     mType := ''content_update'', mContent := arContent r, mUsername := username,
     mOperationID := mOperationID incoming, mClientID := clientID, mBaseVersion := Some (arBaseVersion r),
     mPreviousVersion := arPreviousVersion r, mServerVersion := arServerVersion r,
     mSequence := arSequence r, mStreamID := arStreamID r, mAccepted := Some True, mStale := arStale r\<rparr>"

subsection \<open>Telemetry\<close>

definition op_trace :: "'db op_env \<Rightarrow> string \<Rightarrow> Message \<Rightarrow> string \<Rightarrow> TraceEvent" where
  "op_trace env rid incoming clientID = zero_trace\<lparr>
     tTraceID := opTraceID env, tSpanID := opSpanID env, tInstanceID := InstanceID (opConfig env),
     tRoomID := rid, tOperationID := mOperationID incoming, tClientID := clientID\<rparr>"

definition received_effects :: "'db op_env \<Rightarrow> string \<Rightarrow> Message \<Rightarrow> string \<Rightarrow> int64 \<Rightarrow> RoomSnapshot \<Rightarrow> effect list" where
  "received_effects env rid incoming clientID base s =
     [Logged ''info'' ''operation_received''
        [(''traceId'', AStr (opTraceID env)), (''operationId'', AStr (mOperationID incoming)),
         (''clientId'', AStr clientID), (''roomId'', AStr rid), (''baseVersion'', AInt base),
         (''serverVersion'', AInt (sVersion s))],
      Traced ((op_trace env rid incoming clientID)\<lparr>
        tStage := ''server_received'', tBaseVersion := base, tServerVersion := sVersion s,
        tEventSequence := sSequence s, tContent := mContent incoming\<rparr>)]"

definition failed_effects :: "'db op_env \<Rightarrow> string \<Rightarrow> Message \<Rightarrow> string \<Rightarrow> store_error \<Rightarrow> effect list" where
  "failed_effects env rid incoming clientID e =
     [Metric OperationError, Metric (ObserveOperation (opElapsed env)),
      Logged ''error'' ''operation_failed''
        [(''traceId'', AStr (opTraceID env)), (''operationId'', AStr (mOperationID incoming)), (''roomId'', AStr rid),
         (''error'', AStr (opErrorText env e)), (''durationMs'', AFloat (opDurationMs env))],
      Exported (zero_span\<lparr>
        spTraceID := opTraceID env, spSpanID := opSpanID env, spName := ''livecollab.document.operation'',
        spStart := opStarted env, spEnd := Some (opEnded env), spError := opErrorText env e,
        spAttributes := [(''room.id'', AStr rid), (''operation.id'', AStr (mOperationID incoming)),
          (''client.id'', AStr clientID)]\<rparr>),
      Traced ((op_trace env rid incoming clientID)\<lparr>tStage := ''server_apply_error'', tReason := opErrorText env e\<rparr>)]"

definition result_trace :: "'db op_env \<Rightarrow> string \<Rightarrow> Message \<Rightarrow> string \<Rightarrow> ApplyContentResult \<Rightarrow> string \<Rightarrow> TraceEvent" where
  "result_trace env rid incoming clientID r stage = (op_trace env rid incoming clientID)\<lparr>
     tStage := stage, tEventSequence := arSequence r, tStreamID := arStreamID r,
     tBaseVersion := arBaseVersion r, tPreviousVersion := arPreviousVersion r,
     tServerVersion := arServerVersion r, tAccepted := Some (arAccepted r), tStale := arStale r,
     tReason := arReason r\<rparr>"

definition applied_effects :: "'db op_env \<Rightarrow> string \<Rightarrow> Message \<Rightarrow> string \<Rightarrow> ApplyContentResult \<Rightarrow> effect list" where
  "applied_effects env rid incoming clientID r =
     (if \<not> arAccepted r \<and> arStale r then [Metric StaleWriteRejected] else []) @
     [Traced ((result_trace env rid incoming clientID r (if arAccepted r then ''server_applied'' else ''server_rejected''))
        \<lparr>tContent := arContent r\<rparr>)]"

definition answered_effects :: "'db op_env \<Rightarrow> string \<Rightarrow> Message \<Rightarrow> string \<Rightarrow> ApplyContentResult \<Rightarrow> bool \<Rightarrow> effect list" where
  "answered_effects env rid incoming clientID r sent =
     (if sent then [Traced (result_trace env rid incoming clientID r ''server_acknowledged'')] else []) @
     [Metric (ObserveOperation (opElapsed env)),
      Logged ''info'' ''operation_completed''
        [(''traceId'', AStr (opTraceID env)), (''operationId'', AStr (mOperationID incoming)), (''clientId'', AStr clientID),
         (''roomId'', AStr rid), (''accepted'', ABool (arAccepted r)), (''stale'', ABool (arStale r)),
         (''serverVersion'', AInt (arServerVersion r)), (''eventSequence'', AInt (arSequence r)),
         (''durationMs'', AFloat (opDurationMs env))],
      Exported (zero_span\<lparr>
        spTraceID := opTraceID env, spSpanID := opSpanID env, spName := ''livecollab.document.operation'',
        spStart := opStarted env, spEnd := Some (opEnded env),
        spAttributes := [(''room.id'', AStr rid), (''operation.id'', AStr (mOperationID incoming)),
          (''client.id'', AStr clientID), (''operation.accepted'', ABool (arAccepted r)),
          (''operation.stale'', ABool (arStale r)), (''document.base_version'', AInt (arBaseVersion r)),
          (''document.server_version'', AInt (arServerVersion r)), (''event.sequence'', AInt (arSequence r))]\<rparr>)]"

subsection \<open>The handler\<close>

text \<open>After the write: the answer, and what follows from it.\<close>

definition answer_operation :: "'db op_env \<Rightarrow> ptr \<Rightarrow> Message \<Rightarrow> string \<Rightarrow> ApplyContentResult \<Rightarrow> effect list \<Rightarrow> 'db world \<Rightarrow>
    (effect list \<times> 'db world) option" where
  "answer_operation env p incoming clientID r effs w = do {
     let rid = rID (woRoom w);
     (sent, w) \<leftarrow> send_json p (operation_result incoming clientID r) (opOthers env 2 w);
     let effs = effs @ applied_effects env rid incoming clientID r @ answered_effects env rid incoming clientID r sent;
     let w = opOthers env 3 w;
     if \<not> arAccepted r then do {
       let users = roomStateUsers (woHeap w) (woRoom w);
       (sent, w) \<leftarrow> send_json p (resync_state users r) (opOthers env 4 w);
       Some (effs, w)
     }
     else if rStore (woRoom w) then Some (effs, w)
     else do {
       h \<leftarrow> BroadcastJSON (local_update (cUsername (woHeap w p)) incoming clientID r) (woRoom w) (woHeap w);
       Some (effs, w\<lparr>woHeap := h\<rparr>)
     }
   }"

definition fail_operation :: "'db op_env \<Rightarrow> ptr \<Rightarrow> Message \<Rightarrow> string \<Rightarrow> store_error \<Rightarrow> effect list \<Rightarrow> 'db world \<Rightarrow>
    (effect list \<times> 'db world) option" where
  "fail_operation env p incoming clientID e effs w = do {
     let rid = rID (woRoom w);
     (sent, w) \<leftarrow> send_json p (failed_result incoming) (opOthers env 2 w);
     Some (effs @ failed_effects env rid incoming clientID e, w)
   }"

text \<open>A complete operation, after the snapshot that is logged with it.\<close>

definition perform_operation :: "'db exec \<Rightarrow> 'db op_env \<Rightarrow> ptr \<Rightarrow> Message \<Rightarrow> string \<Rightarrow> int64 \<Rightarrow> RoomSnapshot \<Rightarrow> 'db world \<Rightarrow>
    (effect list \<times> 'db world) option" where
  "perform_operation exec env p incoming clientID base prior w = do {
     let effs = Metric OperationStarted # received_effects env (rID (woRoom w)) incoming clientID base prior;
     (result, w) \<leftarrow> write_document exec (opNet env 1) (mContent incoming) base (StaleWritePolicy (opConfig env))
       (mOperationID incoming) clientID (cUsername (woHeap w p)) w;
     case result of
       Inl e \<Rightarrow> fail_operation env p incoming clientID e effs w
     | Inr r \<Rightarrow> answer_operation env p incoming clientID r effs w
   }"

definition refuse_operation :: "ptr \<Rightarrow> Message \<Rightarrow> string \<Rightarrow> RoomSnapshot \<Rightarrow> 'db world \<Rightarrow> (effect list \<times> 'db world) option" where
  "refuse_operation p incoming clientID prior w = do {
     (sent, w) \<leftarrow> send_json p (invalid_result incoming clientID prior) w;
     Some ([Metric OperationStarted], w)
   }"

definition client_id_of :: "Message \<Rightarrow> client \<Rightarrow> string" where
  "client_id_of incoming c = (if mClientID incoming = [] then cClientID c else mClientID incoming)"

definition handleContentUpdate :: "'db exec \<Rightarrow> 'db op_env \<Rightarrow> ptr \<Rightarrow> Message \<Rightarrow> 'db world \<Rightarrow>
    (effect list \<times> 'db world) option" where
  "handleContentUpdate exec env p incoming w = do {
     let w = opOthers env 0 w;
     let clientID = client_id_of incoming (woHeap w p);
     (prior, w) \<leftarrow> read_snapshot exec (opNet env 0) w;
     let w = opOthers env 1 w;
     case mBaseVersion incoming of
       None \<Rightarrow> refuse_operation p incoming clientID prior w
     | Some base \<Rightarrow>
         if mOperationID incoming = [] then refuse_operation p incoming clientID prior w
         else perform_operation exec env p incoming clientID base prior w
   }"

end
