(* ===== verification/Session.thy ===== *)
theory Session
  imports Operation Resume Manager Presence_Store
begin

section \<open>A WebSocket session\<close>

text \<open>
  \<open>serveWS\<close> of \<^verbatim>\<open>backend/ws.go\<close>: a request becomes a session of one client in one room, from the
  first checks over the join, the resume or the initial state, and the loop over its messages, to
  the deferred clean-up. The backend is the manager with its room objects, the heap of clients, and
  Redis. \<open>seOthers i\<close> is what the other goroutines do to the backend before the session's
  \<open>i\<close>-th step, \<open>seNet i\<close> what happens to the calls of its \<open>i\<close>-th access to Redis. \<open>None\<close> is a panic.
  The heartbeat goroutine is modelled in theory \<open>Heartbeat\<close>.
\<close>

record ws_request =
  wqRoomID :: string
  wqUsername :: string
  wqClientID :: string
  wqLastSequence :: string
  wqOrigin :: string
  wqHandshake :: bool

text \<open>A message that was read, and whether the read deadline could be moved after it.\<close>

datatype ws_input = Received string bool

record 'db backend =
  bkManager :: manager
  bkHeap :: heap
  bkDb :: 'db

record 'db session_env =
  seConfig :: Config
  seRandom :: "string option"
  seConn :: conn
  seClient :: ptr
  seNet :: "nat \<Rightarrow> 'db net"
  seGetOthers :: "manager \<Rightarrow> manager"
  seOthers :: "nat \<Rightarrow> 'db backend \<Rightarrow> 'db backend"
  seResume :: "'db resume_env"
  seOp :: "nat \<Rightarrow> 'db op_env"
  seErrorText :: "presence_error \<Rightarrow> string"

text \<open>
  How a request ends: refused with a status, not upgraded, closed for want of an identity, or after
  a session.
\<close>

datatype served = HttpError nat string | NotUpgraded | NoIdentity | Ended room_ptr

subsection \<open>Steps on the room of the session\<close>

definition room_world :: "room_ptr \<Rightarrow> 'db backend \<Rightarrow> 'db world" where
  "room_world rp b = \<lparr>woRoom = mObjs (bkManager b) rp, woHeap = bkHeap b, woDb = bkDb b\<rparr>"

definition with_room :: "room_ptr \<Rightarrow> 'db world \<Rightarrow> 'db backend \<Rightarrow> 'db backend" where
  "with_room rp w b = b\<lparr>bkManager := (bkManager b)\<lparr>mObjs := (mObjs (bkManager b))(rp := woRoom w)\<rparr>,
     bkHeap := woHeap w, bkDb := woDb w\<rparr>"

definition on_room :: "room_ptr \<Rightarrow> ('db world \<Rightarrow> ('a \<times> 'db world) option) \<Rightarrow> 'db backend \<Rightarrow> ('a \<times> 'db backend) option" where
  "on_room rp f b = map_option (\<lambda>(x, w). (x, with_room rp w b)) (f (room_world rp b))"

definition map_room :: "room_ptr \<Rightarrow> (Room \<Rightarrow> Room) \<Rightarrow> 'db backend \<Rightarrow> 'db backend" where
  "map_room rp f b = with_room rp ((room_world rp b)\<lparr>woRoom := f (woRoom (room_world rp b))\<rparr>) b"

definition error_message :: "string \<Rightarrow> Message" where
  "error_message reason = zero_message\<lparr>mType := ''error'', mReason := reason\<rparr>"

definition broadcast_presence :: "room_ptr \<Rightarrow> 'db backend \<Rightarrow> 'db backend option" where
  "broadcast_presence rp b = map_option (\<lambda>h. b\<lparr>bkHeap := h\<rparr>) (BroadcastPresence (mObjs (bkManager b) rp) (bkHeap b))"

definition send_presence :: "ptr \<Rightarrow> PresenceSnapshot \<Rightarrow> 'db backend \<Rightarrow> (bool \<times> 'db backend) option" where
  "send_presence p s b = (case writePresence s (bkHeap b p) of
     (Panic, c) \<Rightarrow> None
   | (r, c) \<Rightarrow> Some (r = Ok (), b\<lparr>bkHeap := (bkHeap b)(p := c)\<rparr>))"

subsection \<open>The start of a session\<close>

definition new_client :: "'db session_env \<Rightarrow> ws_request \<Rightarrow> string \<Rightarrow> string \<Rightarrow> bool \<Rightarrow> int64 \<Rightarrow> client" where
  "new_client env req clientID connectionID store lastSeq =
     (let c = \<lparr>cConn = Some (seConn env), cUsername = wqUsername req, cRoomID = wqRoomID req, cClientID = clientID,
        cConnectionID = connectionID, cInstanceID = InstanceID (seConfig env), presenceRevision = 0,
        presenceSent = False, replaying = False, lastSequence = 0, pending = None\<rparr>
      in if store \<and> 0 < lastSeq then beginReplay lastSeq c else c)"

definition connect_effects :: "'db session_env \<Rightarrow> ws_request \<Rightarrow> string \<Rightarrow> int64 \<Rightarrow> effect list" where
  "connect_effects env req clientID lastSeq =
     [Metric WebSocketConnected] @ (if 0 < lastSeq then [Metric ReconnectStarted] else []) @
     [Logged ''info'' ''websocket_connected''
        [(''roomId'', AStr (wqRoomID req)), (''clientId'', AStr clientID), (''username'', AStr (wqUsername req)),
         (''resumeCursor'', AInt lastSeq)],
      Traced (zero_trace\<lparr>tStage := ''client_connected'', tInstanceID := InstanceID (seConfig env),
        tRoomID := wqRoomID req, tClientID := clientID, tEventSequence := lastSeq\<rparr>)]"

text \<open>The first result of each phase says whether the session goes on.\<close>

definition join_presence :: "'db exec \<Rightarrow> 'db session_env \<Rightarrow> room_ptr \<Rightarrow> 'db backend \<Rightarrow> ((bool \<times> effect list) \<times> 'db backend) option" where
  "join_presence exec env rp b =
     (let room = mObjs (bkManager b) rp; p = seClient env; c = bkHeap b p in
      if \<not> rStore room then map_option (Pair (True, [])) (broadcast_presence rp b)
      else case JoinPresence exec (seNet env 1) (rID room) (participant c) [LeaseDuration (mTiming (bkManager b))] (bkDb b) of
         (Panic, db) \<Rightarrow> None
       | (Ok u, db) \<Rightarrow> Some ((True, []), b\<lparr>bkManager := ensurePresenceWatcher rp (bkManager b), bkDb := db\<rparr>)
       | (Err e, db) \<Rightarrow> do {
           (sent, b) \<leftarrow> on_room rp (send_json p (error_message ''presence_unavailable'')) (b\<lparr>bkDb := db\<rparr>);
           Some ((False, [Logged ''error'' ''presence_join_failed''
             [(''roomId'', AStr (rID room)), (''connectionId'', AStr (cConnectionID c)), (''error'', AStr (seErrorText env e))]]), b)
         })"

definition room_state :: "RoomSnapshot \<Rightarrow> string list \<Rightarrow> Message" where
  "room_state s users = zero_message\<lparr>mType := ''room_state'', mContent := sContent s, mUsers := users,
     mServerVersion := sVersion s, mSequence := sSequence s\<rparr>"

definition initial_state :: "'db exec \<Rightarrow> 'db session_env \<Rightarrow> room_ptr \<Rightarrow> int64 \<Rightarrow> 'db backend \<Rightarrow> ((bool \<times> effect list) \<times> 'db backend) option" where
  "initial_state exec env rp lastSeq b =
     (let room = mObjs (bkManager b) rp; p = seClient env in
      if rStore room \<and> 0 < lastSeq then
        (case resumeClient exec (seResume env) (rID room) (bkHeap b p) lastSeq (bkDb b) of
           None \<Rightarrow> None
         | Some (Panic, c, effs, db) \<Rightarrow> None
         | Some (Ok u, c, effs, db) \<Rightarrow> Some ((True, effs), b\<lparr>bkHeap := (bkHeap b)(p := c), bkDb := db\<rparr>)
         | Some (Err e, c, effs, db) \<Rightarrow> do {
             (sent, b) \<leftarrow> on_room rp (send_json p (error_message ''resume_failed'')) (b\<lparr>bkHeap := (bkHeap b)(p := c), bkDb := db\<rparr>);
             Some ((False, effs @ [Metric ResumeFailed]), b)
           })
      else do {
        (snapshot, b) \<leftarrow> on_room rp (read_snapshot exec (seNet env 2)) b;
        let b = seOthers env 3 b;
        let users = roomStateUsers (bkHeap b) (mObjs (bkManager b) rp);
        (sent, b) \<leftarrow> on_room rp (send_json p (room_state snapshot users)) (seOthers env 4 b);
        Some ((sent, []), b)
      })"

definition initial_presence :: "'db exec \<Rightarrow> 'db session_env \<Rightarrow> room_ptr \<Rightarrow> 'db backend \<Rightarrow> (bool \<times> 'db backend) option" where
  "initial_presence exec env rp b =
     (let room = mObjs (bkManager b) rp; p = seClient env in
      if \<not> rStore room then Some (True, b)
      else case GetPresence exec (seNet env 3) (rID room) (bkDb b) of
         (Panic, db) \<Rightarrow> None
       | (Ok s, db) \<Rightarrow> send_presence p s (seOthers env 6 (b\<lparr>bkDb := db\<rparr>))
       | (Err e, db) \<Rightarrow> do {
           (sent, b) \<leftarrow> on_room rp (send_json p (error_message ''presence_unavailable'')) (b\<lparr>bkDb := db\<rparr>);
           Some (False, b)
         })"

subsection \<open>The loop\<close>

text \<open>The \<open>k\<close>-th message. An error of \<open>ReadMessage\<close> is the end of the inputs.\<close>

definition handle_message :: "'db exec \<Rightarrow> 'db session_env \<Rightarrow> room_ptr \<Rightarrow> nat \<Rightarrow> string \<Rightarrow> 'db backend \<Rightarrow> (effect list \<times> 'db backend) option" where
  "handle_message exec env rp k raw b =
     (let p = seClient env;
          reply = (\<lambda>reason. map_option (\<lambda>(sent, b). ([], b)) (on_room rp (send_json p (error_message reason)) b))
      in case unmarshal_message raw of
         None \<Rightarrow> reply ''invalid_json''
       | Some incoming \<Rightarrow>
           if mType incoming = ''content_update'' then on_room rp (handleContentUpdate exec (seOp env k) p incoming) b
           else if mType incoming = ''typing'' then
             map_option (\<lambda>h. ([], b\<lparr>bkHeap := h\<rparr>))
               (BroadcastJSON (zero_message\<lparr>mType := ''typing'', mUsername := cUsername (bkHeap b p)\<rparr>)
                 (mObjs (bkManager b) rp) (bkHeap b))
           else reply ''unknown_message_type'')"

fun session_loop :: "'db exec \<Rightarrow> 'db session_env \<Rightarrow> room_ptr \<Rightarrow> nat \<Rightarrow> ws_input list \<Rightarrow> 'db backend \<Rightarrow>
    (effect list \<times> 'db backend) option" where
  "session_loop exec env rp k [] b = Some ([], b)"
| "session_loop exec env rp k (Received raw moved # inputs) b =
     (let b = seOthers env (10 + k) b in
      if rStore (mObjs (bkManager b) rp) \<and> \<not> moved then Some ([], b)
      else do {
        (effs, b) \<leftarrow> handle_message exec env rp k raw b;
        (rest, b) \<leftarrow> session_loop exec env rp (Suc k) inputs b;
        Some (effs @ rest, b)
      })"

subsection \<open>The end\<close>

definition close_conn :: "ptr \<Rightarrow> 'db backend \<Rightarrow> 'db backend" where
  "close_conn p b = b\<lparr>bkHeap := (bkHeap b)(p := (bkHeap b p)\<lparr>cConn := map_option (\<lambda>k. k\<lparr>closed := True\<rparr>) (cConn (bkHeap b p))\<rparr>)\<rparr>"

definition disconnect_effects :: "'db session_env \<Rightarrow> ws_request \<Rightarrow> string \<Rightarrow> effect list" where
  "disconnect_effects env req clientID =
     [Metric WebSocketDisconnected,
      Logged ''info'' ''websocket_disconnected'' [(''roomId'', AStr (wqRoomID req)), (''clientId'', AStr clientID)]]"

definition leave_presence :: "'db exec \<Rightarrow> 'db session_env \<Rightarrow> room_ptr \<Rightarrow> 'db backend \<Rightarrow> (effect list \<times> 'db backend) option" where
  "leave_presence exec env rp b =
     (let room = mObjs (bkManager b) rp; c = bkHeap b (seClient env) in
      if \<not> rStore room then map_option (Pair []) (broadcast_presence rp b)
      else case LeavePresence exec (seNet env 4) (rID room) (cConnectionID c) (bkDb b) of
         (Panic, db) \<Rightarrow> None
       | (Ok u, db) \<Rightarrow> Some ([], b\<lparr>bkDb := db\<rparr>)
       | (Err e, db) \<Rightarrow> Some ([Logged ''error'' ''presence_leave_failed''
           [(''roomId'', AStr (rID room)), (''connectionId'', AStr (cConnectionID c)), (''error'', AStr (seErrorText env e))]],
           b\<lparr>bkDb := db\<rparr>))"

definition clean_up :: "'db exec \<Rightarrow> 'db session_env \<Rightarrow> room_ptr \<Rightarrow> ws_request \<Rightarrow> string \<Rightarrow> 'db backend \<Rightarrow> (effect list \<times> 'db backend) option" where
  "clean_up exec env rp req clientID b = do {
     let b = map_room rp (RemoveClient (seClient env)) (seOthers env 7 b);
     (effs, b) \<leftarrow> leave_presence exec env rp (seOthers env 8 b);
     let b = seOthers env 9 b;
     let b = (if ClientCount (mObjs (bkManager b) rp) = 0
              then b\<lparr>bkManager := DeleteRoom (rID (mObjs (bkManager b) rp)) (bkManager b)\<rparr> else b);
     Some (disconnect_effects env req clientID @ effs @
         [Traced (zero_trace\<lparr>tStage := ''client_disconnected'', tInstanceID := InstanceID (seConfig env),
            tRoomID := wqRoomID req, tClientID := clientID\<rparr>)],
       close_conn (seClient env) b)
   }"

subsection \<open>The whole\<close>

text \<open>The body between the connection and the clean-up: every early return leads to the latter.\<close>

definition session_body :: "'db exec \<Rightarrow> 'db session_env \<Rightarrow> room_ptr \<Rightarrow> int64 \<Rightarrow> ws_input list \<Rightarrow> 'db backend \<Rightarrow> (effect list \<times> 'db backend) option" where
  "session_body exec env rp lastSeq inputs b = do {
     let b = map_room rp (AddClient (seClient env)) (seOthers env 0 b);
     ((joined, effs1), b) \<leftarrow> join_presence exec env rp (seOthers env 1 b);
     if \<not> joined then Some (effs1, b)
     else do {
       ((started, effs2), b) \<leftarrow> initial_state exec env rp lastSeq (seOthers env 2 b);
       if \<not> started then Some (effs1 @ effs2, b)
       else do {
         (present, b) \<leftarrow> initial_presence exec env rp (seOthers env 5 b);
         if \<not> present then Some (effs1 @ effs2, b)
         else do {
           (effs3, b) \<leftarrow> session_loop exec env rp 0 inputs b;
           Some (effs1 @ effs2 @ effs3, b)
         }
       }
     }
   }"

definition run_session :: "'db exec \<Rightarrow> 'db session_env \<Rightarrow> room_ptr \<Rightarrow> ws_request \<Rightarrow> string \<Rightarrow> string \<Rightarrow> int64 \<Rightarrow> ws_input list \<Rightarrow>
    'db backend \<Rightarrow> (effect list \<times> 'db backend) option" where
  "run_session exec env rp req clientID connectionID lastSeq inputs b = do {
     let c = new_client env req clientID connectionID (rStore (mObjs (bkManager b) rp)) lastSeq;
     (effs, b) \<leftarrow> session_body exec env rp lastSeq inputs (b\<lparr>bkHeap := (bkHeap b)(seClient env := c)\<rparr>);
     (final, b) \<leftarrow> clean_up exec env rp req clientID b;
     Some (connect_effects env req clientID lastSeq @ effs @ final, b)
   }"

definition serveWS :: "'db exec \<Rightarrow> 'db session_env \<Rightarrow> ws_request \<Rightarrow> ws_input list \<Rightarrow> 'db backend \<Rightarrow>
    (served \<times> effect list \<times> 'db backend) option" where
  "serveWS exec env req inputs b =
     (let clientID = (if wqClientID req = [] then wqUsername req else wqClientID req);
          lastSeq = fst (ParseInt (wqLastSequence req))
      in if wqRoomID req = [] \<or> wqUsername req = [] then Some (HttpError 400 ''roomId and username are required'', [], b)
      else case GetRoom exec (seNet env 0) (seGetOthers env) (wqRoomID req) (bkManager b) (bkDb b) of
          (Ok (Some rp), m, db) \<Rightarrow>
            (let b = b\<lparr>bkManager := m, bkDb := db\<rparr> in
             if \<not> (originAllowed (wqOrigin req) (AllowedOrigins (seConfig env)) \<and> wqHandshake req) then Some (NotUpgraded, [], b)
             else case newConnectionID (seRandom env) of
                 None \<Rightarrow> Some (NoIdentity, [], b)
               | Some connectionID \<Rightarrow>
                   map_option (\<lambda>(effs, b). (Ended rp, effs, b)) (run_session exec env rp req clientID connectionID lastSeq inputs b))
        | (Ok None, m, db) \<Rightarrow> Some (HttpError 404 ''room not found'', [], b\<lparr>bkManager := m, bkDb := db\<rparr>)
        | (Err e, m, db) \<Rightarrow> Some (HttpError 404 ''room not found'', [], b\<lparr>bkManager := m, bkDb := db\<rparr>)
        | (Panic, m, db) \<Rightarrow> None)"

end
