(* ===== verification/Operation_Facts.thy ===== *)
theory Operation_Facts
  imports Operation Room_Cache "HOL-Library.Sublist"
begin

section \<open>What a sender and a room see of an operation\<close>

text \<open>
  The lemmas about \<open>handleContentUpdate\<close> that hold for both kinds of rooms: how many answers a client gets, that frames
  are only added, and which messages are broadcast.
\<close>

subsection \<open>Replies\<close>

text \<open>Answers and resynchronisations: what the handler of a connection sends to its own client.\<close>

fun reply_of :: "frame \<Rightarrow> Message option" where
  "reply_of (FMessage m) = (if mType m = ''operation_result'' \<or> mType m = ''room_state'' then Some m else None)"
| "reply_of _ = None"

definition replies :: "client \<Rightarrow> Message list" where
  "replies c = List.map_filter reply_of (client_frames c)"

lemma replies_frames: "client_frames c' = client_frames c @ fs \<Longrightarrow> replies c' = replies c @ List.map_filter reply_of fs"
  by (simp add: replies_def map_filter_def)

lemma reply_types [simp]:
  "mType (invalid_result incoming clientID s) = ''operation_result''" "mType (failed_result incoming) = ''operation_result''"
  "mType (operation_result incoming clientID r) = ''operation_result''" "mType (resync_state users r) = ''room_state''"
  "mType (local_update u incoming clientID r) = ''content_update''"
  by (simp_all add: invalid_result_def failed_result_def operation_result_def resync_state_def local_update_def)

lemma answer_operation_ids [simp]:
  "mOperationID (invalid_result incoming clientID s) = mOperationID incoming" "mOperationID (failed_result incoming) = mOperationID incoming"
  "mOperationID (operation_result incoming clientID r) = mOperationID incoming"
  "mAccepted (invalid_result incoming clientID s) = Some False" "mAccepted (failed_result incoming) = Some False"
  "mAccepted (operation_result incoming clientID r) = Some (arAccepted r)"
  by (simp_all add: invalid_result_def failed_result_def operation_result_def)

lemma replies_put_frame [simp]:
  "no_faults c \<Longrightarrow> replies (put_frame (FMessage m) c) =
     replies c @ (if mType m = ''operation_result'' \<or> mType m = ''room_state'' then [m] else [])"
  using replies_frames [of "put_frame (FMessage m) c" c "[FMessage m]"] by (simp add: map_filter_def)

lemma put_client_simps [simp]:
  "woRoom (put_client p c w) = woRoom w" "woDb (put_client p c w) = woDb w" "woHeap (put_client p c w) = (woHeap w)(p := c)"
  by (simp_all add: put_client_def)

lemma send_json_no_faults:
  "no_faults (woHeap w p) \<Longrightarrow> send_json p m w = Some (True, put_client p (put_frame (FMessage m) (woHeap w p)) w)"
  by (simp add: send_json_def WriteJSON_no_faults)

text \<open>On any socket, a failing one too: the reply is there if the write succeeded, and only then.\<close>

lemma send_json_replies:
  assumes "send_json p m w = Some (sent, w')" "mType m = ''operation_result'' \<or> mType m = ''room_state''"
  shows "replies (woHeap w' p) = replies (woHeap w p) @ (if sent then [m] else [])"
    "no_faults (woHeap w' p) = no_faults (woHeap w p)" "no_faults (woHeap w p) \<Longrightarrow> sent"
  using assms
  by (cases rule: client_write_cases [of "woHeap w p" "FMessage m"];
      auto simp: send_json_def WriteJSON_def map_filter_def replies_def)+

lemma read_snapshot_heap: "read_snapshot exec net w = Some (s, w') \<Longrightarrow> woHeap w' = woHeap w"
  by (auto simp: read_snapshot_def split: prod.splits outcome.splits)

lemma write_document_heap:
  "write_document exec net content base policy oid cid u w = Some (r, w') \<Longrightarrow> woHeap w' = woHeap w"
  by (auto simp: write_document_def split: prod.splits outcome.splits)

text \<open>A broadcast of another type is no reply.\<close>

lemma WriteJSON_replies:
  assumes "mType m \<noteq> ''operation_result''" "mType m \<noteq> ''room_state''"
  shows "replies (snd (WriteJSON c m)) = replies c" "no_faults (snd (WriteJSON c m)) = no_faults c"
  by (cases rule: client_write_cases [of c "FMessage m"];
      auto simp: WriteJSON_def replies_def map_filter_def assms)+

lemma deliver_message_replies:
  assumes "mType m \<noteq> ''operation_result''" "mType m \<noteq> ''room_state''" "deliver_message store m c = Some c'"
  shows "replies c' = replies c"
  using assms(3) WriteJSON_replies(1) [OF assms(1,2), of c]
  by (auto simp: deliver_message_def writeContentUpdate_def replies_def split: if_splits prod.splits outcome.splits option.splits)

lemma deliver_message_health:
  assumes "mType m \<noteq> ''operation_result''" "mType m \<noteq> ''room_state''" "deliver_message store m c = Some c'"
  shows "no_faults c' = no_faults c"
  using assms(3) WriteJSON_replies(2) [OF assms(1,2), of c]
  by (auto simp: deliver_message_def writeContentUpdate_def no_faults_def split: if_splits prod.splits outcome.splits option.splits)

lemma broadcast_to_inv:
  assumes "\<And>c c'. f c = Some c' \<Longrightarrow> g c' = g c" "broadcast_to f ps h = Some h'"
  shows "g (h' q) = g (h q)"
  using assms(2)
proof (induction ps arbitrary: h)
  case (Cons p ps)
  then obtain c where c: "f (h p) = Some c" "broadcast_to f ps (h(p := c)) = Some h'" by (auto split: option.splits)
  from Cons.IH [OF c(2)] assms(1) [OF c(1)] show ?case by (auto split: if_splits)
qed simp

lemma BroadcastJSON_replies:
  "mType m \<noteq> ''operation_result'' \<Longrightarrow> mType m \<noteq> ''room_state'' \<Longrightarrow> BroadcastJSON m r h = Some h' \<Longrightarrow>
   replies (h' q) = replies (h q)"
  unfolding BroadcastJSON_def by (rule broadcast_to_inv) (rule deliver_message_replies)

lemma BroadcastJSON_health:
  "mType m \<noteq> ''operation_result'' \<Longrightarrow> mType m \<noteq> ''room_state'' \<Longrightarrow> BroadcastJSON m r h = Some h' \<Longrightarrow>
   no_faults (h' q) = no_faults (h q)"
  unfolding BroadcastJSON_def by (rule broadcast_to_inv) (rule deliver_message_health)

subsection \<open>Every operation is answered once\<close>

text \<open>
  The others write no reply to this client: only the handler of a connection replies on it. Their broadcasts may fail on
  its socket and may break it; \<open>quiet_for\<close> says that they do not break it either.
\<close>

definition others_silent :: "ptr \<Rightarrow> 'db op_env \<Rightarrow> bool" where
  "others_silent p env \<longleftrightarrow> (\<forall>i w. replies (woHeap (opOthers env i w) p) = replies (woHeap w p))"

definition quiet_for :: "ptr \<Rightarrow> 'db op_env \<Rightarrow> bool" where
  "quiet_for p env \<longleftrightarrow> (\<forall>i w. replies (woHeap (opOthers env i w) p) = replies (woHeap w p) \<and>
     no_faults (woHeap (opOthers env i w) p) = no_faults (woHeap w p))"

lemma quiet_for_silent: "quiet_for p env \<Longrightarrow> others_silent p env"
  by (simp add: quiet_for_def others_silent_def)

text \<open>
  The replies that an operation has coming: an answer, and a resynchronisation exactly when the document refused the write. The
  two refusals without one are those of an incomplete message and of a failing store.
\<close>

definition proper_replies :: "Message \<Rightarrow> Message list \<Rightarrow> bool" where
  "proper_replies incoming ms \<longleftrightarrow> (\<exists>m b. mType m = ''operation_result'' \<and> mOperationID m = mOperationID incoming \<and>
     mAccepted m = Some b \<and>
     (ms = [m] \<and> (b \<or> mReason m = ''operation_id_and_base_version_required'' \<or> mReason m = ''storage_error'') \<or>
      (\<exists>users r. \<not> b \<and> ms = [m, resync_state users r] \<and> mServerVersion m = arServerVersion r \<and> mSequence m = arSequence r)))"

text \<open>What is received of them: a write that fails loses its reply; on a socket that works, with others that keep it so, none is lost.\<close>

definition received_of :: "ptr \<Rightarrow> 'db op_env \<Rightarrow> 'db world \<Rightarrow> Message list \<Rightarrow> 'db world \<Rightarrow> bool" where
  "received_of p env w full w' \<longleftrightarrow> (\<exists>ms. replies (woHeap w' p) = replies (woHeap w p) @ ms \<and> subseq ms full \<and>
     (quiet_for p env \<and> no_faults (woHeap w p) \<longrightarrow> ms = full))"

lemma send_one:
  assumes "others_silent p env" "send_json p m w1 = Some (sent, w')" "mType m = ''operation_result''"
    and "replies (woHeap w1 p) = replies (woHeap w p)"
    and "quiet_for p env \<Longrightarrow> no_faults (woHeap w1 p) = no_faults (woHeap w p)"
  shows "received_of p env w [m] w'"
proof -
  from send_json_replies [OF assms(2)] assms(3) have
    "replies (woHeap w' p) = replies (woHeap w1 p) @ (if sent then [m] else [])" "no_faults (woHeap w1 p) \<longrightarrow> sent" by blast+
  then show ?thesis using assms(4,5) unfolding received_of_def by (intro exI [of _ "if sent then [m] else []"]) auto
qed

lemma answer_operation_replies:
  assumes "others_silent p env" "answer_operation env p incoming clientID r effs w = Some (effs', w')"
  shows "\<exists>users. received_of p env w (operation_result incoming clientID r # (if arAccepted r then [] else [resync_state users r])) w'"
proof -
  define m where "m = operation_result incoming clientID r"
  note q = assms(1) [unfolded others_silent_def, rule_format]
  from assms(2) obtain sent w2 where s2: "send_json p m (opOthers env 2 w) = Some (sent, w2)"
    by (auto simp: answer_operation_def m_def Let_def Option.bind_eq_Some_conv split: prod.splits)
  define w3 where "w3 = opOthers env 3 w2"
  have m: "mType m = ''operation_result'' \<or> mType m = ''room_state''" by (simp add: m_def)
  note sent2 = send_json_replies [OF s2 m]
  have r3: "replies (woHeap w3 p) = replies (woHeap w p) @ (if sent then [m] else [])" using sent2(1) q by (simp add: w3_def)
  have n3: "no_faults (woHeap w3 p)" "sent" if "quiet_for p env" "no_faults (woHeap w p)"
    using that sent2(2,3) by (simp_all add: quiet_for_def w3_def)
  note run = assms(2) [unfolded answer_operation_def, folded m_def, unfolded s2 Let_def, simplified, folded w3_def]
  show ?thesis
  proof (cases "arAccepted r")
    case False
    define rs where "rs = resync_state (roomStateUsers (woHeap w3) (woRoom w3)) r"
    from run False obtain sent' where s4: "send_json p rs (opOthers env 4 w3) = Some (sent', w')"
      by (auto simp: rs_def Option.bind_eq_Some_conv)
    have "mType rs = ''operation_result'' \<or> mType rs = ''room_state''" by (simp add: rs_def)
    note sent4 = send_json_replies [OF s4 this]
    have "replies (woHeap w' p) = replies (woHeap w p) @ (if sent then [m] else []) @ (if sent' then [rs] else [])"
      using sent4(1) r3 q by simp
    moreover have "sent \<and> sent'" if "quiet_for p env \<and> no_faults (woHeap w p)"
      using that n3 sent4(3) by (simp add: quiet_for_def)
    ultimately show ?thesis using False unfolding received_of_def m_def rs_def
      by (intro exI [of _ "roomStateUsers (woHeap w3) (woRoom w3)"]
          exI [of _ "(if sent then [operation_result incoming clientID r] else []) @
            (if sent' then [resync_state (roomStateUsers (woHeap w3) (woRoom w3)) r] else [])"]) auto
  next
    case acc: True
    have "replies (woHeap w' p) = replies (woHeap w3 p)"
    proof (cases "rStore (woRoom w3)")
      case True
      then show ?thesis using run acc by simp
    next
      case False
      then obtain h where "BroadcastJSON (local_update (cUsername (woHeap w3 p)) incoming clientID r) (woRoom w3) (woHeap w3) = Some h"
        "woHeap w' = h" using run acc by (auto simp: Option.bind_eq_Some_conv)
      then show ?thesis
        using BroadcastJSON_replies [of "local_update (cUsername (woHeap w3 p)) incoming clientID r" "woRoom w3" "woHeap w3" h p] by simp
    qed
    then show ?thesis using r3 n3 acc unfolding received_of_def m_def
      by (intro exI [of _ "[]"] exI [of _ "if sent then [operation_result incoming clientID r] else []"]) auto
  qed
qed

lemma proper_result:
  "proper_replies incoming (operation_result incoming clientID r # (if arAccepted r then [] else [resync_state users r]))"
  unfolding proper_replies_def
  by (rule exI [of _ "operation_result incoming clientID r"], rule exI [of _ "arAccepted r"])
    (auto intro!: exI [of _ users] exI [of _ r], simp_all add: operation_result_def)

lemma proper_refusal: "proper_replies incoming [invalid_result incoming clientID s]" "proper_replies incoming [failed_result incoming]"
  unfolding proper_replies_def
  by (rule exI [of _ "invalid_result incoming clientID s"], rule exI [of _ False], simp add: invalid_result_def)
    (rule exI [of _ "failed_result incoming"], rule exI [of _ False], simp add: failed_result_def)

lemma ex_refusal [simp]: "Ex Not"
  by (rule exI [of _ False]) simp

lemma refuse_replies:
  assumes "others_silent p env" "refuse_operation p incoming clientID prior w1 = Some (effs, w')"
    and "replies (woHeap w1 p) = replies (woHeap w p)"
    and "quiet_for p env \<Longrightarrow> no_faults (woHeap w1 p) = no_faults (woHeap w p)"
  shows "received_of p env w [invalid_result incoming clientID prior] w'"
proof -
  from assms(2) obtain sent where "send_json p (invalid_result incoming clientID prior) w1 = Some (sent, w')"
    by (auto simp: refuse_operation_def Option.bind_eq_Some_conv)
  then show ?thesis by (rule send_one [OF assms(1) _ _ assms(3,4)]) simp_all
qed

lemma fail_replies:
  assumes "others_silent p env" "fail_operation env p incoming clientID e effs0 w = Some (effs, w')"
  shows "received_of p env w [failed_result incoming] w'"
proof -
  from assms(2) obtain sent where "send_json p (failed_result incoming) (opOthers env 2 w) = Some (sent, w')"
    by (auto simp: fail_operation_def Let_def Option.bind_eq_Some_conv)
  then show ?thesis
    by (rule send_one [OF assms(1)]) (use assms(1) in \<open>simp_all add: others_silent_def quiet_for_def\<close>)
qed

lemma perform_replies:
  assumes "others_silent p env" "perform_operation exec env p incoming clientID base prior w = Some (effs, w')"
  shows "\<exists>full. received_of p env w full w' \<and> proper_replies incoming full"
proof -
  let ?effs = "Metric OperationStarted # received_effects env (rID (woRoom w)) incoming clientID base prior"
  from assms(2) obtain result w3 where wd: "write_document exec (opNet env 1) (mContent incoming) base (StaleWritePolicy (opConfig env))
        (mOperationID incoming) clientID (cUsername (woHeap w p)) w = Some (result, w3)"
    and rest: "(case result of Inl e \<Rightarrow> fail_operation env p incoming clientID e ?effs w3
       | Inr r \<Rightarrow> answer_operation env p incoming clientID r ?effs w3) = Some (effs, w')"
    by (auto simp: perform_operation_def Let_def Option.bind_eq_Some_conv)
  have h: "received_of p env w3 full w' = received_of p env w full w'" for full
    using write_document_heap [OF wd] by (simp add: received_of_def)
  show ?thesis
  proof (cases result)
    case (Inl e)
    then have "fail_operation env p incoming clientID e ?effs w3 = Some (effs, w')" using rest by simp
    from fail_replies [OF assms(1) this] show ?thesis unfolding h using proper_refusal(2) by blast
  next
    case (Inr r)
    then have "answer_operation env p incoming clientID r ?effs w3 = Some (effs, w')" using rest by simp
    from answer_operation_replies [OF assms(1) this] show ?thesis unfolding h using proper_result by blast
  qed
qed

lemma handle_replies:
  assumes "others_silent p env" "handleContentUpdate exec env p incoming w = Some (effs, w')"
  shows "\<exists>full. received_of p env w full w' \<and> proper_replies incoming full"
proof -
  note q = assms(1) [unfolded others_silent_def, rule_format]
  let ?id = "client_id_of incoming (woHeap (opOthers env 0 w) p)"
  from assms(2) obtain prior w1 where snap: "read_snapshot exec (opNet env 0) (opOthers env 0 w) = Some (prior, w1)"
    and rest: "(case mBaseVersion incoming of None \<Rightarrow> refuse_operation p incoming ?id prior (opOthers env 1 w1)
     | Some base \<Rightarrow> if mOperationID incoming = [] then refuse_operation p incoming ?id prior (opOthers env 1 w1)
         else perform_operation exec env p incoming ?id base prior (opOthers env 1 w1)) = Some (effs, w')"
    by (auto simp: handleContentUpdate_def Let_def Option.bind_eq_Some_conv simp del: One_nat_def)
  have n: "replies (woHeap (opOthers env 1 w1) p) = replies (woHeap w p)"
    "quiet_for p env \<Longrightarrow> no_faults (woHeap (opOthers env 1 w1) p) = no_faults (woHeap w p)"
    using read_snapshot_heap [OF snap] q by (simp_all add: quiet_for_def)
  have r: "received_of p env (opOthers env 1 w1) full w' \<Longrightarrow> received_of p env w full w'" for full
    using n unfolding received_of_def by auto
  have refused: ?thesis if "refuse_operation p incoming ?id prior (opOthers env 1 w1) = Some (effs, w')"
    using refuse_replies [OF assms(1) that n] proper_refusal(1) by blast
  show ?thesis
    using rest refused perform_replies [OF assms(1)] r by (auto split: option.splits if_splits) blast
qed

end
