(* ===== verification/Redis_Clock.thy ===== *)
theory Redis_Clock
  imports Presence_Spec Redis_Occ Room
begin

section \<open>The clock of Redis\<close>

text \<open>
  No command takes the clock of Redis back; then no script does, no call over any link, and none of the
  operations of a session.
\<close>

definition clock_forward :: "'db exec \<Rightarrow> ('db \<Rightarrow> int) \<Rightarrow> bool" where
  "clock_forward E C \<longleftrightarrow> (\<forall>args db. C db \<le> C (snd (E args db)))"

definition forward_script :: "('db \<Rightarrow> int) \<Rightarrow> ('db, 'a) script \<Rightarrow> bool" where
  "forward_script C f \<longleftrightarrow> (\<forall>db. C db \<le> C (snd (f db)))"

lemma forward_bind:
  assumes m: "forward_script C m" and f: "\<And>a. forward_script C (f a)"
  shows "forward_script C (lua_bind m f)"
  unfolding forward_script_def
proof
  fix db
  obtain x db1 where x: "m db = (x, db1)" by (cases "m db")
  have 1: "C db \<le> C db1" using m x unfolding forward_script_def by (metis snd_conv)
  show "C db \<le> C (snd (lua_bind m f db))"
  proof (cases x)
    case (Inr a)
    have "C db1 \<le> C (snd (f a db1))" using f unfolding forward_script_def by blast
    then show ?thesis using 1 x Inr by (simp add: lua_bind_def)
  qed (use 1 x in \<open>simp add: lua_bind_def\<close>)
qed

lemma forward_simple: "forward_script C (lua_return a)" "forward_script C (lua_lift x)"
  "clock_forward E C \<Longrightarrow> forward_script C (redis_call E args)"
  by (simp_all add: forward_script_def lua_return_def lua_lift_def redis_call_def clock_forward_def)

lemma forward_prune_loop: "clock_forward E C \<Longrightarrow> forward_script C (lua_prune_loop E k1 k4 now vs removed)"
  by (induction E k1 k4 now vs removed rule: lua_prune_loop.induct) (auto intro!: forward_bind forward_simple)

lemma forward_prune_body: "clock_forward E C \<Longrightarrow> forward_script C (lua_prune_body E k1 k2 k3 k4)"
  unfolding lua_prune_body_def lua_now_def lua_notify_def
  by (auto intro!: forward_bind forward_simple forward_prune_loop)

lemma forward_run: "forward_script C m \<Longrightarrow> C db \<le> C (snd (run_script m db))"
  by (simp add: run_script_def forward_script_def split: prod.split sum.split) (metis snd_conv)

lemma forward_prune: "clock_forward E C \<Longrightarrow> C db \<le> C (snd (lua_prune E (presence_keys rid) [] db))"
  by (simp add: lua_prune_def presence_keys_def forward_run forward_prune_body)

lemma forward_snapshot: "clock_forward E C \<Longrightarrow> C db \<le> C (snd (lua_presence_snapshot E (presence_keys rid) [] db))"
  unfolding lua_presence_snapshot_def presence_keys_def snapshot_body_def
  by (auto intro!: forward_run forward_bind forward_simple forward_prune_body)

text \<open>The other scripts, and with them every command that a backend sends.\<close>

lemma forward_notify: "clock_forward E C \<Longrightarrow> forward_script C (lua_notify E k2 k3)" "clock_forward E C \<Longrightarrow> forward_script C (lua_revision E k2)"
  "clock_forward E C \<Longrightarrow> forward_script C (lua_now E)"
  unfolding lua_notify_def lua_revision_def lua_now_def by (auto intro!: forward_bind forward_simple)

lemma forward_presence_bodies:
  assumes "clock_forward E C"
  shows "forward_script C (join_body E k1 k2 k3 k4 a1 a2 a3)" "forward_script C (leave_body E k1 k2 k3 k4 a1)"
    "forward_script C (renew_body E k1 k2 k3 k4 a1 a2)" "forward_script C (snapshot_body E k1 k2 k3 k4)"
  unfolding join_body_def leave_body_def renew_body_def snapshot_body_def
  using assms by (auto intro!: forward_bind forward_simple forward_notify forward_prune_body)

lemma forward_scripts:
  assumes "clock_forward E C" "map_of document_scripts text = Some f"
  shows "C db \<le> C (snd (f E keys argv db))"
proof -
  note f = forward_run [OF forward_presence_bodies(1) [OF assms(1)]] forward_run [OF forward_presence_bodies(2) [OF assms(1)]]
    forward_run [OF forward_presence_bodies(3) [OF assms(1)]] forward_run [OF forward_presence_bodies(4) [OF assms(1)]]
    forward_run [OF forward_prune_body [OF assms(1)]]
  have create: "C db \<le> C (snd (lua_create_room E keys argv db))"
    using assms(1) by (auto simp: lua_create_room_def split: list.split intro!: forward_run forward_bind forward_simple)
  have apply_op: "C db \<le> C (snd (lua_apply_operation E keys argv db))"
    using assms(1) by (auto simp: lua_apply_operation_def Let_def split: list.split intro!: forward_run forward_bind forward_simple)
  have "f \<in> {lua_create_room, lua_apply_operation, lua_join, lua_leave, lua_renew, lua_prune, lua_presence_snapshot}"
    using map_of_SomeD [OF assms(2)] unfolding document_scripts_def presence_scripts_def by (simp; blast)
  then show ?thesis
    using create apply_op f
    by (auto simp: lua_join_def lua_leave_def lua_renew_def lua_prune_def lua_presence_snapshot_def split: list.split)
qed

lemma forward_document: "clock_forward E C \<Longrightarrow> clock_forward (document_exec E) C"
proof -
  assume c: "clock_forward E C"
  then have "C db \<le> C (snd (E args db))" for args db by (simp add: clock_forward_def)
  then have "C db \<le> C (snd (document_exec E args db))" for args db
    by (auto simp: document_exec_def with_eval_def forward_scripts [OF c] split: list.split option.split sum.split)
  then show ?thesis by (simp add: clock_forward_def)
qed

lemma forward_call:
  assumes "clock_forward exec C" "\<And>i db. before net i db = db"
  shows "C db \<le> C (snd (do_at exec net i args db))"
  using assms by (simp add: do_at_def redis_do_def clock_forward_def split: link.split)

lemma forward_unit:
  assumes "clock_forward exec C" "\<And>i db. before net i db = db"
  shows "C db \<le> C (snd (presence_call (do_at exec net i args db) f))"
  using forward_call [OF assms, of db i args]
  by (cases "do_at exec net i args db"; cases "fst (do_at exec net i args db)") (simp_all add: presence_call_def)

lemma forward_presence_operations:
  assumes "clock_forward exec C" "\<And>i db. before net i db = db"
  shows "C db \<le> C (snd (JoinPresence exec net rid p lease db))" "C db \<le> C (snd (LeavePresence exec net rid f db))"
    "C db \<le> C (snd (GetPresence exec net rid db))"
  unfolding JoinPresence_def LeavePresence_def GetPresence_def presenceEval_def Let_def
  by (simp_all add: forward_unit [OF assms])

lemma forward_call_then:
  assumes "C db \<le> C (snd r)" "\<And>v d. C d \<le> C (snd (f v d))"
  shows "(C db :: int) \<le> C (snd (call_then r f))"
proof (cases "fst r")
  case (Ok v)
  then show ?thesis using assms(1) assms(2) [of "snd r" v] by (cases r) simp
qed (use assms(1) in \<open>cases r; simp\<close>)+

lemma forward_GetSnapshot:
  assumes "clock_forward exec C" "\<And>i db. before net i db = db"
  shows "C db \<le> C (snd (snd (GetSnapshot exec net r db)))"
proof -
  have "C db \<le> C (snd (GetSnapshot_store exec net rid db))" for rid
    unfolding GetSnapshot_store_def by (auto intro!: forward_call_then forward_call [OF assms])
  then show ?thesis by (auto simp: GetSnapshot_def Let_def split: prod.splits outcome.splits option.splits) (metis snd_conv)+
qed

end
