(* ===== verification/Session_Facts.thy ===== *)
theory Session_Facts
  imports Session Operation_Facts Presence_Leases Redis_Clock
begin

section \<open>What a session keeps\<close>

text \<open>
  The steps of \<open>serveWS\<close>: each gives room, clients and database on to the next, the clean-up takes the client out of
  its room whatever happened before, and over working links a new client gets the state of the room.
\<close>

subsection \<open>The clean-up\<close>

text \<open>The others do not put a client into a room for this session.\<close>

definition keeps_out :: "ptr \<Rightarrow> 'db session_env \<Rightarrow> bool" where
  "keeps_out p env \<longleftrightarrow> (\<forall>i b rp. p \<notin> set (rClients (mObjs (bkManager b) rp)) \<longrightarrow>
     p \<notin> set (rClients (mObjs (bkManager (seOthers env i b)) rp)))"

lemma with_room_simps [simp]:
  "mObjs (bkManager (with_room rp w b)) rp = woRoom w" "bkHeap (with_room rp w b) = woHeap w" "bkDb (with_room rp w b) = woDb w"
  by (simp_all add: with_room_def)

lemma map_room_simps [simp]:
  "mObjs (bkManager (map_room rp f b)) rp = f (mObjs (bkManager b) rp)" "bkHeap (map_room rp f b) = bkHeap b"
  "bkDb (map_room rp f b) = bkDb b"
  by (simp_all add: map_room_def room_world_def)

lemma leave_presence_room: "leave_presence exec env rp b = Some (effs, b') \<Longrightarrow> bkManager b' = bkManager b"
  by (auto simp: leave_presence_def broadcast_presence_def Let_def split: if_splits prod.splits outcome.splits)

lemma DeleteRoom_objs [simp]: "mObjs (DeleteRoom rid m) = mObjs m"
  by (simp add: DeleteRoom_def)

lemma clean_up_leaves:
  assumes "clean_up exec env rp req clientID b = Some (effs, b')" "keeps_out (seClient env) env"
  shows "seClient env \<notin> set (rClients (mObjs (bkManager b') rp)) \<and>
    (\<forall>k. cConn (bkHeap b' (seClient env)) = Some k \<longrightarrow> conn.closed k)"
proof -
  note out = assms(2) [unfolded keeps_out_def, rule_format]
  define b1 where "b1 = map_room rp (RemoveClient (seClient env)) (seOthers env 7 b)"
  obtain mid b2 where b2: "leave_presence exec env rp (seOthers env 8 b1) = Some (mid, b2)"
    and b': "b' = close_conn (seClient env) (let b3 = seOthers env 9 b2 in if ClientCount (mObjs (bkManager b3) rp) = 0
       then b3\<lparr>bkManager := DeleteRoom (rID (mObjs (bkManager b3) rp)) (bkManager b3)\<rparr> else b3)"
    using assms(1) by (auto simp: clean_up_def b1_def Let_def Option.bind_eq_Some_conv)
  have "seClient env \<notin> set (rClients (mObjs (bkManager b1) rp))" by (simp add: b1_def)
  then have "seClient env \<notin> set (rClients (mObjs (bkManager (seOthers env 9 b2)) rp))"
    using out leave_presence_room [OF b2] by simp
  then show ?thesis by (auto simp: b' close_conn_def Let_def)
qed

lemma session_leaves:
  assumes "serveWS exec env req inputs b = Some (Ended rp, effs, b')" "keeps_out (seClient env) env"
  shows "seClient env \<notin> set (rClients (mObjs (bkManager b') rp)) \<and>
    (\<forall>k. cConn (bkHeap b' (seClient env)) = Some k \<longrightarrow> conn.closed k)"
proof -
  from assms(1) obtain clientID connectionID b1 where
    run: "run_session exec env rp req clientID connectionID (fst (ParseInt (wqLastSequence req))) inputs b1 = Some (effs, b')"
    by (auto simp: serveWS_def Let_def split: if_splits prod.splits outcome.splits option.splits)
  then obtain b2 final where "clean_up exec env rp req clientID b2 = Some (final, b')"
    by (auto simp: run_session_def Let_def Option.bind_eq_Some_conv)
  then show ?thesis by (rule clean_up_leaves [OF _ assms(2)])
qed

subsection \<open>Messages that are no operation\<close>

text \<open>Anything that is not valid JSON, or of an unknown type, is answered with an error and changes nothing else.\<close>

lemma bad_message:
  assumes "unmarshal_message raw = None \<and> reason = ''invalid_json'' \<or>
      (\<exists>m. unmarshal_message raw = Some m \<and> mType m \<noteq> ''content_update'' \<and> mType m \<noteq> ''typing'') \<and> reason = ''unknown_message_type''"
    and "no_faults (bkHeap b (seClient env))"
  shows "\<exists>b'. handle_message exec env rp k raw b = Some ([], b') \<and>
    mObjs (bkManager b') = mObjs (bkManager b) \<and> bkDb b' = bkDb b \<and>
    bkHeap b' = (bkHeap b)(seClient env := put_frame (FMessage (error_message reason)) (bkHeap b (seClient env)))"
proof -
  have "no_faults (woHeap (room_world rp b) (seClient env))" using assms(2) by (simp add: room_world_def)
  note send = send_json_no_faults [OF this, of "error_message reason"]
  show ?thesis
    using assms(1) send by (auto simp: handle_message_def on_room_def with_room_def room_world_def)
qed

subsection \<open>A fresh join\<close>

text \<open>A session in a room that the manager has, in Redis and cached, without others in between.\<close>

definition session_at :: "('db \<Rightarrow> view) \<Rightarrow> ('db \<Rightarrow> bool) \<Rightarrow> string \<Rightarrow> DistributedEvent list \<Rightarrow> room_ptr \<Rightarrow> 'db backend \<Rightarrow> bool" where
  "session_at V K rid L rp b \<longleftrightarrow> rID (mObjs (bkManager b) rp) = rid \<and> cache_ok L (mObjs (bkManager b) rp) \<and>
     K (bkDb b) \<and> redis_room (V (bkDb b)) rid L"

definition alone :: "'db session_env \<Rightarrow> bool" where
  "alone env \<longleftrightarrow> (\<forall>i b. seOthers env i b = b) \<and> (\<forall>i. seNet env i = calm)"

lemma aloneD: "alone env \<Longrightarrow> seOthers env i b = b" "alone env \<Longrightarrow> seNet env i = calm"
  by (simp_all add: alone_def)

lemma over_link_up: "over_link LinkUp = calm"
  by (simp add: over_link_def calm_def)

lemma cache_ok_store: "cache_ok L r \<Longrightarrow> rStore r"
  by (simp add: cache_ok_def)

lemma cache_ok_clients: "cache_ok L (r\<lparr>rClients := cs\<rparr>) = cache_ok L r"
  by (simp add: cache_ok_def room_snapshot_def)

lemma room_after_presence: "presence_after rid v P v' \<Longrightarrow> redis_room v' rid L = redis_room v rid L"
  using document_keys_apart [of rid rid] by (intro redis_room_frame) (auto simp: presence_after_def)

lemma ensurePresenceWatcher_simps [simp]:
  "mObjs (ensurePresenceWatcher p m) = mObjs m" "mTiming (ensurePresenceWatcher p m) = mTiming m"
  "mStore (ensurePresenceWatcher p m) = mStore m"
  by (simp_all add: ensurePresenceWatcher_def)

text \<open>Over a calm net no call of the session takes the clock back.\<close>

lemma calm_forward:
  "clock_forward E C \<Longrightarrow> JoinPresence (document_exec E) calm rid p lease db = (x, db') \<Longrightarrow> C db \<le> C db'"
  "clock_forward E C \<Longrightarrow> LeavePresence (document_exec E) calm rid f db = (x, db') \<Longrightarrow> C db \<le> C db'"
  "clock_forward E C \<Longrightarrow> GetPresence (document_exec E) calm rid db = (y, db') \<Longrightarrow> C db \<le> C db'"
  "clock_forward E C \<Longrightarrow> GetSnapshot (document_exec E) calm r db = (z, r', db') \<Longrightarrow> C db \<le> C db'"
proof -
  have c: "before calm i d = d" for i and d :: 'a by (simp add: calm_def)
  assume f: "clock_forward E C"
  note d = forward_document [OF f]
  show "JoinPresence (document_exec E) calm rid p lease db = (x, db') \<Longrightarrow> C db \<le> C db'"
    using forward_presence_operations(1) [OF d c, of db rid p lease] by simp
  show "LeavePresence (document_exec E) calm rid f db = (x, db') \<Longrightarrow> C db \<le> C db'" for f
    using forward_presence_operations(2) [OF d c, of db rid f] by simp
  show "GetPresence (document_exec E) calm rid db = (y, db') \<Longrightarrow> C db \<le> C db'"
    using forward_presence_operations(3) [OF d c, of db rid] by simp
  show "GetSnapshot (document_exec E) calm r db = (z, r', db') \<Longrightarrow> C db \<le> C db'"
    using forward_GetSnapshot [OF d c, of db r] by simp
qed

context presence_redis
begin

lemma join_presence_alone:
  assumes "alone env" "session_at V K rid L rp b" "redis_presence (V (bkDb b)) rid P" "prRevision P < log_limit"
    and "int64_ok (LeaseDuration (mTiming (bkManager b)))" "0 < Milliseconds (LeaseDuration (mTiming (bkManager b)))"
    and "cConnectionID (bkHeap b (seClient env)) \<noteq> []"
  obtains db' where "join_presence (document_exec E) env rp b =
      Some ((True, []), b\<lparr>bkManager := ensurePresenceWatcher rp (bkManager b), bkDb := db'\<rparr>)"
    "session_at V K rid L rp (b\<lparr>bkManager := ensurePresenceWatcher rp (bkManager b), bkDb := db'\<rparr>)"
    "redis_presence (V db') rid (spec_join (C (bkDb b)) (cConnectionID (bkHeap b (seClient env)))
      (marshal_participant (participant (bkHeap b (seClient env)))) (Milliseconds (LeaseDuration (mTiming (bkManager b)))) P)"
    "clock_forward E C \<longrightarrow> C (bkDb b) \<le> C db'"
proof -
  note at = assms(2) [unfolded session_at_def]
  obtain db' where *: "JoinPresence (document_exec E) calm rid (participant (bkHeap b (seClient env)))
      [LeaseDuration (mTiming (bkManager b))] (bkDb b) = (Ok (), db')" "K db'"
    "presence_after rid (V (bkDb b)) (spec_join (C (bkDb b)) (pConnectionID (participant (bkHeap b (seClient env))))
      (marshal_participant (participant (bkHeap b (seClient env)))) (Milliseconds (LeaseDuration (mTiming (bkManager b)))) P) (V db')"
    using JoinPresence_runs [OF _ assms(3-6), of "participant (bkHeap b (seClient env))"] at assms(7)
    unfolding over_link_up by (auto simp: participant_def)
  show thesis
  proof (rule that)
    show "join_presence (document_exec E) env rp b =
        Some ((True, []), b\<lparr>bkManager := ensurePresenceWatcher rp (bkManager b), bkDb := db'\<rparr>)"
      using * at cache_ok_store [of L "mObjs (bkManager b) rp"] aloneD(2) [OF assms(1)] by (simp add: join_presence_def Let_def)
    show "session_at V K rid L rp (b\<lparr>bkManager := ensurePresenceWatcher rp (bkManager b), bkDb := db'\<rparr>)"
      using at *(2) room_after_presence [OF *(3)] by (simp add: session_at_def)
    show "clock_forward E C \<longrightarrow> C (bkDb b) \<le> C db'"
      using calm_forward(1) [OF _ *(1)] by blast
  qed (use *(3) in \<open>simp add: presence_after_def participant_def\<close>)
qed

lemma initial_state_alone:
  assumes "alone env" "session_at V K rid L rp b" "lastSeq \<le> 0" "no_faults (bkHeap b (seClient env))"
  obtains b' where "initial_state (document_exec E) env rp lastSeq b = Some ((True, []), b')" "session_at V K rid L rp b'"
    "V (bkDb b') = V (bkDb b)" "rClients (mObjs (bkManager b') rp) = rClients (mObjs (bkManager b) rp)"
    "bkHeap b' = (bkHeap b)(seClient env := put_frame (FMessage (room_state (snapshot_of L) [])) (bkHeap b (seClient env)))"
    "mStore (bkManager b') = mStore (bkManager b)" "clock_forward E C \<longrightarrow> C (bkDb b) \<le> C (bkDb b')"
proof -
  note at = assms(2) [unfolded session_at_def]
  let ?r = "mObjs (bkManager b) rp" and ?p = "seClient env"
  obtain r' db' where g: "GetSnapshot (document_exec E) calm ?r (bkDb b) = (Ok (snapshot_of L), r', db')"
    "cache_ok L r'" "K db'" "V db' = V (bkDb b)"
    by (rule GetSnapshot_cache [OF base, of "bkDb b" ?r L]) (use at in auto)
  have r': "rID r' = rID ?r" "rClients r' = rClients ?r"
    using g(1) at cache_ok_store [of L ?r]
    by (auto simp: GetSnapshot_def Let_def split: prod.splits outcome.splits option.splits)
  define b1 where "b1 = with_room rp ((room_world rp b)\<lparr>woRoom := r', woDb := db'\<rparr>) b"
  have b1: "mObjs (bkManager b1) rp = r'" "bkHeap b1 = bkHeap b" "bkDb b1 = db'" "mStore (bkManager b1) = mStore (bkManager b)"
    by (simp_all add: b1_def with_room_def room_world_def)
  have 1: "on_room rp (read_snapshot (document_exec E) calm) b = Some (snapshot_of L, b1)"
    using g(1) by (simp add: on_room_def read_snapshot_def room_world_def b1_def)
  let ?m = "room_state (snapshot_of L) []"
  have nf: "no_faults (woHeap (room_world rp b1) ?p)" using assms(4) b1 by (simp add: room_world_def)
  define b2 where "b2 = with_room rp (put_client ?p (put_frame (FMessage ?m) (bkHeap b1 ?p)) (room_world rp b1)) b1"
  have 2: "on_room rp (send_json ?p ?m) b1 = Some (True, b2)"
    using send_json_no_faults [OF nf, of ?m] by (simp add: on_room_def b2_def room_world_def)
  show thesis
  proof (rule that [of b2])
    show "initial_state (document_exec E) env rp lastSeq b = Some ((True, []), b2)"
      using 1 2 at assms(3) aloneD [OF assms(1)] cache_ok_store [OF g(2)] b1(1)
      by (simp add: initial_state_def Let_def roomStateUsers_def)
    show "session_at V K rid L rp b2" using at g r' by (simp add: session_at_def b2_def room_world_def b1)
    have "clock_forward E C \<longrightarrow> C (bkDb b) \<le> C db'"
      using calm_forward(4) [OF _ g(1)] by blast
    then show "clock_forward E C \<longrightarrow> C (bkDb b) \<le> C (bkDb b2)" by (simp add: b2_def room_world_def b1)
  qed (use g(4) r' b1 in \<open>simp_all add: b2_def room_world_def with_room_def\<close>)
qed

lemma initial_presence_alone:
  assumes "alone env" "session_at V K rid L rp b" "redis_presence (V (bkDb b)) rid P" "prRevision P < log_limit" "good_records P"
    and "no_faults (bkHeap b (seClient env))" "\<not> presenceSent (bkHeap b (seClient env))"
  obtains s b' c' where "initial_presence (document_exec E) env rp b = Some (True, b')" "session_at V K rid L rp b'"
    "redis_presence (V (bkDb b')) rid (spec_prune (C (bkDb b)) P)" "set (psParticipants s) = live_participants (C (bkDb b)) P"
    "psRevision s = prRevision (spec_prune (C (bkDb b)) P)"
    "bkManager b' = bkManager b" "bkHeap b' = (bkHeap b)(seClient env := c')"
    "client_frames c' = client_frames (bkHeap b (seClient env)) @ [FPresence s]"
    "cConnectionID c' = cConnectionID (bkHeap b (seClient env))" "clock_forward E C \<longrightarrow> C (bkDb b) \<le> C (bkDb b')"
proof -
  note at = assms(2) [unfolded session_at_def]
  let ?p = "seClient env"
  obtain s db' where g: "GetPresence (document_exec E) calm rid (bkDb b) = (Ok s, db')" "K db'"
    "presence_after rid (V (bkDb b)) (spec_prune (C (bkDb b)) P) (V db')"
    "psRevision s = prRevision (spec_prune (C (bkDb b)) P)" "set (psParticipants s) = live_participants (C (bkDb b)) P"
    using GetPresence_runs [OF _ assms(3-5)] at unfolding over_link_up by blast
  let ?c = "(put_frame (FPresence s) (bkHeap b ?p))\<lparr>presenceRevision := psRevision s, presenceSent := True\<rparr>"
  have w: "writePresence s (bkHeap b ?p) = (Ok (), ?c)"
    using assms(6,7) by (simp add: writePresence_def client_write_no_faults)
  show thesis
  proof (rule that [of "b\<lparr>bkDb := db', bkHeap := (bkHeap b)(?p := ?c)\<rparr>" s ?c])
    show "initial_presence (document_exec E) env rp b = Some (True, b\<lparr>bkDb := db', bkHeap := (bkHeap b)(?p := ?c)\<rparr>)"
      using g(1) w at cache_ok_store [of L "mObjs (bkManager b) rp"] aloneD [OF assms(1)] by (simp add: initial_presence_def send_presence_def Let_def)
    show "session_at V K rid L rp (b\<lparr>bkDb := db', bkHeap := (bkHeap b)(?p := ?c)\<rparr>)"
      using at g(2) room_after_presence [OF g(3)] by (simp add: session_at_def)
    have "clock_forward E C \<longrightarrow> C (bkDb b) \<le> C db'"
      using calm_forward(3) [OF _ g(1)] by blast
    then show "clock_forward E C \<longrightarrow> C (bkDb b) \<le> C (bkDb (b\<lparr>bkDb := db', bkHeap := (bkHeap b)(?p := ?c)\<rparr>))" by simp
  qed (use g(3-5) assms(6) in \<open>simp_all add: presence_after_def\<close>)
qed

lemma clean_up_alone:
  assumes "alone env" "session_at V K rid L rp b" "redis_presence (V (bkDb b)) rid P" "prRevision P < log_limit"
    and "mStore (bkManager b)"
  obtains effs b' where "clean_up (document_exec E) env rp req clientID b = Some (effs, b')"
    "redis_presence (V (bkDb b')) rid (spec_leave (cConnectionID (bkHeap b (seClient env))) P)" "redis_room (V (bkDb b')) rid L"
    "K (bkDb b')" "rClients (mObjs (bkManager b') rp) = filter (\<lambda>q. q \<noteq> seClient env) (rClients (mObjs (bkManager b) rp))"
    "client_frames (bkHeap b' (seClient env)) = client_frames (bkHeap b (seClient env))"
    "clock_forward E C \<longrightarrow> C (bkDb b) \<le> C (bkDb b')"
proof -
  note at = assms(2) [unfolded session_at_def]
  let ?p = "seClient env"
  let ?id = "cConnectionID (bkHeap b ?p)"
  define b1 where "b1 = map_room rp (RemoveClient ?p) b"
  have b1: "mObjs (bkManager b1) rp = RemoveClient ?p (mObjs (bkManager b) rp)" "bkHeap b1 = bkHeap b" "bkDb b1 = bkDb b"
    "mStore (bkManager b1) = mStore (bkManager b)"
    by (simp_all add: b1_def) (simp add: map_room_def with_room_def)
  obtain db' where g: "LeavePresence (document_exec E) calm rid ?id (bkDb b) = (Ok (), db')" "K db'"
    "presence_after rid (V (bkDb b)) (spec_leave ?id P) (V db')"
    using LeavePresence_runs [OF _ assms(3,4), of ?id] at unfolding over_link_up by blast
  have 1: "leave_presence (document_exec E) env rp b1 = Some ([], b1\<lparr>bkDb := db'\<rparr>)"
    using g(1) b1 at cache_ok_store [of L "mObjs (bkManager b) rp"] aloneD [OF assms(1)]
    by (simp add: leave_presence_def Let_def RemoveClient_def)
  have del: "DeleteRoom x (bkManager b1) = bkManager b1" for x using assms(5) b1(4) by (simp add: DeleteRoom_def)
  let ?b' = "close_conn ?p (b1\<lparr>bkDb := db'\<rparr>)"
  have same: "(if X then b2\<lparr>bkManager := bkManager b2\<rparr> else b2) = b2" for X and b2 :: "'a backend" by simp
  have run: "\<exists>effs. clean_up (document_exec E) env rp req clientID b = Some (effs, ?b')"
    using 1 aloneD [OF assms(1)] del by (simp add: clean_up_def Let_def flip: b1_def)
  have keep: "bkDb ?b' = db'" "bkManager ?b' = bkManager b1" "client_frames (bkHeap ?b' ?p) = client_frames (bkHeap b ?p)"
    using b1(2) by (simp_all add: close_conn_def client_frames_def split: option.split)
  have "clock_forward E C \<longrightarrow> C (bkDb b) \<le> C db'"
    using calm_forward(2) [OF _ g(1)] by blast
  then show thesis
    using run that keep b1(1) g(2,3) at room_after_presence [OF g(3)] by (auto simp: presence_after_def)
qed

text \<open>The client enters the room and joins its presence.\<close>

lemma fresh_join:
  assumes "alone env" "session_at V K rid L rp b" "redis_presence (V (bkDb b)) rid P" "prRevision P < log_limit"
    and "mStore (bkManager b)" "int64_ok (LeaseDuration (mTiming (bkManager b)))" "0 < Milliseconds (LeaseDuration (mTiming (bkManager b)))"
    and "c = new_client env req clientID connectionID True lastSeq" "connectionID \<noteq> []" "lastSeq \<le> 0"
  obtains b2 where
    "join_presence (document_exec E) env rp (map_room rp (AddClient (seClient env)) (b\<lparr>bkHeap := (bkHeap b)(seClient env := c)\<rparr>)) =
      Some ((True, []), b2)"
    "session_at V K rid L rp b2" "bkHeap b2 (seClient env) = c" "mStore (bkManager b2)"
    "redis_presence (V (bkDb b2)) rid (spec_join (C (bkDb b)) connectionID (marshal_participant (participant c))
      (Milliseconds (LeaseDuration (mTiming (bkManager b)))) P)"
    "mObjs (bkManager b2) rp = AddClient (seClient env) (mObjs (bkManager b) rp)" "clock_forward E C \<longrightarrow> C (bkDb b) \<le> C (bkDb b2)"
proof -
  let ?p = "seClient env" and ?ms = "Milliseconds (LeaseDuration (mTiming (bkManager b)))"
  have c: "cConnectionID c = connectionID" using assms(8,10) by (simp add: new_client_def Let_def)
  define b1 where "b1 = map_room rp (AddClient ?p) (b\<lparr>bkHeap := (bkHeap b)(?p := c)\<rparr>)"
  have b1: "bkHeap b1 ?p = c" "bkDb b1 = bkDb b" "mTiming (bkManager b1) = mTiming (bkManager b)" "mStore (bkManager b1)"
    "mObjs (bkManager b1) rp = AddClient ?p (mObjs (bkManager b) rp)"
    by (simp_all add: b1_def) (simp_all add: map_room_def with_room_def assms(5))
  have "AddClient ?p (mObjs (bkManager b) rp) = (mObjs (bkManager b) rp)\<lparr>rClients := rClients (mObjs (bkManager b) rp) @ [?p]\<rparr>"
    using assms(2) cache_ok_store [of L "mObjs (bkManager b) rp"] by (simp add: AddClient_def session_at_def)
  then have at1: "session_at V K rid L rp b1"
    using assms(2) cache_ok_clients by (simp add: session_at_def b1)
  obtain db2 where j: "join_presence (document_exec E) env rp b1 =
      Some ((True, []), b1\<lparr>bkManager := ensurePresenceWatcher rp (bkManager b1), bkDb := db2\<rparr>)"
    "session_at V K rid L rp (b1\<lparr>bkManager := ensurePresenceWatcher rp (bkManager b1), bkDb := db2\<rparr>)"
    "redis_presence (V db2) rid (spec_join (C (bkDb b1)) connectionID (marshal_participant (participant c)) ?ms P)"
    "clock_forward E C \<longrightarrow> C (bkDb b1) \<le> C db2"
    using join_presence_alone [OF assms(1) at1, of P] b1(1-3) assms(3,4,6,7,9) c by auto
  show thesis
    by (rule that [OF _ j(2)]) (use j(1,3,4) b1 in \<open>simp_all add: b1_def\<close>)
qed

text \<open>It gets the state of the document, and who is there.\<close>

lemma fresh_state:
  assumes "alone env" "session_at V K rid L rp b" "redis_presence (V (bkDb b)) rid P" "prRevision P < log_limit" "good_records P"
    and "no_faults (bkHeap b (seClient env))" "\<not> presenceSent (bkHeap b (seClient env))" "lastSeq \<le> 0" "mStore (bkManager b)"
  obtains b3 b4 s now where "initial_state (document_exec E) env rp lastSeq b = Some ((True, []), b3)"
    "initial_presence (document_exec E) env rp b3 = Some (True, b4)" "session_at V K rid L rp b4" "mStore (bkManager b4)"
    "redis_presence (V (bkDb b4)) rid (spec_prune now P)" "set (psParticipants s) = live_participants now P"
    "client_frames (bkHeap b4 (seClient env)) =
      client_frames (bkHeap b (seClient env)) @ [FMessage (room_state (snapshot_of L) []), FPresence s]"
    "cConnectionID (bkHeap b4 (seClient env)) = cConnectionID (bkHeap b (seClient env))"
    "rClients (mObjs (bkManager b4) rp) = rClients (mObjs (bkManager b) rp)"
    "clock_forward E C \<longrightarrow> C (bkDb b) \<le> now \<and> now \<le> C (bkDb b4)"
proof -
  let ?p = "seClient env"
  obtain b3 where i: "initial_state (document_exec E) env rp lastSeq b = Some ((True, []), b3)" "session_at V K rid L rp b3"
    "V (bkDb b3) = V (bkDb b)" "rClients (mObjs (bkManager b3) rp) = rClients (mObjs (bkManager b) rp)"
    "bkHeap b3 = (bkHeap b)(?p := put_frame (FMessage (room_state (snapshot_of L) [])) (bkHeap b ?p))"
    "mStore (bkManager b3) = mStore (bkManager b)" "clock_forward E C \<longrightarrow> C (bkDb b) \<le> C (bkDb b3)"
    using initial_state_alone [OF assms(1,2,8)] assms(6) by auto
  have h3: "no_faults (bkHeap b3 ?p)" "\<not> presenceSent (bkHeap b3 ?p)" using i(5) assms(6,7) by simp_all
  have P3: "redis_presence (V (bkDb b3)) rid P" using assms(3) i(3) by simp
  obtain s b4 c4 where g: "initial_presence (document_exec E) env rp b3 = Some (True, b4)" "session_at V K rid L rp b4"
    "redis_presence (V (bkDb b4)) rid (spec_prune (C (bkDb b3)) P)" "set (psParticipants s) = live_participants (C (bkDb b3)) P"
    "bkManager b4 = bkManager b3" "bkHeap b4 = (bkHeap b3)(?p := c4)"
    "client_frames c4 = client_frames (bkHeap b3 ?p) @ [FPresence s]" "cConnectionID c4 = cConnectionID (bkHeap b3 ?p)"
    "clock_forward E C \<longrightarrow> C (bkDb b3) \<le> C (bkDb b4)"
    by (rule initial_presence_alone [OF assms(1) i(2) P3 assms(4,5) h3])
  show thesis
    by (rule that [OF i(1) g(1,2) _ g(3,4)]) (use g(5-9) i(4-7) assms(6,9) in simp_all)
qed

text \<open>All of it: the state of the document, then who is there, then out again.\<close>

lemma fresh_session:
  assumes "alone env" "session_at V K rid L rp b" "redis_presence (V (bkDb b)) rid P" "prRevision P + 2 < log_limit" "good_records P"
    and "mStore (bkManager b)" "int64_ok (LeaseDuration (mTiming (bkManager b)))" "0 < Milliseconds (LeaseDuration (mTiming (bkManager b)))"
    and "c = new_client env req clientID connectionID True lastSeq" "connectionID \<noteq> []" "lastSeq \<le> 0" "no_faults c"
    and "valid_participant (participant c)" "seClient env \<notin> set (rClients (mObjs (bkManager b) rp))"
  shows "\<exists>effs b' s now. run_session (document_exec E) env rp req clientID connectionID lastSeq [] b = Some (effs, b') \<and>
    client_frames (bkHeap b' (seClient env)) = frames (seConn env) @ [FMessage (room_state (snapshot_of L) []), FPresence s] \<and>
    set (psParticipants s) = live_participants now (spec_join (C (bkDb b)) connectionID (marshal_participant (participant c))
      (Milliseconds (LeaseDuration (mTiming (bkManager b)))) P) \<and>
    redis_presence (V (bkDb b')) rid (spec_leave connectionID (spec_prune now (spec_join (C (bkDb b)) connectionID
      (marshal_participant (participant c)) (Milliseconds (LeaseDuration (mTiming (bkManager b)))) P))) \<and>
    redis_room (V (bkDb b')) rid L \<and> rClients (mObjs (bkManager b') rp) = rClients (mObjs (bkManager b) rp) \<and>
    (clock_forward E C \<longrightarrow> C (bkDb b) \<le> now \<and> now \<le> C (bkDb b'))"
proof -
  let ?p = "seClient env" and ?ms = "Milliseconds (LeaseDuration (mTiming (bkManager b)))"
  define P2 where "P2 = spec_join (C (bkDb b)) connectionID (marshal_participant (participant c)) ?ms P"
  have cf: "client_frames c = frames (seConn env)" "\<not> presenceSent c" "cConnectionID c = connectionID"
    using assms(9,11) by (simp_all add: new_client_def client_frames_def Let_def)
  then have P2: "prRevision P2 + 1 < log_limit" "good_records P2"
    using assms(4,5,13) by (auto simp: P2_def spec_join_def good_records_def participant_def)
  have r: "prRevision P < log_limit" "prRevision P2 < log_limit" using assms(4) P2(1) by simp_all
  obtain b2 where j: "join_presence (document_exec E) env rp (map_room rp (AddClient ?p) (b\<lparr>bkHeap := (bkHeap b)(?p := c)\<rparr>)) =
      Some ((True, []), b2)" "session_at V K rid L rp b2" "bkHeap b2 ?p = c" "mStore (bkManager b2)"
    "redis_presence (V (bkDb b2)) rid P2" "mObjs (bkManager b2) rp = AddClient ?p (mObjs (bkManager b) rp)"
    "clock_forward E C \<longrightarrow> C (bkDb b) \<le> C (bkDb b2)"
    unfolding P2_def by (rule fresh_join [OF assms(1-3) r(1) assms(6-11)])
  obtain b3 b4 s now where g: "initial_state (document_exec E) env rp lastSeq b2 = Some ((True, []), b3)"
    "initial_presence (document_exec E) env rp b3 = Some (True, b4)" "session_at V K rid L rp b4" "mStore (bkManager b4)"
    "redis_presence (V (bkDb b4)) rid (spec_prune now P2)" "set (psParticipants s) = live_participants now P2"
    "client_frames (bkHeap b4 ?p) = client_frames c @ [FMessage (room_state (snapshot_of L) []), FPresence s]"
    "cConnectionID (bkHeap b4 ?p) = connectionID" "rClients (mObjs (bkManager b4) rp) = rClients (mObjs (bkManager b2) rp)"
    "clock_forward E C \<longrightarrow> C (bkDb b2) \<le> now \<and> now \<le> C (bkDb b4)"
    using fresh_state [OF assms(1) j(2,5) r(2) P2(2) _ _ assms(11) j(4)] j(3) assms(12) cf(2,3) by metis
  have rev: "prRevision (spec_prune now P2) < log_limit" using P2(1) by (simp add: spec_prune_def)
  obtain effs b5 where f: "clean_up (document_exec E) env rp req clientID b4 = Some (effs, b5)"
    "redis_presence (V (bkDb b5)) rid (spec_leave connectionID (spec_prune now P2))" "redis_room (V (bkDb b5)) rid L"
    "rClients (mObjs (bkManager b5) rp) = filter (\<lambda>q. q \<noteq> ?p) (rClients (mObjs (bkManager b4) rp))"
    "client_frames (bkHeap b5 ?p) = client_frames (bkHeap b4 ?p)" "clock_forward E C \<longrightarrow> C (bkDb b4) \<le> C (bkDb b5)"
    using clean_up_alone [OF assms(1) g(3,5) rev g(4)] g(8) by metis
  have "session_body (document_exec E) env rp lastSeq [] (b\<lparr>bkHeap := (bkHeap b)(?p := c)\<rparr>) = Some ([], b4)"
    using j(1) g(1,2) aloneD(1) [OF assms(1)] by (simp add: session_body_def Let_def)
  then obtain final where "run_session (document_exec E) env rp req clientID connectionID lastSeq [] b = Some (final, b5)"
    using f(1) assms(2,9) cache_ok_store [of L "mObjs (bkManager b) rp"]
    by (simp add: run_session_def Let_def session_at_def)
  moreover have "rClients (mObjs (bkManager b5) rp) = rClients (mObjs (bkManager b) rp)"
    using f(4) g(9) j(6) assms(14) by simp
  moreover have "clock_forward E C \<longrightarrow> C (bkDb b) \<le> now \<and> now \<le> C (bkDb b5)" using j(7) g(10) f(6) by linarith
  ultimately show ?thesis
    using f(2,3,5) g(6,7) cf(1) unfolding P2_def
    by (intro exI [of _ final] exI [of _ b5] exI [of _ s] exI [of _ now]) simp
qed

text \<open>The same from the request on.\<close>

lemma fresh_serve:
  assumes "alone env" "session_at V K (wqRoomID req) L rp b" "redis_presence (V (bkDb b)) (wqRoomID req) P"
    and "prRevision P + 2 < log_limit" "good_records P"
    and "mStore (bkManager b)" "int64_ok (LeaseDuration (mTiming (bkManager b)))" "0 < Milliseconds (LeaseDuration (mTiming (bkManager b)))"
    and "manager_ok (bkManager b)" "mRooms (bkManager b) (wqRoomID req) = Some rp"
    and "wqRoomID req \<noteq> []" "wqUsername req \<noteq> []" "wqHandshake req"
    and "originAllowed (wqOrigin req) (AllowedOrigins (seConfig env))" "fst (ParseInt (wqLastSequence req)) \<le> 0"
    and "newConnectionID (seRandom env) = Some connectionID" "connectionID \<noteq> []" "\<forall>i. write_fault (seConn env) i = None"
    and "me = \<lparr>pConnectionID = connectionID, pClientID = (if wqClientID req = [] then wqUsername req else wqClientID req),
      pUsername = wqUsername req, pInstanceID = InstanceID (seConfig env)\<rparr>" "valid_participant me"
    and "seClient env \<notin> set (rClients (mObjs (bkManager b) rp))"
  shows "\<exists>effs b' s now. serveWS (document_exec E) env req [] b = Some (Ended rp, effs, b') \<and>
    client_frames (bkHeap b' (seClient env)) = frames (seConn env) @ [FMessage (room_state (snapshot_of L) []), FPresence s] \<and>
    set (psParticipants s) = live_participants now (spec_join (C (bkDb b)) connectionID (marshal_participant me)
      (Milliseconds (LeaseDuration (mTiming (bkManager b)))) P) \<and>
    redis_presence (V (bkDb b')) (wqRoomID req) (spec_leave connectionID (spec_prune now (spec_join (C (bkDb b)) connectionID
      (marshal_participant me) (Milliseconds (LeaseDuration (mTiming (bkManager b)))) P))) \<and>
    redis_room (V (bkDb b')) (wqRoomID req) L \<and> rClients (mObjs (bkManager b') rp) = rClients (mObjs (bkManager b) rp) \<and>
    (clock_forward E C \<longrightarrow> C (bkDb b) \<le> now \<and> now \<le> C (bkDb b'))"
proof -
  define clientID where "clientID = (if wqClientID req = [] then wqUsername req else wqClientID req)"
  define c where "c = new_client env req clientID connectionID True (fst (ParseInt (wqLastSequence req)))"
  have c: "no_faults c" "participant c = me"
    using assms(15,18,19) by (simp_all add: c_def new_client_def no_faults_def participant_def clientID_def)
  have "GetRoom (document_exec E) (seNet env 0) (seGetOthers env) (wqRoomID req) (bkManager b) (bkDb b) =
      (Ok (Some rp), bkManager b, bkDb b)"
    using assms(10) ensureWatcher_known [OF assms(9,10)] by (simp add: GetRoom_def)
  then have serve: "serveWS (document_exec E) env req [] b = map_option (\<lambda>(effs, b). (Ended rp, effs, b))
      (run_session (document_exec E) env rp req clientID connectionID (fst (ParseInt (wqLastSequence req))) [] b)"
    using assms(11-14,16) by (simp add: serveWS_def Let_def clientID_def)
  obtain effs b' s now where
    "run_session (document_exec E) env rp req clientID connectionID (fst (ParseInt (wqLastSequence req))) [] b = Some (effs, b')"
    "client_frames (bkHeap b' (seClient env)) = frames (seConn env) @ [FMessage (room_state (snapshot_of L) []), FPresence s]"
    "set (psParticipants s) = live_participants now (spec_join (C (bkDb b)) connectionID (marshal_participant (participant c))
      (Milliseconds (LeaseDuration (mTiming (bkManager b)))) P)"
    "redis_presence (V (bkDb b')) (wqRoomID req) (spec_leave connectionID (spec_prune now (spec_join (C (bkDb b)) connectionID
      (marshal_participant (participant c)) (Milliseconds (LeaseDuration (mTiming (bkManager b)))) P)))"
    "redis_room (V (bkDb b')) (wqRoomID req) L" "rClients (mObjs (bkManager b') rp) = rClients (mObjs (bkManager b) rp)"
    "clock_forward E C \<longrightarrow> C (bkDb b) \<le> now \<and> now \<le> C (bkDb b')"
    using fresh_session [OF assms(1-8) c_def assms(17,15) c(1) _ assms(21)] assms(20) c(2) by blast
  then show ?thesis
    unfolding serve c(2) by (intro exI [of _ effs] exI [of _ b'] exI [of _ s] exI [of _ now]) simp
qed

end

end
