(* ===== verification/Session_Gauge.thy ===== *)
theory Session_Gauge
  imports Session_Facts
begin

section \<open>What a session reports of its connection\<close>

text \<open>
  The gauge of the connections and the two records of the trace that frame a session. The resume, the operations and the
  leaving of the presence report other things; so among all effects of a session the connection is counted once, and
  taken back once.
\<close>

fun connection_effect :: "effect \<Rightarrow> bool" where
  "connection_effect (Metric m) \<longleftrightarrow> m = WebSocketConnected \<or> m = WebSocketDisconnected"
| "connection_effect (Traced t) \<longleftrightarrow> tStage t = ''client_connected'' \<or> tStage t = ''client_disconnected''"
| "connection_effect _ \<longleftrightarrow> False"

definition connection_effects :: "effect list \<Rightarrow> effect list" where
  "connection_effects effs = filter connection_effect effs"

lemma connection_effects_simps [simp]:
  "connection_effects [] = []" "connection_effects (xs @ ys) = connection_effects xs @ connection_effects ys"
  "connection_effects (e # es) = (if connection_effect e then [e] else []) @ connection_effects es"
  by (simp_all add: connection_effects_def)

subsection \<open>A replay\<close>

text \<open>What every visit keeps, a replay keeps.\<close>

lemma visit_page_keeps:
  assumes "\<And>e s r s'. visit e s = (r, s') \<Longrightarrow> I s \<Longrightarrow> I s'"
  shows "visit_page visit lastSeq final events expected s = (r, s') \<Longrightarrow> I s \<Longrightarrow> I s'"
proof (induction events arbitrary: expected s)
  case (Cons e es)
  then show ?case using assms by (auto split: if_splits prod.splits outcome.splits)
qed simp

lemma replay_loop_keeps:
  assumes visit: "\<And>e s r s'. visit e s = (r, s') \<Longrightarrow> I s \<Longrightarrow> I s'"
    and run: "replay_loop exec net visit rid lastSeq boundary i start expected db s = Some y" and "I s"
  shows "I (snd (snd y))"
proof -
  have "(\<forall>e s. I s \<longrightarrow> I (snd (visit e s))) \<longrightarrow> I s \<longrightarrow> I (snd (snd y))"
  proof (rule replay_loop.raw_induct [OF _ run, where P = "\<lambda>exec net visit rid lastSeq boundary i start expected db s y.
      (\<forall>e s. I s \<longrightarrow> I (snd (visit e s))) \<longrightarrow> I s \<longrightarrow> I (snd (snd y))"], intro impI, goal_cases)
    case (1 loop exec net visit rid lastSeq boundary i start expected db s y)
    note IH = 1(1) and body = 1(2) and v = 1(3) and s = 1(4)
    have page: "visit_page visit lastSeq final events expected s = (r, s') \<Longrightarrow> I s'" for final events r s'
      using visit_page_keeps [of visit I] v s by (metis snd_conv)
    have more: "loop exec net visit rid lastSeq boundary i start expected db s' = Some z \<Longrightarrow> I s' \<Longrightarrow> I (snd (snd z))"
      for i start expected db s' z
      using IH [of exec net visit rid lastSeq boundary i start expected db s' z] v by blast
    from body show ?case
      using s by (auto split: if_splits prod.splits outcome.splits dest: page intro: more)
  qed
  then show ?thesis using visit \<open>I s\<close> by (metis prod.collapse)
qed

lemma EventsAfterSequence_keeps:
  assumes "\<And>e s r s'. visit e s = (r, s') \<Longrightarrow> I s \<Longrightarrow> I s'"
    and "EventsAfterSequence exec net rid lastSeq boundary visit db s = Some (r, db', s')" "I s"
  shows "I s'"
  using assms(2,3) replay_loop_keeps [of visit I, OF assms(1)] by (fastforce simp: EventsAfterSequence_def split: if_splits)

lemma resume_reports_no_connection:
  assumes "resumeClient exec env rid c lastSeq db = Some (r, c', effs, db')"
  shows "connection_effects effs = []"
proof -
  have visit: "connection_effects (snd (snd s')) = []"
    if "replay_visit env rid e s = (r, s')" "connection_effects (snd (snd s)) = []" for e s r s'
    using that by (auto simp: replay_visit_def replay_trace_def zero_trace_def split: prod.splits outcome.splits)
  have keeps: "connection_effects effs = []"
    if "EventsAfterSequence exec net rid lastSeq bd (replay_visit env rid) db (c, 0, []) = Some (r, db', c', n, effs)" for net bd db c r db' c' n effs
    using EventsAfterSequence_keeps [where I = "\<lambda>s. connection_effects (snd (snd s)) = []", OF visit that] by simp
  show ?thesis
    using assms
    by (auto simp: resumeClient_def gap_effects_def complete_effects_def zero_trace_def
        split: if_splits prod.splits outcome.splits option.splits dest!: keeps)
qed

subsection \<open>An operation\<close>

lemma operation_reports_no_connection:
  assumes "handleContentUpdate exec env p incoming w = Some (effs, w')"
  shows "connection_effects effs = []"
proof -
  have t: "tStage (op_trace env rid m cid) = []" for rid m cid by (simp add: op_trace_def zero_trace_def)
  have received: "connection_effects (received_effects env rid m cid base s) = []" for rid m cid base s
    by (simp add: received_effects_def)
  have failed: "connection_effects (failed_effects env rid m cid e) = []" for rid m cid e by (simp add: failed_effects_def)
  have applied: "connection_effects (applied_effects env rid m cid r) = []" for rid m cid r
    by (simp add: applied_effects_def result_trace_def)
  have answered: "connection_effects (answered_effects env rid m cid r sent) = []" for rid m cid r sent
    by (simp add: answered_effects_def result_trace_def)
  have answer: "connection_effects effs' = []" if "answer_operation env p incoming cid r effs w = Some (effs', w')" "connection_effects effs = []"
    for cid r effs w effs' w'
    using that by (auto simp: answer_operation_def Let_def Option.bind_eq_Some_conv applied answered split: if_splits prod.splits)
  have fail: "connection_effects effs' = []" if "fail_operation env p incoming cid e effs w = Some (effs', w')" "connection_effects effs = []"
    for cid e effs w effs' w'
    using that by (auto simp: fail_operation_def Let_def Option.bind_eq_Some_conv failed)
  have perform: "connection_effects effs' = []" if "perform_operation exec env p incoming cid base prior w = Some (effs', w')"
    for cid base prior w effs' w'
  proof -
    from that obtain result w3 where "(case result of
        Inl e \<Rightarrow> fail_operation env p incoming cid e (Metric OperationStarted # received_effects env (rID (woRoom w)) incoming cid base prior) w3
      | Inr r \<Rightarrow> answer_operation env p incoming cid r (Metric OperationStarted # received_effects env (rID (woRoom w)) incoming cid base prior) w3) =
        Some (effs', w')"
      by (auto simp: perform_operation_def Let_def Option.bind_eq_Some_conv)
    then show ?thesis by (cases result) (auto simp: received dest: answer fail)
  qed
  have refuse: "connection_effects effs' = []" if "refuse_operation p incoming cid prior w = Some (effs', w')" for cid prior w effs' w'
    using that by (auto simp: refuse_operation_def Option.bind_eq_Some_conv)
  show ?thesis
    using assms by (auto simp: handleContentUpdate_def Let_def Option.bind_eq_Some_conv split: option.splits if_splits dest: perform refuse)
qed

subsection \<open>A session\<close>

lemma handle_message_reports_no_connection:
  assumes "handle_message exec env rp k raw b = Some (effs, b')"
  shows "connection_effects effs = []"
  using assms
  by (auto simp: handle_message_def on_room_def Let_def split: option.splits if_splits prod.splits dest: operation_reports_no_connection)

lemma loop_reports_no_connection:
  "session_loop exec env rp k inputs b = Some (effs, b') \<Longrightarrow> connection_effects effs = []"
proof (induction inputs arbitrary: k b effs)
  case (Cons x xs)
  then show ?case
    by (cases x) (auto simp: Let_def Option.bind_eq_Some_conv split: if_splits prod.splits dest: handle_message_reports_no_connection)
qed simp

lemma join_reports_no_connection:
  "join_presence exec env rp b = Some ((go, effs), b') \<Longrightarrow> connection_effects effs = []"
  by (auto simp: join_presence_def Let_def Option.bind_eq_Some_conv split: if_splits prod.splits outcome.splits)

lemma start_reports_no_connection:
  "initial_state exec env rp lastSeq b = Some ((go, effs), b') \<Longrightarrow> connection_effects effs = []"
  by (auto simp: initial_state_def Let_def Option.bind_eq_Some_conv split: if_splits prod.splits outcome.splits option.splits
      dest: resume_reports_no_connection)

text \<open>The part of the body after a join that succeeded.\<close>

definition session_goes_on :: "'db exec \<Rightarrow> 'db session_env \<Rightarrow> room_ptr \<Rightarrow> int64 \<Rightarrow> ws_input list \<Rightarrow> effect list \<Rightarrow> 'db backend \<Rightarrow>
    (effect list \<times> 'db backend) option" where
  "session_goes_on exec env rp lastSeq inputs effs1 b = do {
     ((started, effs2), b) \<leftarrow> initial_state exec env rp lastSeq (seOthers env 2 b);
     if \<not> started then Some (effs1 @ effs2, b)
     else do {
       (present, b) \<leftarrow> initial_presence exec env rp (seOthers env 5 b);
       if \<not> present then Some (effs1 @ effs2, b)
       else do {
         (effs3, b) \<leftarrow> session_loop exec env rp 0 inputs b;
         Some (effs1 @ effs2 @ effs3, b)
       }
     }
   }"

lemma goes_on_reports_no_connection:
  assumes "session_goes_on exec env rp lastSeq inputs effs1 b = Some (effs, b')"
  shows "connection_effects effs = connection_effects effs1"
proof -
  from assms obtain go effs2 b2 where i: "initial_state exec env rp lastSeq (seOthers env 2 b) = Some ((go, effs2), b2)"
    and rest: "(if \<not> go then Some (effs1 @ effs2, b2)
      else Option.bind (initial_presence exec env rp (seOthers env 5 b2)) (\<lambda>(present, b). if \<not> present then Some (effs1 @ effs2, b)
        else Option.bind (session_loop exec env rp 0 inputs b) (\<lambda>(effs3, b). Some (effs1 @ effs2 @ effs3, b)))) = Some (effs, b')"
    unfolding session_goes_on_def by (auto simp: Option.bind_eq_Some_conv)
  from start_reports_no_connection [OF i] rest show ?thesis
    by (auto simp: Option.bind_eq_Some_conv split: if_splits dest: loop_reports_no_connection)
qed

lemma body_reports_no_connection:
  assumes "session_body exec env rp lastSeq inputs b = Some (effs, b')"
  shows "connection_effects effs = []"
proof -
  have "session_body exec env rp lastSeq inputs b =
      Option.bind (join_presence exec env rp (seOthers env 1 (map_room rp (AddClient (seClient env)) (seOthers env 0 b))))
        (\<lambda>((joined, effs1), b). if \<not> joined then Some (effs1, b) else session_goes_on exec env rp lastSeq inputs effs1 b)"
    unfolding session_body_def session_goes_on_def Let_def by (rule refl)
  with assms obtain go effs1 b0 b1 where j: "join_presence exec env rp b0 = Some ((go, effs1), b1)"
    and rest: "(if \<not> go then Some (effs1, b1) else session_goes_on exec env rp lastSeq inputs effs1 b1) = Some (effs, b')"
    by (auto simp: Option.bind_eq_Some_conv)
  from join_reports_no_connection [OF j] rest show ?thesis by (cases go) (auto dest: goes_on_reports_no_connection)
qed

lemma leave_reports_no_connection:
  "leave_presence exec env rp b = Some (effs, b') \<Longrightarrow> connection_effects effs = []"
  by (auto simp: leave_presence_def Let_def split: if_splits prod.splits outcome.splits)

text \<open>The two records of the trace.\<close>

definition connected_trace :: "'db session_env \<Rightarrow> ws_request \<Rightarrow> string \<Rightarrow> TraceEvent" where
  "connected_trace env req clientID = zero_trace\<lparr>tStage := ''client_connected'', tInstanceID := InstanceID (seConfig env),
     tRoomID := wqRoomID req, tClientID := clientID, tEventSequence := fst (ParseInt (wqLastSequence req))\<rparr>"

definition disconnected_trace :: "'db session_env \<Rightarrow> ws_request \<Rightarrow> string \<Rightarrow> TraceEvent" where
  "disconnected_trace env req clientID = zero_trace\<lparr>tStage := ''client_disconnected'', tInstanceID := InstanceID (seConfig env),
     tRoomID := wqRoomID req, tClientID := clientID\<rparr>"

lemma clean_up_reports:
  assumes "clean_up exec env rp req clientID b = Some (effs, b')"
  shows "connection_effects effs = [Metric WebSocketDisconnected, Traced (disconnected_trace env req clientID)]"
  using assms
  by (auto simp: clean_up_def Let_def Option.bind_eq_Some_conv disconnect_effects_def disconnected_trace_def
      dest!: leave_reports_no_connection)

lemma session_reports:
  assumes "serveWS exec env req inputs b = Some (Ended rp, effs, b')"
    and "clientID = (if wqClientID req = [] then wqUsername req else wqClientID req)"
  shows "connection_effects effs = [Metric WebSocketConnected, Traced (connected_trace env req clientID),
    Metric WebSocketDisconnected, Traced (disconnected_trace env req clientID)]"
proof -
  from assms obtain connectionID b1 where
    run: "run_session exec env rp req clientID connectionID (fst (ParseInt (wqLastSequence req))) inputs b1 = Some (effs, b')"
    by (auto simp: serveWS_def Let_def split: if_splits prod.splits outcome.splits option.splits)
  then show ?thesis
    by (auto simp: run_session_def Let_def Option.bind_eq_Some_conv connect_effects_def connected_trace_def
        dest!: body_reports_no_connection clean_up_reports)
qed

subsection \<open>The gauge\<close>

definition metric_calls :: "effect list \<Rightarrow> metric list" where
  "metric_calls effs = List.map_filter (\<lambda>e. case e of Metric m \<Rightarrow> Some m | _ \<Rightarrow> None) effs"

text \<open>The gauge after some effects is what the connections among them make of it.\<close>

lemma gauge_after_call:
  "websocketConnections (metric_call rnd x m) = (case x of WebSocketConnected \<Rightarrow> websocketConnections m + 1
     | WebSocketDisconnected \<Rightarrow> websocketConnections m - 1 | _ \<Rightarrow> websocketConnections m)"
  by (cases x) simp_all

lemma gauge_only:
  "websocketConnections m = websocketConnections m' \<Longrightarrow>
    websocketConnections (fold (metric_call rnd) ms m) = websocketConnections (fold (metric_call rnd) ms m')"
proof (induction ms arbitrary: m m')
  case (Cons x xs)
  have "websocketConnections (metric_call rnd x m) = websocketConnections (metric_call rnd x m')"
    unfolding gauge_after_call Cons.prems ..
  from Cons.IH [OF this] show ?case by (simp only: fold_Cons comp_apply)
qed simp

lemma metric_calls_simps [simp]:
  "metric_calls [] = []" "metric_calls (Metric x # es) = x # metric_calls es" "metric_calls (Traced t # es) = metric_calls es"
  "metric_calls (Logged l v a # es) = metric_calls es" "metric_calls (Exported s # es) = metric_calls es"
  by (simp_all add: metric_calls_def map_filter_simps)

lemma gauge_of_connections:
  "websocketConnections (fold (metric_call rnd) (metric_calls effs) m) =
    websocketConnections (fold (metric_call rnd) (metric_calls (connection_effects effs)) m)"
proof (induction effs arbitrary: m)
  case (Cons e es)
  show ?case
  proof (cases e)
    case (Metric x)
    show ?thesis
    proof (cases "connection_effect e")
      case False
      then have "websocketConnections (metric_call rnd x m) = websocketConnections m"
        unfolding Metric gauge_after_call by (cases x) simp_all
      from gauge_only [OF this, of rnd "metric_calls es"] show ?thesis using Cons.IH [of m] False unfolding Metric by simp
    qed (use Cons.IH in \<open>simp add: Metric\<close>)
  qed (use Cons.IH in simp_all)
qed simp

end
