(* ===== verification/Operation_Rooms.thy ===== *)
theory Operation_Rooms
  imports Operation_Facts
begin

section \<open>An operation on a room\<close>

text \<open>
  What \<open>handleContentUpdate\<close> does to the document and to its readers: in a room of one backend
  without others in between, exactly; in a room in Redis, with the watcher, the other handlers and
  the other backends running between any two of its steps.
\<close>

subsection \<open>Without Redis\<close>

lemma local_write_result:
  assumes "room_sound r" "fits max_int64 1 (room_snapshot r)"
  shows "fst (local_write policy w r) = occ_result policy w (room_snapshot r) []"
proof -
  have "wrap64 (rVersion r + 1) = rVersion r + 1" "wrap64 (rSequence r + 1) = rSequence r + 1"
    using assms by (simp_all add: wrap64_succ room_sound_def fits_def room_snapshot_def)
  then show ?thesis
    by (cases policy) (auto simp: applyLocalContentUpdate_def occ_result_def occ_accepts_def room_snapshot_def Let_def)
qed

lemma local_write_frame:
  "rClients (snd (applyLocalContentUpdate content base policy r)) = rClients r"
  "rStore (snd (applyLocalContentUpdate content base policy r)) = rStore r"
  "rID (snd (applyLocalContentUpdate content base policy r)) = rID r"
  by (simp_all add: applyLocalContentUpdate_def Let_def)

lemma broadcast_to_sound:
  assumes "distinct ps" "\<forall>q\<in>set ps. no_faults (h q)"
  shows "\<exists>h'. broadcast_to (deliver_message False m) ps h = Some h' \<and>
    (\<forall>q. h' q = (if q \<in> set ps then put_frame (FMessage m) (h q) else h q))"
  using assms
proof (induction ps arbitrary: h)
  case (Cons p ps)
  have conn: "cConn (h p) \<noteq> None" using Cons.prems(2) no_faults_has_conn [of "h p"] by (simp add: has_conn_def)
  have d: "deliver_message False m (h p) = Some (put_frame (FMessage m) (h p))"
    using Cons.prems(2) conn by (simp add: deliver_message_def WriteJSON_no_faults del: not_None_eq)
  define h1 where "h1 = h(p := put_frame (FMessage m) (h p))"
  have "\<forall>q\<in>set ps. no_faults (h1 q)" using Cons.prems(2) by (simp add: h1_def)
  from Cons.IH [OF _ this] Cons.prems(1) obtain h' where
    "broadcast_to (deliver_message False m) ps h1 = Some h'"
    "\<forall>q. h' q = (if q \<in> set ps then put_frame (FMessage m) (h1 q) else h1 q)" by auto
  then show ?case using d Cons.prems(1) by (auto simp flip: h1_def) (auto simp: h1_def)
qed simp

text \<open>What each client of the room is sent.\<close>

definition local_frames :: "ptr \<Rightarrow> Message \<Rightarrow> Room \<Rightarrow> heap \<Rightarrow> ApplyContentResult \<Rightarrow> ptr \<Rightarrow> frame list" where
  "local_frames p incoming r h res q =
     (let clientID = client_id_of incoming (h p) in
      (if q = p then [FMessage (operation_result incoming clientID res)] else []) @
      (if arAccepted res then [FMessage (local_update (cUsername (h p)) incoming clientID res)]
       else if q = p then [FMessage (resync_state (GetUsernames h r) res)] else []))"

lemma put_frame_names [simp]: "cUsername (put_frame f c) = cUsername c" "cClientID (put_frame f c) = cClientID c"
  by (simp_all add: put_frame_def)

lemma GetUsernames_put_frame: "GetUsernames (h(p := put_frame f (h p))) r = GetUsernames h r"
  by (simp add: GetUsernames_def)

lemma local_operation_runs:
  assumes "\<not> rStore r" "room_sound r" "fits max_int64 1 (room_snapshot r)" "opOthers env = (\<lambda>i w. w)"
    and "distinct (rClients r)" "p \<in> set (rClients r)" "\<forall>q\<in>set (rClients r). no_faults (h q)"
    and "mOperationID incoming \<noteq> []" "mBaseVersion incoming = Some base"
    and "op = \<lparr>wContent = mContent incoming, wBase = base\<rparr>" "policy = StaleWritePolicy (opConfig env)"
  shows "\<exists>effs w'. handleContentUpdate exec env p incoming \<lparr>woRoom = r, woHeap = h, woDb = db\<rparr> = Some (effs, w') \<and>
    room_snapshot (woRoom w') = occ_next policy op (room_snapshot r) \<and> rClients (woRoom w') = rClients r \<and> woDb w' = db \<and>
    (\<forall>q\<in>set (rClients r). client_frames (woHeap w' q) =
       client_frames (h q) @ local_frames p incoming r h (occ_result policy op (room_snapshot r) []) q) \<and>
    (\<forall>q\<in>set (rClients r). no_faults (woHeap w' q))"
proof -
  let ?w = "\<lparr>woRoom = r, woHeap = h, woDb = db\<rparr>"
  let ?id = "client_id_of incoming (h p)"
  obtain r' where r': "applyLocalContentUpdate (mContent incoming) base policy r = (occ_result policy op (room_snapshot r) [], r')"
    using local_write_result [OF assms(2,3), of op policy] assms(10) by (metis prod.collapse write_op.select_convs)
  define res where "res = occ_result policy op (room_snapshot r) []"
  have acc: "arAccepted res = occ_accepts policy (wBase op) (sVersion (room_snapshot r))" by (simp add: res_def occ_result_def)
  have r'_facts: "rClients r' = rClients r" "\<not> rStore r'" "rID r' = rID r"
    using local_write_frame [of "mContent incoming" base policy r] r' assms(1) by simp_all
  have next_state: "room_snapshot r' = occ_next policy op (room_snapshot r)"
    using local_doc.snapshot_apply [OF assms(2) _ assms(3), of op policy] r' assms(10) by simp
  have snap: "read_snapshot exec (opNet env 0) ?w = Some (room_snapshot r, ?w)"
    using assms(1) by (simp add: read_snapshot_def GetSnapshot_def)
  have wd: "write_document exec (opNet env 1) (mContent incoming) base policy (mOperationID incoming) ?id (cUsername (h p)) ?w =
      Some (Inr res, \<lparr>woRoom = r', woHeap = h, woDb = db\<rparr>)"
    using assms(1) r' by (simp add: write_document_def ApplyOperation_def res_def)
  define m where "m = operation_result incoming ?id res"
  define h1 where "h1 = h(p := put_frame (FMessage m) (h p))"
  have nf: "no_faults (h p)" "no_faults (h1 p)" using assms(6,7) by (simp_all add: h1_def)
  have sent: "send_json p m \<lparr>woRoom = r', woHeap = h, woDb = db\<rparr> = Some (True, \<lparr>woRoom = r', woHeap = h1, woDb = db\<rparr>)"
    using send_json_no_faults [of "\<lparr>woRoom = r', woHeap = h, woDb = db\<rparr>" p m] nf(1) by (simp add: h1_def put_client_def)
  obtain effs0 where run: "handleContentUpdate exec env p incoming ?w =
      answer_operation env p incoming ?id res effs0 \<lparr>woRoom = r', woHeap = h, woDb = db\<rparr>"
    using assms(4,8,9,11) snap wd by (simp add: handleContentUpdate_def perform_operation_def Let_def)
  show ?thesis
  proof (cases "arAccepted res")
    case True
    have "\<forall>q\<in>set (rClients r). no_faults (h1 q)" using assms(7) by (simp add: h1_def)
    from broadcast_to_sound [OF assms(5) this] obtain h' where h':
      "broadcast_to (deliver_message False (local_update (cUsername (h p)) incoming ?id res)) (rClients r) h1 = Some h'"
      "\<forall>q. h' q = (if q \<in> set (rClients r) then put_frame (FMessage (local_update (cUsername (h p)) incoming ?id res)) (h1 q) else h1 q)"
      by blast
    have "\<exists>effs. handleContentUpdate exec env p incoming ?w = Some (effs, \<lparr>woRoom = r', woHeap = h', woDb = db\<rparr>)"
      using run sent True r'_facts h'(1) assms(4)
      by (simp add: answer_operation_def Let_def BroadcastJSON_def clientsSnapshot_def h1_def flip: m_def)
    then show ?thesis
      using True next_state r'_facts(1) h'(2) assms(7) by (auto simp: local_frames_def h1_def m_def Let_def simp flip: res_def)
  next
    case False
    let ?rs = "resync_state (GetUsernames h r) res"
    have rs: "send_json p ?rs \<lparr>woRoom = r', woHeap = h1, woDb = db\<rparr> =
        Some (True, \<lparr>woRoom = r', woHeap = h1(p := put_frame (FMessage ?rs) (h1 p)), woDb = db\<rparr>)"
      using send_json_no_faults [of "\<lparr>woRoom = r', woHeap = h1, woDb = db\<rparr>" p ?rs] nf(2) by (simp add: put_client_def)
    have users: "roomStateUsers h1 r' = GetUsernames h r"
      using r'_facts GetUsernames_put_frame [of h p "FMessage m" r'] by (simp add: roomStateUsers_def h1_def GetUsernames_def)
    have "\<exists>effs. handleContentUpdate exec env p incoming ?w =
        Some (effs, \<lparr>woRoom = r', woHeap = h1(p := put_frame (FMessage ?rs) (h1 p)), woDb = db\<rparr>)"
      using run sent False rs assms(4) users by (simp add: answer_operation_def Let_def flip: m_def)
    then show ?thesis
      using False next_state r'_facts(1) nf assms(7) by (auto simp: local_frames_def h1_def m_def Let_def simp flip: res_def)
  qed
qed

subsection \<open>With Redis\<close>

text \<open>
  The room is the log \<open>L\<close> in Redis. The others may append to the log, change the cached document
  and write to every socket, but they do not reply on this one, and they keep who the client is.
\<close>

definition at_room :: "('db \<Rightarrow> view) \<Rightarrow> ('db \<Rightarrow> bool) \<Rightarrow> string \<Rightarrow> DistributedEvent list \<Rightarrow> 'db world \<Rightarrow> bool" where
  "at_room V K rid L w \<longleftrightarrow> rStore (woRoom w) \<and> rID (woRoom w) = rid \<and> K (woDb w) \<and> redis_room (V (woDb w)) rid L"

definition fair_others :: "('db \<Rightarrow> view) \<Rightarrow> ('db \<Rightarrow> bool) \<Rightarrow> string \<Rightarrow> ptr \<Rightarrow> 'db op_env \<Rightarrow> bool" where
  "fair_others V K rid p env \<longleftrightarrow> quiet_for p env \<and> (\<forall>i w.
     cClientID (woHeap (opOthers env i w) p) = cClientID (woHeap w p) \<and>
     cUsername (woHeap (opOthers env i w) p) = cUsername (woHeap w p) \<and>
     (\<forall>L. at_room V K rid L w \<longrightarrow> (\<exists>es. at_room V K rid (L @ es) (opOthers env i w))))"

definition fair_net :: "('db \<Rightarrow> view) \<Rightarrow> ('db \<Rightarrow> bool) \<Rightarrow> string \<Rightarrow> 'db op_env \<Rightarrow> bool" where
  "fair_net V K rid env \<longleftrightarrow> (\<forall>i. links_up (opNet env i) \<and> appending V K rid (opNet env i))"

lemma fair_others_room:
  assumes "fair_others V K rid p env" "at_room V K rid L w"
  obtains es where "at_room V K rid (L @ es) (opOthers env i w)"
  using assms unfolding fair_others_def by blast

lemma fair_others_client:
  assumes "fair_others V K rid p env"
  shows "cClientID (woHeap (opOthers env i w) p) = cClientID (woHeap w p)"
    "cUsername (woHeap (opOthers env i w) p) = cUsername (woHeap w p)"
    "no_faults (woHeap (opOthers env i w) p) = no_faults (woHeap w p)" "quiet_for p env"
  using assms by (simp_all add: fair_others_def quiet_for_def)

lemma at_room_put [simp]: "at_room V K rid L (put_client p c w) = at_room V K rid L w"
  by (simp add: at_room_def)

lemma read_snapshot_room:
  assumes "redis_server E V K" "links_up net" "appending V K rid net" "at_room V K rid L w"
  obtains s w' es where "read_snapshot (document_exec E) net w = Some (s, w')" "at_room V K rid (L @ es) w'" "woHeap w' = woHeap w"
proof -
  note r = assms(4) [unfolded at_room_def]
  obtain L1 L2 L3 db' where g: "prefix L L1" "prefix L1 L2" "prefix L2 L3"
    "GetSnapshot_store (document_exec E) net rid (woDb w) =
       (Ok (Some \<lparr>sContent = sContent (snapshot_of L1), sVersion = int (length L2), sSequence = int (length L3)\<rparr>), db')"
    "K db'" "redis_room (V db') rid L3"
    by (rule GetSnapshot_reads [OF assms(1-3)]) (use r in blast)+
  have "prefix L L3" using g(1-3) by (meson prefix_order.trans)
  then obtain es where "L3 = L @ es" by (auto simp: prefix_def)
  let ?r = "applySnapshot \<lparr>sContent = sContent (snapshot_of L1), sVersion = int (length L2), sSequence = int (length L3)\<rparr> (woRoom w)"
  show thesis
    by (rule that [of "room_snapshot ?r" "w\<lparr>woRoom := ?r, woDb := db'\<rparr>" es])
      (use g(4-6) r \<open>L3 = L @ es\<close> in \<open>simp_all add: read_snapshot_def GetSnapshot_def Let_def at_room_def\<close>)
qed

lemma write_document_room:
  assumes "redis_server E V K" "links_up net" "appending V K rid net" "at_room V K rid L w"
    and "op = \<lparr>wContent = content, wBase = base\<rparr>"
  obtains es where "redis_room (V (before net 0 (woDb w))) rid (L @ es)" "int (length (L @ es)) < log_limit \<Longrightarrow> \<exists>sid w'.
    write_document (document_exec E) net content base policy oid cid u w =
      Some (Inr (occ_result policy op (snapshot_of (L @ es)) sid), w') \<and> woHeap w' = woHeap w \<and>
    at_room V K rid (if occ_accepts policy base (int (length (L @ es)))
      then (L @ es) @ [apply_event (L @ es) sid content oid cid u] else L @ es) w'"
proof -
  note r = assms(4) [unfolded at_room_def]
  obtain es where es: "K (before net 0 (woDb w))" "redis_room (V (before net 0 (woDb w))) rid (L @ es)"
    using appendingE [OF assms(3), of "woDb w" L 0] r by blast
  show thesis
  proof (rule that [OF es(2)])
    assume lim: "int (length (L @ es)) < log_limit"
    have up: "link_of net 0 = LinkUp" using assms(2) by (simp add: links_up_def)
    obtain sid db' where *: "ApplyContentUpdate_store (document_exec E) net rid (wContent op) (wBase op) policy oid cid u (woDb w) =
        (Ok (occ_result policy op (snapshot_of (L @ es)) sid), db')"
      "applied V K rid (L @ es) (before net 0 (woDb w)) policy op oid cid u sid db'"
      by (rule store_apply_linkup [OF assms(1) es lim up])
    let ?L = "if occ_accepts policy base (int (length (L @ es)))
      then (L @ es) @ [apply_event (L @ es) sid content oid cid u] else L @ es"
    let ?res = "occ_result policy op (snapshot_of (L @ es)) sid"
    let ?w = "w\<lparr>woRoom := applySnapshot \<lparr>sContent = arContent ?res, sVersion = arServerVersion ?res, sSequence = arSequence ?res\<rparr> (woRoom w),
      woDb := db'\<rparr>"
    have "write_document (document_exec E) net content base policy oid cid u w = Some (Inr ?res, ?w)"
      using *(1) r assms(5) by (simp add: write_document_def ApplyOperation_def)
    moreover have "at_room V K rid ?L ?w" using *(2) es(2) assms(5) r by (auto simp: applied_def at_room_def)
    ultimately show "\<exists>sid w'. write_document (document_exec E) net content base policy oid cid u w =
        Some (Inr (occ_result policy op (snapshot_of (L @ es)) sid), w') \<and> woHeap w' = woHeap w \<and>
      at_room V K rid (if occ_accepts policy base (int (length (L @ es)))
        then (L @ es) @ [apply_event (L @ es) sid content oid cid u] else L @ es) w'"
      by (intro exI [of _ sid] exI [of _ ?w]) simp
  qed
qed

lemma answer_operation_room:
  assumes "fair_others V K rid p env" "at_room V K rid L w" "no_faults (woHeap w p)"
  shows "\<exists>effs' w' es. answer_operation env p incoming clientID r effs w = Some (effs', w') \<and> at_room V K rid (L @ es) w' \<and>
    replies (woHeap w' p) = replies (woHeap w p) @ operation_result incoming clientID r #
      (if arAccepted r then [] else [resync_state [] r])"
proof -
  define m where "m = operation_result incoming clientID r"
  note c = fair_others_client [OF assms(1)]
  note q = c(4) [unfolded quiet_for_def, rule_format]
  define w2 where "w2 = put_client p (put_frame (FMessage m) (woHeap (opOthers env 2 w) p)) (opOthers env 2 w)"
  define w3 where "w3 = opOthers env 3 w2"
  obtain es where es: "at_room V K rid (L @ es) (opOthers env 2 w)" by (rule fair_others_room [OF assms(1,2)])
  then have "at_room V K rid (L @ es) w2" by (simp add: w2_def)
  from fair_others_room [OF assms(1) this] obtain es' where es': "at_room V K rid (L @ es @ es') w3"
    unfolding w3_def by (metis append.assoc)
  from fair_others_room [OF assms(1) this] obtain es'' where es'': "at_room V K rid (L @ es @ es' @ es'') (opOthers env 4 w3)"
    by (metis append.assoc)
  have n: "no_faults (woHeap (opOthers env 2 w) p)" "no_faults (woHeap w3 p)" "no_faults (woHeap (opOthers env 4 w3) p)"
    using assms(3) c(3) by (simp_all add: w2_def w3_def)
  have r3: "replies (woHeap w3 p) = replies (woHeap w p) @ [m]" using q n(1) by (simp add: w3_def w2_def m_def)
  have sent: "send_json p m (opOthers env 2 w) = Some (True, w2)" using send_json_no_faults [OF n(1)] by (simp add: w2_def)
  have store: "rStore (woRoom w3)" using es' by (simp add: at_room_def)
  show ?thesis
  proof (cases "arAccepted r")
    case True
    have "\<exists>effs'. answer_operation env p incoming clientID r effs w = Some (effs', w3)"
      using sent store True by (simp add: answer_operation_def Let_def flip: m_def w3_def)
    then show ?thesis using es' r3 True by (auto simp: m_def)
  next
    case False
    let ?w' = "put_client p (put_frame (FMessage (resync_state [] r)) (woHeap (opOthers env 4 w3) p)) (opOthers env 4 w3)"
    have "\<exists>effs'. answer_operation env p incoming clientID r effs w = Some (effs', ?w')"
      using sent store False send_json_no_faults [OF n(3), of "resync_state [] r"]
      by (simp add: answer_operation_def Let_def roomStateUsers_def flip: m_def w3_def)
    moreover have "replies (woHeap ?w' p) = replies (woHeap w p) @ [m, resync_state [] r]" using n(3) r3 q by simp
    ultimately show ?thesis using es'' False by (auto simp: m_def)
  qed
qed

text \<open>The log that the write meets: the one in Redis just before its script runs.\<close>

definition db_at_write :: "'db exec \<Rightarrow> 'db op_env \<Rightarrow> 'db world \<Rightarrow> 'db option" where
  "db_at_write exec env w = map_option (\<lambda>(s, w). before (opNet env 1) 0 (woDb (opOthers env 1 w)))
     (read_snapshot exec (opNet env 0) (opOthers env 0 w))"

lemma distributed_operation_runs:
  assumes S: "redis_server E V K" and fair: "fair_others V K rid p env" "fair_net V K rid env"
    and w: "at_room V K rid L w" "no_faults (woHeap w p)"
    and valid: "mOperationID incoming \<noteq> []" "mBaseVersion incoming = Some base"
    and op: "op = \<lparr>wContent = mContent incoming, wBase = base\<rparr>" "policy = StaleWritePolicy (opConfig env)"
    and cid: "cid = client_id_of incoming (woHeap w p)"
  obtains d L1 where "db_at_write (document_exec E) env w = Some d" "redis_room (V d) rid L1"
    "prefix L L1" "int (length L1) < log_limit \<Longrightarrow> \<exists>effs w' sid es.
    handleContentUpdate (document_exec E) env p incoming w = Some (effs, w') \<and>
    at_room V K rid ((if occ_accepts policy base (int (length L1))
      then L1 @ [apply_event L1 sid (mContent incoming) (mOperationID incoming) cid (cUsername (woHeap w p))] else L1) @ es) w' \<and>
    replies (woHeap w' p) = replies (woHeap w p) @ operation_result incoming cid (occ_result policy op (snapshot_of L1) sid) #
      (if occ_accepts policy base (int (length L1)) then [] else [resync_state [] (occ_result policy op (snapshot_of L1) sid)])"
proof -
  note c = fair_others_client [OF fair(1)]
  note q = c(4) [unfolded quiet_for_def, rule_format]
  have net: "links_up (opNet env i)" "appending V K rid (opNet env i)" for i using fair(2) by (simp_all add: fair_net_def)
  obtain es0 where w0: "at_room V K rid (L @ es0) (opOthers env 0 w)" by (rule fair_others_room [OF fair(1) w(1)])
  obtain s w1 es1 where snap: "read_snapshot (document_exec E) (opNet env 0) (opOthers env 0 w) = Some (s, w1)"
    "at_room V K rid ((L @ es0) @ es1) w1" "woHeap w1 = woHeap (opOthers env 0 w)"
    by (rule read_snapshot_room [OF S net w0])
  define w2 where "w2 = opOthers env 1 w1"
  obtain es2 where w2: "at_room V K rid (((L @ es0) @ es1) @ es2) w2"
    using fair_others_room [OF fair(1) snap(2)] unfolding w2_def by blast
  have heap: "cUsername (woHeap w2 p) = cUsername (woHeap w p)" "no_faults (woHeap w2 p)" "replies (woHeap w2 p) = replies (woHeap w p)"
    "cid = client_id_of incoming (woHeap (opOthers env 0 w) p)"
    using c snap(3) w(2) q cid by (simp_all add: w2_def client_id_of_def)
  define L0 where "L0 = ((L @ es0) @ es1) @ es2"
  obtain es3 where at3: "redis_room (V (before (opNet env 1) 0 (woDb w2))) rid (L0 @ es3)"
    and wd: "int (length (L0 @ es3)) < log_limit \<Longrightarrow> \<exists>sid w'.
    write_document (document_exec E) (opNet env 1) (mContent incoming) base policy (mOperationID incoming) cid (cUsername (woHeap w2 p)) w2 =
      Some (Inr (occ_result policy op (snapshot_of (L0 @ es3)) sid), w') \<and> woHeap w' = woHeap w2 \<and>
    at_room V K rid (if occ_accepts policy base (int (length (L0 @ es3)))
      then (L0 @ es3) @ [apply_event (L0 @ es3) sid (mContent incoming) (mOperationID incoming) cid (cUsername (woHeap w2 p))] else L0 @ es3) w'"
    using write_document_room [OF S net w2 op(1)] unfolding L0_def by metis
  define L1 where "L1 = L0 @ es3"
  show thesis
  proof (rule that [of "before (opNet env 1) 0 (woDb w2)" L1])
    show "db_at_write (document_exec E) env w = Some (before (opNet env 1) 0 (woDb w2))"
      using snap(1) by (simp add: db_at_write_def w2_def)
    show "redis_room (V (before (opNet env 1) 0 (woDb w2))) rid L1" using at3 by (simp add: L1_def)
    show "prefix L L1" by (simp add: L1_def L0_def)
    assume lim: "int (length L1) < log_limit"
    obtain sid w3 where w3: "write_document (document_exec E) (opNet env 1) (mContent incoming) base policy (mOperationID incoming) cid
        (cUsername (woHeap w2 p)) w2 = Some (Inr (occ_result policy op (snapshot_of L1) sid), w3)" "woHeap w3 = woHeap w2"
      "at_room V K rid (if occ_accepts policy base (int (length L1))
      then L1 @ [apply_event L1 sid (mContent incoming) (mOperationID incoming) cid (cUsername (woHeap w2 p))] else L1) w3"
      using wd lim unfolding L1_def by blast
    define res where "res = occ_result policy op (snapshot_of L1) sid"
    have acc: "arAccepted res = occ_accepts policy base (int (length L1))" by (simp add: res_def occ_result_def op(1))
    obtain effs where "handleContentUpdate (document_exec E) env p incoming w = answer_operation env p incoming cid res effs w3"
      using snap(1) valid w3(1) heap(4) op(2)
      by (simp add: handleContentUpdate_def perform_operation_def Let_def res_def w2_def)
    moreover have "no_faults (woHeap w3 p)" using w3(2) heap(2) by simp
    from answer_operation_room [OF fair(1) w3(3) this, of incoming cid res effs] obtain effs' w' es where
      "answer_operation env p incoming cid res effs w3 = Some (effs', w')"
      "at_room V K rid ((if occ_accepts policy base (int (length L1))
        then L1 @ [apply_event L1 sid (mContent incoming) (mOperationID incoming) cid (cUsername (woHeap w2 p))] else L1) @ es) w'"
      "replies (woHeap w' p) = replies (woHeap w3 p) @ operation_result incoming cid res #
        (if arAccepted res then [] else [resync_state [] res])" by blast
    ultimately show "\<exists>effs w' sid es.
      handleContentUpdate (document_exec E) env p incoming w = Some (effs, w') \<and>
      at_room V K rid ((if occ_accepts policy base (int (length L1))
        then L1 @ [apply_event L1 sid (mContent incoming) (mOperationID incoming) cid (cUsername (woHeap w p))] else L1) @ es) w' \<and>
      replies (woHeap w' p) = replies (woHeap w p) @ operation_result incoming cid (occ_result policy op (snapshot_of L1) sid) #
        (if occ_accepts policy base (int (length L1)) then [] else [resync_state [] (occ_result policy op (snapshot_of L1) sid)])"
      using w3(2) heap(1,3) acc
      by (intro exI [of _ effs'] exI [of _ w'] exI [of _ sid] exI [of _ es]) (simp add: res_def split: if_splits)
  qed
qed

end
