(* ===== verification/Page.thy ===== *)
theory Page
  imports Client
begin

section \<open>What the page of a client shows\<close>

text \<open>
  The part of the message handler of \<^verbatim>\<open>frontend/src/pages/RoomPage.tsx\<close> that changes the document
  it shows: content, version and sequence. A number that is zero is not in the JSON of the
  message, and the page leaves its own as it is.
\<close>

record page =
  pgContent :: string
  pgVersion :: int64
  pgSequence :: int64

definition updateServerVersion :: "int64 \<Rightarrow> page \<Rightarrow> page" where
  "updateServerVersion v pg = (if v = 0 then pg else pg\<lparr>pgVersion := v\<rparr>)"

definition updateSequence :: "int64 \<Rightarrow> page \<Rightarrow> page" where
  "updateSequence s pg = (if s = 0 then pg else pg\<lparr>pgSequence := s\<rparr>)"

definition on_message :: "Message \<Rightarrow> page \<Rightarrow> page" where
  "on_message m pg =
     (if mType m = ''room_state'' then
        pg\<lparr>pgContent := mContent m, pgVersion := mServerVersion m, pgSequence := mSequence m\<rparr>
      else if mType m = ''content_update'' then
        (if mSequence m \<noteq> 0 \<and> mSequence m \<le> pgSequence pg then pg
         else updateSequence (mSequence m) (updateServerVersion (mServerVersion m) (pg\<lparr>pgContent := mContent m\<rparr>)))
      else if mType m = ''operation_result'' then updateServerVersion (mServerVersion m) pg
      else if mType m = ''resume_complete'' then
        updateSequence (mLatestSequence m) (updateServerVersion (mServerVersion m) pg)
      else pg)"

fun page_frame :: "frame \<Rightarrow> page \<Rightarrow> page" where
  "page_frame (FMessage m) = on_message m"
| "page_frame _ = id"

definition new_page :: page where
  "new_page = \<lparr>pgContent = [], pgVersion = 0, pgSequence = 0\<rparr>"

definition shown :: "client \<Rightarrow> page" where
  "shown c = fold page_frame (client_frames c) new_page"

text \<open>Content updates in order, each newer than the page, are shown one after the other.\<close>

lemma on_message_update:
  "is_content m \<Longrightarrow> pgSequence pg < mSequence m \<Longrightarrow> 0 < mSequence m \<Longrightarrow> mServerVersion m \<noteq> 0 \<Longrightarrow>
   on_message m pg = \<lparr>pgContent = mContent m, pgVersion = mServerVersion m, pgSequence = mSequence m\<rparr>"
  by (simp add: on_message_def is_content_def updateServerVersion_def updateSequence_def)

end
