(* ===== verification/Session_Properties.thy ===== *)
theory Session_Properties
  imports Session_Gauge Operation_Rooms Watcher Page Document_Properties Presence_Properties
begin

section \<open>Properties of operations and sessions\<close>

text \<open>
  The claims about \<^verbatim>\<open>backend/ws.go\<close> beside the resume: what a client is answered, what the document
  and the other clients get of an operation, what a session leaves behind, and what a fresh one sees.
\<close>

definition demo_config :: Config where
  "demo_config = LoadConfig (\<lambda>name. []) []"

definition quiet_env :: "'db op_env" where
  "quiet_env = \<lparr>opNet = (\<lambda>i. calm), opOthers = (\<lambda>i w. w), opConfig = demo_config, opTraceID = [], opSpanID = [],
     opStarted = 0, opEnded = 0, opElapsed = Fin 0, opDurationMs = Fin 0, opErrorText = (\<lambda>e. [])\<rparr>"

lemma quiet_env_simps [simp]:
  "opNet quiet_env i = calm" "opOthers quiet_env = (\<lambda>i w. w)" "opConfig quiet_env = demo_config"
  by (simp_all add: quiet_env_def)

lemma demo_policy [simp]: "StaleWritePolicy demo_config = StaleWriteReject"
  unfolding demo_config_def by code_simp

definition demo_sender :: client where
  "demo_sender = \<lparr>cConn = Some new_conn, cUsername = ''ann'', cRoomID = ''r1'', cClientID = ''c1'',
     cConnectionID = ''k1'', cInstanceID = ''i1'', presenceRevision = 0, presenceSent = False,
     replaying = False, lastSequence = 0, pending = None\<rparr>"

lemma demo_sender_facts [simp]:
  "no_faults demo_sender" "client_frames demo_sender = []" "replies demo_sender = []" "cClientID demo_sender = ''c1''"
  by (simp_all add: demo_sender_def no_faults_def new_conn_def replies_def client_frames_def map_filter_simps)

definition edit :: "string \<Rightarrow> int64 \<Rightarrow> Message" where
  "edit content base = zero_message\<lparr>mType := ''content_update'', mOperationID := ''op1'', mContent := content,
     mBaseVersion := Some base\<rparr>"

lemma edit_simps [simp]:
  "mOperationID (edit s b) = ''op1''" "mBaseVersion (edit s b) = Some b" "mContent (edit s b) = s" "mClientID (edit s b) = []"
  by (simp_all add: edit_def zero_message_def)

subsection \<open>Operations\<close>


definition local_world :: "unit world" where
  "local_world = \<lparr>woRoom = empty_room\<lparr>rID := ''r1'', rClients := [0, 1]\<rparr>, woHeap = (\<lambda>q. demo_sender), woDb = ()\<rparr>"


text \<open>
  C20: In a room without Redis, an operation that no other handler interleaves with does to the
  document what the optimistic write of the sequential document does; the sender gets its result,
  and then every client of the room gets the update, each once, if it was accepted, and
  only the sender gets the current state if it was refused.
\<close>

theorem local_operation_broadcast:
  assumes "\<not> rStore r" "room_sound r" "fits max_int64 1 (room_snapshot r)" "opOthers env = (\<lambda>i w. w)"
    and "distinct (rClients r)" "p \<in> set (rClients r)" "\<forall>q\<in>set (rClients r). no_faults (h q)"
    and "mOperationID incoming \<noteq> []" "mBaseVersion incoming = Some base"
    and "op = \<lparr>wContent = mContent incoming, wBase = base\<rparr>" "policy = StaleWritePolicy (opConfig env)"
  shows "\<exists>effs w'. handleContentUpdate exec env p incoming \<lparr>woRoom = r, woHeap = h, woDb = db\<rparr> = Some (effs, w') \<and>
    room_snapshot (woRoom w') = occ_next policy op (room_snapshot r) \<and> rClients (woRoom w') = rClients r \<and> woDb w' = db \<and>
    (\<forall>q\<in>set (rClients r). client_frames (woHeap w' q) =
       client_frames (h q) @ local_frames p incoming r h (occ_result policy op (room_snapshot r) []) q)"
  using local_operation_runs [OF assms] by blast

theorem local_operation_broadcast_witness:
  "\<exists>effs w' m. handleContentUpdate (\<lambda>args db. (RNil, db)) quiet_env 0 (edit ''x'' 0) local_world = Some (effs, w') \<and>
     rContent (woRoom w') = ''x'' \<and> client_frames (woHeap w' 1) = [FMessage m] \<and> mContent m = ''x''"
proof -
  have "\<exists>effs w'. handleContentUpdate (\<lambda>args db. (RNil, db)) quiet_env 0 (edit ''x'' 0) local_world = Some (effs, w') \<and>
    room_snapshot (woRoom w') = \<lparr>sContent = ''x'', sVersion = 1, sSequence = 1\<rparr> \<and>
    client_frames (woHeap w' 1) = local_frames 0 (edit ''x'' 0) (woRoom local_world) (woHeap local_world)
      (occ_result StaleWriteReject \<lparr>wContent = ''x'', wBase = 0\<rparr> (room_snapshot (woRoom local_world)) []) 1"
    using local_operation_broadcast [of "woRoom local_world" quiet_env 0 "woHeap local_world" "edit ''x'' 0" 0
        "\<lparr>wContent = ''x'', wBase = 0\<rparr>" StaleWriteReject "\<lambda>args db. (RNil, db)" "()"]
    by (simp add: local_world_def empty_room_def room_sound_def fits_def room_snapshot_def occ_next_def occ_accepts_def) blast
  then show ?thesis
    by (auto simp: local_frames_def occ_result_def occ_accepts_def local_world_def room_snapshot_def empty_room_def
        local_update_def zero_message_def)
qed

text \<open>
  C4: In a room in Redis, with other backends appending to its log and with the watcher and the
  other handlers running between any two steps, an operation returns and is applied to the log of
  one moment: its answer is the optimistic write on that log, if it was accepted its event is the
  next one of the log, with the sender's name and identifiers, and if it was refused the log is as
  the others left it and the sender also gets the state that refused it.
\<close>

theorem distributed_operation:
  assumes "redis_server E V K" "fair_others V K rid p env" "fair_net V K rid env"
    and "at_room V K rid L w" "no_faults (woHeap w p)" "mOperationID incoming \<noteq> []" "mBaseVersion incoming = Some base"
    and "op = \<lparr>wContent = mContent incoming, wBase = base\<rparr>" "policy = StaleWritePolicy (opConfig env)"
    and "cid = client_id_of incoming (woHeap w p)"
  shows "\<exists>d L1. db_at_write (document_exec E) env w = Some d \<and> redis_room (V d) rid L1 \<and> prefix L L1 \<and>
    (int (length L1) < log_limit \<longrightarrow> (\<exists>effs w' sid es.
    handleContentUpdate (document_exec E) env p incoming w = Some (effs, w') \<and>
    at_room V K rid ((if occ_accepts policy base (int (length L1))
      then L1 @ [apply_event L1 sid (mContent incoming) (mOperationID incoming) cid (cUsername (woHeap w p))] else L1) @ es) w' \<and>
    replies (woHeap w' p) = replies (woHeap w p) @ operation_result incoming cid (occ_result policy op (snapshot_of L1) sid) #
      (if occ_accepts policy base (int (length L1)) then [] else [resync_state [] (occ_result policy op (snapshot_of L1) sid)])))"
  by (rule distributed_operation_runs [OF assms]) blast

definition demo_world :: "view world" where
  "demo_world = \<lparr>woRoom = empty_room\<lparr>rID := ''r1'', rContent := ''abc'', rVersion := 3, rSequence := 3, rClients := [0], rStore := True\<rparr>,
     woHeap = (\<lambda>q. demo_sender), woDb = demo_db\<rparr>"

lemma demo_world_at: "at_room id mem_ok ''r1'' demo_log demo_world"
  by (simp add: at_room_def demo_world_def)

lemma demo_world_snapshot:
  "\<exists>r'. GetSnapshot (document_exec mem_exec) calm (woRoom demo_world) demo_db = (Ok (snapshot_of demo_log), r', demo_db)"
proof -
  have "cache_ok demo_log (woRoom demo_world)"
    by (rule cache_okI [of _ demo_log])
      (simp_all add: demo_world_def room_snapshot_def snapshot_of_def demo_log_def demo_event_def)
  from GetSnapshot_cache [OF mem_redis_server, of demo_db "woRoom demo_world" demo_log, OF _ _ this]
  show ?thesis by (auto simp: demo_world_def empty_room_def)
qed

lemma quiet_env_fair: "fair_others id mem_ok ''r1'' p quiet_env" "fair_net id mem_ok ''r1'' quiet_env"
  by (auto simp: fair_others_def quiet_for_def fair_net_def intro: exI [of _ "[]"])

theorem distributed_operation_witness:
  "\<exists>effs w' sid. handleContentUpdate (document_exec mem_exec) quiet_env 0 (edit ''abcd'' 3) demo_world = Some (effs, w') \<and>
     replies (woHeap w' 0) = [operation_result (edit ''abcd'' 3) ''c1''
       (occ_result StaleWriteReject \<lparr>wContent = ''abcd'', wBase = 3\<rparr> (snapshot_of demo_log) sid)]"
proof -
  let ?op = "\<lparr>wContent = ''abcd'', wBase = 3\<rparr>"
  have client: "no_faults (woHeap demo_world 0)" "replies (woHeap demo_world 0) = []"
    "''c1'' = client_id_of (edit ''abcd'' 3) (woHeap demo_world 0)" by (simp_all add: demo_world_def client_id_of_def)
  have valid: "mOperationID (edit ''abcd'' 3) \<noteq> []" "mBaseVersion (edit ''abcd'' 3) = Some 3"
    "?op = \<lparr>wContent = mContent (edit ''abcd'' 3), wBase = 3\<rparr>" "StaleWriteReject = StaleWritePolicy (opConfig quiet_env)" by simp_all
  obtain d L1 where d: "db_at_write (document_exec mem_exec) quiet_env demo_world = Some d" "redis_room (id d) ''r1'' L1"
    and run: "int (length L1) < log_limit \<longrightarrow> (\<exists>effs w' sid es.
      handleContentUpdate (document_exec mem_exec) quiet_env 0 (edit ''abcd'' 3) demo_world = Some (effs, w') \<and>
      at_room id mem_ok ''r1'' ((if occ_accepts StaleWriteReject 3 (int (length L1))
        then L1 @ [apply_event L1 sid (mContent (edit ''abcd'' 3)) (mOperationID (edit ''abcd'' 3)) ''c1'' (cUsername (woHeap demo_world 0))]
        else L1) @ es) w' \<and>
      replies (woHeap w' 0) = replies (woHeap demo_world 0) @ operation_result (edit ''abcd'' 3) ''c1''
        (occ_result StaleWriteReject ?op (snapshot_of L1) sid) #
      (if occ_accepts StaleWriteReject 3 (int (length L1)) then []
       else [resync_state [] (occ_result StaleWriteReject ?op (snapshot_of L1) sid)]))"
    using distributed_operation [OF mem_redis_server quiet_env_fair demo_world_at client(1) valid client(3)] by blast
  have "d = demo_db" using d(1) demo_world_snapshot by (auto simp: db_at_write_def read_snapshot_def) (simp_all add: demo_world_def)
  then have "L1 = demo_log" using d(2) redis_room_unique [OF _ demo_room(1)] by simp
  then show ?thesis using run client(2) by (auto simp: demo_log_def occ_accepts_def)
qed

text \<open>The watcher that delivers the next event of the room between a refused write and the state that goes with it.\<close>

definition watched_event :: "DistributedEvent \<Rightarrow> view \<Rightarrow> view world \<Rightarrow> view world" where
  "watched_event e db w = (case watch_events \<lparr>waInitialSequence = 3, waInstanceID = [], waTelemetry = False,
        waNowNanos = (\<lambda>s. 0), waOthers = (\<lambda>k r. r)\<rparr> [e] \<lparr>wLast = ''0-0'', wRoom = woRoom w, wHeap = woHeap w, wEffects = []\<rparr> of
     None \<Rightarrow> w
   | Some x \<Rightarrow> w\<lparr>woRoom := wRoom x, woHeap := wHeap x, woDb := db\<rparr>)"

definition busy_env :: "view op_env" where
  "busy_env = quiet_env\<lparr>opOthers := (\<lambda>i w. if i = 4 then watched_event (demo_event 4 ''abcd'') (mem_room ''r1'' demo_log4) w else w)\<rparr>"

lemma demo_log_facts: "length demo_log = 3" "snapshot_of demo_log = \<lparr>sContent = ''abc'', sVersion = 3, sSequence = 3\<rparr>"
  by (simp_all add: demo_log_def snapshot_of_def demo_event_def)

lemma stale_write_refused:
  "\<exists>w'. write_document (document_exec mem_exec) calm ''stale'' 2 StaleWriteReject oid cid u demo_world =
     Some (Inr (occ_result StaleWriteReject \<lparr>wContent = ''stale'', wBase = 2\<rparr> (snapshot_of demo_log) []), w') \<and>
     woHeap w' = woHeap demo_world \<and> woRoom w' = woRoom demo_world"
proof -
  let ?op = "\<lparr>wContent = ''stale'', wBase = 2\<rparr>"
  obtain sid db' where *: "ApplyContentUpdate_store (document_exec mem_exec) calm ''r1'' (wContent ?op) (wBase ?op) StaleWriteReject oid cid u demo_db =
      (Ok (occ_result StaleWriteReject ?op (snapshot_of demo_log) sid), db')"
    by (rule store_apply_linkup [OF mem_redis_server, of calm demo_db "''r1''" demo_log ?op StaleWriteReject oid cid u])
      (simp_all add: demo_log_facts)
  have res: "occ_result StaleWriteReject ?op (snapshot_of demo_log) sid = occ_result StaleWriteReject ?op (snapshot_of demo_log) []"
    by (simp add: occ_result_def occ_accepts_def demo_log_facts)
  show ?thesis
    using * res
    by (auto simp: write_document_def ApplyOperation_def demo_world_def empty_room_def applySnapshot_def occ_result_def
        occ_accepts_def demo_log_facts)
qed

lemma demo_world_read: "\<exists>s. read_snapshot (document_exec mem_exec) calm demo_world = Some (s, demo_world)"
proof -
  have "GetSnapshot (document_exec mem_exec) calm (woRoom demo_world) demo_db = (Ok (snapshot_of demo_log), woRoom demo_world, demo_db)"
    using demo_world_snapshot
    by (auto simp: GetSnapshot_def Let_def applySnapshot_def room_snapshot_def demo_world_def empty_room_def demo_log_facts
        split: prod.splits outcome.splits option.splits)
  then show ?thesis by (simp add: read_snapshot_def) (simp add: demo_world_def)
qed

text \<open>The refusal, and the client after the answer, after the event and after the old state.\<close>

abbreviation demo_refusal where
  "demo_refusal \<equiv> occ_result StaleWriteReject \<lparr>wContent = ''stale'', wBase = 2\<rparr> (snapshot_of demo_log) []"

abbreviation demo_next :: Message where
  "demo_next \<equiv> messageFromDistributedEvent (demo_event 4 ''abcd'')"

definition demo_answered :: client where
  "demo_answered = put_frame (FMessage (operation_result (edit ''stale'' 2) (client_id_of (edit ''stale'' 2) (woHeap demo_world 0)) demo_refusal)) demo_sender"

definition demo_updated :: client where
  "demo_updated = (put_frame (FMessage demo_next) demo_answered)\<lparr>lastSequence := 4\<rparr>"

definition demo_overtaken :: client where
  "demo_overtaken = put_frame (FMessage (resync_state [] demo_refusal)) demo_updated"

lemma demo_no_faults: "no_faults demo_answered" "no_faults demo_updated" "no_faults demo_overtaken"
  by (simp_all add: demo_answered_def demo_updated_def demo_overtaken_def)

lemma demo_delivery: "deliver_message True demo_next demo_answered = Some demo_updated"
proof -
  have "lastSequence demo_answered = 0" "\<not> replaying demo_answered" "cConn demo_answered \<noteq> None"
    using no_faults_has_conn [OF demo_no_faults(1)] by (simp_all add: demo_answered_def demo_sender_def has_conn_def)
  then show ?thesis
    using demo_no_faults(1)
    by (simp add: deliver_message_def writeContentUpdate_def WriteJSON_no_faults demo_updated_def del: not_None_eq)
qed

lemma demo_overtaken_page:
  "lastSequence demo_overtaken = 4" "content_log demo_overtaken = [demo_next]"
  "shown demo_overtaken = \<lparr>pgContent = ''abc'', pgVersion = 3, pgSequence = 3\<rparr>"
proof -
  have frames: "client_frames demo_overtaken =
      [FMessage (operation_result (edit ''stale'' 2) (client_id_of (edit ''stale'' 2) (woHeap demo_world 0)) demo_refusal),
       FMessage demo_next, FMessage (resync_state [] demo_refusal)]"
    using demo_no_faults by (simp add: demo_overtaken_def demo_updated_def demo_answered_def)
  then show "lastSequence demo_overtaken = 4" "content_log demo_overtaken = [demo_next]"
    by (simp_all add: demo_overtaken_def demo_updated_def content_log_def map_filter_simps is_content_def)
  show "shown demo_overtaken = \<lparr>pgContent = ''abc'', pgVersion = 3, pgSequence = 3\<rparr>"
    using frames by (simp add: shown_def on_message_def resync_state_def zero_message_def occ_result_def occ_accepts_def
        demo_log_facts updateSequence_def updateServerVersion_def)
qed

text \<open>
  C28: A resynchronisation can overtake newer content. The state that goes with a refusal is that of the
  moment of the write, and it is sent without the guard of content updates: when the watcher delivers
  the next event in between, the client gets the event and then the older state. Its page shows
  the old content with the old version, although the event was delivered to it, and the guard of the
  socket will not send the event again.
\<close>

theorem resync_can_overtake:
  "\<exists>effs w'. handleContentUpdate (document_exec mem_exec) busy_env 0 (edit ''stale'' 2) demo_world = Some (effs, w') \<and>
     woDb w' = mem_room ''r1'' demo_log4 \<and> lastSequence (woHeap w' 0) = 4 \<and>
     content_log (woHeap w' 0) = [messageFromDistributedEvent (demo_event 4 ''abcd'')] \<and>
     shown (woHeap w' 0) = \<lparr>pgContent = ''abc'', pgVersion = 3, pgSequence = 3\<rparr>"
proof -
  let ?m = "edit ''stale'' 2" and ?cid = "client_id_of (edit ''stale'' 2) (woHeap demo_world 0)"
  obtain w1 where w1: "write_document (document_exec mem_exec) calm ''stale'' 2 StaleWriteReject ''op1'' ?cid
      (cUsername (woHeap demo_world 0)) demo_world = Some (Inr demo_refusal, w1)" "woHeap w1 = woHeap demo_world" "woRoom w1 = woRoom demo_world"
    using stale_write_refused by metis
  obtain effs0 where run: "handleContentUpdate (document_exec mem_exec) busy_env 0 ?m demo_world =
      answer_operation busy_env 0 ?m ?cid demo_refusal effs0 w1"
    using demo_world_read w1(1) by (auto simp: handleContentUpdate_def perform_operation_def busy_env_def Let_def)
  let ?w2 = "put_client 0 demo_answered w1"
  have h2: "woHeap ?w2 0 = demo_answered" "woRoom ?w2 = woRoom demo_world" using w1(3) by simp_all
  have ev: "watched_event (demo_event 4 ''abcd'') (mem_room ''r1'' demo_log4) ?w2 =
      ?w2\<lparr>woRoom := (woRoom demo_world)\<lparr>rContent := ''abcd'', rVersion := 4, rSequence := 4\<rparr>,
        woHeap := (woHeap ?w2)(0 := demo_updated), woDb := mem_room ''r1'' demo_log4\<rparr>"
    using demo_delivery h2 by (simp add: watched_event_def ApplyDistributedEvent_def demo_world_def empty_room_def BroadcastJSON_def
        clientsSnapshot_def Let_def)
  have sent: "send_json 0 (operation_result ?m ?cid demo_refusal) w1 = Some (True, ?w2)"
    using send_json_no_faults [of w1 0] w1(2) by (simp add: demo_answered_def demo_world_def)
  have "\<not> arAccepted demo_refusal" by (simp add: occ_result_def occ_accepts_def demo_log_facts)
  then have "\<exists>effs w'. handleContentUpdate (document_exec mem_exec) busy_env 0 ?m demo_world = Some (effs, w') \<and>
      woDb w' = mem_room ''r1'' demo_log4 \<and> woHeap w' 0 = demo_overtaken"
    using run sent ev demo_no_faults(2) h2(2)
    by (simp add: answer_operation_def busy_env_def Let_def roomStateUsers_def demo_world_def send_json_no_faults demo_overtaken_def)
  then show ?thesis using demo_overtaken_page by auto
qed

subsection \<open>Sessions\<close>

text \<open>
  C12: Whatever happens in a session (refused joins, failed resumes, messages of any kind, errors of the store and of the socket
  at any step, other goroutines in between, as long as they do not put this client into the room), when \<open>serveWS\<close> ends it the
  client is in no list of its room, its socket is closed, and the connection was reported once and taken back once: of all the
  effects of the session, those about connections are one increment of the gauge, the record of the connection, one decrement,
  and the record of the disconnection, in this order, so that the gauge is what it was.
\<close>

theorem session_cleans_up:
  assumes "serveWS exec env req inputs b = Some (Ended rp, effs, b')" "keeps_out (seClient env) env"
    and "clientID = (if wqClientID req = [] then wqUsername req else wqClientID req)"
  shows "seClient env \<notin> set (rClients (mObjs (bkManager b') rp)) \<and>
    (\<forall>k. cConn (bkHeap b' (seClient env)) = Some k \<longrightarrow> conn.closed k) \<and>
    filter connection_effect effs = [Metric WebSocketConnected, Traced (connected_trace env req clientID),
      Metric WebSocketDisconnected, Traced (disconnected_trace env req clientID)] \<and>
    websocketConnections (fold (metric_call rnd) (metric_calls effs) m) = websocketConnections m"
proof -
  note r = session_reports [OF assms(1,3)]
  then have "websocketConnections (fold (metric_call rnd) (metric_calls effs) m) = websocketConnections m"
    unfolding gauge_of_connections [of rnd effs] by (simp add: metric_calls_def map_filter_simps)
  then show ?thesis using session_leaves [OF assms(1,2)] r by (simp add: connection_effects_def)
qed

definition demo_session :: "(view \<times> int) session_env" where
  "demo_session = \<lparr>seConfig = demo_config, seRandom = Some ''abcdefghijklmnop'', seConn = new_conn, seClient = 7,
     seNet = (\<lambda>i. calm), seGetOthers = id, seOthers = (\<lambda>i b. b),
     seResume = \<lparr>reNet = calm, reOffers = (\<lambda>i. []), reElapsed = Fin 0, reDurationMs = 0, reLogMs = 0, reStarted = 0,
       reEnded = 0, reTraceID = [], reSpanID = [], reInstanceID = []\<rparr>,
     seOp = (\<lambda>k. quiet_env), seErrorText = (\<lambda>e. [])\<rparr>"

definition demo_request :: ws_request where
  "demo_request = \<lparr>wqRoomID = ''r1'', wqUsername = ''ann'', wqClientID = ''c1'', wqLastSequence = [],
     wqOrigin = [], wqHandshake = True\<rparr>"

definition demo_backend :: "(view \<times> int) backend" where
  "demo_backend = \<lparr>bkManager = enter_room (empty_room\<lparr>rID := ''r1'', rContent := ''abc'', rVersion := 3, rSequence := 3, rStore := True\<rparr>)
       (NewDistributedRoomManager True ''i1'' []),
     bkHeap = (\<lambda>q. demo_sender), bkDb = (demo_db, 1000)\<rparr>"

definition demo_me :: Participant where
  "demo_me = \<lparr>pConnectionID = hex_encode ''abcdefghijklmnop'', pClientID = ''c1'', pUsername = ''ann'', pInstanceID = ''local:8080''\<rparr>"

lemma demo_manager:
  "manager_ok (bkManager demo_backend)" "mRooms (bkManager demo_backend) ''r1'' = Some 0" "mStore (bkManager demo_backend)"
  "LeaseDuration (mTiming (bkManager demo_backend)) = 30000000000" "rClients (mObjs (bkManager demo_backend) 0) = []"
  "mObjs (bkManager demo_backend) 0 =
    empty_room\<lparr>rID := ''r1'', rContent := ''abc'', rVersion := 3, rSequence := 3, rStore := True\<rparr>"
proof -
  let ?m = "NewDistributedRoomManager True ''i1'' []"
  let ?r = "empty_room\<lparr>rID := ''r1'', rContent := ''abc'', rVersion := 3, rSequence := 3, rStore := True\<rparr>"
  have m: "mStore ?m" "mRooms ?m ''r1'' = None" "mNext ?m = 0" "LeaseDuration (mTiming ?m) = 30000000000"
    by (simp_all add: NewDistributedRoomManager_def NewRoomManager_def) code_simp
  have ok: "manager_ok ?m" by (rule NewDistributedRoomManager_ok)
  show "manager_ok (bkManager demo_backend)"
    using manager_ok_enter [OF ok, of ?r] m by (simp add: demo_backend_def)
  show "mRooms (bkManager demo_backend) ''r1'' = Some 0" "mStore (bkManager demo_backend)"
    "LeaseDuration (mTiming (bkManager demo_backend)) = 30000000000" "rClients (mObjs (bkManager demo_backend) 0) = []"
    "mObjs (bkManager demo_backend) 0 = ?r"
    using enter_room_eq [OF ok, of ?r] m by (simp_all add: demo_backend_def empty_room_def)
qed

lemma demo_identity: "InstanceID demo_config = ''local:8080''" "valid_participant demo_me" "hex_encode ''abcdefghijklmnop'' \<noteq> []"
  unfolding demo_config_def by code_simp+

lemma demo_session_facts:
  "alone demo_session" "session_at fst clock_ok (wqRoomID demo_request) demo_log 0 demo_backend"
  "redis_presence (fst (bkDb demo_backend)) (wqRoomID demo_request) no_presence" "prRevision no_presence + 2 < log_limit"
  "good_records no_presence"
  "int64_ok (LeaseDuration (mTiming (bkManager demo_backend)))"
  "0 < Milliseconds (LeaseDuration (mTiming (bkManager demo_backend)))"
  "mRooms (bkManager demo_backend) (wqRoomID demo_request) = Some 0"
  "wqRoomID demo_request \<noteq> []" "wqUsername demo_request \<noteq> []" "wqHandshake demo_request"
  "originAllowed (wqOrigin demo_request) (AllowedOrigins (seConfig demo_session))"
  "fst (ParseInt (wqLastSequence demo_request)) \<le> 0"
  "newConnectionID (seRandom demo_session) = Some (hex_encode ''abcdefghijklmnop'')"
  "\<forall>i. write_fault (seConn demo_session) i = None"
  "demo_me = \<lparr>pConnectionID = hex_encode ''abcdefghijklmnop'',
     pClientID = (if wqClientID demo_request = [] then wqUsername demo_request else wqClientID demo_request),
     pUsername = wqUsername demo_request, pInstanceID = InstanceID (seConfig demo_session)\<rparr>"
  "seClient demo_session \<notin> set (rClients (mObjs (bkManager demo_backend) 0))"
proof -
  note defs = demo_session_def demo_request_def
  have cache: "cache_ok demo_log (mObjs (bkManager demo_backend) 0)"
    by (rule cache_okI [of _ demo_log])
      (simp_all add: demo_manager(6) room_snapshot_def empty_room_def demo_log_facts)
  show "session_at fst clock_ok (wqRoomID demo_request) demo_log 0 demo_backend"
    using cache by (simp add: session_at_def demo_manager(6) defs) (simp add: demo_backend_def clock_ok_def)
  show "redis_presence (fst (bkDb demo_backend)) (wqRoomID demo_request) no_presence"
    using demo_presence by (simp add: demo_backend_def demo_request_def)
  show "fst (ParseInt (wqLastSequence demo_request)) \<le> 0" unfolding demo_request_def by code_simp
qed (simp_all add: alone_def demo_session_def demo_request_def no_presence_def good_records_def demo_manager demo_me_def
       demo_identity originAllowed_def newConnectionID_def new_conn_def empty_room_def int64_ok_def Milliseconds_def)

lemma marshal_participant_inject:
  assumes "valid_participant p" "valid_participant q" "marshal_participant p = marshal_participant q"
  shows "p = q"
proof -
  have "Some p = Some q"
    unfolding unmarshal_participant_render [OF assms(1), symmetric] unmarshal_participant_render [OF assms(2), symmetric] assms(3) ..
  then show ?thesis by simp
qed

lemma demo_fresh:
  obtains effs b' where "serveWS (document_exec clock_exec) demo_session demo_request [] demo_backend = Some (Ended 0, effs, b')"
  using clk.fresh_serve [OF demo_session_facts(1-5) demo_manager(3) demo_session_facts(6,7) demo_manager(1)
      demo_session_facts(8-14) demo_identity(3) demo_session_facts(15,16) demo_identity(2) demo_session_facts(17)] by blast

theorem session_cleans_up_witness:
  "\<exists>effs b'. serveWS (document_exec clock_exec) demo_session demo_request [] demo_backend = Some (Ended 0, effs, b') \<and>
     7 \<notin> set (rClients (mObjs (bkManager b') 0)) \<and> length (filter connection_effect effs) = 4"
proof -
  obtain effs b' where run: "serveWS (document_exec clock_exec) demo_session demo_request [] demo_backend = Some (Ended 0, effs, b')"
    by (rule demo_fresh)
  have "keeps_out (seClient demo_session) demo_session" "seClient demo_session = 7"
    by (simp_all add: keeps_out_def demo_session_def)
  then show ?thesis using session_cleans_up [OF run _ refl] run by auto
qed

text \<open>
  C38: A message that is not valid JSON, or of a type that the server does not know, is answered with
  one error that says which, and nothing else changes: not the room, not the store, no other
  client; the session goes on.
\<close>

theorem bad_message_answered:
  assumes "unmarshal_message raw = None \<and> reason = ''invalid_json'' \<or>
      (\<exists>m. unmarshal_message raw = Some m \<and> mType m \<noteq> ''content_update'' \<and> mType m \<noteq> ''typing'') \<and> reason = ''unknown_message_type''"
    and "no_faults (bkHeap b (seClient env))"
  shows "\<exists>b'. handle_message exec env rp k raw b = Some ([], b') \<and>
    mObjs (bkManager b') = mObjs (bkManager b) \<and> bkDb b' = bkDb b \<and>
    bkHeap b' = (bkHeap b)(seClient env := put_frame (FMessage (error_message reason)) (bkHeap b (seClient env)))"
  by (rule bad_message [OF assms])

theorem bad_message_answered_witness:
  "\<exists>b'. handle_message (document_exec clock_exec) demo_session 0 0 ''{ann'' demo_backend = Some ([], b') \<and>
     client_frames (bkHeap b' 7) = [FMessage (error_message ''invalid_json'')] \<and> bkDb b' = bkDb demo_backend"
proof -
  have "unmarshal_message ''{ann'' = None" by code_simp
  then have "unmarshal_message ''{ann'' = None \<and> ''invalid_json'' = ''invalid_json'' \<or>
      (\<exists>m. unmarshal_message ''{ann'' = Some m \<and> mType m \<noteq> ''content_update'' \<and> mType m \<noteq> ''typing'') \<and>
      ''invalid_json'' = ''unknown_message_type''" by simp
  moreover have "seClient demo_session = 7" "bkHeap demo_backend 7 = demo_sender" by (simp_all add: demo_session_def demo_backend_def)
  ultimately show ?thesis
    using bad_message_answered [of "''{ann''" "''invalid_json''" demo_backend demo_session "document_exec clock_exec" 0 0] by auto
qed

text \<open>
  C16: A fresh client that joins a room of Redis, with nobody else acting and with links that work, first gets the state of the
  document, which is the last event of its log, and then the participants whose lease is running at a time \<open>now\<close> that the
  clock of Redis shows during the session, itself among them unless its own lease ended by then. When it leaves again the document
  is as it was, the room has the clients that it had, and the presence is what it was with the client joined, then without the
  members whose lease had ended at \<open>now\<close>, then without the client.
\<close>

theorem fresh_join_sees_state:
  assumes "presence_server E V K C" "clock_forward E C" "alone env" "session_at V K (wqRoomID req) L rp b"
    and "redis_presence (V (bkDb b)) (wqRoomID req) P" "prRevision P + 2 < log_limit" "good_records P"
    and "mStore (bkManager b)" "int64_ok (LeaseDuration (mTiming (bkManager b)))" "0 < Milliseconds (LeaseDuration (mTiming (bkManager b)))"
    and "manager_ok (bkManager b)" "mRooms (bkManager b) (wqRoomID req) = Some rp"
    and "wqRoomID req \<noteq> []" "wqUsername req \<noteq> []" "wqHandshake req"
    and "originAllowed (wqOrigin req) (AllowedOrigins (seConfig env))" "fst (ParseInt (wqLastSequence req)) \<le> 0"
    and "newConnectionID (seRandom env) = Some connectionID" "connectionID \<noteq> []" "\<forall>i. write_fault (seConn env) i = None"
    and "me = \<lparr>pConnectionID = connectionID, pClientID = (if wqClientID req = [] then wqUsername req else wqClientID req),
      pUsername = wqUsername req, pInstanceID = InstanceID (seConfig env)\<rparr>" "valid_participant me"
    and "seClient env \<notin> set (rClients (mObjs (bkManager b) rp))"
  shows "\<exists>effs b' s now. serveWS (document_exec E) env req [] b = Some (Ended rp, effs, b') \<and>
    client_frames (bkHeap b' (seClient env)) = frames (seConn env) @ [FMessage (room_state (snapshot_of L) []), FPresence s] \<and>
    set (psParticipants s) = live_participants now (spec_join (C (bkDb b)) connectionID (marshal_participant me)
      (Milliseconds (LeaseDuration (mTiming (bkManager b)))) P) \<and>
    redis_presence (V (bkDb b')) (wqRoomID req) (spec_leave connectionID (spec_prune now (spec_join (C (bkDb b)) connectionID
      (marshal_participant me) (Milliseconds (LeaseDuration (mTiming (bkManager b)))) P))) \<and>
    redis_room (V (bkDb b')) (wqRoomID req) L \<and> rClients (mObjs (bkManager b') rp) = rClients (mObjs (bkManager b) rp) \<and>
    C (bkDb b) \<le> now \<and> now \<le> C (bkDb b')"
  using presence_redis.fresh_serve [OF presence_redis.intro [OF assms(1)] assms(3-)] assms(2) by blast

theorem fresh_join_sees_state_witness:
  "\<exists>effs b' s. serveWS (document_exec clock_exec) demo_session demo_request [] demo_backend = Some (Ended 0, effs, b') \<and>
    client_frames (bkHeap b' 7) = [FMessage (room_state \<lparr>sContent = ''abc'', sVersion = 3, sSequence = 3\<rparr> []), FPresence s] \<and>
    set (psParticipants s) \<subseteq> {demo_me}"
proof -
  have fwd: "clock_forward clock_exec snd" by (simp add: clock_forward_def clock_exec_def split: prod.split)
  have "seClient demo_session = 7" "frames (seConn demo_session) = []" by (simp_all add: demo_session_def new_conn_def)
  moreover have "live_participants now (spec_join t (hex_encode ''abcdefghijklmnop'') (marshal_participant demo_me) d no_presence)
      \<subseteq> {demo_me}" for now t d
    using marshal_participant_inject [OF _ demo_identity(2)]
    by (auto simp: live_participants_def spec_join_def no_presence_def split: if_splits)
  ultimately show ?thesis
    using fresh_join_sees_state [OF clock_presence_server fwd demo_session_facts(1-5) demo_manager(3) demo_session_facts(6,7) demo_manager(1)
      demo_session_facts(8-14) demo_identity(3) demo_session_facts(15,16) demo_identity(2) demo_session_facts(17)]
    unfolding demo_log_facts(2) by fastforce
qed

end
