(* ===== verification/Heartbeat.thy ===== *)
theory Heartbeat
  imports Presence_Leases
begin

section \<open>The heartbeat of a session\<close>

text \<open>
  \<open>startPresenceHeartbeat\<close> of \<^verbatim>\<open>backend/presence_lease.go\<close>: the reader of a connection notes
  activity (data frames and pongs) in a channel of capacity one, and a goroutine pings the client at
  every tick and renews the lease of the connection in Redis when it takes a note. Times are
  nanoseconds of the clock of the process; a note is lost when the channel is full.

  The goroutine selects among the cases that are ready; each case is one step, with the
  times that it reads. The results of the socket are arguments: whether the deadline could be set, and
  whether a ping could be written.
\<close>

record heart =
  haActivity :: "int option"
  haDeadline :: "int option"
  haLastRenewal :: int
  haRunning :: bool
  haStopped :: bool
  haCancelled :: bool
  haClosed :: bool

datatype heart_effect = PingSent | RenewSent int | RenewFailed presence_error | ConnClosed

definition set_deadline :: "PresenceTiming \<Rightarrow> int \<Rightarrow> bool \<Rightarrow> heart \<Rightarrow> heart" where
  "set_deadline timing now ok h = (if ok then h\<lparr>haDeadline := Some (now + LeaseDuration timing)\<rparr> else h)"

text \<open>\<open>started\<close> is the time of the first deadline, \<open>now\<close> that at which the goroutine starts.\<close>

definition startPresenceHeartbeat :: "PresenceTiming \<Rightarrow> int \<Rightarrow> bool \<Rightarrow> int \<Rightarrow> heart" where
  "startPresenceHeartbeat timing started ok now = set_deadline timing started ok
     \<lparr>haActivity = None, haDeadline = None, haLastRenewal = now, haRunning = True, haStopped = False,
      haCancelled = False, haClosed = False\<rparr>"

text \<open>\<open>noteActivity\<close>: the result is whether there was no error.\<close>

definition noteActivity :: "PresenceTiming \<Rightarrow> int \<Rightarrow> bool \<Rightarrow> heart \<Rightarrow> bool \<times> heart" where
  "noteActivity timing now ok h =
     (if \<not> ok then (False, h)
      else (True, set_deadline timing now ok
        (case haActivity h of None \<Rightarrow> h\<lparr>haActivity := Some now\<rparr> | Some observed \<Rightarrow> h)))"

text \<open>Closing the connection and returning.\<close>

definition give_up :: "heart \<Rightarrow> heart" where
  "give_up h = h\<lparr>haRunning := False, haClosed := True\<rparr>"

definition heart_tick :: "bool \<Rightarrow> heart \<Rightarrow> heart_effect list \<times> heart" where
  "heart_tick ok h = (if ok then ([PingSent], h) else ([PingSent, ConnClosed], give_up h))"

text \<open>
  The note that is taken, with the three times that the case reads: before the first check, before the
  second, and after the renewal.
\<close>

definition heart_take :: "'db exec \<Rightarrow> PresenceTiming \<Rightarrow> string \<Rightarrow> string \<Rightarrow> int \<Rightarrow> int \<Rightarrow> int \<Rightarrow> 'db net \<Rightarrow>
    int \<Rightarrow> heart \<times> 'db \<Rightarrow> (heart_effect list \<times> heart \<times> 'db) option" where
  "heart_take exec timing rid cid t1 t2 t3 net observed s = (case s of (h, db) \<Rightarrow>
     if LeaseDuration timing \<le> t1 - observed then Some ([ConnClosed], give_up h, db)
     else if t2 - haLastRenewal h < HeartbeatInterval timing then Some ([], h, db)
     else (case RenewPresence exec net rid cid (LeaseDuration timing) db of
         (Panic, db) \<Rightarrow> None
       | (Err e, db) \<Rightarrow> Some ([RenewSent t2, RenewFailed e, ConnClosed], give_up h, db)
       | (Ok renewed, db) \<Rightarrow>
           if renewed then Some ([RenewSent t2], h\<lparr>haLastRenewal := t3\<rparr>, db)
           else Some ([RenewSent t2, ConnClosed], give_up h, db)))"

subsection \<open>Steps\<close>

text \<open>
  What happens around a heartbeat, one thing at a time. \<open>Elsewhere\<close> is what the backends do to the
  presence of the room between two steps.
\<close>

datatype 'db heart_act =
    Noted int bool
  | Ticked bool
  | Taken int int int "'db net"
  | StopCalled
  | ContextDone
  | Returned
  | Elsewhere "'db presence_acts"

inductive heart_step :: "'db exec \<Rightarrow> PresenceTiming \<Rightarrow> string \<Rightarrow> string \<Rightarrow> heart \<times> 'db \<Rightarrow> 'db heart_act \<Rightarrow>
    heart_effect list \<Rightarrow> heart \<times> 'db \<Rightarrow> bool" for exec timing rid cid where
  noting: "noteActivity timing now ok h = (res, h') \<Longrightarrow> heart_step exec timing rid cid (h, db) (Noted now ok) [] (h', db)"
| ticking: "haRunning h \<Longrightarrow> heart_tick ok h = (effs, h') \<Longrightarrow> heart_step exec timing rid cid (h, db) (Ticked ok) effs (h', db)"
| taking: "haRunning h \<Longrightarrow> haActivity h = Some observed \<Longrightarrow>
    heart_take exec timing rid cid t1 t2 t3 net observed (h\<lparr>haActivity := None\<rparr>, db) = Some (effs, h', db') \<Longrightarrow>
    heart_step exec timing rid cid (h, db) (Taken t1 t2 t3 net) effs (h', db')"
| stopping: "heart_step exec timing rid cid (h, db) StopCalled [] (h\<lparr>haStopped := True\<rparr>, db)"
| cancelling: "heart_step exec timing rid cid (h, db) ContextDone [] (h\<lparr>haCancelled := True\<rparr>, db)"
| returning: "haRunning h \<Longrightarrow> haStopped h \<or> haCancelled h \<Longrightarrow>
    heart_step exec timing rid cid (h, db) Returned [] (h\<lparr>haRunning := False\<rparr>, db)"
| meanwhile: "heart_step exec timing rid cid (h, db) (Elsewhere xs) [] (h, presence_run exec rid xs db)"

inductive_cases heart_step_noted: "heart_step exec timing rid cid (h, db) (Noted now ok) effs s"
inductive_cases heart_step_taken: "heart_step exec timing rid cid (h, db) (Taken t1 t2 t3 net) effs s"
inductive_cases heart_step_ticked: "heart_step exec timing rid cid (h, db) (Ticked ok) effs s"

inductive heart_run :: "'db exec \<Rightarrow> PresenceTiming \<Rightarrow> string \<Rightarrow> string \<Rightarrow> heart \<times> 'db \<Rightarrow> 'db heart_act list \<Rightarrow>
    heart_effect list \<Rightarrow> heart \<times> 'db \<Rightarrow> bool" for exec timing rid cid s where
  starting: "heart_run exec timing rid cid s [] [] s"
| followed: "heart_run exec timing rid cid s acts effs s' \<Longrightarrow> heart_step exec timing rid cid s' act sent s'' \<Longrightarrow>
    heart_run exec timing rid cid s (acts @ [act]) (effs @ sent) s''"

subsection \<open>What a heartbeat sends\<close>

fun is_note :: "'db heart_act \<Rightarrow> bool" where
  "is_note (Noted now ok) = ok"
| "is_note _ = False"

definition noted_count :: "'db heart_act list \<Rightarrow> nat" where
  "noted_count acts = length (filter is_note acts)"

definition renewal_times :: "heart_effect list \<Rightarrow> int list" where
  "renewal_times effs = List.map_filter (\<lambda>e. case e of RenewSent t \<Rightarrow> Some t | _ \<Rightarrow> None) effs"

lemma renewal_times_simps [simp]:
  "renewal_times [] = []" "renewal_times (xs @ ys) = renewal_times xs @ renewal_times ys"
  "renewal_times (RenewSent t # xs) = t # renewal_times xs" "renewal_times (PingSent # xs) = renewal_times xs"
  "renewal_times (ConnClosed # xs) = renewal_times xs" "renewal_times (RenewFailed e # xs) = renewal_times xs"
  by (simp_all add: renewal_times_def map_filter_def)

text \<open>The clock does not go back between the check and the end of a renewal.\<close>

fun forward :: "'db heart_act \<Rightarrow> bool" where
  "forward (Taken t1 t2 t3 net) = (t1 \<le> t2 \<and> t2 \<le> t3)"
| "forward _ = True"

text \<open>
  The invariant: the renewals sent and the note in the channel have each used up a note; the closing is the last
  effect and ends the goroutine; and renewals are an interval apart.
\<close>

definition heart_inv :: "PresenceTiming \<Rightarrow> int \<Rightarrow> 'db heart_act list \<Rightarrow> heart_effect list \<Rightarrow> heart \<Rightarrow> bool" where
  "heart_inv timing t0 acts effs h \<longleftrightarrow>
     length (renewal_times effs) + (if haActivity h = None then 0 else 1) \<le> noted_count acts \<and>
     (if haRunning h then ConnClosed \<notin> set effs \<and> t0 \<le> haLastRenewal h \<and> (\<forall>t\<in>set (renewal_times effs). t \<le> haLastRenewal h)
      else ConnClosed \<in> set effs \<longrightarrow> (\<exists>pre. effs = pre @ [ConnClosed] \<and> ConnClosed \<notin> set pre)) \<and>
     sorted_wrt (\<lambda>a b. a + HeartbeatInterval timing \<le> b) (t0 # renewal_times effs)"

lemma heart_take_inv:
  assumes "heart_take exec timing rid cid t1 t2 t3 net observed (h\<lparr>haActivity := None\<rparr>, db) = Some (sent, h', db')"
    and "haRunning h" "haActivity h = Some observed" "t2 \<le> t3" "heart_inv timing t0 acts effs h" "0 \<le> HeartbeatInterval timing"
  shows "heart_inv timing t0 (acts @ [Taken t1 t2 t3 net]) (effs @ sent) h'"
proof -
  have inv: "Suc (length (renewal_times effs)) \<le> noted_count acts" "ConnClosed \<notin> set effs" "t0 \<le> haLastRenewal h"
    "\<forall>t\<in>set (renewal_times effs). t \<le> haLastRenewal h"
    "sorted_wrt (\<lambda>a b. a + HeartbeatInterval timing \<le> b) (t0 # renewal_times effs)"
    using assms(2,3,5) by (simp_all add: heart_inv_def)
  have app: "noted_count (acts @ [Taken t1 t2 t3 net]) = noted_count acts" by (simp add: noted_count_def)
  show ?thesis
    using assms(1,2,4,6) inv unfolding heart_inv_def app
    by (fastforce simp: heart_take_def give_up_def sorted_wrt_append split: if_splits prod.splits outcome.splits)
qed

lemma heart_step_inv:
  assumes "heart_step exec timing rid cid s act sent s'" "forward act" "heart_inv timing t0 acts effs (fst s)"
    and "0 \<le> HeartbeatInterval timing"
  shows "heart_inv timing t0 (acts @ [act]) (effs @ sent) (fst s')"
  using assms
proof (cases rule: heart_step.cases)
  case (noting now ok h res h' db)
  then show ?thesis using assms(3)
    by (auto simp: heart_inv_def noted_count_def noteActivity_def set_deadline_def split: option.splits if_splits)
next
  case (ticking h ok h' db)
  then show ?thesis using assms(3)
    by (auto simp: heart_inv_def noted_count_def heart_tick_def give_up_def split: if_splits)
next
  case (taking h observed t1 t2 t3 net db h' db')
  then show ?thesis using heart_take_inv [of exec timing rid cid t1 t2 t3 net observed h db sent h' db'] assms by simp
qed (use assms(3) in \<open>auto simp: heart_inv_def noted_count_def split: if_splits\<close>)

lemma heart_run_inv:
  assumes "heart_run exec timing rid cid s acts effs s'" "list_all forward acts"
    and "s = (startPresenceHeartbeat timing started ok t0, db)" "0 \<le> HeartbeatInterval timing"
  shows "heart_inv timing t0 acts effs (fst s')"
  using assms
proof (induction rule: heart_run.induct)
  case starting
  then show ?case by (simp add: heart_inv_def noted_count_def startPresenceHeartbeat_def set_deadline_def)
next
  case (followed acts effs s' act sent s'')
  then show ?case by (intro heart_step_inv [OF followed.hyps(2)]) auto
qed

subsection \<open>A client that is there keeps its lease\<close>

text \<open>
  Runs at a pace. The clock of Redis, in milliseconds, agrees with that of the process; each observation is
  taken at most \<open>g\<close> after the one before, and it is not too old; a renewal gets through and takes at most
  \<open>l\<close>; the sockets work and nobody stops the goroutine. In between, other backends join, renew,
  prune, read, and remove other connections, \<open>paced\<close> has the time of the last observation.
\<close>

definition before_limit :: "('db \<Rightarrow> view) \<Rightarrow> string \<Rightarrow> nat \<Rightarrow> 'db \<Rightarrow> bool" where
  "before_limit V rid n db \<longleftrightarrow> (\<forall>P. redis_presence (V db) rid P \<longrightarrow> prRevision P + int n \<le> log_limit)"

inductive paced :: "'db exec \<Rightarrow> ('db \<Rightarrow> view) \<Rightarrow> ('db \<Rightarrow> bool) \<Rightarrow> ('db \<Rightarrow> int) \<Rightarrow> PresenceTiming \<Rightarrow> string \<Rightarrow> string \<Rightarrow>
    int \<Rightarrow> int \<Rightarrow> heart \<times> 'db \<Rightarrow> int \<Rightarrow> heart \<times> 'db \<Rightarrow> int \<Rightarrow> bool"
  for exec V K C timing rid cid g l s t where
  begun: "paced exec V K C timing rid cid g l s t s t"
| noted: "paced exec V K C timing rid cid g l s t (h, db) t' \<Longrightarrow>
    heart_step exec timing rid cid (h, db) (Noted now ok) effs s' \<Longrightarrow> paced exec V K C timing rid cid g l s t s' t'"
| ticked: "paced exec V K C timing rid cid g l s t (h, db) t' \<Longrightarrow>
    heart_step exec timing rid cid (h, db) (Ticked True) effs s' \<Longrightarrow> paced exec V K C timing rid cid g l s t s' t'"
| taken: "paced exec V K C timing rid cid g l s t (h, db) t' \<Longrightarrow>
    heart_step exec timing rid cid (h, db) (Taken t1 t2 t3 (over_link LinkUp)) effs s' \<Longrightarrow>
    \<forall>observed. haActivity h = Some observed \<longrightarrow> t1 - observed < LeaseDuration timing \<Longrightarrow>
    t' \<le> t2 \<Longrightarrow> t2 \<le> t' + g \<Longrightarrow> t2 \<le> t3 \<Longrightarrow> t3 \<le> t2 + l \<Longrightarrow> C db = t2 div 1000000 \<Longrightarrow>
    paced exec V K C timing rid cid g l s t s' t2"
| meanwhile: "paced exec V K C timing rid cid g l s t (h, db) t' \<Longrightarrow> run_ok V K xs \<Longrightarrow> before_limit V rid (length xs) db \<Longrightarrow>
    \<forall>(now, link, c)\<in>set (call_log exec C rid xs db). now * 1000000 \<le> t' + g \<and> c \<noteq> PLeave cid \<Longrightarrow>
    paced exec V K C timing rid cid g l s t (h, presence_run exec rid xs db) t'"

text \<open>The member is there and its lease outlives every moment until the next observation is due.\<close>

definition held :: "('db \<Rightarrow> view) \<Rightarrow> ('db \<Rightarrow> bool) \<Rightarrow> string \<Rightarrow> string \<Rightarrow> string \<Rightarrow> int \<Rightarrow> 'db \<Rightarrow> bool" where
  "held V K rid cid rec t db \<longleftrightarrow> K db \<and> (\<exists>P n. redis_presence (V db) rid P \<and> prMembers P cid = Some rec \<and>
     prExpiry P cid = Some n \<and> t < n * 1000000)"

definition beating :: "('db \<Rightarrow> view) \<Rightarrow> ('db \<Rightarrow> bool) \<Rightarrow> PresenceTiming \<Rightarrow> string \<Rightarrow> string \<Rightarrow> string \<Rightarrow> int \<Rightarrow> heart \<times> 'db \<Rightarrow> int \<Rightarrow> bool" where
  "beating V K timing rid cid rec l s t \<longleftrightarrow> haRunning (fst s) \<and> \<not> haClosed (fst s) \<and>
     t < haLastRenewal (fst s) + HeartbeatInterval timing \<and>
     (\<exists>b. haLastRenewal (fst s) \<le> b + l \<and> held V K rid cid rec (b + LeaseDuration timing - 2000000) (snd s))"

lemma Milliseconds_floor: "0 \<le> d \<Longrightarrow> d - 1000000 < Milliseconds d * 1000000"
  by (simp add: Milliseconds_def)

context presence_redis
begin

lemma held_meanwhile:
  assumes "held V K rid cid rec t db" "run_ok V K xs" "before_limit V rid (length xs) db" "t' \<le> t"
    and "\<forall>(now, link, c)\<in>set (call_log (document_exec E) C rid xs db). now * 1000000 \<le> t' \<and> c \<noteq> PLeave cid"
  shows "held V K rid cid rec t (presence_run (document_exec E) rid xs db)"
proof -
  obtain P n where P: "K db" "redis_presence (V db) rid P" "prMembers P cid = Some rec" "prExpiry P cid = Some n" "t < n * 1000000"
    using assms(1) by (auto simp: held_def)
  have "\<forall>(now, link, c)\<in>set (call_log (document_exec E) C rid xs db). now < n \<and> c \<noteq> PLeave cid"
    using assms(4,5) P(5) by fastforce
  from spec_run_held [OF P(3,4) this] obtain m where
    "prMembers (spec_run (call_log (document_exec E) C rid xs db) P) cid = Some rec"
    "prExpiry (spec_run (call_log (document_exec E) C rid xs db) P) cid = Some m" "n \<le> m" by blast
  moreover have "prRevision P + int (length xs) \<le> log_limit" using assms(3) P(2) by (simp add: before_limit_def)
  note presence_run_effect [OF P(1,2) this assms(2)]
  ultimately show ?thesis using P(5) unfolding held_def presence_after_def by force
qed

text \<open>A renewal at a time before the end of the lease succeeds and moves the end.\<close>

lemma held_renewed:
  assumes "held V K rid cid rec t db" "C db = now div 1000000" "now \<le> t" "int64_ok d" "0 < Milliseconds d"
  obtains db' where "RenewPresence (document_exec E) (over_link LinkUp) rid cid d db = (Ok True, db')"
    "held V K rid cid rec (now + d - 2000000) db'"
proof -
  obtain P n where P: "K db" "redis_presence (V db) rid P" "prMembers P cid = Some rec" "prExpiry P cid = Some n" "t < n * 1000000"
    using assms(1) by (auto simp: held_def)
  have "C db < n" using assms(2,3) P(5) by linarith
  then have r: "renewable (C db) cid P" using P(3,4) by (auto simp: renewable_def lapsed_def)
  obtain db' where *: "RenewPresence (document_exec E) (over_link LinkUp) rid cid d db = (Ok (renewable (C db) cid P), db')"
    "K db'" "presence_after rid (V db) (spec_renew (C db) cid (Milliseconds d) P) (V db')"
    by (rule RenewPresence_runs [OF P(1,2) assms(4,5)])
  have "0 \<le> d" using assms(5) by (auto simp: Milliseconds_def split: if_splits)
  moreover have "now < now div 1000000 * 1000000 + 1000000" by presburger
  ultimately have "now + d - 2000000 < (C db + Milliseconds d) * 1000000"
    using Milliseconds_floor [of d] assms(2) by (simp add: distrib_right)
  moreover have "prExpiry (spec_renew (C db) cid (Milliseconds d) P) cid = Some (max n (C db + Milliseconds d))"
    "prMembers (spec_renew (C db) cid (Milliseconds d) P) cid = Some rec"
    using r P(3,4) by (auto simp: spec_renew_def max_def)
  ultimately have "held V K rid cid rec (now + d - 2000000) db'"
    using *(2,3) unfolding held_def presence_after_def by (fastforce simp: max_def)
  then show thesis using that *(1) r by simp
qed

lemma taken_beating:
  assumes "beating V K timing rid cid rec l (h, db) t'"
    and step: "heart_step (document_exec E) timing rid cid (h, db) (Taken t1 t2 t3 (over_link LinkUp)) effs s'"
    and fresh: "\<forall>observed. haActivity h = Some observed \<longrightarrow> t1 - observed < LeaseDuration timing"
    and times: "t' \<le> t2" "t2 \<le> t' + g" "t2 \<le> t3" "t3 \<le> t2 + l" "C db = t2 div 1000000"
    and lease: "int64_ok (LeaseDuration timing)" "0 < Milliseconds (LeaseDuration timing)" "0 < HeartbeatInterval timing" "0 \<le> l"
      "HeartbeatInterval timing + g + l + 2000000 \<le> LeaseDuration timing"
  shows "beating V K timing rid cid rec l s' t2"
proof -
  obtain b where b: "haRunning h" "\<not> haClosed h" "t' < haLastRenewal h + HeartbeatInterval timing" "haLastRenewal h \<le> b + l"
    "held V K rid cid rec (b + LeaseDuration timing - 2000000) db" using assms(1) by (auto simp: beating_def)
  from step show ?thesis
  proof (rule heart_step_taken)
    fix observed h' db'
    assume *: "s' = (h', db')" "haActivity h = Some observed"
      "heart_take (document_exec E) timing rid cid t1 t2 t3 (over_link LinkUp) observed (h\<lparr>haActivity := None\<rparr>, db) = Some (effs, h', db')"
    have old: "t1 - observed < LeaseDuration timing" using fresh *(2) by blast
    show ?thesis
    proof (cases "t2 - haLastRenewal h < HeartbeatInterval timing")
      case True
      then have "h' = h\<lparr>haActivity := None\<rparr>" "db' = db" using *(3) old by (auto simp: heart_take_def)
      then show ?thesis using True b *(1) by (auto simp: beating_def)
    next
      case False
      have "t2 \<le> b + LeaseDuration timing - 2000000" using times(2) b(3,4) lease(5) by linarith
      then obtain db1 where r: "RenewPresence (document_exec E) (over_link LinkUp) rid cid (LeaseDuration timing) db = (Ok True, db1)"
        "held V K rid cid rec (t2 + LeaseDuration timing - 2000000) db1"
        by (rule held_renewed [OF b(5) times(5) _ lease(1,2)])
      then have "h' = h\<lparr>haActivity := None, haLastRenewal := t3\<rparr>" "db' = db1"
        using *(3) old False by (auto simp: heart_take_def)
      then show ?thesis
        using b *(1) r(2) times(3,4) lease(3) by (auto simp: beating_def intro: exI [of _ t2])
    qed
  qed
qed

lemma paced_beating:
  assumes "paced (document_exec E) V K C timing rid cid g l s t s' t'" "beating V K timing rid cid rec l s t"
    and "int64_ok (LeaseDuration timing)" "0 < Milliseconds (LeaseDuration timing)" "0 < HeartbeatInterval timing" "0 \<le> g" "0 \<le> l"
    and "HeartbeatInterval timing + g + l + 2000000 \<le> LeaseDuration timing"
  shows "beating V K timing rid cid rec l s' t'"
  using assms(1)
proof induction
  case begun
  then show ?case by (rule assms(2))
next
  case (noted h db t' now ok effs s')
  from noted.hyps(2) show ?case
    by (rule heart_step_noted)
      (use noted.IH in \<open>auto simp: beating_def noteActivity_def set_deadline_def split: option.splits if_splits\<close>)
next
  case (ticked h db t' effs s')
  from ticked.hyps(2) show ?case
    by (rule heart_step_ticked) (use ticked.IH in \<open>auto simp: heart_tick_def\<close>)
next
  case (taken h db t' t1 t2 t3 effs s')
  then show ?case using taken_beating [OF _ taken.hyps(2) _ taken.hyps(4-8) assms(3-5,7,8)] by blast
next
  case (meanwhile h db t' xs)
  obtain b where b: "haRunning h" "\<not> haClosed h" "t' < haLastRenewal h + HeartbeatInterval timing" "haLastRenewal h \<le> b + l"
    "held V K rid cid rec (b + LeaseDuration timing - 2000000) db" using meanwhile.IH by (auto simp: beating_def)
  have "t' + g \<le> b + LeaseDuration timing - 2000000" using b(3,4) assms(8) by linarith
  from held_meanwhile [OF b(5) meanwhile.hyps(2,3) this meanwhile.hyps(4)] show ?case
    using b(1-4) by (auto simp: beating_def)
qed

text \<open>So the lease does not end before the next observation is due.\<close>

lemma paced_held:
  assumes "paced (document_exec E) V K C timing rid cid g l s t s' t'" "beating V K timing rid cid rec l s t"
    and "int64_ok (LeaseDuration timing)" "0 < Milliseconds (LeaseDuration timing)" "0 < HeartbeatInterval timing" "0 \<le> g" "0 \<le> l"
    and "HeartbeatInterval timing + g + l + 2000000 \<le> LeaseDuration timing"
  shows "haRunning (fst s') \<and> \<not> haClosed (fst s') \<and> held V K rid cid rec (t' + g) (snd s')"
proof -
  obtain b where b: "haRunning (fst s')" "\<not> haClosed (fst s')" "t' < haLastRenewal (fst s') + HeartbeatInterval timing"
    "haLastRenewal (fst s') \<le> b + l" "held V K rid cid rec (b + LeaseDuration timing - 2000000) (snd s')"
    using paced_beating [OF assms] by (auto simp: beating_def)
  moreover have "t' + g \<le> b + LeaseDuration timing - 2000000" using b(3,4) assms(8) by linarith
  ultimately show ?thesis unfolding held_def by fastforce
qed

end

end
