(* ===== verification/Presence_Watcher.thy ===== *)
theory Presence_Watcher
  imports Presence_Leases Room_Facts Client_Gates
begin

section \<open>The presence watcher of a room, and the sweeper\<close>

text \<open>
  \<open>watchPresence\<close> of \<^verbatim>\<open>backend/presence.go\<close> and \<open>sweepPresenceOnce\<close> and \<open>runPresenceSweeper\<close> of
  \<^verbatim>\<open>backend/presence_lease.go\<close>. The watcher reads the notices of a room behind a cursor and
  sends the current snapshot to the room's clients; the sweeper goes through all rooms that have members and prunes each.
  Both end when the context of the manager is done, which they check at the points that \<open>pwDone\<close> and
  \<open>swDone\<close> number.
\<close>

subsection \<open>One round of the watcher\<close>

text \<open>
  \<open>pwNet k 0\<close> is the link of the read of the \<open>k\<close>-th round and \<open>pwNet k 1\<close> that of its snapshot; \<open>pwOthers\<close> is
  what the handlers do to the room and its clients before the broadcast.
\<close>

record 'db pwatch_env =
  pwDone :: "nat \<Rightarrow> nat \<Rightarrow> bool"
  pwNet :: "nat \<Rightarrow> nat \<Rightarrow> 'db net"
  pwOthers :: "nat \<Rightarrow> Room \<times> heap \<Rightarrow> Room \<times> heap"

record pwatch =
  pwCursor :: string
  pwRoom :: Room
  pwHeap :: heap
  pwLogged :: "presence_error list"

definition start_presence_watch :: "Room \<Rightarrow> heap \<Rightarrow> pwatch" where
  "start_presence_watch r h = \<lparr>pwCursor = ''0-0'', pwRoom = r, pwHeap = h, pwLogged = []\<rparr>"

text \<open>After a failure: the same cursor again, unless the context is done. The boolean says whether the loop goes on.\<close>

definition presence_retry :: "'db pwatch_env \<Rightarrow> nat \<Rightarrow> presence_error \<Rightarrow> pwatch \<Rightarrow> bool \<times> pwatch" where
  "presence_retry env k e w =
     (if pwDone env k 2 then (False, w) else (\<not> pwDone env k 3, w\<lparr>pwLogged := pwLogged w @ [e]\<rparr>))"

definition presence_refresh :: "'db exec \<Rightarrow> 'db pwatch_env \<Rightarrow> nat \<Rightarrow> string \<Rightarrow> pwatch \<Rightarrow> 'db \<Rightarrow>
    (bool \<times> pwatch) option \<times> 'db" where
  "presence_refresh exec env k cursor w db = (case GetPresence exec (pwNet env k 1) (rID (pwRoom w)) db of
     (Panic, db) \<Rightarrow> (None, db)
   | (Err e, db) \<Rightarrow> (Some (presence_retry env k e w), db)
   | (Ok s, db) \<Rightarrow>
      (case pwOthers env k (pwRoom w, pwHeap w) of (r, h) \<Rightarrow>
         (map_option (\<lambda>h. (True, w\<lparr>pwCursor := cursor, pwRoom := r, pwHeap := h\<rparr>))
            (broadcastPresenceSnapshot s r h), db)))"

definition presence_round :: "'db exec \<Rightarrow> 'db pwatch_env \<Rightarrow> nat \<Rightarrow> pwatch \<Rightarrow> 'db \<Rightarrow> (bool \<times> pwatch) option \<times> 'db" where
  "presence_round exec env k w db =
     (if pwDone env k 0 then (Some (False, w), db)
      else case ReadPresenceChanges exec (pwNet env k 0) (rID (pwRoom w)) (pwCursor w) db of ((cursor, r), db) \<Rightarrow>
        (case r of
           Panic \<Rightarrow> (None, db)
         | Ok u \<Rightarrow>
            if pwDone env k 1 then (Some (False, w), db)
            else if cursor = pwCursor w then (Some (True, w), db)
            else presence_refresh exec env k cursor w db
         | Err e \<Rightarrow>
            if pwDone env k 1 then (Some (False, w), db)
            else (Some (presence_retry env k e w), db)))"

text \<open>The loop, for at most \<open>n\<close> rounds.\<close>

fun presence_rounds :: "'db exec \<Rightarrow> 'db pwatch_env \<Rightarrow> nat \<Rightarrow> nat \<Rightarrow> pwatch \<Rightarrow> 'db \<Rightarrow> (bool \<times> pwatch) option \<times> 'db" where
  "presence_rounds exec env k 0 w db = (Some (True, w), db)"
| "presence_rounds exec env k (Suc n) w db = (case presence_round exec env k w db of
     (None, db) \<Rightarrow> (None, db)
   | (Some (False, w), db) \<Rightarrow> (Some (False, w), db)
   | (Some (True, w), db) \<Rightarrow> presence_rounds exec env (Suc k) n w db)"

subsection \<open>The sweeper\<close>

text \<open>
  \<open>swNet k 0\<close> is the link of the \<open>k\<close>-th scan and \<open>swNet k (j + 1)\<close> that of the prune of its \<open>j\<close>-th room; the
  context is checked before each.
\<close>

record 'db sweep_env =
  swDone :: "nat \<Rightarrow> nat \<Rightarrow> bool"
  swNet :: "nat \<Rightarrow> nat \<Rightarrow> 'db net"

datatype sweep_error = ContextCancelled | SweepStore presence_error

fun sweep_rooms :: "'db exec \<Rightarrow> 'db sweep_env \<Rightarrow> nat \<Rightarrow> nat \<Rightarrow> string list \<Rightarrow> 'db \<Rightarrow> (sweep_error, unit) outcome \<times> 'db" where
  "sweep_rooms exec env k j [] db = (Ok (), db)"
| "sweep_rooms exec env k j (roomID # rooms) db =
     (if swDone env k (Suc j) then (Err ContextCancelled, db)
      else case PrunePresence exec (swNet env k (Suc j)) roomID db of
         (Panic, db) \<Rightarrow> (Panic, db)
       | (Err e, db) \<Rightarrow> (Err (SweepStore e), db)
       | (Ok n, db) \<Rightarrow> sweep_rooms exec env k (Suc j) rooms db)"

text \<open>The pages of the scan; the first component is \<open>None\<close> when the fuel is used up.\<close>

fun sweep_pages :: "'db exec \<Rightarrow> 'db sweep_env \<Rightarrow> nat \<Rightarrow> nat \<Rightarrow> string \<Rightarrow> 'db \<Rightarrow> (sweep_error, unit) outcome option \<times> 'db" where
  "sweep_pages exec env k 0 cursor db = (None, db)"
| "sweep_pages exec env k (Suc n) cursor db =
     (if swDone env k 0 then (Some (Err ContextCancelled), db)
      else case ScanPresenceRooms exec (swNet env k 0) cursor db of
         (Panic, db) \<Rightarrow> (Some Panic, db)
       | (Err e, db) \<Rightarrow> (Some (Err (SweepStore e)), db)
       | (Ok (rooms, cursor'), db) \<Rightarrow>
          (case sweep_rooms exec env k 0 rooms db of
             (Ok u, db) \<Rightarrow> if cursor' = ''0'' then (Some (Ok ()), db) else sweep_pages exec env (Suc k) n cursor' db
           | (r, db) \<Rightarrow> (Some r, db)))"

definition sweepPresenceOnce :: "'db exec \<Rightarrow> 'db sweep_env \<Rightarrow> nat \<Rightarrow> 'db \<Rightarrow> (sweep_error, unit) outcome option \<times> 'db" where
  "sweepPresenceOnce exec env n db = sweep_pages exec env 0 n ''0'' db"

text \<open>
  \<open>runPresenceSweeper\<close> for the sweeps \<open>envs\<close>: the errors that are logged. After each sweep \<open>cancelled\<close> says
  whether the context is done when the log is considered and when the loop waits.
\<close>

fun runPresenceSweeper :: "'db exec \<Rightarrow> nat \<Rightarrow> ('db sweep_env \<times> bool \<times> bool) list \<Rightarrow> 'db \<Rightarrow> (sweep_error list option \<times> 'db)" where
  "runPresenceSweeper exec n [] db = (Some [], db)"
| "runPresenceSweeper exec n ((env, cancelled, over) # sweeps) db = (case sweepPresenceOnce exec env n db of
     (None, db) \<Rightarrow> (None, db)
   | (Some Panic, db) \<Rightarrow> (None, db)
   | (Some r, db) \<Rightarrow>
      (let logged = (case r of Err e \<Rightarrow> if cancelled then [] else [e] | _ \<Rightarrow> []) in
       if over then (Some logged, db)
       else apfst (map_option ((@) logged)) (runPresenceSweeper exec n sweeps db)))"

end
