(* ===== verification/Presence_Watch_Facts.thy ===== *)
theory Presence_Watch_Facts
  imports Presence_Watcher
begin

section \<open>What the presence watcher does\<close>

text \<open>
  The read of the notices behind a cursor, a broadcast of a snapshot to a room, and the rounds of
  \<open>watchPresence\<close> that these make up.
\<close>

subsection \<open>Notices\<close>

text \<open>The cursor stands behind the first \<open>i\<close> notices of a room.\<close>

definition notice_at :: "view \<Rightarrow> string \<Rightarrow> nat \<Rightarrow> string \<Rightarrow> bool" where
  "notice_at v rid i sid \<longleftrightarrow> entry_at (stream_of (v (roomPresenceStreamKey rid))) i sid"

definition notice_count :: "view \<Rightarrow> string \<Rightarrow> nat" where
  "notice_count v rid = length (stream_of (v (roomPresenceStreamKey rid)))"

lemma notice_count_revision: "redis_presence v rid P \<Longrightarrow> notice_count v rid = nat (prRevision P)"
  unfolding notice_count_def redis_presence_def by (metis length_map length_notices)

lemma last_entry_page:
  "last_entry (map entry_gval es) cursor = (if es = [] then cursor else fst (last es), None)"
  by (induction es arbitrary: cursor) (simp_all add: entry_gval_def redisString_def)

lemma ReadPresence_page:
  assumes "redis_server E V K" "K db" "redis_presence (V db) rid P" "notice_at (V db) rid i sid"
  obtains sid' db' where "ReadPresenceChanges (document_exec E) (over_link LinkUp) rid sid db = ((sid', Ok ()), db')"
    "K db'" "V db' = V db" "notice_at (V db) rid (min (i + 100) (notice_count (V db) rid)) sid'"
    "sid' = sid \<longleftrightarrow> i = notice_count (V db) rid"
proof -
  let ?k = "roomPresenceStreamKey rid"
  define es where "es = stream_of (V db ?k)"
  let ?page = "take 100 (drop i es)"
  have st: "is_stream (V db ?k)" using assms(3) by (simp add: redis_presence_def)
  have at: "entry_at es i sid" using assms(4) by (simp add: notice_at_def es_def)
  from step_xread [OF assms(1,2) st _ this, of "''250''"]
  obtain d where d: "E [''XREAD'', ''COUNT'', ''100'', ''BLOCK'', ''250'', ''STREAMS'', ?k, sid] db = (xread_reply ?k ?page, d)"
    "V d = V db" "K d" by (auto simp: es_def elim: redis_step_do)
  have le: "i \<le> length es" using at by (simp add: entry_at_def)
  have page: "?page = [] \<longleftrightarrow> i = length es" using le by auto
  have last: "fst (last ?page) = fst (es ! (min (i + 100) (length es) - 1))" if "i < length es"
  proof -
    have "i + (min (length es - i) 100 - 1) = min (i + 100) (length es) - 1" using that by linarith
    then show ?thesis using that by (simp add: last_conv_nth)
  qed
  define sid' where "sid' = (if i = length es then sid else fst (es ! (min (i + 100) (length es) - 1)))"
  have "(if ?page = [] then sid else fst (last ?page)) = sid'" using le last page by (simp add: sid'_def)
  then have "ReadPresenceChanges (document_exec E) (over_link LinkUp) rid sid db = ((sid', Ok ()), d)"
    using d(1) by (auto simp: ReadPresenceChanges_def do_at_def over_link_def redis_do_def xread_reply_def
        last_entry_page redisString_def split: if_splits)
  moreover have "notice_at (V db) rid (min (i + 100) (notice_count (V db) rid)) sid'"
    using at le by (auto simp: notice_at_def notice_count_def entry_at_def sid'_def simp flip: es_def)
  moreover have "sid' = sid \<longleftrightarrow> i = notice_count (V db) rid"
  proof (cases "i < length es")
    case True
    let ?j = "min (i + 100) (length es) - 1"
    have dist: "distinct (''0-0'' # map fst es)" using stream_ids_distinct [OF assms(1,2)] by (simp add: es_def)
    have j: "?j < length es" "i \<le> ?j" using True by auto
    have "fst (es ! ?j) \<noteq> sid"
    proof (cases "i = 0")
      case True
      then show ?thesis using dist j(1) at by (force simp: entry_at_def in_set_conv_nth)
    next
      case False
      then have "map fst es ! (i - 1) \<noteq> map fst es ! ?j" using dist j by (subst nth_eq_iff_index_eq) auto
      then show ?thesis using at j False by (auto simp: entry_at_def)
    qed
    then show ?thesis using True by (auto simp: sid'_def notice_count_def simp flip: es_def)
  next
    case False
    then show ?thesis using le by (simp add: sid'_def notice_count_def flip: es_def)
  qed
  ultimately show thesis using that d(2,3) by blast
qed

subsection \<open>A broadcast of a snapshot\<close>

text \<open>Without faults each client gets the snapshot once if it is newer than what it has.\<close>

lemma deliver_presence_no_faults:
  assumes "no_faults c"
  shows "\<exists>c'. deliver_presence s c = Some c' \<and>
    client_frames c' = client_frames c @ (if above (presence_mark c) (psRevision s) then [FPresence s] else []) \<and>
    presence_mark c' = (if above (presence_mark c) (psRevision s) then Some (psRevision s) else presence_mark c)"
  using no_faults_has_conn [OF assms] assms
  by (auto simp: deliver_presence_def writePresence_def client_write_no_faults has_conn_def presence_mark_def
      simp del: not_None_eq)

lemma broadcast_presence_all:
  assumes "distinct (rClients r)" "\<forall>q\<in>set (rClients r). no_faults (h q)"
  obtains h' where "broadcastPresenceSnapshot s r h = Some h'"
    "\<forall>q\<in>set (rClients r). client_frames (h' q) = client_frames (h q) @
        (if above (presence_mark (h q)) (psRevision s) then [FPresence s] else []) \<and>
      presence_mark (h' q) = (if above (presence_mark (h q)) (psRevision s) then Some (psRevision s) else presence_mark (h q))"
    "\<forall>q. q \<notin> set (rClients r) \<longrightarrow> h' q = h q"
proof -
  have "\<exists>h'. broadcast_to (deliver_presence s) ps h = Some h'" if "distinct ps" "\<forall>q\<in>set ps. no_faults (h q)" for ps h
    using that
  proof (induction ps arbitrary: h)
    case (Cons p ps)
    obtain c' where "deliver_presence s (h p) = Some c'" using deliver_presence_no_faults [of "h p"] Cons.prems(2) by auto
    moreover define h1 where "h1 = h(p := c')"
    have "\<forall>q\<in>set ps. no_faults (h1 q)" using Cons.prems by (auto simp: h1_def)
    from Cons.IH [OF _ this] Cons.prems(1) have "\<exists>h'. broadcast_to (deliver_presence s) ps h1 = Some h'" by simp
    ultimately show ?case by (simp add: h1_def)
  qed simp
  then obtain h' where h': "broadcast_to (deliver_presence s) (rClients r) h = Some h'" using assms by blast
  have each: "client_frames (h' q) = client_frames (h q) @ (if above (presence_mark (h q)) (psRevision s) then [FPresence s] else []) \<and>
      presence_mark (h' q) = (if above (presence_mark (h q)) (psRevision s) then Some (psRevision s) else presence_mark (h q))"
    if q: "q \<in> set (rClients r)" for q
  proof -
    have "deliver_presence s (h q) = Some (h' q)" using broadcast_to_member [OF h' assms(1) q] by simp
    moreover have "no_faults (h q)" using assms(2) q by simp
    ultimately show ?thesis using deliver_presence_no_faults [of "h q" s] by force
  qed
  show thesis
  proof (rule that [of h'])
    show "broadcastPresenceSnapshot s r h = Some h'" using h' by (simp add: broadcastPresenceSnapshot_def clientsSnapshot_def)
  qed (use each broadcast_to_frame [OF h'] in blast)+
qed

subsection \<open>A round\<close>

lemma presence_retry_keeps: "presence_retry env k e w = (b, w') \<Longrightarrow> pwCursor w' = pwCursor w \<and> pwHeap w' = pwHeap w \<and> pwRoom w' = pwRoom w"
  by (auto simp: presence_retry_def split: if_splits)

text \<open>The cursor moves only past notices for which a snapshot was read and sent to the whole room.\<close>

lemma presence_round_moves:
  assumes "presence_round exec env k w db = (Some (b, w'), db')"
  shows "w' = w\<lparr>pwLogged := pwLogged w'\<rparr> \<or>
    (\<exists>s r h db1 db2. GetPresence exec (pwNet env k 1) (rID (pwRoom w)) db1 = (Ok s, db2) \<and>
       ReadPresenceChanges exec (pwNet env k 0) (rID (pwRoom w)) (pwCursor w) db = ((pwCursor w', Ok ()), db1) \<and>
       pwOthers env k (pwRoom w, pwHeap w) = (r, h) \<and> broadcastPresenceSnapshot s r h = Some (pwHeap w'))"
  using assms
  by (auto simp: presence_round_def presence_refresh_def presence_retry_def
      split: if_splits prod.splits outcome.splits)

context presence_redis
begin

lemma presence_round_refreshes:
  assumes "K db" "redis_presence (V db) rid P" "good_records P" "prRevision P < log_limit" "rID (pwRoom w) = rid"
    and "notice_at (V db) rid i (pwCursor w)" "i < notice_count (V db) rid"
    and "\<forall>j. pwNet env k j = over_link LinkUp" "\<forall>j. \<not> pwDone env k j"
    and "pwOthers env k (pwRoom w, pwHeap w) = (r, h)" "distinct (rClients r)" "\<forall>q\<in>set (rClients r). no_faults (h q)"
  obtains s db1 db' cursor h' where
    "presence_round (document_exec E) env k w db = (Some (True, w\<lparr>pwCursor := cursor, pwRoom := r, pwHeap := h'\<rparr>), db')"
    "K db'" "presence_after rid (V db) (spec_prune (C db1) P) (V db')"
    "psRevision s = prRevision (spec_prune (C db1) P)" "set (psParticipants s) = live_participants (C db1) P"
    "ReadPresenceChanges (document_exec E) (over_link LinkUp) rid (pwCursor w) db = ((cursor, Ok ()), db1)"
    "GetPresence (document_exec E) (over_link LinkUp) rid db1 = (Ok s, db')"
    "notice_at (V db) rid (min (i + 100) (notice_count (V db) rid)) cursor"
    "\<forall>q\<in>set (rClients r). client_frames (h' q) = client_frames (h q) @
        (if above (presence_mark (h q)) (psRevision s) then [FPresence s] else []) \<and>
      presence_mark (h' q) = (if above (presence_mark (h q)) (psRevision s) then Some (psRevision s) else presence_mark (h q))"
proof -
  obtain cursor db1 where read: "ReadPresenceChanges (document_exec E) (over_link LinkUp) rid (pwCursor w) db = ((cursor, Ok ()), db1)"
    "K db1" "V db1 = V db" "notice_at (V db) rid (min (i + 100) (notice_count (V db) rid)) cursor"
    "cursor \<noteq> pwCursor w"
    using ReadPresence_page [OF base assms(1,2,6)] assms(7) by (metis less_irrefl)
  obtain s db2 where get: "GetPresence (document_exec E) (over_link LinkUp) rid db1 = (Ok s, db2)"
    "K db2" "presence_after rid (V db1) (spec_prune (C db1) P) (V db2)"
    "psRevision s = prRevision (spec_prune (C db1) P)" "set (psParticipants s) = live_participants (C db1) P"
    using GetPresence_runs [OF read(2) _ assms(4,3)] assms(2) read(3) by metis
  obtain h' where h': "broadcastPresenceSnapshot s r h = Some h'"
    "\<forall>q\<in>set (rClients r). client_frames (h' q) = client_frames (h q) @
        (if above (presence_mark (h q)) (psRevision s) then [FPresence s] else []) \<and>
      presence_mark (h' q) = (if above (presence_mark (h q)) (psRevision s) then Some (psRevision s) else presence_mark (h q))"
    by (rule broadcast_presence_all [OF assms(11,12), of s])
  have "presence_round (document_exec E) env k w db = (Some (True, w\<lparr>pwCursor := cursor, pwRoom := r, pwHeap := h'\<rparr>), db2)"
    using read(1,5) get(1) h'(1) assms(5,8,9,10) by (simp add: presence_round_def presence_refresh_def)
  then show thesis using that get read(1,3,4) h'(2) by metis
qed

end

end
