(* ===== verification/Sweep_Facts.thy ===== *)
theory Sweep_Facts
  imports Presence_Watcher Redis_Clock
begin

section \<open>What a sweep does\<close>

text \<open>
  \<open>sweepPresenceOnce\<close> over working links, with nobody else acting: it ends, and no room is left with
  a member whose lease was over when it began.
\<close>

subsection \<open>The scan\<close>

text \<open>
  What a sweep relies on of \<open>SCAN\<close>: a full iteration from the cursor 0 until the cursor is 0 again ends, and
  lists every matching key that is there throughout. Keys have one of \<open>N\<close> slots, cursors a position, and a page has at
  least the keys from its position up to that of the next cursor; it may list a key twice.
\<close>

abbreviation scan_command :: "string \<Rightarrow> string list" where
  "scan_command cursor \<equiv> [''SCAN'', cursor, ''MATCH'', ''livecollab:room:*:presence'', ''COUNT'', ''100'']"

definition scan_laws :: "'db exec \<Rightarrow> ('db \<Rightarrow> view) \<Rightarrow> ('db \<Rightarrow> bool) \<Rightarrow> nat \<Rightarrow> (string \<Rightarrow> nat) \<Rightarrow> (string \<Rightarrow> nat) \<Rightarrow> bool" where
  "scan_laws E V K N slot pos \<longleftrightarrow> pos ''0'' = 0 \<and> (\<forall>k. slot k < N) \<and>
     (\<forall>db cursor. K db \<longrightarrow> pos cursor < N \<longrightarrow>
       (\<exists>cursor' keys. redis_step E V K (scan_command cursor) db (RArr [RBulk cursor', RArr (map RBulk keys)]) (V db) \<and>
          (\<forall>k\<in>set keys. is_presence_key k) \<and>
          (cursor' = ''0'' \<or> pos cursor < pos cursor' \<and> pos cursor' < N) \<and>
          (\<forall>k. V db k \<noteq> None \<longrightarrow> is_presence_key k \<longrightarrow> pos cursor \<le> slot k \<longrightarrow>
             (cursor' = ''0'' \<or> slot k < pos cursor') \<longrightarrow> k \<in> set keys)))"

subsection \<open>Rooms\<close>

text \<open>A room is swept when no member of it has a lease that ended by a time.\<close>

definition swept :: "view \<Rightarrow> string \<Rightarrow> int \<Rightarrow> bool" where
  "swept v rid t \<longleftrightarrow> (\<exists>P. redis_presence v rid P \<and> (\<forall>f\<in>dom (prMembers P). \<not> lapsed t P f))"

text \<open>
  Every room has a presence in Redis, whose members can all be removed before its revision is at the
  limit. Pruning keeps this: each revision more is a member less.
\<close>

definition presences :: "view \<Rightarrow> bool" where
  "presences v \<longleftrightarrow> (\<forall>rid. \<exists>P. redis_presence v rid P \<and> prRevision P + int (card (dom (prMembers P))) < log_limit)"

lemma lapsed_mono: "lapsed t P f \<Longrightarrow> t \<le> t' \<Longrightarrow> lapsed t' P f"
  by (auto simp: lapsed_def split: option.splits)

lemma spec_prune_members:
  "f \<in> dom (prMembers (spec_prune t P)) \<longleftrightarrow> f \<in> dom (prMembers P) \<and> \<not> lapsed t P f"
  by (auto simp: spec_prune_def restrict_map_def split: if_splits)

lemma spec_prune_lapsed: "\<not> lapsed t P f \<Longrightarrow> lapsed t' (spec_prune t P) f \<longleftrightarrow> lapsed t' P f"
  by (auto simp: lapsed_def spec_prune_def restrict_map_def split: option.splits)

lemma spec_prune_budget:
  assumes "finite (dom (prMembers P))"
  shows "prRevision (spec_prune t P) + int (card (dom (prMembers (spec_prune t P)))) \<le> prRevision P + int (card (dom (prMembers P)))"
proof (cases "\<exists>f\<in>dom (prMembers P). lapsed t P f")
  case True
  then have "dom (prMembers (spec_prune t P)) \<subset> dom (prMembers P)" using spec_prune_members [of _ t P] by blast
  from psubset_card_mono [OF assms this] True show ?thesis by (simp add: spec_prune_def)
next
  case False
  have "dom (prMembers (spec_prune t P)) \<subseteq> dom (prMembers P)" using spec_prune_members [of _ t P] by blast
  from card_mono [OF assms this] False show ?thesis by (simp add: spec_prune_def)
qed

lemma swept_unique: "redis_presence v rid P \<Longrightarrow> swept v rid t \<longleftrightarrow> (\<forall>f\<in>dom (prMembers P). \<not> lapsed t P f)"
  unfolding swept_def by (metis redis_presence_unique)

lemma presencesD:
  assumes "presences v" "redis_presence v rid P"
  shows "prRevision P + int (card (dom (prMembers P))) < log_limit"
proof -
  obtain Q where Q: "redis_presence v rid Q" "prRevision Q + int (card (dom (prMembers Q))) < log_limit"
    using assms(1) unfolding presences_def by blast
  show ?thesis using Q(2) unfolding redis_presence_unique [OF assms(2) Q(1)] .
qed

lemma no_key_swept: "presences v \<Longrightarrow> v (roomPresenceKey rid) = None \<Longrightarrow> swept v rid t"
proof -
  assume a: "presences v" "v (roomPresenceKey rid) = None"
  then obtain P where P: "redis_presence v rid P" by (auto simp: presences_def)
  then have "hash_value (prMembers P) = None" using a(2) by (simp add: redis_presence_def)
  then have "prMembers P = Map.empty" by (simp add: hash_value_def split: if_splits)
  then show ?thesis using P by (auto simp: swept_def)
qed

text \<open>A prune sweeps its room and keeps what is swept.\<close>

lemma prune_sweeps:
  assumes "redis_presence v rid P" "presence_after rid v (spec_prune now P) v'" "presences v" "t \<le> now"
  shows "presences v'" "swept v' rid t" "swept v rid' t \<Longrightarrow> swept v' rid' t"
proof -
  have same: "redis_presence v' r Q \<longleftrightarrow> redis_presence v r Q" if "r \<noteq> rid" for r Q
    using assms(2) presence_keys_disjoint [OF that] by (intro redis_presence_frame) (auto simp: presence_after_def)
  have P': "redis_presence v' rid (spec_prune now P)" using assms(2) by (simp add: presence_after_def)
  have "finite (dom (prMembers P))" using assms(1) by (simp add: redis_presence_def)
  note spec_prune_budget [OF this, of now]
  with presencesD [OF assms(3,1)]
  have "prRevision (spec_prune now P) + int (card (dom (prMembers (spec_prune now P)))) < log_limit" by linarith
  note mine = P' this
  have "\<exists>Q. redis_presence v' r Q \<and> prRevision Q + int (card (dom (prMembers Q))) < log_limit" for r
  proof (cases "r = rid")
    case True
    then show ?thesis using mine by blast
  next
    case False
    then show ?thesis using assms(3) unfolding presences_def same [OF False] by blast
  qed
  then show "presences v'" unfolding presences_def by blast
  show s: "swept v' rid t"
    unfolding swept_unique [OF P']
  proof
    fix f assume "f \<in> dom (prMembers (spec_prune now P))"
    then have f: "\<not> lapsed now P f" unfolding spec_prune_members by simp
    then show "\<not> lapsed t (spec_prune now P) f" unfolding spec_prune_lapsed [OF f] using lapsed_mono [OF _ assms(4)] by blast
  qed
  show "swept v' rid' t" if "swept v rid' t"
  proof (cases "rid' = rid")
    case False
    then show ?thesis using that unfolding swept_def same [OF False] by simp
  qed (use s in simp)
qed

text \<open>
  What is left of the members of a room: some of them, with their leases, and all whose lease runs beyond a time.
\<close>

definition kept :: "view \<Rightarrow> view \<Rightarrow> string \<Rightarrow> int \<Rightarrow> bool" where
  "kept v0 v rid t \<longleftrightarrow> (\<forall>P0. redis_presence v0 rid P0 \<longrightarrow> (\<exists>P. redis_presence v rid P \<and>
     prMembers P \<subseteq>\<^sub>m prMembers P0 \<and> (\<forall>f\<in>dom (prMembers P). prExpiry P f = prExpiry P0 f) \<and>
     (\<forall>f\<in>dom (prMembers P0). \<not> lapsed t P0 f \<longrightarrow> f \<in> dom (prMembers P))))"

lemma kept_same: "kept v v rid t"
  by (auto simp: kept_def)

lemma kept_prune:
  assumes "redis_presence v rid P" "presence_after rid v (spec_prune now P) v'" "kept v0 v r t" "t \<le> now"
  shows "kept v0 v' r now"
  unfolding kept_def
proof (intro allI impI)
  fix P0 assume P0: "redis_presence v0 r P0"
  then obtain Q where Q: "redis_presence v r Q" "prMembers Q \<subseteq>\<^sub>m prMembers P0" "\<forall>f\<in>dom (prMembers Q). prExpiry Q f = prExpiry P0 f"
    "\<forall>f\<in>dom (prMembers P0). \<not> lapsed t P0 f \<longrightarrow> f \<in> dom (prMembers Q)"
    using assms(3) unfolding kept_def by blast
  have still: "f \<in> dom (prMembers Q)" if "f \<in> dom (prMembers P0)" "\<not> lapsed now P0 f" for f
    using Q(4) that lapsed_mono [OF _ assms(4)] by blast
  show "\<exists>P. redis_presence v' r P \<and> prMembers P \<subseteq>\<^sub>m prMembers P0 \<and> (\<forall>f\<in>dom (prMembers P). prExpiry P f = prExpiry P0 f) \<and>
     (\<forall>f\<in>dom (prMembers P0). \<not> lapsed now P0 f \<longrightarrow> f \<in> dom (prMembers P))"
  proof (cases "r = rid")
    case True
    then have PQ: "P = Q" using redis_presence_unique assms(1) Q(1) by blast
    have same: "lapsed now Q f \<longleftrightarrow> lapsed now P0 f" if "f \<in> dom (prMembers Q)" for f
      using Q(3) that by (simp add: lapsed_def)
    have "prMembers (spec_prune now Q) \<subseteq>\<^sub>m prMembers P0"
      using Q(2) by (auto simp: spec_prune_def map_le_def restrict_map_def split: if_splits)
    moreover have "prExpiry (spec_prune now Q) f = prExpiry P0 f" if "f \<in> dom (prMembers (spec_prune now Q))" for f
      using Q(3) that by (auto simp: spec_prune_def restrict_map_def split: if_splits)
    moreover have "f \<in> dom (prMembers (spec_prune now Q))" if "f \<in> dom (prMembers P0)" "\<not> lapsed now P0 f" for f
      unfolding spec_prune_members using still [OF that] same that(2) by blast
    ultimately show ?thesis using assms(2) True PQ by (intro exI [of _ "spec_prune now Q"]) (simp add: presence_after_def)
  next
    case False
    have "redis_presence v' r Q"
      using Q(1) assms(2) presence_keys_disjoint [OF False] redis_presence_frame [of r v' v Q] by (auto simp: presence_after_def)
    then show ?thesis using Q(2,3) still by blast
  qed
qed

lemma kept_later:
  assumes "kept v0 v r t" "t \<le> t'"
  shows "kept v0 v r t'"
  using assms(1) lapsed_mono [OF _ assms(2)] unfolding kept_def by meson

text \<open>
  The members that a sweep leaves in a room: none whose lease was over at its beginning, all whose lease is not over
  at its end.
\<close>

lemma swept_kept:
  assumes "redis_presence v rid P" "swept v' rid t" "kept v v' rid t'"
  obtains Q where "redis_presence v' rid Q" "prMembers Q \<subseteq>\<^sub>m prMembers P"
    "\<forall>f\<in>dom (prMembers Q). prExpiry Q f = prExpiry P f \<and> \<not> lapsed t P f"
    "\<forall>f\<in>dom (prMembers P). \<not> lapsed t' P f \<longrightarrow> f \<in> dom (prMembers Q)"
proof -
  obtain Q where Q: "redis_presence v' rid Q" "prMembers Q \<subseteq>\<^sub>m prMembers P" "\<forall>f\<in>dom (prMembers Q). prExpiry Q f = prExpiry P f"
    "\<forall>f\<in>dom (prMembers P). \<not> lapsed t' P f \<longrightarrow> f \<in> dom (prMembers Q)"
    using assms(1,3) unfolding kept_def by blast
  have "\<not> lapsed t P f" if "f \<in> dom (prMembers Q)" for f
    using assms(2) that Q(3) unfolding swept_unique [OF Q(1)] by (auto simp: lapsed_def)
  then show thesis using that Q by blast
qed

text \<open>A state from which a sweep that began at a time goes on.\<close>

definition sweepable :: "('db \<Rightarrow> view) \<Rightarrow> ('db \<Rightarrow> bool) \<Rightarrow> ('db \<Rightarrow> int) \<Rightarrow> int \<Rightarrow> 'db \<Rightarrow> bool" where
  "sweepable V K C t db \<longleftrightarrow> K db \<and> presences (V db) \<and> t \<le> C db"

context presence_redis
begin

lemma PrunePresence_runs:
  assumes "K db" "redis_presence (V db) rid P" "prRevision P < log_limit" "clock_forward E C"
  obtains n db' where "PrunePresence (document_exec E) (over_link LinkUp) rid db = (Ok n, db')" "K db'"
    "presence_after rid (V db) (spec_prune (C db) P) (V db')" "C db \<le> C db'"
proof (rule prune_script [OF assms(1-3)])
  fix db'
  assume *: "lua_prune E (presence_keys rid) [] db = (RInt (int (pruned_count (C db) P)), db')" "K db'"
    "presence_after rid (V db) (spec_prune (C db) P) (V db')"
  have "C db \<le> C db'" using forward_prune [OF assms(4), of db rid] *(1) by simp
  then show thesis
    by (intro that [OF _ *(2,3)])
      (use * in \<open>simp_all add: PrunePresence_def presence_exec redis_do_def presence_call_def presence_int_def redisInt64_GInt\<close>)
qed

lemma sweep_rooms_runs:
  assumes "clock_forward E C" "\<forall>j. swNet env k j = over_link LinkUp" "\<forall>j. \<not> swDone env k j" "sweepable V K C t db"
  shows "\<exists>db'. sweep_rooms (document_exec E) env k j rooms db = (Ok (), db') \<and> sweepable V K C t db' \<and>
    (\<forall>rid\<in>set rooms. swept (V db') rid t) \<and> (\<forall>rid. swept (V db) rid t \<longrightarrow> swept (V db') rid t) \<and>
    (\<forall>v0 rid. kept v0 (V db) rid (C db) \<longrightarrow> kept v0 (V db') rid (C db'))"
  using assms(4)
proof (induction rooms arbitrary: db j)
  case (Cons rid rooms)
  then obtain P where P: "redis_presence (V db) rid P" "prRevision P + int (card (dom (prMembers P))) < log_limit"
    unfolding sweepable_def presences_def by blast
  have "K db" "prRevision P < log_limit" using Cons.prems P(2) by (simp_all add: sweepable_def)
  then obtain n db1 where p: "PrunePresence (document_exec E) (over_link LinkUp) rid db = (Ok n, db1)" "K db1"
    "presence_after rid (V db) (spec_prune (C db) P) (V db1)" "C db \<le> C db1"
    using PrunePresence_runs [OF _ P(1) _ assms(1)] by blast
  note s = prune_sweeps [OF P(1) p(3), of t]
  have "sweepable V K C t db1" using p(2,4) s(1) Cons.prems by (simp add: sweepable_def)
  from Cons.IH [OF this, of "Suc j"] obtain db' where
    "sweep_rooms (document_exec E) env k (Suc j) rooms db1 = (Ok (), db')" "sweepable V K C t db'"
    "\<forall>rid\<in>set rooms. swept (V db') rid t" "\<forall>rid. swept (V db1) rid t \<longrightarrow> swept (V db') rid t"
    "\<forall>v0 rid. kept v0 (V db1) rid (C db1) \<longrightarrow> kept v0 (V db') rid (C db')" by blast
  moreover have "kept v0 (V db1) r (C db1)" if "kept v0 (V db) r (C db)" for v0 r
    using kept_later [OF kept_prune [OF P(1) p(3) that order_refl] p(4)] .
  ultimately show ?case using assms(2,3) p(1) s(2,3) Cons.prems by (auto simp: sweepable_def)
qed simp

lemma scan_page:
  assumes "scan_laws E V K N slot pos" "K db" "pos cursor < N" "clock_forward E C"
  obtains rooms cursor' db' where "ScanPresenceRooms (document_exec E) (over_link LinkUp) cursor db = (Ok (rooms, cursor'), db')"
    "K db'" "V db' = V db" "C db \<le> C db'" "cursor' = ''0'' \<or> pos cursor < pos cursor' \<and> pos cursor' < N"
    "\<And>rid. V db (roomPresenceKey rid) \<noteq> None \<Longrightarrow> pos cursor \<le> slot (roomPresenceKey rid) \<Longrightarrow>
      cursor' = ''0'' \<or> slot (roomPresenceKey rid) < pos cursor' \<Longrightarrow> rid \<in> set rooms"
proof -
  obtain cursor' keys where
    *: "redis_step E V K (scan_command cursor) db (RArr [RBulk cursor', RArr (map RBulk keys)]) (V db)"
    "\<forall>k\<in>set keys. is_presence_key k" "cursor' = ''0'' \<or> pos cursor < pos cursor' \<and> pos cursor' < N"
    "\<forall>k. V db k \<noteq> None \<longrightarrow> is_presence_key k \<longrightarrow> pos cursor \<le> slot k \<longrightarrow> (cursor' = ''0'' \<or> slot k < pos cursor') \<longrightarrow> k \<in> set keys"
    using assms(1-3) unfolding scan_laws_def by blast
  obtain d where d: "E (scan_command cursor) db = (RArr [RBulk cursor', RArr (map RBulk keys)], d)" "V d = V db" "K d"
    by (rule redis_step_do [OF *(1)])
  let ?name = "\<lambda>k. TrimSuffix (TrimPrefix k room_prefix) '':presence''"
  have name: "?name (roomPresenceKey rid) = rid" for rid
    unfolding roomPresenceKey_def TrimPrefix_append TrimSuffix_append ..
  have run: "ScanPresenceRooms (document_exec E) (over_link LinkUp) cursor db = (Ok (map ?name keys, cursor'), d)"
    using d(1) by (simp add: ScanPresenceRooms_def do_at_def over_link_def redis_do_def presence_call_def decode_items_map
        redisString_def del: TrimPrefix.simps TrimSuffix.simps)
  have "C db \<le> C (snd (E (scan_command cursor) db))" using assms(4) unfolding clock_forward_def by blast
  then have "C db \<le> C d" using d(1) by simp
  moreover have "rid \<in> set (map ?name keys)" if "V db (roomPresenceKey rid) \<noteq> None" "pos cursor \<le> slot (roomPresenceKey rid)"
      "cursor' = ''0'' \<or> slot (roomPresenceKey rid) < pos cursor'" for rid
  proof -
    have "roomPresenceKey rid \<in> set keys" using *(4) that by (auto simp: is_presence_key_def)
    then have "?name (roomPresenceKey rid) \<in> ?name ` set keys" by (rule imageI)
    then show ?thesis unfolding name set_map .
  qed
  ultimately show thesis using that run d(2,3) *(3) by blast
qed

text \<open>From a cursor on: what is in the slots before it is swept already.\<close>

lemma sweep_pages_runs:
  assumes "clock_forward E C" "scan_laws E V K N slot pos" "\<forall>k j. swNet env k j = over_link LinkUp" "\<forall>k j. \<not> swDone env k j"
    and "pos cursor < N" "N - pos cursor \<le> n" "sweepable V K C t db"
    and "\<forall>rid. slot (roomPresenceKey rid) < pos cursor \<longrightarrow> swept (V db) rid t" "\<forall>rid. kept v0 (V db) rid (C db)"
  shows "\<exists>db'. sweep_pages (document_exec E) env k n cursor db = (Some (Ok ()), db') \<and> sweepable V K C t db' \<and>
    (\<forall>rid. swept (V db') rid t \<and> kept v0 (V db') rid (C db'))"
  using assms(5-9)
proof (induction n arbitrary: k cursor db)
  case (Suc n)
  have K: "K db" using Suc.prems(3) by (simp add: sweepable_def)
  obtain rooms cursor' db1 where scan: "ScanPresenceRooms (document_exec E) (over_link LinkUp) cursor db = (Ok (rooms, cursor'), db1)"
    "K db1" "V db1 = V db" "C db \<le> C db1" "cursor' = ''0'' \<or> pos cursor < pos cursor' \<and> pos cursor' < N"
    and listed: "\<And>rid. V db (roomPresenceKey rid) \<noteq> None \<Longrightarrow> pos cursor \<le> slot (roomPresenceKey rid) \<Longrightarrow>
      cursor' = ''0'' \<or> slot (roomPresenceKey rid) < pos cursor' \<Longrightarrow> rid \<in> set rooms"
    by (rule scan_page [OF assms(2) K Suc.prems(1) assms(1)]) blast
  have "sweepable V K C t db1" using Suc.prems(3) scan(2-4) by (simp add: sweepable_def)
  from sweep_rooms_runs [OF assms(1) _ _ this, of env k 0 rooms] assms(3,4) obtain db2 where
    rooms: "sweep_rooms (document_exec E) env k 0 rooms db1 = (Ok (), db2)" "sweepable V K C t db2"
    "\<forall>rid\<in>set rooms. swept (V db2) rid t" "\<forall>rid. swept (V db1) rid t \<longrightarrow> swept (V db2) rid t"
    "\<forall>v0 rid. kept v0 (V db1) rid (C db1) \<longrightarrow> kept v0 (V db2) rid (C db2)" by blast
  have "kept v0 (V db1) rid (C db1)" for rid using Suc.prems(5) kept_later scan(3,4) by metis
  then have kept2: "\<forall>rid. kept v0 (V db2) rid (C db2)" using rooms(5) by blast
  have clean: "swept (V db2) rid t" if "cursor' = ''0'' \<or> slot (roomPresenceKey rid) < pos cursor'" for rid
  proof (cases "slot (roomPresenceKey rid) < pos cursor \<or> V db (roomPresenceKey rid) = None")
    case True
    then have "swept (V db) rid t" using Suc.prems(3,4) no_key_swept by (auto simp: sweepable_def)
    then show ?thesis using rooms(4) scan(3) by simp
  next
    case False
    then show ?thesis using listed [of rid] that rooms(3) by auto
  qed
  show ?case
  proof (cases "cursor' = ''0''")
    case True
    then show ?thesis using scan(1) rooms(1,2) clean kept2 assms(3,4) by auto
  next
    case False
    then have "pos cursor < pos cursor'" "pos cursor' < N" using scan(5) by auto
    then have "\<exists>db'. sweep_pages (document_exec E) env (Suc k) n cursor' db2 = (Some (Ok ()), db') \<and> sweepable V K C t db' \<and>
        (\<forall>rid. swept (V db') rid t \<and> kept v0 (V db') rid (C db'))"
      using Suc.prems(2) rooms(2) clean kept2 by (intro Suc.IH) auto
    then show ?thesis using False scan(1) rooms(1) assms(3,4) by auto
  qed
qed simp

lemma sweepPresenceOnce_runs:
  assumes "clock_forward E C" "scan_laws E V K N slot pos" "\<forall>k j. swNet env k j = over_link LinkUp" "\<forall>k j. \<not> swDone env k j"
    and "N \<le> n" "K db" "presences (V db)"
  shows "\<exists>db'. sweepPresenceOnce (document_exec E) env n db = (Some (Ok ()), db') \<and> K db' \<and>
    (\<forall>rid. swept (V db') rid (C db) \<and> kept (V db) (V db') rid (C db'))"
proof -
  have "pos ''0'' = 0" "0 < N" using assms(2) unfolding scan_laws_def by (blast, metis not_less_zero gr0I)
  then have "\<exists>db'. sweep_pages (document_exec E) env 0 n ''0'' db = (Some (Ok ()), db') \<and> sweepable V K C (C db) db' \<and>
      (\<forall>rid. swept (V db') rid (C db) \<and> kept (V db) (V db') rid (C db'))"
    by (intro sweep_pages_runs [OF assms(1-4)]) (use assms(5-7) in \<open>simp_all add: sweepable_def kept_same\<close>)
  then show ?thesis by (auto simp: sweepPresenceOnce_def sweepable_def)
qed

end

end
