(* ===== verification/Liveness_Properties.thy ===== *)
theory Liveness_Properties
  imports Heartbeat Presence_Watch_Facts Sweep_Facts Presence_Properties
begin

section \<open>Properties of heartbeats, presence watchers and sweeps\<close>

text \<open>
  The claims about the goroutines that keep presence true: the heartbeat of a connection, the watcher of a
  room, and the sweeper.
\<close>

abbreviation demo_timing :: PresenceTiming where
  "demo_timing \<equiv> \<lparr>HeartbeatInterval = 10000000000, LeaseDuration = 30000000000, SweepInterval = 5000000000\<rparr>"

subsection \<open>Heartbeats\<close>

text \<open>
  C14: The heartbeat of a client that answers keeps its lease. When the observations of its activity are
  taken at most \<open>g\<close> apart and a renewal takes at most \<open>l\<close>, and the lease is at least
  one interval, \<open>g\<close>, \<open>l\<close> and the rounding of the clocks long, then whatever other backends do to the room in
  between, the goroutine goes on, the connection stays open, and the member is in Redis with a lease that does not end
  before the next observation is due.
\<close>

theorem heartbeat_keeps_lease:
  assumes "presence_server E V K C" "paced (document_exec E) V K C timing rid cid g l s t s' t'"
    and "beating V K timing rid cid rec l s t" "int64_ok (LeaseDuration timing)" "0 < Milliseconds (LeaseDuration timing)"
    and "0 < HeartbeatInterval timing" "0 \<le> g" "0 \<le> l" "HeartbeatInterval timing + g + l + 2000000 \<le> LeaseDuration timing"
  shows "haRunning (fst s') \<and> \<not> haClosed (fst s') \<and> held V K rid cid rec (t' + g) (snd s')"
  by (rule presence_redis.paced_held [OF presence_redis.intro [OF assms(1)] assms(2-9)])

text \<open>
  C26: A heartbeat only renews for activity. In any run, with sockets, Redis and the other goroutines
  doing anything, there are at most as many renewals as times at which the reader noted activity, so that
  pings alone renew nothing; two renewals are an interval or more apart; and the connection is closed at most once, as the
  last thing the goroutine does.
\<close>

theorem heartbeat_renews_for_activity:
  assumes "heart_run exec timing rid cid (startPresenceHeartbeat timing started ok t0, db) acts effs (h, db')"
    and "list_all forward acts" "0 \<le> HeartbeatInterval timing"
  shows "length (renewal_times effs) \<le> noted_count acts \<and>
    sorted_wrt (\<lambda>a b. a + HeartbeatInterval timing \<le> b) (t0 # renewal_times effs) \<and>
    (ConnClosed \<in> set effs \<longrightarrow> \<not> haRunning h \<and> (\<exists>pre. effs = pre @ [ConnClosed] \<and> ConnClosed \<notin> set pre))"
  using heart_run_inv [OF assms(1,2) refl assms(3)] by (auto simp: heart_inv_def split: if_splits)

text \<open>The heartbeat of Ann, who is there since one second.\<close>

definition beat :: heart where
  "beat = startPresenceHeartbeat demo_timing 1000000000 True 1000000000"

lemma beat_simps [simp]:
  "haRunning beat" "\<not> haClosed beat" "haActivity beat = None" "haLastRenewal beat = 1000000000"
  by (simp_all add: beat_def startPresenceHeartbeat_def set_deadline_def)


lemma ann_held: "t < 46000000000 \<Longrightarrow> held fst clock_ok ''r1'' ''k1'' (marshal_participant ann) t ann_db"
  using ann_facts(1,2) ann_member unfolding held_def by (intro conjI exI [of _ ann_present] exI [of _ 46000]) auto

lemma beat_held: "beating fst clock_ok demo_timing ''r1'' ''k1'' (marshal_participant ann) 1000000000 (beat, ann_db) 1000000000"
  unfolding beating_def by (intro conjI exI [of _ 1000000000]) (simp_all add: ann_held)

lemma clock_exec_still: "clock_forward clock_exec (\<lambda>db. - snd db)" "clock_forward clock_exec snd"
  by (simp_all add: clock_forward_def clock_exec_def split: prod.split)

lemma prune_clock: "snd (snd (PrunePresence (document_exec clock_exec) (over_link LinkUp) rid db)) = snd db"
proof -
  have "snd (snd (lua_prune clock_exec (presence_keys rid) [] db)) = snd db"
    using forward_prune [OF clock_exec_still(1), of db rid] forward_prune [OF clock_exec_still(2), of db rid] by simp
  then show ?thesis
    by (cases "lua_prune clock_exec (presence_keys rid) [] db")
      (simp add: PrunePresence_def presence_exec redis_do_def presence_call_def presence_int_def split: outcome.split)
qed

theorem heartbeat_keeps_lease_witness:
  "\<exists>s' :: heart \<times> (view \<times> int). haRunning (fst s') \<and> haLastRenewal (fst s') = 12100000000 \<and>
     held fst clock_ok ''r1'' ''k1'' (marshal_participant ann) 27000000000 (snd s')"
proof -
  let ?E = "document_exec clock_exec" and ?rec = "marshal_participant ann"
  let ?meet = "[(at_ms 12000, LinkUp, PPrune)] :: (view \<times> int) presence_acts"
  let ?paced = "paced ?E fst clock_ok snd demo_timing ''r1'' ''k1'' 15000000000 1000000000 (beat, ann_db) 1000000000"
  let ?h = "beat\<lparr>haActivity := Some 11500000000, haDeadline := Some 41500000000\<rparr>"
  let ?db = "presence_run ?E ''r1'' ?meet ann_db"
  have "heart_step ?E demo_timing ''r1'' ''k1'' (beat, ann_db) (Noted 11500000000 True) [] (?h, ann_db)"
    by (rule heart_step.noting) (simp add: noteActivity_def set_deadline_def)
  from paced.noted [OF paced.begun this] have p1: "?paced (?h, ann_db) 1000000000" .
  have ok: "run_ok fst clock_ok ?meet" by (simp add: run_ok_def at_ms_tick)
  from paced.meanwhile [OF p1 ok] have p2: "?paced (?h, ?db) 1000000000"
    using ann_facts redis_presence_unique by (fastforce simp: before_limit_def ann_present_def)
  have db: "held fst clock_ok ''r1'' ''k1'' ?rec 30000000000 ?db" "snd ?db = 12000"
  proof -
    from clk.held_meanwhile [OF ann_held ok, of 30000000000 12000000000] show "held fst clock_ok ''r1'' ''k1'' ?rec 30000000000 ?db"
      using ann_facts redis_presence_unique by (fastforce simp: before_limit_def ann_present_def)
  qed (simp add: prune_clock)
  obtain db' where r: "RenewPresence ?E (over_link LinkUp) ''r1'' ''k1'' (LeaseDuration demo_timing) ?db = (Ok True, db')"
    by (rule clk.held_renewed [OF db(1), of 12000000000 "LeaseDuration demo_timing"])
      (simp_all only: db(2), simp_all add: int64_ok_def Milliseconds_def)
  let ?h' = "?h\<lparr>haActivity := None, haLastRenewal := 12100000000\<rparr>"
  have "heart_step ?E demo_timing ''r1'' ''k1'' (?h, ?db) (Taken 12000000000 12000000000 12100000000 (over_link LinkUp))
      [RenewSent 12000000000] (?h', db')"
    by (rule heart_step.taking [of _ 11500000000]) (use r in \<open>simp_all add: heart_take_def\<close>)
  from paced.taken [OF p2 this] have p3: "?paced (?h', db') 12000000000" by (simp add: db(2) del: presence_run.simps)
  have "held fst clock_ok ''r1'' ''k1'' ?rec 27000000000 db'"
    using heartbeat_keeps_lease [OF clock_presence_server p3 beat_held] by (simp add: int64_ok_def Milliseconds_def)
  then have "haRunning (fst (?h', db')) \<and> haLastRenewal (fst (?h', db')) = 12100000000 \<and>
      held fst clock_ok ''r1'' ''k1'' ?rec 27000000000 (snd (?h', db'))" by simp
  then show ?thesis by blast
qed

theorem heartbeat_renews_for_activity_witness:
  "\<exists>h. heart_run (\<lambda>args db. (RInt 1, db)) demo_timing ''r1'' ''k1'' (beat, ())
      [Noted 11500000000 True, Taken 12000000000 12000000000 12100000000 calm] [RenewSent 12000000000] (h, ()) \<and>
    length (renewal_times [RenewSent 12000000000]) \<le> 1 \<and> sorted_wrt (\<lambda>a b. a + 10000000000 \<le> b) [1000000000, 12000000000::int]"
proof -
  let ?E = "(\<lambda>args db. (RInt 1, db)) :: unit exec" and ?h = "beat\<lparr>haActivity := Some 11500000000, haDeadline := Some 41500000000\<rparr>"
  have "heart_step ?E demo_timing ''r1'' ''k1'' (beat, ()) (Noted 11500000000 True) [] (?h, ())"
    by (rule heart_step.noting) (simp add: noteActivity_def set_deadline_def)
  from heart_run.followed [OF heart_run.starting this]
  have 1: "heart_run ?E demo_timing ''r1'' ''k1'' (beat, ()) [Noted 11500000000 True] [] (?h, ())" by simp
  have "heart_step ?E demo_timing ''r1'' ''k1'' (?h, ()) (Taken 12000000000 12000000000 12100000000 calm) [RenewSent 12000000000]
      (?h\<lparr>haActivity := None, haLastRenewal := 12100000000\<rparr>, ())"
    by (rule heart_step.taking [of _ 11500000000])
      (simp_all add: heart_take_def RenewPresence_def presence_call_def presenceEval_def presence_int_def do_at_def redis_do_def calm_def Milliseconds_def)
  from heart_run.followed [OF 1 this]
  have 2: "heart_run ?E demo_timing ''r1'' ''k1'' (beat, ()) [Noted 11500000000 True, Taken 12000000000 12000000000 12100000000 calm]
      [RenewSent 12000000000] (?h\<lparr>haActivity := None, haLastRenewal := 12100000000\<rparr>, ())" by simp
  from heartbeat_renews_for_activity [OF this [unfolded beat_def]] 2 show ?thesis by (auto simp: noted_count_def)
qed

subsection \<open>The watcher of a room\<close>

text \<open>
  C17: A round of the presence watcher that gets through brings the room up to date: when there are notices
  behind its cursor, it prunes, reads the current members, and sends them to every client of the room that has
  an older revision, exactly once; the cursor then stands behind the notices that it read.
\<close>

theorem presence_watcher_refreshes:
  assumes "presence_server E V K C" "K db" "redis_presence (V db) rid P" "good_records P" "prRevision P < log_limit"
    and "rID (pwRoom w) = rid" "notice_at (V db) rid i (pwCursor w)" "i < notice_count (V db) rid"
    and "\<forall>j. pwNet env k j = over_link LinkUp" "\<forall>j. \<not> pwDone env k j"
    and "pwOthers env k (pwRoom w, pwHeap w) = (r, h)" "distinct (rClients r)" "\<forall>q\<in>set (rClients r). no_faults (h q)"
  shows "\<exists>s db' now cursor h'.
    presence_round (document_exec E) env k w db = (Some (True, w\<lparr>pwCursor := cursor, pwRoom := r, pwHeap := h'\<rparr>), db') \<and>
    presence_after rid (V db) (spec_prune now P) (V db') \<and>
    psRevision s = prRevision (spec_prune now P) \<and> set (psParticipants s) = live_participants now P \<and>
    notice_at (V db) rid (min (i + 100) (notice_count (V db) rid)) cursor \<and>
    (\<forall>q\<in>set (rClients r). client_frames (h' q) = client_frames (h q) @
        (if above (presence_mark (h q)) (psRevision s) then [FPresence s] else []) \<and>
      presence_mark (h' q) = (if above (presence_mark (h q)) (psRevision s) then Some (psRevision s) else presence_mark (h q)))"
  using presence_redis.presence_round_refreshes [OF presence_redis.intro [OF assms(1)] assms(2-13)] by metis

text \<open>
  A notice is not lost. Whatever a round of the watcher meets, either it changes nothing but its log,
  so that the next round reads from the same cursor, or it has read a snapshot after the notices behind
  the cursor, sent it to the whole room, and then moved the cursor past them.
\<close>

theorem presence_notice_retried:
  assumes "presence_round exec env k w db = (Some (b, w'), db')"
  shows "w' = w\<lparr>pwLogged := pwLogged w'\<rparr> \<or>
    (\<exists>s r h db1 db2. ReadPresenceChanges exec (pwNet env k 0) (rID (pwRoom w)) (pwCursor w) db = ((pwCursor w', Ok ()), db1) \<and>
       GetPresence exec (pwNet env k 1) (rID (pwRoom w)) db1 = (Ok s, db2) \<and>
       pwOthers env k (pwRoom w, pwHeap w) = (r, h) \<and> broadcastPresenceSnapshot s r h = Some (pwHeap w'))"
  using presence_round_moves [OF assms] by blast

definition calm_watch :: "(view \<times> int) pwatch_env" where
  "calm_watch = \<lparr>pwDone = (\<lambda>k j. False), pwNet = (\<lambda>k j. over_link LinkUp), pwOthers = (\<lambda>k x. x)\<rparr>"

definition watching_client :: client where
  "watching_client = \<lparr>cConn = Some new_conn, cUsername = ''bob'', cRoomID = ''r1'', cClientID = ''c2'',
     cConnectionID = ''k2'', cInstanceID = ''i2'', presenceRevision = 0, presenceSent = False,
     replaying = False, lastSequence = 0, pending = None\<rparr>"

definition watched_room :: Room where
  "watched_room = \<lparr>rID = ''r1'', rContent = [], rVersion = 0, rSequence = 0, rClients = [0], rStore = True, localPresenceRevision = 0\<rparr>"

theorem presence_watcher_refreshes_witness:
  "\<exists>w' db' s. presence_round (document_exec clock_exec) calm_watch 0 (start_presence_watch watched_room (\<lambda>q. watching_client))
      (at_ms 2000 ann_db) = (Some (True, w'), db') \<and> client_frames (pwHeap w' 0) = [FPresence s] \<and> 1 \<le> psRevision s"
proof -
  let ?w = "start_presence_watch watched_room (\<lambda>q. watching_client)"
  have ok: "clock_ok (at_ms 2000 ann_db)" using at_ms_ok [OF _ _ ann_facts(1), of 2000] by simp
  have "redis_presence (fst (at_ms 2000 ann_db)) ''r1'' ann_present" "notice_count (fst (at_ms 2000 ann_db)) ''r1'' = 1"
    using ann_facts notice_count_revision [of "fst ann_db" "''r1''" ann_present] by (simp_all add: ann_present_def)
  moreover have "no_faults watching_client" "client_frames watching_client = []" "above (presence_mark watching_client) n" for n
    by (simp_all add: watching_client_def no_faults_def client_frames_def new_conn_def presence_mark_def)
  ultimately show ?thesis
    using presence_watcher_refreshes [OF clock_presence_server ok _ ann_good, of "''r1''" ?w 0 calm_watch 0 watched_room "\<lambda>q. watching_client"]
    by (fastforce simp: start_presence_watch_def watched_room_def calm_watch_def notice_at_def entry_at_def ann_present_def spec_prune_def)
qed

theorem presence_notice_retried_witness:
  "\<exists>w'. presence_round (\<lambda>args db. (RErr ''ERR'', db)) \<lparr>pwDone = (\<lambda>k j. False), pwNet = (\<lambda>k j. calm), pwOthers = (\<lambda>k x. x)\<rparr> 0
      (start_presence_watch watched_room (\<lambda>q. watching_client)) () = (Some (True, w'), ()) \<and>
    pwCursor w' = ''0-0'' \<and> client_frames (pwHeap w' 0) = [] \<and> length (pwLogged w') = 1"
proof -
  let ?w = "start_presence_watch watched_room (\<lambda>q. watching_client)"
  let ?env = "\<lparr>pwDone = (\<lambda>k j. False), pwNet = (\<lambda>k j. calm), pwOthers = (\<lambda>k x. x)\<rparr> :: unit pwatch_env"
  have "\<exists>e. presence_round (\<lambda>args db. (RErr ''ERR'', db)) ?env 0 ?w () = (Some (True, ?w\<lparr>pwLogged := [e]\<rparr>), ())"
    by (simp add: presence_round_def ReadPresenceChanges_def do_at_def calm_def redis_do_def presence_retry_def start_presence_watch_def)
  then obtain e where r: "presence_round (\<lambda>args db. (RErr ''ERR'', db)) ?env 0 ?w () = (Some (True, ?w\<lparr>pwLogged := [e]\<rparr>), ())" by blast
  show ?thesis using presence_notice_retried [OF r] r
    by (auto simp: start_presence_watch_def watching_client_def client_frames_def new_conn_def)
qed

subsection \<open>Sweeps\<close>

text \<open>
  C21: A sweep ends and ends leases. Over working links, with nobody else acting, for every table of
  \<open>N\<close> slots that the scan goes through, a sweep returns after at most \<open>N\<close> pages, and in every room that Redis
  has, whether this backend knows it or not, it leaves members that were there, with the leases they had: none whose lease
  was over when the sweep began, and all whose lease is not over when it ends.
\<close>

theorem sweep_ends_leases:
  assumes "presence_server E V K C" "clock_forward E C" "scan_laws E V K N slot pos"
    and "\<forall>k j. swNet env k j = over_link LinkUp" "\<forall>k j. \<not> swDone env k j" "N \<le> n" "K db" "presences (V db)"
  shows "\<exists>db'. sweepPresenceOnce (document_exec E) env n db = (Some (Ok ()), db') \<and>
    (\<forall>rid P. redis_presence (V db) rid P \<longrightarrow> (\<exists>Q. redis_presence (V db') rid Q \<and> prMembers Q \<subseteq>\<^sub>m prMembers P \<and>
       (\<forall>f\<in>dom (prMembers Q). prExpiry Q f = prExpiry P f \<and> \<not> lapsed (C db) P f) \<and>
       (\<forall>f\<in>dom (prMembers P). \<not> lapsed (C db') P f \<longrightarrow> f \<in> dom (prMembers Q))))"
proof -
  obtain db' where *: "sweepPresenceOnce (document_exec E) env n db = (Some (Ok ()), db')"
    "\<forall>rid. swept (V db') rid (C db) \<and> kept (V db) (V db') rid (C db')"
    using presence_redis.sweepPresenceOnce_runs [OF presence_redis.intro [OF assms(1)] assms(2-8)] by blast
  then show ?thesis by (intro exI [of _ db'] conjI allI impI) (simp, blast intro: swept_kept)
qed

lemma clock_scan: "clock_forward clock_exec snd" "scan_laws clock_exec fst clock_ok 1 (\<lambda>k. 0) (\<lambda>c. 0)"
proof -
  show "clock_forward clock_exec snd" by (simp add: clock_forward_def clock_exec_def split: prod.split)
  have "finite {k \<in> dom (fst db). is_presence_key k}" if "clock_ok db" for db
    using that by (simp add: clock_ok_def mem_ok_def)
  then have "redis_step clock_exec fst clock_ok (scan_command cursor) db (RArr [RBulk ''0'', RArr (map RBulk
      (sorted_list_of_set {k \<in> dom (fst db). is_presence_key k}))]) (fst db) \<and>
      set (sorted_list_of_set {k \<in> dom (fst db). is_presence_key k}) = {k \<in> dom (fst db). is_presence_key k}" if "clock_ok db" for db cursor
    using that by (simp add: redis_step_def clock_exec_def presence_command_def scan_presences_def)
  then show "scan_laws clock_exec fst clock_ok 1 (\<lambda>k. 0) (\<lambda>c. 0)"
    unfolding scan_laws_def by (intro conjI allI impI) (simp, simp, blast)
qed

theorem sweep_ends_leases_witness:
  "\<exists>db' P. sweepPresenceOnce (document_exec clock_exec) \<lparr>swDone = (\<lambda>k j. False), swNet = (\<lambda>k j. over_link LinkUp)\<rparr> 1
      (at_ms 60000 ann_db) = (Some (Ok ()), db') \<and> redis_presence (fst db') ''r1'' P \<and> prMembers P = Map.empty"
proof -
  let ?env = "\<lparr>swDone = (\<lambda>k j. False), swNet = (\<lambda>k j. over_link LinkUp)\<rparr> :: (view \<times> int) sweep_env"
  let ?db = "at_ms 60000 ann_db"
  have ok: "clock_ok ?db" using at_ms_ok [OF _ _ ann_facts(1), of 60000] by simp
  have "\<exists>P. redis_presence (fst ?db) rid P \<and> prRevision P + int (card (dom (prMembers P))) < log_limit" for rid
  proof (cases "rid = ''r1''")
    case True
    then show ?thesis using ann_facts(2) by (auto simp: ann_present_def)
  next
    case False
    then have "redis_presence (fst ?db) rid no_presence \<longleftrightarrow> redis_presence (\<lambda>k. None) rid no_presence"
      using ann_db_rest presence_keys_disjoint [of rid "''r1''"] by (intro redis_presence_frame) auto
    then show ?thesis using no_presence_empty by (auto simp: no_presence_def)
  qed
  then have pres: "presences (fst ?db)" by (simp add: presences_def)
  have env: "\<forall>k j. swNet ?env k j = over_link LinkUp" "\<forall>k j. \<not> swDone ?env k j" by simp_all
  obtain db' where s: "sweepPresenceOnce (document_exec clock_exec) ?env 1 ?db = (Some (Ok ()), db')"
    "\<forall>rid P. redis_presence (fst ?db) rid P \<longrightarrow> (\<exists>Q. redis_presence (fst db') rid Q \<and> prMembers Q \<subseteq>\<^sub>m prMembers P \<and>
       (\<forall>f\<in>dom (prMembers Q). prExpiry Q f = prExpiry P f \<and> \<not> lapsed (snd ?db) P f) \<and>
       (\<forall>f\<in>dom (prMembers P). \<not> lapsed (snd db') P f \<longrightarrow> f \<in> dom (prMembers Q)))"
    using sweep_ends_leases [OF clock_presence_server clock_scan env le_refl ok pres] by blast
  obtain Q where Q: "redis_presence (fst db') ''r1'' Q" "prMembers Q \<subseteq>\<^sub>m prMembers ann_present"
    "\<forall>f\<in>dom (prMembers Q). \<not> lapsed 60000 ann_present f"
    using s(2) ann_facts(2) by fastforce
  have "lapsed 60000 ann_present f" for f by (simp add: lapsed_def ann_present_def)
  then have "prMembers Q = Map.empty" using Q(3) by auto
  then show ?thesis using s(1) Q(1) by blast
qed

end
