(* ===== verification/Store_Calls.thy ===== *)
theory Store_Calls
  imports Redis_Store Telemetry
begin

section \<open>What a call of the store does beside its result\<close>

text \<open>
  \<open>RedisStore.do\<close> of \<^verbatim>\<open>backend/redis_store.go\<close>, with the fields of the store: every command sleeps for the
  artificial delay, goes to the client, and is measured. \<open>XREAD\<close> waits by design; it is measured and
  logged only when it fails. \<open>since\<close> is the time that the client took in seconds, \<open>rnd\<close> the
  rounding of \<open>float64\<close>, and \<open>text\<close> the text of an error. The operations of theory \<open>Redis_Store\<close> call \<open>redis_do\<close>, the part of
  \<open>do\<close> that reaches Redis.
\<close>

record RedisStore =
  rsTelemetry :: bool
  rsDelayMs :: int64

definition NewRedisStore :: RedisStore where
  "NewRedisStore = \<lparr>rsTelemetry = False, rsDelayMs = 0\<rparr>"

definition SetTelemetry :: "bool \<Rightarrow> RedisStore \<Rightarrow> RedisStore" where
  "SetTelemetry telemetry st = st\<lparr>rsTelemetry := telemetry\<rparr>"

definition SetArtificialDelay :: "int64 \<Rightarrow> RedisStore \<Rightarrow> RedisStore" where
  "SetArtificialDelay ms st = st\<lparr>rsDelayMs := (if ms < 0 then 0 else ms)\<rparr>"

definition ArtificialDelay :: "RedisStore \<Rightarrow> int64" where
  "ArtificialDelay st = rsDelayMs st"

text \<open>The names of the commands are ASCII.\<close>

definition to_upper :: "char \<Rightarrow> char" where
  "to_upper c = (let k = of_char c :: nat in if 97 \<le> k \<and> k \<le> 122 then char_of (k - 32) else c)"

definition command_name :: "string list \<Rightarrow> string" where
  "command_name args = (case args of [] \<Rightarrow> ''UNKNOWN'' | a # as \<Rightarrow> map to_upper a)"

definition errorString :: "('e \<Rightarrow> string) \<Rightarrow> 'e option \<Rightarrow> string" where
  "errorString text err = (case err of None \<Rightarrow> [] | Some e \<Rightarrow> text e)"

definition call_error :: "('e, 'a) outcome \<Rightarrow> 'e option" where
  "call_error r = (case r of Err e \<Rightarrow> Some e | _ \<Rightarrow> None)"

definition call_seconds :: "(real \<Rightarrow> real) \<Rightarrow> real \<Rightarrow> int64 \<Rightarrow> real" where
  "call_seconds rnd since delay = rnd (since + rnd (real_of_int delay / 1000))"

definition call_effects :: "(real \<Rightarrow> real) \<Rightarrow> (resp_error \<Rightarrow> string) \<Rightarrow> string \<Rightarrow> real \<Rightarrow> resp_error option \<Rightarrow> effect list" where
  "call_effects rnd text command duration err =
     (if command \<noteq> ''XREAD'' then [Metric (ObserveRedis (Fin duration))] else []) @
     (if err \<noteq> None then [Metric RedisError] else []) @
     (if command \<noteq> ''XREAD'' \<or> err \<noteq> None then
        [Logged ''info'' ''redis_command'' [(''command'', AStr command), (''durationMs'', AFloat (Fin (rnd (duration * 1000)))),
           (''error'', AStr (errorString text err))]]
      else [])"

text \<open>The sleep before the command, the effects after it, and the result.\<close>

datatype store_effect = Slept int64 | Did effect

definition store_do :: "(real \<Rightarrow> real) \<Rightarrow> (resp_error \<Rightarrow> string) \<Rightarrow> RedisStore \<Rightarrow> 'db exec \<Rightarrow> link \<Rightarrow> real \<Rightarrow> string list \<Rightarrow> 'db \<Rightarrow>
    (resp_error, gval) outcome \<times> store_effect list \<times> 'db" where
  "store_do rnd text st exec link since args db =
     (let delay = rsDelayMs st;
          slept = (if 0 < delay then [Slept (wrap64 (delay * Millisecond))] else [])
      in case redis_do exec link args db of
          (Panic, db) \<Rightarrow> (Panic, slept, db)
        | (r, db) \<Rightarrow> (r, slept @
            (if rsTelemetry st then
               map Did (call_effects rnd text (command_name args) (call_seconds rnd since delay) (call_error r))
             else []), db))"

subsection \<open>The span of a content update\<close>

text \<open>
  \<open>ApplyContentUpdate\<close> with what it does beside its result: the effects of \<open>do\<close>, and for a traced operation a span and a log
  line, with the times \<open>started\<close> and \<open>ended\<close> and the duration \<open>ms\<close>. The result is that of theory \<open>Redis_Store\<close>.
\<close>

definition apply_args :: "string \<Rightarrow> string \<Rightarrow> int64 \<Rightarrow> StaleWritePolicy \<Rightarrow> string \<Rightarrow> string \<Rightarrow> string \<Rightarrow> string list" where
  "apply_args roomID content baseVersion policy operationID clientID username =
     [''EVAL'', applyOperationScript, ''4'', roomVersionKey roomID, roomContentKey roomID, roomSequenceKey roomID, roomStreamKey roomID,
      FormatInt baseVersion, content, operationID, clientID, username, policy_string policy]"

record call_trace =
  ctTraceID :: string
  ctSpanID :: string
  ctParentID :: string
  ctStarted :: int64
  ctEnded :: int64
  ctMs :: float64

definition apply_effects :: "(resp_error \<Rightarrow> string) \<Rightarrow> call_trace \<Rightarrow> string \<Rightarrow> string \<Rightarrow> resp_error option \<Rightarrow> effect list" where
  "apply_effects text t roomID operationID err =
     [Exported (zero_span\<lparr>
        spTraceID := ctTraceID t, spSpanID := ctSpanID t, spParentID := ctParentID t, spName := ''redis.eval.apply_operation'',
        spStart := ctStarted t, spEnd := Some (ctEnded t),
        spAttributes := [(''db.system'', AStr ''redis''), (''db.operation.name'', AStr ''EVAL''), (''room.id'', AStr roomID),
          (''operation.id'', AStr operationID)],
        spError := errorString text err\<rparr>),
      Logged ''info'' ''redis_apply_operation''
        [(''traceId'', AStr (ctTraceID t)), (''spanId'', AStr (ctSpanID t)), (''operationId'', AStr operationID),
         (''roomId'', AStr roomID), (''durationMs'', AFloat (ctMs t)), (''error'', AStr (errorString text err))]]"

definition ApplyContentUpdate_call :: "(real \<Rightarrow> real) \<Rightarrow> (resp_error \<Rightarrow> string) \<Rightarrow> RedisStore \<Rightarrow> 'db exec \<Rightarrow> 'db net \<Rightarrow> real \<Rightarrow> call_trace \<Rightarrow>
    string \<Rightarrow> string \<Rightarrow> int64 \<Rightarrow> StaleWritePolicy \<Rightarrow> string \<Rightarrow> string \<Rightarrow> string \<Rightarrow> 'db \<Rightarrow> ApplyContentResult store_result \<times> store_effect list \<times> 'db" where
  "ApplyContentUpdate_call rnd text st exec net since t roomID content baseVersion policy operationID clientID username db =
     (case store_do rnd text st exec (link_of net 0) since (apply_args roomID content baseVersion policy operationID clientID username)
         (before net 0 db) of
       (r, effs, db1) \<Rightarrow>
         (fst (ApplyContentUpdate_store exec net roomID content baseVersion policy operationID clientID username db),
          effs @ (if r \<noteq> Panic \<and> rsTelemetry st \<and> ctTraceID t \<noteq> [] then map Did (apply_effects text t roomID operationID (call_error r)) else []),
          db1))"

lemma store_do_reaches: "\<exists>effs. store_do rnd text st exec link since args db = (fst (redis_do exec link args db), effs, snd (redis_do exec link args db))"
  by (cases "redis_do exec link args db") (auto simp: store_do_def Let_def split: outcome.split)

text \<open>The observed call leaves Redis as the operation does, and its span has an error exactly when the call has one.\<close>

lemma ApplyContentUpdate_call_same:
  assumes "ApplyContentUpdate_call rnd text st exec net since t roomID content base policy opID cid user db = (r, effs, db')"
  shows "ApplyContentUpdate_store exec net roomID content base policy opID cid user db = (r, db')"
  using assms store_do_reaches [of rnd "text" st exec "link_of net 0" since "apply_args roomID content base policy opID cid user" "before net 0 db"]
  by (auto simp: ApplyContentUpdate_call_def ApplyContentUpdate_store_def do_at_def apply_args_def call_then_def
      intro!: prod_eqI split: prod.splits outcome.splits)

lemma ApplyContentUpdate_call_span:
  assumes "ApplyContentUpdate_call rnd text st exec net since t roomID content base policy opID cid user db = (r, effs, db')"
    and "rsTelemetry st" "ctTraceID t \<noteq> []" "Did (Exported sp) \<in> set effs"
  shows "spTraceID sp = ctTraceID t \<and> (spError sp \<noteq> [] \<longrightarrow> (\<exists>e. r = Err (CallError e) \<and> spError sp = text e))"
  using assms
  by (auto simp: ApplyContentUpdate_call_def ApplyContentUpdate_store_def store_do_def do_at_def apply_args_def call_then_def call_effects_def
      apply_effects_def zero_span_def errorString_def call_error_def Let_def split: prod.splits outcome.splits if_splits option.splits)

subsection \<open>Calls are counted\<close>

definition metrics_of :: "store_effect list \<Rightarrow> metric list" where
  "metrics_of effs = List.map_filter (\<lambda>e. case e of Did (Metric m) \<Rightarrow> Some m | _ \<Rightarrow> None) effs"

text \<open>A run of calls: the arguments, the link, and the time each takes.\<close>

fun store_run :: "(real \<Rightarrow> real) \<Rightarrow> (resp_error \<Rightarrow> string) \<Rightarrow> RedisStore \<Rightarrow> 'db exec \<Rightarrow> (string list \<times> link \<times> real) list \<Rightarrow> 'db \<Rightarrow>
    (string \<times> (resp_error, gval) outcome) list \<times> store_effect list \<times> 'db" where
  "store_run rnd text st exec [] db = ([], [], db)"
| "store_run rnd text st exec ((args, link, since) # calls) db =
     (case store_do rnd text st exec link since args db of (r, effs, db) \<Rightarrow>
       (case store_run rnd text st exec calls db of (rs, rest, db) \<Rightarrow> ((command_name args, r) # rs, effs @ rest, db)))"

definition failed_calls :: "(string \<times> (resp_error, gval) outcome) list \<Rightarrow> nat" where
  "failed_calls rs = length (filter (\<lambda>(c, r). call_error r \<noteq> None) rs)"

definition measured_calls :: "(string \<times> (resp_error, gval) outcome) list \<Rightarrow> nat" where
  "measured_calls rs = length (filter (\<lambda>(c, r). c \<noteq> ''XREAD'' \<and> r \<noteq> Panic) rs)"

lemma metrics_of_simps [simp]:
  "metrics_of [] = []" "metrics_of (xs @ ys) = metrics_of xs @ metrics_of ys" "metrics_of (Slept n # xs) = metrics_of xs"
  "metrics_of (Did (Metric m) # xs) = m # metrics_of xs" "metrics_of (Did (Logged l e a) # xs) = metrics_of xs"
  by (simp_all add: metrics_of_def map_filter_def)

lemma call_metrics:
  assumes "rsTelemetry st" "store_do rnd text st exec link since args db = (r, effs, db')"
  shows "metrics_of effs = (if r = Panic then [] else
    (if command_name args \<noteq> ''XREAD'' then [ObserveRedis (Fin (call_seconds rnd since (rsDelayMs st)))] else []) @
    (if call_error r \<noteq> None then [RedisError] else []))"
  using assms by (auto simp: store_do_def Let_def call_effects_def call_error_def split: prod.splits outcome.splits if_splits)

lemma hCount_observe: "0 \<le> v \<Longrightarrow> hCount (observe rnd (Fin v) h) = hCount h + 1"
  by (simp add: observe_def histogram_observe_def)

lemma store_run_counted:
  assumes "rsTelemetry st" "\<forall>x. 0 \<le> x \<longrightarrow> 0 \<le> rnd x" "0 \<le> rsDelayMs st" "\<forall>(args, link, since)\<in>set calls. 0 \<le> since"
    and "store_run rnd text st exec calls db = (rs, effs, db')"
  shows "redisErrorsTotal (fold (metric_call rnd) (metrics_of effs) m) = redisErrorsTotal m + of_nat (failed_calls rs) \<and>
    hCount (redisDuration (fold (metric_call rnd) (metrics_of effs) m)) = hCount (redisDuration m) + of_nat (measured_calls rs)"
  using assms(4,5)
proof (induction calls arbitrary: db rs effs m db')
  case Nil
  then show ?case by (simp add: failed_calls_def measured_calls_def)
next
  case (Cons c calls)
  obtain args link since where c: "c = (args, link, since)" by (cases c) auto
  obtain r effs1 db1 where 1: "store_do rnd text st exec link since args db = (r, effs1, db1)" by (metis prod_cases3)
  obtain rs' effs2 db2 where 2: "store_run rnd text st exec calls db1 = (rs', effs2, db2)" by (metis prod_cases3)
  have rs: "rs = (command_name args, r) # rs'" "effs = effs1 @ effs2" using Cons.prems(2) 1 2 by (simp_all add: c)
  have "0 \<le> call_seconds rnd since (rsDelayMs st)"
    using Cons.prems(1) assms(2,3) by (auto simp: c call_seconds_def intro!: add_nonneg_nonneg)
  then show ?case
    using Cons.IH [OF _ 2] Cons.prems(1) call_metrics [OF assms(1) 1]
    by (auto simp: rs c failed_calls_def measured_calls_def hCount_observe call_error_def split: outcome.splits)
qed

end
