(* ===== verification/Http.thy ===== *)
theory Http
  imports Telemetry
begin

section \<open>Requests, responses and routes\<close>

text \<open>
  What \<^verbatim>\<open>backend/server.go\<close> uses of \<open>net/http\<close> and \<open>net/url\<close>: the values of a query, the
  headers and the body that a handler writes, the answers of \<open>http.Error\<close> and of the JSON encoder, and the choice of
  a pattern by \<open>ServeMux\<close>. A request to the asterisk is left out.

  \<open>hrPath\<close> is the path with its escapes, \<open>hrQuery\<close> the text behind the question mark, and
  \<open>hrHandshake\<close> whether the headers are those of a WebSocket handshake.
\<close>

record http_request =
  hrMethod :: string
  hrPath :: string
  hrQuery :: string
  hrOrigin :: string
  hrHandshake :: bool

type_synonym header = "string \<rightharpoonup> string"

record http_response =
  hsStatus :: nat
  hsHeader :: header
  hsBody :: string

subsection \<open>Escapes and queries\<close>

text \<open>Two hexadecimal digits behind a percent sign; in a query a plus sign is a space.\<close>

fun unescape :: "bool \<Rightarrow> string \<Rightarrow> string option" where
  "unescape spaced [] = Some []"
| "unescape spaced (c # cs) =
     (if c = CHR ''%'' then
        (case cs of
           a # b # rest \<Rightarrow>
             (case (hex_val a, hex_val b) of
                (Some i, Some j) \<Rightarrow> map_option (Cons (char_of (16 * i + j))) (unescape spaced rest)
              | _ \<Rightarrow> None)
         | _ \<Rightarrow> None)
      else map_option (Cons (if spaced \<and> c = CHR ''+'' then CHR '' '' else c)) (unescape spaced cs))"

definition QueryUnescape :: "string \<Rightarrow> string option" where
  "QueryUnescape s = unescape True s"

text \<open>A path whose escapes are broken is left as it is; the server refuses it before.\<close>

definition PathUnescape :: "string \<Rightarrow> string" where
  "PathUnescape s = (case unescape False s of None \<Rightarrow> s | Some t \<Rightarrow> t)"

text \<open>\<open>parseQuery\<close>: a setting with a semicolon, with a broken escape or without any text is left out.\<close>

definition query_setting :: "string \<Rightarrow> (string \<times> string) option" where
  "query_setting s =
     (if CHR '';'' \<in> set s \<or> s = [] then None
      else (case (QueryUnescape (takeWhile (\<lambda>c. c \<noteq> CHR ''='') s), QueryUnescape (tl (dropWhile (\<lambda>c. c \<noteq> CHR ''='') s))) of
          (Some k, Some v) \<Rightarrow> Some (k, v)
        | _ \<Rightarrow> None))"

definition ParseQuery :: "string \<Rightarrow> (string \<times> string) list" where
  "ParseQuery s = List.map_filter query_setting (Split (CHR ''&'') s)"

text \<open>\<open>Get\<close>: the first value of the key, or nothing.\<close>

definition query_get :: "http_request \<Rightarrow> string \<Rightarrow> string" where
  "query_get req key = (case map_of (ParseQuery (hrQuery req)) key of None \<Rightarrow> [] | Some v \<Rightarrow> v)"

subsection \<open>Answers\<close>

text \<open>\<open>w\<close> is the header so far.\<close>

definition http_Error :: "header \<Rightarrow> string \<Rightarrow> nat \<Rightarrow> http_response" where
  "http_Error w reason code =
     \<lparr>hsStatus = code,
      hsHeader = w(''Content-Type'' \<mapsto> ''text/plain; charset=utf-8'', ''X-Content-Type-Options'' \<mapsto> ''nosniff''),
      hsBody = reason @ [CHR 0x0A]\<rparr>"

text \<open>A JSON value as \<open>Encoder.Encode\<close> writes it, with a new line.\<close>

definition respond_json :: "header \<Rightarrow> nat \<Rightarrow> json \<Rightarrow> http_response" where
  "respond_json w status j =
     \<lparr>hsStatus = status, hsHeader = w(''Content-Type'' \<mapsto> ''application/json''), hsBody = render j @ [CHR 0x0A]\<rparr>"

subsection \<open>Paths\<close>

fun clean_segments :: "string list \<Rightarrow> string list \<Rightarrow> string list" where
  "clean_segments out [] = rev out"
| "clean_segments out (s # ss) =
     (if s = [] \<or> s = ''.'' then clean_segments out ss
      else if s = ''..'' then clean_segments (tl out) ss
      else clean_segments (s # out) ss)"

fun slashed :: "string list \<Rightarrow> string" where
  "slashed [] = []"
| "slashed (s # ss) = CHR ''/'' # s @ slashed ss"

definition cleanPath :: "string \<Rightarrow> string" where
  "cleanPath p =
     (let np = slashed (clean_segments [] (Split (CHR ''/'') p)) in
      if np = [] then ''/'' else if last p = CHR ''/'' then np @ ''/'' else np)"

subsection \<open>Patterns\<close>

datatype route = RootPage | MetricsPage | LivePage | ReadyPage | NewRoom | RoomCheck | SetDelay | ShowFaults | Socket

text \<open>The segments of a path, each without its escapes.\<close>

definition path_segments :: "string \<Rightarrow> string list" where
  "path_segments p = map PathUnescape (Split (CHR ''/'') (tl p))"

text \<open>The patterns of a method that are longer than the slash; a pattern for GET is one for HEAD too.\<close>

definition routes :: "string \<Rightarrow> (string list \<times> route) list" where
  "routes method =
     (if method = ''GET'' \<or> method = ''HEAD'' then
        [([''metrics''], MetricsPage), ([''health'', ''live''], LivePage), ([''health'', ''ready''], ReadyPage),
         ([''rooms'', ''check''], RoomCheck), ([''debug'', ''faults''], ShowFaults), ([''ws''], Socket)]
      else if method = ''POST'' then [([''rooms''], NewRoom), ([''debug'', ''faults'', ''redis-delay''], SetDelay)]
      else [])"

definition find_route :: "string \<Rightarrow> string \<Rightarrow> route option" where
  "find_route method p = (case map_of (routes method) (path_segments p) of
     Some r \<Rightarrow> Some r
   | None \<Rightarrow> if method = ''GET'' \<or> method = ''HEAD'' then Some RootPage else None)"

text \<open>
  The choice for a path with a slash in front that is clean. Otherwise the mux sends the client to
  the clean path, for all methods but CONNECT, or finds nothing.
\<close>

datatype mux_choice = Matched route | MovedTo string | NotAllowed string | NotFound

definition allowed_methods :: "string \<Rightarrow> string" where
  "allowed_methods p = (if map_of (routes ''POST'') (path_segments p) = None then ''GET, HEAD'' else ''GET, HEAD, POST'')"

definition ServeMux :: "http_request \<Rightarrow> mux_choice" where
  "ServeMux req =
     (if hrMethod req \<noteq> ''CONNECT'' \<and> cleanPath (hrPath req) \<noteq> hrPath req then MovedTo (cleanPath (hrPath req))
      else if hrPath req = [] \<or> hd (hrPath req) \<noteq> CHR ''/'' then NotFound
      else (case find_route (hrMethod req) (hrPath req) of
          Some r \<Rightarrow> Matched r
        | None \<Rightarrow> NotAllowed (allowed_methods (hrPath req))))"

end
