(* ===== verification/Exposition.thy ===== *)
theory Exposition
  imports Telemetry
begin

section \<open>The text of the metrics\<close>

text \<open>
  \<open>writeMetricHelpType\<close>, \<open>writeHistogram\<close> and \<open>Prometheus\<close> of \<^verbatim>\<open>backend/telemetry.go\<close>, and
  \<open>strconv.Quote\<close>, which is the verb \<open>%q\<close>. How \<open>strconv\<close> prints a bucket and \<open>%.9f\<close> a sum, and which
  characters beyond ASCII are printable, are the arguments \<open>formats\<close>. The counters are read one by
  one; the lock of the histograms is held for the whole text.
\<close>

record formats =
  fmBucket :: "real \<Rightarrow> string"
  fmSum :: "real \<Rightarrow> string"
  fmPrint :: "nat \<Rightarrow> bool"

abbreviation nl :: char where "nl \<equiv> CHR 0x0A"

subsection \<open>Quoting\<close>

definition quote_byte :: "char \<Rightarrow> string" where
  "quote_byte c = [bs, CHR ''x'', hex_digit (ord c div 16), hex_digit (ord c mod 16)]"

definition quote_ascii :: "char \<Rightarrow> string" where
  "quote_ascii c =
     (if c = dq \<or> c = bs then [bs, c]
      else if 32 \<le> ord c \<and> ord c < 127 then [c]
      else if ord c = 7 then [bs, CHR ''a'']
      else if ord c = 8 then [bs, CHR ''b'']
      else if ord c = 12 then [bs, CHR ''f'']
      else if ord c = 10 then [bs, CHR ''n'']
      else if ord c = 13 then [bs, CHR ''r'']
      else if ord c = 9 then [bs, CHR ''t'']
      else if ord c = 11 then [bs, CHR ''v'']
      else quote_byte c)"

text \<open>The code point that a character of several bytes stands for.\<close>

definition code_point :: "string \<Rightarrow> nat" where
  "code_point s = (case map ord s of
     [a, b] \<Rightarrow> (a - 0xC0) * 64 + (b - 0x80)
   | [a, b, c] \<Rightarrow> (a - 0xE0) * 4096 + (b - 0x80) * 64 + (c - 0x80)
   | [a, b, c, d] \<Rightarrow> (a - 0xF0) * 262144 + (b - 0x80) * 4096 + (c - 0x80) * 64 + (d - 0x80)
   | _ \<Rightarrow> 0)"

fun hex_digits :: "nat \<Rightarrow> nat \<Rightarrow> string" where
  "hex_digits 0 n = []"
| "hex_digits (Suc k) n = hex_digits k (n div 16) @ [hex_digit (n mod 16)]"

definition quote_multi :: "(nat \<Rightarrow> bool) \<Rightarrow> string \<Rightarrow> string" where
  "quote_multi printable s =
     (if printable (code_point s) then s
      else if code_point s < 0x10000 then bs # CHR ''u'' # hex_digits 4 (code_point s)
      else bs # CHR ''U'' # hex_digits 8 (code_point s))"

function quoted :: "(nat \<Rightarrow> bool) \<Rightarrow> string \<Rightarrow> string" where
  "quoted printable [] = []"
| "quoted printable (c # cs) =
     (if ord c < 0x80 then quote_ascii c @ quoted printable cs
      else if utf8_len (c # cs) = 0 then quote_byte c @ quoted printable cs
      else quote_multi printable (take (utf8_len (c # cs)) (c # cs)) @
        quoted printable (drop (utf8_len (c # cs) - 1) cs))"
  by pat_completeness auto
termination quoted by (relation "measure (\<lambda>(p, s). length s)") auto

definition Quote :: "(nat \<Rightarrow> bool) \<Rightarrow> string \<Rightarrow> string" where
  "Quote printable s = dq # quoted printable s @ [dq]"

subsection \<open>The text\<close>

definition writeMetricHelpType :: "string \<Rightarrow> string \<Rightarrow> string \<Rightarrow> string" where
  "writeMetricHelpType name help metricType =
     ''# HELP '' @ name @ '' '' @ help @ [nl] @ ''# TYPE '' @ name @ '' '' @ metricType @ [nl]"

definition bucket_line :: "formats \<Rightarrow> string \<Rightarrow> string \<Rightarrow> real \<times> 64 word \<Rightarrow> string" where
  "bucket_line fm name suffix bc =
     name @ ''_bucket{le='' @ Quote (fmPrint fm) (fmBucket fm (fst bc)) @ suffix @ ''} '' @ FormatUint (snd bc) @ [nl]"

definition writeHistogram :: "formats \<Rightarrow> string \<Rightarrow> string \<Rightarrow> histogram \<Rightarrow> string \<Rightarrow> string" where
  "writeHistogram fm name help h labels =
     (let suffix = (if labels \<noteq> [] then '','' @ labels else []) in
      writeMetricHelpType name help ''histogram'' @
      concat (map (bucket_line fm name suffix) (zip (hBuckets h) (hCounts h))) @
      name @ ''_bucket{le='' @ [dq] @ ''+Inf'' @ [dq] @ suffix @ ''} '' @ FormatUint (hCount h) @ [nl] @
      (if labels = [] then
         name @ ''_sum '' @ fmSum fm (hSum h) @ [nl] @ name @ ''_count '' @ FormatUint (hCount h) @ [nl]
       else
         name @ ''_sum{'' @ labels @ ''} '' @ fmSum fm (hSum h) @ [nl] @
         name @ ''_count{'' @ labels @ ''} '' @ FormatUint (hCount h) @ [nl]))"

definition counters :: "Metrics \<Rightarrow> (string \<times> string \<times> 64 word) list" where
  "counters m =
     [(''livecollab_operations_total'', ''Content operations received by this backend.'', operationsTotal m),
      (''livecollab_operation_errors_total'', ''Content operations that failed due to storage or processing errors.'',
       operationErrors m),
      (''livecollab_stale_write_rejections_total'',
       ''Stale full-document writes rejected by optimistic concurrency control.'', staleWriteRejections m),
      (''livecollab_reconnects_total'', ''WebSocket connections that supplied a resume cursor.'', reconnectsTotal m),
      (''livecollab_resume_success_total'', ''Reconnect resumes completed successfully.'', resumeSuccessTotal m),
      (''livecollab_resume_failures_total'', ''Reconnect resumes that failed.'', resumeFailuresTotal m),
      (''livecollab_replayed_events_total'', ''Events replayed to reconnecting clients.'', replayedEventsTotal m),
      (''livecollab_sequence_gaps_total'', ''Detected non-contiguous event sequence gaps.'', sequenceGapsTotal m),
      (''livecollab_stream_events_total'', ''Redis Stream events applied by this backend.'', streamEventsTotal m),
      (''livecollab_redis_errors_total'', ''Redis command failures observed by this backend.'', redisErrorsTotal m),
      (''livecollab_http_requests_total'', ''HTTP requests observed by this backend.'', httpRequestsTotal m)]"

definition histograms :: "Metrics \<Rightarrow> (string \<times> string \<times> histogram) list" where
  "histograms m =
     [(''livecollab_operation_duration_seconds'',
       ''Server-side duration of a content operation through durable apply and acknowledgement.'', operationDuration m),
      (''livecollab_redis_command_duration_seconds'', ''Duration of instrumented Redis commands.'', redisDuration m),
      (''livecollab_stream_propagation_lag_seconds'',
       ''Time from Redis Stream append to another backend applying the event.'', streamLag m),
      (''livecollab_resume_duration_seconds'', ''Duration of a reconnect replay and convergence cycle.'', resumeDuration m),
      (''livecollab_http_request_duration_seconds'', ''Duration of HTTP requests served by the backend.'', httpDuration m)]"

definition write_counter :: "string \<Rightarrow> string \<times> string \<times> 64 word \<Rightarrow> string" where
  "write_counter labels c = (case c of (name, help, val) \<Rightarrow>
     writeMetricHelpType name help ''counter'' @ name @ ''{'' @ labels @ ''} '' @ FormatUint val @ [nl])"

definition Prometheus :: "formats \<Rightarrow> string \<Rightarrow> Metrics \<Rightarrow> string" where
  "Prometheus fm instanceID m =
     (let labels = ''instance_id='' @ Quote (fmPrint fm) instanceID in
      writeMetricHelpType ''livecollab_websocket_connections'' ''Current active WebSocket connections.'' ''gauge'' @
      ''livecollab_websocket_connections{'' @ labels @ ''} '' @ FormatInt (sint (websocketConnections m)) @ [nl] @
      concat (map (write_counter labels) (counters m)) @
      concat (map (\<lambda>(name, help, h). writeHistogram fm name help h labels) (histograms m)))"

subsection \<open>Reading it\<close>

text \<open>
  What a reader of the text gets: the lines that are no comments, each cut at its last space into the
  name with its labels and the value.
\<close>

definition sample :: "string \<Rightarrow> string \<times> string" where
  "sample l = (rev (tl (dropWhile (\<lambda>c. c \<noteq> CHR '' '') (rev l))), rev (takeWhile (\<lambda>c. c \<noteq> CHR '' '') (rev l)))"

definition samples :: "string \<Rightarrow> (string \<times> string) list" where
  "samples s = map sample (filter (\<lambda>l. l \<noteq> [] \<and> hd l \<noteq> CHR ''#'') (Split nl s))"

text \<open>The samples that the metrics stand for.\<close>

definition histogram_samples :: "formats \<Rightarrow> string \<Rightarrow> string \<times> string \<times> histogram \<Rightarrow> (string \<times> string) list" where
  "histogram_samples fm labels nh = (case nh of (name, help, h) \<Rightarrow>
     map (\<lambda>(b, n). (name @ ''_bucket{le='' @ Quote (fmPrint fm) (fmBucket fm b) @ '','' @ labels @ ''}'', FormatUint n))
       (zip (hBuckets h) (hCounts h)) @
     [(name @ ''_bucket{le='' @ [dq] @ ''+Inf'' @ [dq] @ '','' @ labels @ ''}'', FormatUint (hCount h)),
      (name @ ''_sum{'' @ labels @ ''}'', fmSum fm (hSum h)), (name @ ''_count{'' @ labels @ ''}'', FormatUint (hCount h))])"

definition metric_samples :: "formats \<Rightarrow> string \<Rightarrow> Metrics \<Rightarrow> (string \<times> string) list" where
  "metric_samples fm instanceID m =
     (let labels = ''instance_id='' @ Quote (fmPrint fm) instanceID in
      (''livecollab_websocket_connections{'' @ labels @ ''}'', FormatInt (sint (websocketConnections m))) #
      map (\<lambda>(name, help, val). (name @ ''{'' @ labels @ ''}'', FormatUint val)) (counters m) @
      concat (map (histogram_samples fm labels) (histograms m)))"

subsection \<open>No value breaks a line\<close>

lemma multi_bytes: "utf8_len s \<noteq> 0 \<Longrightarrow> c \<in> set (take (utf8_len s) s) \<Longrightarrow> 0x80 \<le> ord c"
proof -
  assume a: "utf8_len s \<noteq> 0" "c \<in> set (take (utf8_len s) s)"
  then obtain d ds where s: "s = d # ds" by (cases s) (auto simp: utf8_len_def)
  define k where "k = lead_len (ord d)"
  have k: "utf8_len s = k" "k \<noteq> 0" "list_all cont_byte (take (k - 1) ds)"
    using a(1) by (auto simp: s utf8_len_def k_def Let_def split: if_splits)
  have "0x80 \<le> ord d" using k(2) by (auto simp: k_def lead_len_def split: if_splits)
  moreover have "take k (d # ds) = d # take (k - 1) ds" using k(2) by (cases k) auto
  ultimately show ?thesis using a(2) k(1,3) by (auto simp: s list_all_iff cont_byte_def)
qed

lemma hex_digit_not_nl: "d < 16 \<Longrightarrow> hex_digit d \<noteq> nl"
proof -
  have "\<forall>d\<in>set [0..<16]. hex_digit d \<noteq> nl" by code_simp
  then show "d < 16 \<Longrightarrow> ?thesis" by simp
qed

lemma hex_digits_no_nl: "nl \<notin> set (hex_digits k n)"
  by (induction k n rule: hex_digits.induct) (use hex_digit_not_nl in \<open>auto dest: sym\<close>)

lemma quote_ascii_no_nl: "nl \<notin> set (quote_ascii c)"
proof -
  have "ord c div 16 < 16" "ord c mod 16 < 16" using ord_bounds by simp_all
  then show ?thesis
    using hex_digit_not_nl [of "ord c div 16"] hex_digit_not_nl [of "ord c mod 16"]
    by (auto simp: quote_ascii_def quote_byte_def bs_def dq_def)
qed

lemma quote_byte_no_nl: "nl \<notin> set (quote_byte c)"
  using hex_digit_not_nl [of "ord c div 16"] hex_digit_not_nl [of "ord c mod 16"] ord_bounds [of c]
  by (auto simp: quote_byte_def bs_def)

lemma quoted_no_nl: "nl \<notin> set (quoted p s)"
proof (induction p s rule: quoted.induct)
  case (2 p c cs)
  have "nl \<notin> set (quote_multi p (take (utf8_len (c # cs)) (c # cs)))" if "utf8_len (c # cs) \<noteq> 0"
    using multi_bytes [OF that, of nl] hex_digits_no_nl by (auto simp: quote_multi_def bs_def)
  then show ?case using 2 quote_ascii_no_nl quote_byte_no_nl by simp
qed simp

lemma Quote_no_nl: "nl \<notin> set (Quote p s)"
  by (simp add: Quote_def quoted_no_nl dq_def)

lemma FormatInt_no_space: "CHR '' '' \<notin> set (FormatInt n)"
proof -
  have "digit_val (CHR '' '') = None" by code_simp
  then show ?thesis using fmt_nat_digits [of "CHR '' ''"] by (auto simp: FormatInt_def)
qed

lemma FormatUint_chars [simp]: "CHR '' '' \<notin> set (FormatUint w)" "nl \<notin> set (FormatUint w)"
  by (simp_all add: FormatUint_def FormatInt_no_space)

subsection \<open>Lines\<close>

definition unlines :: "string list \<Rightarrow> string" where
  "unlines ls = concat (map (\<lambda>l. l @ [nl]) ls)"

lemma unlines_simps [simp]: "unlines [] = []" "unlines (l # ls) = l @ nl # unlines ls"
  "unlines (xs @ ys) = unlines xs @ unlines ys"
  by (simp_all add: unlines_def)

lemma Split_line: "nl \<notin> set l \<Longrightarrow> Split nl (l @ nl # s) = l # Split nl s"
  by (induction l) (auto split: list.split)

lemma Split_unlines: "\<forall>l\<in>set ls. nl \<notin> set l \<Longrightarrow> Split nl (unlines ls) = ls @ [[]]"
  by (induction ls) (simp_all add: Split_line)

lemma sample_cut:
  assumes "CHR '' '' \<notin> set v" shows "sample (n @ CHR '' '' # v) = (n, v)"
proof -
  have "takeWhile (\<lambda>c. c \<noteq> CHR '' '') (rev v @ CHR '' '' # rev n) = rev v"
    "dropWhile (\<lambda>c. c \<noteq> CHR '' '') (rev v @ CHR '' '' # rev n) = CHR '' '' # rev n"
    using assms by (subst takeWhile_append2 dropWhile_append2; auto)+
  then show ?thesis by (simp add: sample_def)
qed

text \<open>The lines that a sample makes, and the comments.\<close>

definition sample_line :: "string \<times> string \<Rightarrow> string" where
  "sample_line nv = fst nv @ CHR '' '' # snd nv"

definition comments :: "string \<Rightarrow> string \<Rightarrow> string \<Rightarrow> string list" where
  "comments name help metricType =
     [''# HELP '' @ name @ '' '' @ help, ''# TYPE '' @ name @ '' '' @ metricType]"

definition metric_lines :: "formats \<Rightarrow> string \<Rightarrow> Metrics \<Rightarrow> string list" where
  "metric_lines fm instanceID m =
     (let labels = ''instance_id='' @ Quote (fmPrint fm) instanceID in
      comments ''livecollab_websocket_connections'' ''Current active WebSocket connections.'' ''gauge'' @
      [sample_line (''livecollab_websocket_connections{'' @ labels @ ''}'', FormatInt (sint (websocketConnections m)))] @
      concat (map (\<lambda>(name, help, val). comments name help ''counter'' @ [sample_line (name @ ''{'' @ labels @ ''}'', FormatUint val)])
        (counters m)) @
      concat (map (\<lambda>(name, help, h). comments name help ''histogram'' @ map sample_line (histogram_samples fm labels (name, help, h)))
        (histograms m)))"

lemma writeMetricHelpType_lines: "writeMetricHelpType name help t = unlines (comments name help t)"
  by (simp add: writeMetricHelpType_def comments_def)

lemma unlines_concat: "unlines (concat xss) = concat (map unlines xss)"
  by (induction xss) simp_all

lemma buckets_lines:
  "concat (map (bucket_line fm name ('','' @ labels)) xs) = unlines (map sample_line (map (\<lambda>(b, n).
     (name @ ''_bucket{le='' @ Quote (fmPrint fm) (fmBucket fm b) @ '','' @ labels @ ''}'', FormatUint n)) xs))"
  by (induction xs) (auto simp: bucket_line_def sample_line_def)

lemma writeHistogram_lines:
  "labels \<noteq> [] \<Longrightarrow> writeHistogram fm name help h labels =
     unlines (comments name help ''histogram'' @ map sample_line (histogram_samples fm labels (name, help, h)))"
  unfolding writeHistogram_def Let_def
  by (simp add: writeMetricHelpType_lines histogram_samples_def buckets_lines [simplified] sample_line_def)

lemma write_counter_lines:
  "write_counter labels (name, help, val) = unlines (comments name help ''counter'' @ [sample_line (name @ ''{'' @ labels @ ''}'', FormatUint val)])"
  by (simp add: write_counter_def writeMetricHelpType_lines sample_line_def)

lemma Prometheus_lines: "Prometheus fm instanceID m = unlines (metric_lines fm instanceID m)"
proof -
  let ?L = "''instance_id='' @ Quote (fmPrint fm) instanceID"
  have c: "concat (map (write_counter ?L) cs) = unlines (concat (map (\<lambda>(name, help, val).
      comments name help ''counter'' @ [sample_line (name @ ''{'' @ ?L @ ''}'', FormatUint val)]) cs))" for cs
    by (induction cs) (auto simp: write_counter_lines)
  have h: "concat (map (\<lambda>(name, help, h). writeHistogram fm name help h ?L) hs) = unlines (concat (map (\<lambda>(name, help, h).
      comments name help ''histogram'' @ map sample_line (histogram_samples fm ?L (name, help, h))) hs))" for hs
    by (induction hs) (auto simp: writeHistogram_lines)
  show ?thesis
    unfolding Prometheus_def metric_lines_def Let_def c h writeMetricHelpType_lines by (simp add: sample_line_def)
qed

text \<open>The text is read back as the samples it was written for, whatever the name of the instance.\<close>

definition plain_name :: "string \<Rightarrow> bool" where
  "plain_name name \<longleftrightarrow> name \<noteq> [] \<and> nl \<notin> set name \<and> hd name \<noteq> CHR ''#''"

definition formats_ok :: "formats \<Rightarrow> bool" where
  "formats_ok fm \<longleftrightarrow> (\<forall>x. nl \<notin> set (fmSum fm x) \<and> CHR '' '' \<notin> set (fmSum fm x))"

lemma counters_plain: "list_all (\<lambda>(name, help, val). plain_name name \<and> nl \<notin> set help) (counters m)"
  by (simp add: counters_def plain_name_def)

lemma histograms_plain: "list_all (\<lambda>(name, help, h). plain_name name \<and> nl \<notin> set help) (histograms m)"
  by (simp add: histograms_def plain_name_def)

definition good_sample :: "string \<times> string \<Rightarrow> bool" where
  "good_sample nv \<longleftrightarrow> plain_name (fst nv) \<and> nl \<notin> set (snd nv) \<and> CHR '' '' \<notin> set (snd nv)"

lemma good_sample_line:
  "good_sample nv \<Longrightarrow> sample (sample_line nv) = nv \<and> nl \<notin> set (sample_line nv) \<and> sample_line nv \<noteq> [] \<and> hd (sample_line nv) \<noteq> CHR ''#''"
  by (cases nv) (auto simp: good_sample_def plain_name_def sample_line_def sample_cut)

lemma good_samples_histogram:
  "formats_ok fm \<Longrightarrow> plain_name name \<Longrightarrow> nl \<notin> set labels \<Longrightarrow> list_all good_sample (histogram_samples fm labels (name, help, h))"
  by (auto simp: histogram_samples_def list_all_iff good_sample_def plain_name_def formats_ok_def Quote_no_nl dq_def)

definition reads_as :: "string list \<Rightarrow> (string \<times> string) list \<Rightarrow> bool" where
  "reads_as ls nvs \<longleftrightarrow> (\<forall>l\<in>set ls. nl \<notin> set l) \<and> map sample (filter (\<lambda>l. l \<noteq> [] \<and> hd l \<noteq> CHR ''#'') ls) = nvs"

lemma reads_as_append: "reads_as xs a \<Longrightarrow> reads_as ys b \<Longrightarrow> reads_as (xs @ ys) (a @ b)"
  by (auto simp: reads_as_def)

lemma reads_as_samples: "list_all good_sample nvs \<Longrightarrow> reads_as (map sample_line nvs) nvs"
  by (induction nvs) (auto simp: reads_as_def good_sample_line)

lemma reads_as_comments: "nl \<notin> set name \<Longrightarrow> nl \<notin> set help \<Longrightarrow> nl \<notin> set t \<Longrightarrow> reads_as (comments name help t) []"
  by (simp add: reads_as_def comments_def)

lemma reads_as_concat: "list_all (\<lambda>x. reads_as (f x) (g x)) xs \<Longrightarrow> reads_as (concat (map f xs)) (concat (map g xs))"
  by (induction xs) (simp add: reads_as_def, simp add: reads_as_append)

lemma reads_as_metric:
  assumes "plain_name n" "nl \<notin> set h" "nl \<notin> set t" "list_all good_sample nvs"
  shows "reads_as (comments n h t @ map sample_line nvs) nvs"
proof -
  have "reads_as (comments n h t) []" using assms(1-3) by (intro reads_as_comments) (auto simp: plain_name_def)
  from reads_as_append [OF this reads_as_samples [OF assms(4)]] show ?thesis by simp
qed

lemma reads_as_metrics:
  fixes xs :: "(string \<times> string \<times> 'a) list"
  assumes "list_all (\<lambda>(n, h, x). plain_name n \<and> nl \<notin> set h) xs" "nl \<notin> set t"
    and "\<And>n h x. plain_name n \<Longrightarrow> list_all good_sample (f (n, h, x))"
  shows "reads_as (concat (map (\<lambda>(n, h, x). comments n h t @ map sample_line (f (n, h, x))) xs)) (concat (map f xs))"
proof (rule reads_as_concat, rule list.pred_mono_strong [OF assms(1)])
  fix z :: "string \<times> string \<times> 'a"
  assume "case z of (n, h, x) \<Rightarrow> plain_name n \<and> nl \<notin> set h"
  then show "reads_as (case z of (n, h, x) \<Rightarrow> comments n h t @ map sample_line (f (n, h, x))) (f z)"
    using reads_as_metric [OF _ _ assms(2,3)] by (auto split: prod.splits)
qed

definition counter_samples :: "string \<Rightarrow> string \<times> string \<times> 64 word \<Rightarrow> (string \<times> string) list" where
  "counter_samples labels c = (case c of (name, help, val) \<Rightarrow> [(name @ ''{'' @ labels @ ''}'', FormatUint val)])"

lemma counter_samples_map:
  "concat (map (counter_samples labels) cs) = map (\<lambda>(name, help, val). (name @ ''{'' @ labels @ ''}'', FormatUint val)) cs"
  by (induction cs) (auto simp: counter_samples_def)

lemma metric_lines_read:
  assumes "formats_ok fm" shows "reads_as (metric_lines fm instanceID m) (metric_samples fm instanceID m)"
proof -
  define L where "L = ''instance_id='' @ Quote (fmPrint fm) instanceID"
  have L: "nl \<notin> set L" by (simp add: L_def Quote_no_nl)
  let ?g = "(''livecollab_websocket_connections{'' @ L @ ''}'', FormatInt (sint (websocketConnections m)))"
  have gauge: "reads_as (comments ''livecollab_websocket_connections'' ''Current active WebSocket connections.'' ''gauge'' @
      map sample_line [?g]) [?g]"
    by (rule reads_as_metric) (use L FormatInt_no_space in \<open>simp_all add: good_sample_def plain_name_def\<close>)
  have "list_all good_sample (counter_samples L (n, h, v))" if "plain_name n" for n h v
    using that L by (auto simp: good_sample_def plain_name_def counter_samples_def)
  then have cs: "reads_as (concat (map (\<lambda>(n, h, v). comments n h ''counter'' @ map sample_line (counter_samples L (n, h, v)))
      (counters m))) (concat (map (counter_samples L) (counters m)))"
    by (intro reads_as_metrics counters_plain) simp_all
  have hs: "reads_as (concat (map (\<lambda>(n, h, x). comments n h ''histogram'' @ map sample_line (histogram_samples fm L (n, h, x)))
      (histograms m))) (concat (map (histogram_samples fm L) (histograms m)))"
    using good_samples_histogram [OF assms _ L] by (intro reads_as_metrics histograms_plain) simp_all
  show ?thesis
    using reads_as_append [OF gauge reads_as_append [OF cs hs]]
    unfolding metric_lines_def metric_samples_def Let_def L_def [symmetric] counter_samples_map
    by (simp add: counter_samples_def)
qed

lemma samples_Prometheus: "formats_ok fm \<Longrightarrow> samples (Prometheus fm instanceID m) = metric_samples fm instanceID m"
  using metric_lines_read [of fm instanceID m] by (auto simp: samples_def Prometheus_lines Split_unlines reads_as_def)

end
