(* ===== verification/Server.thy ===== *)
theory Server
  imports Session Store_Calls Http Exposition
begin

section \<open>The HTTP server\<close>

text \<open>
  \<^verbatim>\<open>backend/server.go\<close>: the handlers of \<open>Application\<close>, and around them \<open>observeHTTP\<close> and \<open>enableCORS\<close>. The state
  is the backend of theory \<open>Session\<close> and the store with its delay. A handler gives what it
  answers, what it does beside, and the state; \<open>None\<close> is a panic, which the server recovers from. The body that the server drops
  for HEAD is part of the answer here.

  The environment of a request has the bytes and times that it draws, what the other goroutines do in between, the metrics
  at the moment of a scrape, and the session that a handshake leads to.
\<close>

record 'db app =
  apBackend :: "'db backend"
  apStore :: RedisStore

record 'db http_env =
  hnConfig :: Config
  hnNet :: "'db net"
  hnGetOthers :: "manager \<Rightarrow> manager"
  hnBetween :: "'db backend \<Rightarrow> 'db backend"
  hnSnapshotNet :: "'db net"
  hnRoomRandom :: "string option"
  hnTraceRandom :: "string option"
  hnSpanRandom :: "string option"
  hnRedisSpanRandom :: "string option"
  hnRedisStarted :: int64
  hnRedisEnded :: int64
  hnRedisMs :: float64
  hnStarted :: int64
  hnEnded :: int64
  hnSeconds :: float64
  hnDurationMs :: float64
  hnMetrics :: Metrics
  hnFormats :: formats
  hnSession :: "'db session_env"
  hnInputs :: "ws_input list"

text \<open>What becomes of a request; a redirection has its header so far and the path.\<close>

datatype http_outcome = Responded http_response | Redirected header string | TakenOver served

type_synonym 'db handled = "(http_outcome \<times> effect list \<times> 'db app) option"

abbreviation answer :: "http_response \<Rightarrow> 'db app \<Rightarrow> 'db handled" where
  "answer r a \<equiv> Some (Responded r, [], a)"

subsection \<open>The handlers\<close>

definition root_page :: "'db http_env \<Rightarrow> header \<Rightarrow> 'db app \<Rightarrow> 'db handled" where
  "root_page env w a = answer
     \<lparr>hsStatus = 200, hsHeader = w, hsBody = ''LiveCollab server '' @ InstanceID (hnConfig env) @ '' is running''\<rparr> a"

definition metrics_page :: "'db http_env \<Rightarrow> header \<Rightarrow> 'db app \<Rightarrow> 'db handled" where
  "metrics_page env w a = answer
     \<lparr>hsStatus = 200, hsHeader = w(''Content-Type'' \<mapsto> ''text/plain; version=0.0.4; charset=utf-8''),
      hsBody = Prometheus (hnFormats env) (InstanceID (hnConfig env)) (hnMetrics env)\<rparr> a"

definition health_live :: "'db http_env \<Rightarrow> header \<Rightarrow> 'db app \<Rightarrow> 'db handled" where
  "health_live env w a = answer (respond_json w 200
     (go_map [(''status'', JStr ''ok''), (''instanceId'', JStr (InstanceID (hnConfig env)))])) a"

definition health_ready :: "'db exec \<Rightarrow> 'db http_env \<Rightarrow> header \<Rightarrow> 'db app \<Rightarrow> 'db handled" where
  "health_ready exec env w a =
     (let payload = [(''status'', JStr ''ready''), (''instanceId'', JStr (InstanceID (hnConfig env)))];
          b = apBackend a
      in if \<not> mStore (bkManager b) then answer (respond_json w 200 (go_map payload)) a
         else case Ping exec (hnNet env) (bkDb b) of
            (Panic, db) \<Rightarrow> None
          | (Ok u, db) \<Rightarrow> answer (respond_json w 200 (go_map payload)) (a\<lparr>apBackend := b\<lparr>bkDb := db\<rparr>\<rparr>)
          | (Err e, db) \<Rightarrow> answer (respond_json w 503
              (go_map (payload @ [(''status'', JStr ''not_ready''), (''reason'', JStr ''redis_unavailable'')])))
              (a\<lparr>apBackend := b\<lparr>bkDb := db\<rparr>\<rparr>))"

definition post_rooms :: "'db exec \<Rightarrow> 'db http_env \<Rightarrow> header \<Rightarrow> 'db app \<Rightarrow> 'db handled" where
  "post_rooms exec env w a =
     (let b = apBackend a in
      case CreateRoom_manager exec (hnNet env) (generateRoomID (hnRoomRandom env)) (bkManager b) (bkDb b) of
        (Panic, m, db) \<Rightarrow> None
      | (Err e, m, db) \<Rightarrow> answer (http_Error w ''room storage unavailable'' 503) (a\<lparr>apBackend := b\<lparr>bkManager := m, bkDb := db\<rparr>\<rparr>)
      | (Ok p, m, db) \<Rightarrow> answer (respond_json w 201 (go_map [(''roomId'', JStr (rID (mObjs m p)))]))
          (a\<lparr>apBackend := b\<lparr>bkManager := m, bkDb := db\<rparr>\<rparr>))"

definition lookup_effects :: "'db http_env \<Rightarrow> string \<Rightarrow> string \<Rightarrow> string \<Rightarrow> bool \<Rightarrow> effect list" where
  "lookup_effects env traceID parentSpanID roomID exists =
     (let redisSpanID = NewSpanID (hnRedisSpanRandom env) in
      if traceID = [] then []
      else
        [Exported (zero_span\<lparr>spTraceID := traceID, spSpanID := redisSpanID, spParentID := parentSpanID,
           spName := ''redis.get.room_snapshot'', spStart := hnRedisStarted env, spEnd := Some (hnRedisEnded env),
           spAttributes := [(''room.id'', AStr roomID)]\<rparr>),
         Logged ''info'' ''redis_room_snapshot''
           [(''traceId'', AStr traceID), (''spanId'', AStr redisSpanID), (''roomId'', AStr roomID),
            (''durationMs'', AFloat (hnRedisMs env)), (''found'', ABool exists)]])"

definition room_report :: "'db http_env \<Rightarrow> string \<Rightarrow> RoomSnapshot \<Rightarrow> json" where
  "room_report env roomID s = go_map
     [(''roomId'', JStr roomID), (''serverVersion'', JNum (FormatInt (sVersion s))),
      (''sequence'', JNum (FormatInt (sSequence s))), (''instanceId'', JStr (InstanceID (hnConfig env)))]"

definition rooms_check :: "'db exec \<Rightarrow> 'db http_env \<Rightarrow> string \<Rightarrow> string \<Rightarrow> http_request \<Rightarrow> header \<Rightarrow> 'db app \<Rightarrow> 'db handled" where
  "rooms_check exec env traceID spanID req w a =
     (let roomID = query_get req ''roomId''; b = apBackend a in
      if roomID = [] then answer (http_Error w ''roomId is required'' 400) a
      else case GetRoom exec (hnNet env) (hnGetOthers env) roomID (bkManager b) (bkDb b) of
          (Panic, m, db) \<Rightarrow> None
        | (Ok (Some p), m, db) \<Rightarrow> do {
            (s, b) \<leftarrow> on_room p (read_snapshot exec (hnSnapshotNet env)) (hnBetween env (b\<lparr>bkManager := m, bkDb := db\<rparr>));
            Some (Responded (respond_json w 200 (room_report env (rID (mObjs (bkManager b) p)) s)),
              lookup_effects env traceID spanID roomID True, a\<lparr>apBackend := b\<rparr>)
          }
        | (r, m, db) \<Rightarrow> Some (Responded (http_Error w ''room not found'' 404),
            lookup_effects env traceID spanID roomID False, a\<lparr>apBackend := b\<lparr>bkManager := m, bkDb := db\<rparr>\<rparr>))"

definition faults_enabled :: "'db http_env \<Rightarrow> 'db app \<Rightarrow> bool" where
  "faults_enabled env a \<longleftrightarrow> EnableDebugFaults (hnConfig env) \<and> mStore (bkManager (apBackend a))"

definition delay_report :: "'db http_env \<Rightarrow> int64 \<Rightarrow> json" where
  "delay_report env ms = go_map [(''instanceId'', JStr (InstanceID (hnConfig env))), (''redisDelayMs'', JNum (FormatInt ms))]"

definition set_redis_delay :: "'db http_env \<Rightarrow> http_request \<Rightarrow> header \<Rightarrow> 'db app \<Rightarrow> 'db handled" where
  "set_redis_delay env req w a =
     (if \<not> faults_enabled env a then answer (http_Error w ''debug faults disabled'' 404) a
      else case parse_int64 (query_get req ''ms'') of
          Inl e \<Rightarrow> answer (http_Error w ''ms must be between 0 and 5000'' 400) a
        | Inr ms \<Rightarrow>
            if ms < 0 \<or> 5000 < ms then answer (http_Error w ''ms must be between 0 and 5000'' 400) a
            else Some (Responded (respond_json w 200 (delay_report env ms)),
              [Logged ''warn'' ''debug_redis_delay_changed'' [(''delayMs'', AInt ms)]],
              a\<lparr>apStore := SetArtificialDelay ms (apStore a)\<rparr>))"

definition show_faults :: "'db http_env \<Rightarrow> header \<Rightarrow> 'db app \<Rightarrow> 'db handled" where
  "show_faults env w a =
     (if \<not> faults_enabled env a then answer (http_Error w ''debug faults disabled'' 404) a
      else answer (respond_json w 200 (delay_report env (ArtificialDelay (apStore a)))) a)"

definition ws_request_of :: "http_request \<Rightarrow> ws_request" where
  "ws_request_of req = \<lparr>wqRoomID = query_get req ''roomId'', wqUsername = query_get req ''username'',
     wqClientID = query_get req ''clientId'', wqLastSequence = query_get req ''lastSequence'',
     wqOrigin = hrOrigin req, wqHandshake = hrHandshake req \<and> hrMethod req = ''GET''\<rparr>"

definition open_socket :: "'db exec \<Rightarrow> 'db http_env \<Rightarrow> http_request \<Rightarrow> header \<Rightarrow> 'db app \<Rightarrow> 'db handled" where
  "open_socket exec env req w a =
     (case serveWS exec ((hnSession env)\<lparr>seConfig := hnConfig env\<rparr>) (ws_request_of req) (hnInputs env) (apBackend a) of
        None \<Rightarrow> None
      | Some (HttpError code reason, effs, b) \<Rightarrow> Some (Responded (http_Error w reason code), effs, a\<lparr>apBackend := b\<rparr>)
      | Some (s, effs, b) \<Rightarrow> Some (TakenOver s, effs, a\<lparr>apBackend := b\<rparr>))"

subsection \<open>The mux\<close>

text \<open>The trace and span identifiers are those in the context of the request, empty outside \<open>observeHTTP\<close>.\<close>

fun handle_route :: "'db exec \<Rightarrow> 'db http_env \<Rightarrow> string \<Rightarrow> string \<Rightarrow> http_request \<Rightarrow> header \<Rightarrow> route \<Rightarrow> 'db app \<Rightarrow> 'db handled" where
  "handle_route exec env traceID spanID req w RootPage a = root_page env w a"
| "handle_route exec env traceID spanID req w MetricsPage a = metrics_page env w a"
| "handle_route exec env traceID spanID req w LivePage a = health_live env w a"
| "handle_route exec env traceID spanID req w ReadyPage a = health_ready exec env w a"
| "handle_route exec env traceID spanID req w NewRoom a = post_rooms exec env w a"
| "handle_route exec env traceID spanID req w RoomCheck a = rooms_check exec env traceID spanID req w a"
| "handle_route exec env traceID spanID req w SetDelay a = set_redis_delay env req w a"
| "handle_route exec env traceID spanID req w ShowFaults a = show_faults env w a"
| "handle_route exec env traceID spanID req w Socket a = open_socket exec env req w a"

definition serve_mux :: "'db exec \<Rightarrow> 'db http_env \<Rightarrow> string \<Rightarrow> string \<Rightarrow> http_request \<Rightarrow> header \<Rightarrow> 'db app \<Rightarrow> 'db handled" where
  "serve_mux exec env traceID spanID req w a = (case ServeMux req of
     Matched r \<Rightarrow> handle_route exec env traceID spanID req w r a
   | MovedTo p \<Rightarrow> Some (Redirected w p, [], a)
   | NotAllowed methods \<Rightarrow> answer (http_Error (w(''Allow'' \<mapsto> methods)) ''Method Not Allowed'' 405) a
   | NotFound \<Rightarrow> answer (http_Error w ''404 page not found'' 404) a)"

subsection \<open>Around the mux\<close>

definition observed_effects :: "'db http_env \<Rightarrow> string \<Rightarrow> string \<Rightarrow> http_request \<Rightarrow> effect list" where
  "observed_effects env traceID spanID req =
     (let path = PathUnescape (hrPath req) in
      [Metric (ObserveHTTP (hnSeconds env)),
       Logged ''info'' ''http_request''
         [(''traceId'', AStr traceID), (''method'', AStr (hrMethod req)), (''path'', AStr path),
          (''durationMs'', AFloat (hnDurationMs env))],
       Exported (zero_span\<lparr>spTraceID := traceID, spSpanID := spanID,
         spName := ''HTTP '' @ hrMethod req @ '' '' @ path, spStart := hnStarted env, spEnd := Some (hnEnded env),
         spAttributes := [(''http.request.method'', AStr (hrMethod req)), (''url.path'', AStr path)]\<rparr>)])"

definition observeHTTP :: "'db exec \<Rightarrow> 'db http_env \<Rightarrow> http_request \<Rightarrow> header \<Rightarrow> 'db app \<Rightarrow> 'db handled" where
  "observeHTTP exec env req w a =
     (if PathUnescape (hrPath req) = ''/metrics'' \<or> PathUnescape (hrPath req) = ''/ws'' then serve_mux exec env [] [] req w a
      else
        (let traceID = NewTraceID (hnTraceRandom env); spanID = NewSpanID (hnSpanRandom env) in
         map_option (\<lambda>(r, effs, a). (r, [Metric HTTPRequest] @ effs @ observed_effects env traceID spanID req, a))
           (serve_mux exec env traceID spanID req w a)))"

definition cors_header :: "string \<Rightarrow> string list \<Rightarrow> header" where
  "cors_header origin allowed =
     (if originAllowed origin allowed \<and> origin \<noteq> []
      then [''Access-Control-Allow-Origin'' \<mapsto> origin, ''Vary'' \<mapsto> ''Origin''] else Map.empty)
       (''Access-Control-Allow-Methods'' \<mapsto> ''GET, POST, OPTIONS'', ''Access-Control-Allow-Headers'' \<mapsto> ''Content-Type'')"

definition enableCORS :: "(header \<Rightarrow> 'db app \<Rightarrow> 'db handled) \<Rightarrow> string list \<Rightarrow> http_request \<Rightarrow> 'db app \<Rightarrow> 'db handled" where
  "enableCORS handler allowed req a =
     (let origin = hrOrigin req; w = cors_header origin allowed in
      if hrMethod req = ''OPTIONS'' then
        (if \<not> originAllowed origin allowed then answer (http_Error w ''origin not allowed'' 403) a
         else answer \<lparr>hsStatus = 204, hsHeader = w, hsBody = []\<rparr> a)
      else handler w a)"

definition Handler :: "'db exec \<Rightarrow> 'db http_env \<Rightarrow> http_request \<Rightarrow> 'db app \<Rightarrow> 'db handled" where
  "Handler exec env req a = enableCORS (observeHTTP exec env req) (AllowedOrigins (hnConfig env)) req a"

end
