(* ===== verification/Startup.thy ===== *)
theory Startup
  imports Server Trace
begin

section \<open>The start of the process\<close>

text \<open>
  \<^verbatim>\<open>backend/main.go\<close>: the configuration, the trace recorder, the wait for Redis, the manager and the application. The
  environment has the variables and the host name, the error with which the trace file opens, if any, and for the wait the times in
  nanoseconds and the links of the pings. Signals, the listener and the shutdown are in \<open>Shutdown\<close>.
\<close>

record 'db boot_env =
  boEnviron :: environ
  boHost :: string
  boTraceOpened :: "string option"
  boStarted :: int
  boNow :: "nat \<Rightarrow> int"
  boNet :: "nat \<Rightarrow> 'db net"

subsection \<open>Waiting for Redis\<close>

text \<open>
  The loop of \<open>waitForRedis\<close>: round \<open>k\<close> reads the clock, \<open>now k\<close>, pings, and sleeps. \<open>fuel\<close> bounds the rounds; without any
  round the error is nil.
\<close>

fun wait_rounds :: "'db exec \<Rightarrow> (nat \<Rightarrow> 'db net) \<Rightarrow> (nat \<Rightarrow> int) \<Rightarrow> int \<Rightarrow> nat \<Rightarrow> nat \<Rightarrow> store_error option \<Rightarrow> 'db \<Rightarrow>
    unit store_result option \<times> 'db" where
  "wait_rounds exec net now deadline k 0 lastErr db = (None, db)"
| "wait_rounds exec net now deadline k (Suc fuel) lastErr db =
     (if \<not> now k < deadline then (Some (case lastErr of None \<Rightarrow> Ok () | Some e \<Rightarrow> Err e), db)
      else (case Ping exec (net k) db of
          (Ok u, db) \<Rightarrow> (Some (Ok ()), db)
        | (Err e, db) \<Rightarrow> wait_rounds exec net now deadline (Suc k) fuel (Some e) db
        | (Panic, db) \<Rightarrow> (Some Panic, db)))"

definition waitForRedis :: "'db exec \<Rightarrow> (nat \<Rightarrow> 'db net) \<Rightarrow> (nat \<Rightarrow> int) \<Rightarrow> int \<Rightarrow> int \<Rightarrow> nat \<Rightarrow> 'db \<Rightarrow> unit store_result option \<times> 'db" where
  "waitForRedis exec net now started timeout fuel db = wait_rounds exec net now (started + timeout) 0 fuel None db"

text \<open>The pause between two rounds, and clocks that show it.\<close>

abbreviation wait_pause :: int where "wait_pause \<equiv> 200 * Millisecond"

definition paused :: "(nat \<Rightarrow> int) \<Rightarrow> int \<Rightarrow> bool" where
  "paused now started \<longleftrightarrow> (\<forall>k. started + int k * wait_pause \<le> now k)"

lemma wait_rounds_result:
  assumes "wait_rounds exec net now deadline k fuel lastErr db = (Some r, db')"
  shows "(r = Ok () \<and> (\<exists>j db1. k \<le> j \<and> now j < deadline \<and> Ping exec (net j) db1 = (Ok (), db'))) \<or>
    (\<exists>j\<ge>k. \<not> now j < deadline \<and> (r = Ok () \<and> lastErr = None \<and> j = k \<or> (\<exists>e. r = Err e))) \<or> r = Panic"
  using assms
proof (induction exec net now deadline k fuel lastErr db rule: wait_rounds.induct)
  case (2 exec net now deadline k fuel lastErr db)
  show ?case
  proof (cases "now k < deadline")
    case False
    then show ?thesis using "2.prems" by (auto split: option.splits)
  next
    case True
    obtain x db1 where p: "Ping exec (net k) db = (x, db1)" by force
    show ?thesis
    proof (cases x)
      case (Ok u)
      then show ?thesis using "2.prems" True p by auto
    next
      case (Err e)
      then have "wait_rounds exec net now deadline (Suc k) fuel (Some e) db1 = (Some r, db')" using "2.prems" True p by simp
      from "2.IH" [OF _ p [symmetric] Err this] True show ?thesis by (auto dest: Suc_leD)
    next
      case Panic
      then show ?thesis using "2.prems" True p by auto
    qed
  qed
qed simp

lemma wait_rounds_ends:
  assumes "paused now started" "deadline \<le> started + int (k + fuel) * wait_pause"
  shows "\<exists>r db'. wait_rounds exec net now deadline k (Suc fuel) lastErr db = (Some r, db')"
  using assms
proof (induction fuel arbitrary: k lastErr db)
  case 0
  then have "\<not> now k < deadline" by (simp add: paused_def) (meson not_less order_trans)
  then show ?case by simp
next
  case (Suc fuel)
  obtain x db1 where p: "Ping exec (net k) db = (x, db1)" by force
  have "\<exists>r db'. wait_rounds exec net now deadline (Suc k) (Suc fuel) le db1 = (Some r, db')" for le
    by (rule Suc.IH) (use Suc.prems in \<open>simp_all add: algebra_simps\<close>)
  then show ?case by (cases x) (simp_all add: wait_rounds.simps(2) [of exec net now deadline k] p del: wait_rounds.simps)
qed

subsection \<open>The process\<close>

record 'db server =
  svConfig :: Config
  svTelemetry :: Telemetry
  svRecorder :: TraceRecorder
  svMode :: string
  svApp :: "'db app"

datatype 'db boot = Fatal string | Running "'db server" "effect list"

definition started_effects :: "Config \<Rightarrow> string \<Rightarrow> effect list" where
  "started_effects config mode = [Logged ''info'' ''server_started''
     [(''mode'', AStr mode), (''port'', AStr (Port config)),
      (''staleWritePolicy'', AStr (case StaleWritePolicy config of StaleWriteReject \<Rightarrow> ''reject'' | StaleWriteAccept \<Rightarrow> ''accept'')),
      (''otlpEndpoint'', AStr (OTLPEndpoint config))]]"

definition serving :: "Config \<Rightarrow> TraceRecorder \<Rightarrow> manager \<Rightarrow> RedisStore \<Rightarrow> string \<Rightarrow> heap \<Rightarrow> 'db \<Rightarrow> 'db boot" where
  "serving config recorder manager store mode h db = Running
     \<lparr>svConfig = config, svTelemetry = NewTelemetry config, svRecorder = recorder, svMode = mode,
      svApp = \<lparr>apBackend = \<lparr>bkManager = manager, bkHeap = h, bkDb = db\<rparr>, apStore = store\<rparr>\<rparr>
     (started_effects config mode)"

text \<open>\<open>h\<close> is the heap of clients, of which there are none yet.\<close>

definition boot_process :: "'db exec \<Rightarrow> 'db boot_env \<Rightarrow> nat \<Rightarrow> heap \<Rightarrow> 'db \<Rightarrow> 'db boot option" where
  "boot_process exec env fuel h db =
     (let config = LoadConfig (boEnviron env) (boHost env) in
      case NewTraceRecorder (TraceFile config) (boTraceOpened env) of
        Inl e \<Rightarrow> Some (Fatal ''create trace recorder'')
      | Inr recorder \<Rightarrow>
          if RedisAddr config = [] then Some (serving config recorder NewRoomManager NewRedisStore ''local-memory'' h db)
          else
            (let store = SetArtificialDelay (RedisDelayMs config) (SetTelemetry True NewRedisStore) in
             case waitForRedis exec (boNet env) (boNow env) (boStarted env) (10 * Second) fuel db of
               (None, db) \<Rightarrow> None
             | (Some Panic, db) \<Rightarrow> None
             | (Some (Err e), db) \<Rightarrow> Some (Fatal ''connect Redis'')
             | (Some (Ok u), db) \<Rightarrow> Some (serving config recorder
                 (NewDistributedRoomManager True (InstanceID config) [Presence config]) store ''redis-streams'' h db)))"

end
