(* ===== verification/Server_Facts.thy ===== *)
theory Server_Facts
  imports Server Startup Session_Facts
begin

section \<open>Facts about the HTTP server\<close>

text \<open>
  What every handler keeps: the headers of \<open>enableCORS\<close> in every answer, and the shape of a JSON body; what
  each does to the store and to Redis; and what a request for a room answers.
\<close>

subsection \<open>Headers\<close>

definition out_header :: "http_outcome \<Rightarrow> header option" where
  "out_header out = (case out of Responded r \<Rightarrow> Some (hsHeader r) | Redirected w p \<Rightarrow> Some w | TakenOver s \<Rightarrow> None)"

definition cors_names :: "string set" where
  "cors_names = {''Access-Control-Allow-Origin'', ''Vary'', ''Access-Control-Allow-Methods'', ''Access-Control-Allow-Headers''}"

definition keeps_cors :: "header \<Rightarrow> http_outcome \<Rightarrow> bool" where
  "keeps_cors w out \<longleftrightarrow> (\<forall>h. out_header out = Some h \<longrightarrow> (\<forall>k\<in>cors_names. h k = w k))"

lemma keeps_cors_simps [simp]:
  "keeps_cors w (Responded (http_Error w reason code))" "keeps_cors w (Responded (respond_json w status j))"
  "keeps_cors w (Responded (http_Error (w(''Allow'' \<mapsto> m)) reason code))"
  "keeps_cors w (Redirected w p)" "keeps_cors w (TakenOver s)"
  by (simp_all add: keeps_cors_def out_header_def http_Error_def respond_json_def cors_names_def)

lemma handle_route_cors: "handle_route exec env traceID spanID req w r a = Some (out, effs, a') \<Longrightarrow> keeps_cors w out"
proof (cases r)
  case RootPage
  then show "handle_route exec env traceID spanID req w r a = Some (out, effs, a') \<Longrightarrow> keeps_cors w out"
    by (auto simp: root_page_def keeps_cors_def out_header_def)
next
  case MetricsPage
  then show "handle_route exec env traceID spanID req w r a = Some (out, effs, a') \<Longrightarrow> keeps_cors w out"
    by (auto simp: metrics_page_def keeps_cors_def out_header_def cors_names_def)
qed (auto simp: health_live_def health_ready_def post_rooms_def rooms_check_def set_redis_delay_def show_faults_def
    open_socket_def Let_def split: if_splits prod.splits outcome.splits option.splits sum.splits served.splits bind_splits)

lemma serve_mux_cors: "serve_mux exec env traceID spanID req w a = Some (out, effs, a') \<Longrightarrow> keeps_cors w out"
  using handle_route_cors by (fastforce simp: serve_mux_def split: mux_choice.splits)

lemma observeHTTP_cors: "observeHTTP exec env req w a = Some (out, effs, a') \<Longrightarrow> keeps_cors w out"
  using serve_mux_cors by (fastforce simp: observeHTTP_def Let_def split: if_splits)

lemma Handler_cors:
  assumes "Handler exec env req a = Some (out, effs, a')" "out_header out = Some h" "k \<in> cors_names"
  shows "h k = cors_header (hrOrigin req) (AllowedOrigins (hnConfig env)) k"
proof (cases "hrMethod req = ''OPTIONS''")
  case True
  then show ?thesis using assms
    by (auto simp: Handler_def enableCORS_def Let_def http_Error_def out_header_def cors_names_def split: if_splits)
next
  case False
  then have "keeps_cors (cors_header (hrOrigin req) (AllowedOrigins (hnConfig env))) out"
    using assms(1) observeHTTP_cors by (fastforce simp: Handler_def enableCORS_def Let_def)
  then show ?thesis using assms(2,3) by (simp add: keeps_cors_def)
qed

subsection \<open>JSON bodies\<close>

text \<open>The fields of the JSON answers and their types.\<close>

definition text_fields :: "string set" where
  "text_fields = {''status'', ''instanceId'', ''reason'', ''roomId''}"

definition number_fields :: "string set" where
  "number_fields = {''serverVersion'', ''sequence'', ''redisDelayMs''}"

definition field_typed :: "string \<times> json \<Rightarrow> bool" where
  "field_typed f \<longleftrightarrow>
     fst f \<in> text_fields \<and> (\<exists>s. snd f = JStr s \<and> valid_utf8 s) \<or>
     fst f \<in> number_fields \<and> (\<exists>n. snd f = JNum (FormatInt n))"

definition body_typed :: "string \<Rightarrow> bool" where
  "body_typed body \<longleftrightarrow> (\<exists>ms. parse_json body = Some (JObj ms) \<and> list_all field_typed ms)"

text \<open>An object that a handler encodes: strings of any bytes.\<close>

definition field_encoded :: "string \<times> json \<Rightarrow> bool" where
  "field_encoded f \<longleftrightarrow>
     fst f \<in> text_fields \<and> (\<exists>s. snd f = JStr s) \<or>
     fst f \<in> number_fields \<and> (\<exists>n. snd f = JNum (FormatInt n))"

lemma field_names_scrubbed: "k \<in> text_fields \<union> number_fields \<Longrightarrow> scrub k = k"
proof -
  have "\<forall>k\<in>text_fields \<union> number_fields. valid_utf8 k" by (simp add: text_fields_def number_fields_def)
  then show "k \<in> text_fields \<union> number_fields \<Longrightarrow> scrub k = k" using scrub_valid by blast
qed

lemma field_encoded_read:
  assumes "field_encoded (k, v)"
  shows "field_typed (scrub k, scrub_json v)" "plain_json v" "nesting v = 0"
proof -
  have k: "scrub k = k" using assms by (intro field_names_scrubbed) (auto simp: field_encoded_def)
  consider s where "v = JStr s" | n where "v = JNum (FormatInt n)" using assms by (auto simp: field_encoded_def)
  then show "plain_json v" "nesting v = 0" by (cases; simp add: number_text_FormatInt)+
  show "field_typed (scrub k, scrub_json v)"
    using assms unfolding k by (auto simp: field_encoded_def field_typed_def scrub_utf8)
qed

lemma respond_typed:
  assumes "list_all field_encoded ms"
  shows "body_typed (render (JObj ms) @ [CHR 0x0A])"
proof -
  have f: "field_typed (scrub k, scrub_json v)" "plain_json v" "nesting v = 0" if "(k, v) \<in> set ms" for k v
    using assms that field_encoded_read [of k v] by (auto simp: list_all_iff)
  have "plain_json (JObj ms)" using f(2) by auto
  moreover have "nesting (JObj ms) \<le> max_depth" using f(3) by (auto simp: max_depth_def)
  ultimately have "parse_json (render (JObj ms) @ [CHR 0x0A]) = Some (scrub_json (JObj ms))" by (rule parse_scrubbed(2))
  moreover have "list_all field_typed (map (\<lambda>(k, v). (scrub k, scrub_json v)) ms)"
    using f(1) by (auto simp: list_all_iff)
  ultimately show ?thesis by (simp add: body_typed_def del: render.simps)
qed

lemma go_map_fields:
  assumes "list_all P kvs"
  shows "\<exists>ms. go_map kvs = JObj ms \<and> list_all P ms"
proof -
  have "P (k, the (map_of (rev kvs) k))" if key: "k \<in> fst ` set kvs" for k
  proof -
    obtain v where v: "map_of (rev kvs) k = Some v" using key by (cases "map_of (rev kvs) k") (auto simp: map_of_eq_None_iff)
    then have "(k, v) \<in> set kvs" using map_of_SomeD [OF v] by simp
    then show ?thesis using assms v by (simp add: list_all_iff)
  qed
  then show ?thesis by (simp add: go_map_def list_all_iff)
qed

lemma json_typed: "list_all field_encoded kvs \<Longrightarrow> body_typed (hsBody (respond_json w status (go_map kvs)))"
  using go_map_fields [of field_encoded kvs] respond_typed by (auto simp: respond_json_def simp del: render.simps)

definition typed_out :: "http_outcome \<Rightarrow> bool" where
  "typed_out out \<longleftrightarrow> (\<forall>r. out = Responded r \<longrightarrow> hsHeader r ''Content-Type'' = Some ''application/json'' \<longrightarrow> body_typed (hsBody r))"

lemma typed_out_simps [simp]:
  "typed_out (Responded (http_Error w reason code))" "typed_out (Redirected w p)" "typed_out (TakenOver s)"
  "list_all field_encoded kvs \<Longrightarrow> typed_out (Responded (respond_json w status (go_map kvs)))"
  by (simp_all add: typed_out_def http_Error_def json_typed)


lemma reports_typed [simp]:
  "typed_out (Responded (respond_json w status (room_report env roomID s)))"
  "typed_out (Responded (respond_json w status (delay_report env ms)))"
  "typed_out (Responded (respond_json w status (go_map [(''status'', JStr b), (''instanceId'', JStr c)])))"
  "typed_out (Responded (respond_json w status
     (go_map [(''status'', JStr b), (''instanceId'', JStr c), (''status'', JStr d), (''reason'', JStr e)])))"
  "typed_out (Responded (respond_json w status (go_map [(''roomId'', JStr b)])))"
  unfolding room_report_def delay_report_def
  by (rule typed_out_simps(4); simp add: field_encoded_def text_fields_def number_fields_def; blast)+

lemma handle_route_typed:
  assumes "handle_route exec env traceID spanID req w r a = Some (out, effs, a')" "w ''Content-Type'' = None"
  shows "typed_out out"
proof (cases r)
  case RootPage
  then show ?thesis using assms by (auto simp: root_page_def typed_out_def)
next
  case MetricsPage
  then show ?thesis using assms by (auto simp: metrics_page_def typed_out_def)
qed (use assms(1) in \<open>auto simp: health_live_def health_ready_def post_rooms_def rooms_check_def set_redis_delay_def show_faults_def
    open_socket_def Let_def split: if_splits prod.splits outcome.splits option.splits sum.splits served.splits bind_splits\<close>)

lemma Handler_typed: "Handler exec env req a = Some (out, effs, a') \<Longrightarrow> typed_out out"
proof -
  let ?w = "cors_header (hrOrigin req) (AllowedOrigins (hnConfig env))"
  have w: "?w ''Content-Type'' = None" by (simp add: cors_header_def)
  then have "serve_mux exec env t sp req ?w a = Some (out, effs, a') \<Longrightarrow> typed_out out" for t sp effs
    using handle_route_typed by (fastforce simp: serve_mux_def split: mux_choice.splits)
  moreover have "typed_out (Responded \<lparr>hsStatus = 204, hsHeader = ?w, hsBody = []\<rparr>)" using w by (simp add: typed_out_def)
  ultimately show "Handler exec env req a = Some (out, effs, a') \<Longrightarrow> typed_out out"
    by (auto simp: Handler_def enableCORS_def observeHTTP_def Let_def split: if_splits)
qed

subsection \<open>What a request changes\<close>

text \<open>
  What a request leaves alone is what every handler on its way leaves alone: for a relation between the
  state before and after.
\<close>

lemma Handler_lift:
  assumes "Handler exec env req a = Some (out, effs, a')" "R a a"
    and "\<And>t sp w r out effs a'. ServeMux req = Matched r \<Longrightarrow> handle_route exec env t sp req w r a = Some (out, effs, a') \<Longrightarrow> R a a'"
  shows "R a a'"
proof -
  have "R a a'" if "serve_mux exec env t sp req w a = Some (out, effs, a')" for t sp w effs
    using that assms(2,3) by (auto simp: serve_mux_def split: mux_choice.splits)
  then show ?thesis using assms(1,2)
    by (auto simp: Handler_def enableCORS_def observeHTTP_def Let_def split: if_splits)
qed

lemma handle_route_store:
  assumes "handle_route exec env traceID spanID req w r a = Some (out, effs, a')" "r \<noteq> SetDelay"
  shows "apStore a' = apStore a"
  using assms by (cases r) (auto simp: root_page_def metrics_page_def health_live_def health_ready_def post_rooms_def rooms_check_def
    show_faults_def open_socket_def Let_def split: if_splits prod.splits outcome.splits option.splits served.splits bind_splits)

lemma set_redis_delay_store:
  assumes "set_redis_delay env req w a = Some (out, effs, a')"
  shows "a' = a \<or> faults_enabled env a \<and> (\<exists>ms. parse_int64 (query_get req ''ms'') = Inr ms \<and> 0 \<le> ms \<and> ms \<le> 5000 \<and>
    a' = a\<lparr>apStore := (apStore a)\<lparr>rsDelayMs := ms\<rparr>\<rparr>)"
  using assms by (auto simp: set_redis_delay_def SetArtificialDelay_def split: if_splits sum.splits)

subsection \<open>Reading Redis\<close>

text \<open>Commands that leave the keys alone, and nets in which the others do.\<close>

definition only_reads :: "'db exec \<Rightarrow> ('db \<Rightarrow> 'v) \<Rightarrow> bool" where
  "only_reads exec V \<longleftrightarrow> (\<forall>c args db. c \<in> {''GET'', ''PING''} \<longrightarrow> V (snd (exec (c # args) db)) = V db)"

definition quiet :: "('db \<Rightarrow> 'v) \<Rightarrow> 'db net \<Rightarrow> bool" where
  "quiet V net \<longleftrightarrow> (\<forall>i db. V (before net i db) = V db)"

lemma only_readsD: "only_reads exec V \<Longrightarrow> c \<in> {''GET'', ''PING''} \<Longrightarrow> V (snd (exec (c # args) db)) = V db"
  unfolding only_reads_def by blast

lemma reading_call:
  assumes "only_reads exec V" "quiet V net" "c \<in> {''GET'', ''PING''}"
  shows "V (snd (do_at exec net i (c # args) db)) = V db"
  using only_readsD [OF assms(1,3)] assms(2) by (cases "link_of net i") (simp_all add: do_at_def redis_do_def quiet_def)

lemma reading_then: "V (snd r) = v \<Longrightarrow> (\<And>x db. V db = v \<Longrightarrow> V (snd (f x db)) = v) \<Longrightarrow> V (snd (call_then r f)) = v"
  by (cases r; cases "fst r") auto

lemma reading_if: "V (snd x) = v \<Longrightarrow> V (snd y) = v \<Longrightarrow> V (snd (if b then x else y)) = v"
  by simp

lemma GetSnapshot_reading:
  assumes "only_reads exec V" "quiet V net"
  shows "V (snd (GetSnapshot_store exec net rid db)) = V db"
  unfolding GetSnapshot_store_def by (intro reading_then [where V = V] reading_if [where V = V]) (simp_all add: reading_call [OF assms])

lemma Ping_reading:
  assumes "only_reads exec V" "quiet V net"
  shows "V (snd (Ping exec net db)) = V db"
  unfolding Ping_def by (intro reading_then [where V = V]) (simp_all add: reading_call [OF assms])

lemma GetRoom_reading:
  "only_reads exec V \<Longrightarrow> quiet V net \<Longrightarrow> V (snd (snd (GetRoom exec net others rid m db))) = V db"
  using GetSnapshot_reading [of exec V net rid db]
  by (auto simp: GetRoom_def Let_def new_room_def split: option.splits prod.splits outcome.splits)

lemma read_snapshot_reading:
  assumes "only_reads exec V" "quiet V net" "on_room p (read_snapshot exec net) b = Some (s, b')"
  shows "V (bkDb b') = V (bkDb b)"
  using GetSnapshot_reading [OF assms(1,2), of "rID (mObjs (bkManager b) p)" "bkDb b"] assms(3)
  by (auto simp: on_room_def read_snapshot_def GetSnapshot_def room_world_def with_room_def Let_def
      split: if_splits prod.splits outcome.splits option.splits)

lemma handle_route_reading:
  assumes "handle_route exec env traceID spanID req w r a = Some (out, effs, a')" "r \<noteq> NewRoom" "r \<noteq> Socket"
    and "only_reads exec V" "quiet V (hnNet env)" "quiet V (hnSnapshotNet env)" "\<forall>b. V (bkDb (hnBetween env b)) = V (bkDb b)"
  shows "V (bkDb (apBackend a')) = V (bkDb (apBackend a))"
proof (cases r)
  case ReadyPage
  then show ?thesis using assms(1) Ping_reading [OF assms(4,5), of "bkDb (apBackend a)"]
    by (auto simp: health_ready_def Let_def split: if_splits prod.splits outcome.splits)
next
  case RoomCheck
  then show ?thesis
    using assms(1,7) GetRoom_reading [OF assms(4,5), of "hnGetOthers env" "query_get req ''roomId''" "bkManager (apBackend a)" "bkDb (apBackend a)"]
    by (auto simp: rooms_check_def Let_def split: if_splits prod.splits outcome.splits option.splits bind_splits
        dest: read_snapshot_reading [OF assms(4,6)])
qed (use assms(1-3) in \<open>auto simp: root_page_def metrics_page_def health_live_def set_redis_delay_def show_faults_def
    split: if_splits sum.splits\<close>)

subsection \<open>Routes\<close>

lemma find_route_Some: "find_route method p = Some r \<Longrightarrow> r = RootPage \<or> (path_segments p, r) \<in> set (routes method)"
  by (auto simp: find_route_def dest: map_of_SomeD split: option.splits if_splits)

lemma matched_route: "ServeMux req = Matched r \<Longrightarrow> r = RootPage \<or> (path_segments (hrPath req), r) \<in> set (routes (hrMethod req))"
  using find_route_Some by (auto simp: ServeMux_def split: if_splits option.splits)

lemma matched_delay: "ServeMux req = Matched SetDelay \<Longrightarrow>
    hrMethod req = ''POST'' \<and> path_segments (hrPath req) = [''debug'', ''faults'', ''redis-delay'']"
  using matched_route [of req SetDelay] by (auto simp: routes_def split: if_splits)

lemma matched_post: "ServeMux req = Matched NewRoom \<Longrightarrow> hrMethod req = ''POST'' \<and> path_segments (hrPath req) = [''rooms'']"
  using matched_route [of req NewRoom] by (auto simp: routes_def split: if_splits)

lemma matched_socket: "ServeMux req = Matched Socket \<Longrightarrow> path_segments (hrPath req) = [''ws'']"
  using matched_route [of req Socket] by (auto simp: routes_def split: if_splits)

end
