(* ===== verification/Server_Rooms.thy ===== *)
theory Server_Rooms
  imports Server_Facts
begin

section \<open>Rooms over HTTP\<close>

text \<open>
  A room that is made by \<open>POST /rooms\<close> and looked up by \<open>GET /rooms/check\<close>, with Redis, over working links and with
  nobody else in between.
\<close>

subsection \<open>Identifiers in a query\<close>

definition plain_text :: "string \<Rightarrow> bool" where
  "plain_text s \<longleftrightarrow> set s \<inter> {CHR ''%'', CHR ''+'', CHR ''&'', CHR '';''} = {}"

lemma unescape_plain: "CHR ''%'' \<notin> set s \<Longrightarrow> CHR ''+'' \<notin> set s \<Longrightarrow> unescape spaced s = Some s"
  by (induction s) auto

lemma Split_whole: "c \<notin> set s \<Longrightarrow> Split c s = [s]"
  by (induction s) auto

lemma query_get_room:
  assumes "plain_text rid" "hrQuery req = ''roomId='' @ rid"
  shows "query_get req ''roomId'' = rid"
proof -
  have "Split (CHR ''&'') (''roomId='' @ rid) = [''roomId='' @ rid]"
    by (rule Split_whole) (use assms(1) in \<open>auto simp: plain_text_def\<close>)
  moreover have "QueryUnescape rid = Some rid" "QueryUnescape ''roomId'' = Some ''roomId''"
    unfolding QueryUnescape_def using assms(1) by (auto intro!: unescape_plain simp: plain_text_def)
  then have "query_setting (''roomId='' @ rid) = Some (''roomId'', rid)"
    using assms(1) by (auto simp: query_setting_def plain_text_def)
  ultimately show ?thesis by (simp add: query_get_def ParseQuery_def assms(2) map_filter_def)
qed

lemma hex_digit_plain: "d < 16 \<Longrightarrow> hex_digit d \<notin> {CHR ''%'', CHR ''+'', CHR ''&'', CHR '';''}"
proof -
  have "\<forall>d\<in>set [0..<16]. hex_digit d \<notin> {CHR ''%'', CHR ''+'', CHR ''&'', CHR '';''}" by code_simp
  then show "d < 16 \<Longrightarrow> ?thesis" by simp
qed

lemma hex_encode_plain: "plain_text (hex_encode s)"
proof -
  have "set (hex_byte c) \<inter> {CHR ''%'', CHR ''+'', CHR ''&'', CHR '';''} = {}" for c
    using hex_digit_plain [OF ord_bounds(1) [of c]] hex_digit_plain [OF ord_bounds(2) [of c]] by (auto simp: hex_byte_def)
  then show ?thesis by (auto simp: plain_text_def hex_encode_def)
qed

lemma generateRoomID_plain: "plain_text (generateRoomID random)"
  using hex_encode_plain by (auto simp: generateRoomID_def plain_text_def split: option.split)

subsection \<open>Looking a room up\<close>

definition undisturbed :: "'db http_env \<Rightarrow> bool" where
  "undisturbed env \<longleftrightarrow> hnNet env = calm \<and> hnSnapshotNet env = calm \<and> hnGetOthers env = (\<lambda>m. m) \<and> hnBetween env = (\<lambda>b. b)"

abbreviation app_manager :: "'db app \<Rightarrow> manager" where
  "app_manager a \<equiv> bkManager (apBackend a)"

abbreviation app_db :: "'db app \<Rightarrow> 'db" where
  "app_db a \<equiv> bkDb (apBackend a)"

text \<open>A backend with a store, whose cache of the room, if it has one, is good.\<close>

definition serves_room :: "DistributedEvent list \<Rightarrow> string \<Rightarrow> 'db app \<Rightarrow> bool" where
  "serves_room L rid a \<longleftrightarrow> manager_ok (app_manager a) \<and> mStore (app_manager a) \<and>
     (\<forall>p. mRooms (app_manager a) rid = Some p \<longrightarrow> cache_ok L (mObjs (app_manager a) p))"

lemma GetSnapshot_id: "GetSnapshot exec net r db = (res, r', db') \<Longrightarrow> rID r' = rID r"
  by (auto simp: GetSnapshot_def Let_def split: if_splits prod.splits outcome.splits option.splits)

lemma rooms_check_found:
  assumes "redis_server E V K" "undisturbed env" "K (app_db a)" "redis_room (V (app_db a)) rid L" "serves_room L rid a"
    and "query_get req ''roomId'' = rid" "rid \<noteq> []"
  obtains effs a' where "rooms_check (document_exec E) env t sp req w a =
    Some (Responded (respond_json w 200 (room_report env rid (snapshot_of L))), effs, a')"
proof -
  obtain p m1 db1 where g: "GetRoom (document_exec E) calm (\<lambda>m. m) rid (app_manager a) (app_db a) = (Ok (Some p), m1, db1)"
    "K db1" "V db1 = V (app_db a)" "manager_ok m1" "mRooms m1 rid = Some p" "cache_ok L (mObjs m1 p)"
  proof (cases "mRooms (app_manager a) rid")
    case None
    show thesis
      by (rule GetRoom_hydrates [OF assms(1,3,4) _ _ None]) (use assms(5) that in \<open>simp_all add: serves_room_def\<close>)
  next
    case (Some p)
    then show thesis
      using that [of p "app_manager a" "app_db a"] assms(3,5) ensureWatcher_known [of "app_manager a" rid p]
      by (simp add: GetRoom_def serves_room_def)
  qed
  have id: "rID (mObjs m1 p) = rid" using manager_okD(1) [OF g(4,5)] by simp
  obtain r' db2 where s: "GetSnapshot (document_exec E) calm (mObjs m1 p) db1 = (Ok (snapshot_of L), r', db2)"
    by (rule GetSnapshot_cache [OF assms(1) g(2), of "mObjs m1 p" L]) (use assms(4) g(3,6) id in simp_all)
  have "rID r' = rid" using GetSnapshot_id [OF s] id by simp
  then show thesis
    using that assms(2,6,7) g(1) s
    by (simp add: rooms_check_def undisturbed_def on_room_def read_snapshot_def room_world_def with_room_def)
qed

subsection \<open>Requests for rooms\<close>

definition post_request :: "string \<Rightarrow> http_request" where
  "post_request origin = \<lparr>hrMethod = ''POST'', hrPath = ''/rooms'', hrQuery = [], hrOrigin = origin, hrHandshake = False\<rparr>"

definition check_request :: "string \<Rightarrow> string \<Rightarrow> http_request" where
  "check_request origin rid = \<lparr>hrMethod = ''GET'', hrPath = ''/rooms/check'', hrQuery = ''roomId='' @ rid, hrOrigin = origin, hrHandshake = False\<rparr>"

lemma request_simps [simp]:
  "hrMethod (post_request origin) = ''POST''" "hrPath (post_request origin) = ''/rooms''" "hrOrigin (post_request origin) = origin"
  "hrMethod (check_request origin rid) = ''GET''" "hrPath (check_request origin rid) = ''/rooms/check''"
  "hrOrigin (check_request origin rid) = origin"
  by (simp_all add: post_request_def check_request_def)

lemma room_routes:
  "ServeMux (post_request origin) = Matched NewRoom" "ServeMux (check_request origin rid) = Matched RoomCheck"
  by (simp_all add: ServeMux_def cleanPath_def find_route_def path_segments_def PathUnescape_def routes_def)

lemma room_paths: "PathUnescape ''/rooms'' = ''/rooms''" "PathUnescape ''/rooms/check'' = ''/rooms/check''"
  by (simp_all add: PathUnescape_def)

lemma check_handled:
  assumes "redis_server E V K" "undisturbed env" "K (app_db a)" "redis_room (V (app_db a)) rid L" "serves_room L rid a"
    and "plain_text rid" "rid \<noteq> []"
  shows "\<exists>w effs a'. Handler (document_exec E) env (check_request origin rid) a =
    Some (Responded (respond_json w 200 (room_report env rid (snapshot_of L))), effs, a')"
proof -
  have q: "query_get (check_request origin rid) ''roomId'' = rid" by (rule query_get_room [OF assms(6)]) (simp add: check_request_def)
  define t sp w where "t = NewTraceID (hnTraceRandom env)" and "sp = NewSpanID (hnSpanRandom env)"
    and "w = cors_header origin (AllowedOrigins (hnConfig env))"
  obtain effs a' where "rooms_check (document_exec E) env t sp (check_request origin rid) w a =
      Some (Responded (respond_json w 200 (room_report env rid (snapshot_of L))), effs, a')"
    by (rule rooms_check_found [OF assms(1-5) q assms(7)])
  then show ?thesis
    by (auto simp: Handler_def enableCORS_def observeHTTP_def serve_mux_def room_routes room_paths t_def sp_def w_def)
qed

lemma post_handled:
  assumes "redis_server E V K" "undisturbed env" "K (app_db a)" "rid = generateRoomID (hnRoomRandom env)"
    and "V (app_db a) (roomStreamKey rid) = None" "manager_ok (app_manager a)" "mStore (app_manager a)" "mRooms (app_manager a) rid = None"
  obtains w effs a' where "Handler (document_exec E) env (post_request origin) a =
      Some (Responded (respond_json w 201 (JObj [(''roomId'', JStr rid)])), effs, a')"
    "K (app_db a')" "redis_room (V (app_db a')) rid []" "serves_room [] rid a'"
proof -
  obtain db' where c: "CreateRoom (document_exec E) calm rid (app_db a) = (Ok (), db')" "K db'"
    "V db' = (V (app_db a))(roomExistsKey rid \<mapsto> RVString ''1'', roomContentKey rid \<mapsto> RVString [],
       roomVersionKey rid \<mapsto> RVString ''0'', roomSequenceKey rid \<mapsto> RVString ''0'')"
    by (rule CreateRoom_runs [OF assms(1,3)])
  have room: "redis_room (V db') rid []" unfolding c(3) by (rule created_room [of "V (app_db a)", OF assms(5)])
  let ?r = "empty_room\<lparr>rID := rid, rStore := True\<rparr>"
  define m' where "m' = enter_room ?r (app_manager a)"
  have fresh: "mRooms (app_manager a) (rID ?r) = None" using assms(8) by simp
  have m: "CreateRoom_manager (document_exec E) calm rid (app_manager a) (app_db a) = (Ok (mNext (app_manager a)), m', db')"
    using c(1) assms(7) by (simp add: CreateRoom_manager_def new_room_def enter_room_def m'_def)
  have ok: "manager_ok m'" unfolding m'_def by (rule manager_ok_enter [OF assms(6) _ fresh]) (use assms(7) in simp)
  have f: "mRooms m' rid = Some (mNext (app_manager a))" "mObjs m' (mNext (app_manager a)) = ?r" "mStore m'"
    unfolding m'_def enter_room_eq [OF assms(6) fresh] using assms(7) by simp_all
  have cache: "cache_ok [] ?r" by (rule cache_okI [of _ "[]"]) (simp_all add: room_snapshot_def snapshot_of_def empty_room_def)
  define a' where "a' = a\<lparr>apBackend := (apBackend a)\<lparr>bkManager := m', bkDb := db'\<rparr>\<rparr>"
  have "serves_room [] rid a'" using ok f cache by (simp add: serves_room_def a'_def)
  moreover have "go_map [(''roomId'', JStr rid)] = JObj [(''roomId'', JStr rid)]" by (simp add: go_map_def)
  then have "\<exists>w effs. Handler (document_exec E) env (post_request origin) a =
      Some (Responded (respond_json w 201 (JObj [(''roomId'', JStr rid)])), effs, a')"
    using assms(2,4) m f(2)
    by (auto simp: Handler_def enableCORS_def observeHTTP_def serve_mux_def room_routes room_paths post_rooms_def undisturbed_def a'_def)
  ultimately show thesis using that c(2) room by (auto simp: a'_def)
qed

end
