(* ===== verification/Scrape.thy ===== *)
theory Scrape
  imports Exposition
begin

section \<open>A reader of the metrics\<close>

text \<open>
  What a scrape makes of the text of \<open>Prometheus\<close>: each sample is a name, labels with their values, and a value. The values
  of labels are string literals; \<open>go_unquote\<close> reads those that the verb \<open>%q\<close> prints, as \<open>strconv.Unquote\<close> does. The
  reader knows nothing of how the text is made. The lemmas show that a quoted string is read as the bytes that were quoted,
  whatever they are, and that a name with its labels is read as such.
\<close>

subsection \<open>String literals\<close>

fun hex_num :: "nat \<Rightarrow> string \<Rightarrow> nat option" where
  "hex_num n [] = Some n"
| "hex_num n (c # cs) = (case hex_val c of None \<Rightarrow> None | Some d \<Rightarrow> hex_num (16 * n + d) cs)"

definition numeric_escape :: "nat \<Rightarrow> (nat \<Rightarrow> string) \<Rightarrow> string \<Rightarrow> (string \<times> string) option" where
  "numeric_escape k enc cs =
     (if length cs < k then None else map_option (\<lambda>n. (enc n, drop k cs)) (hex_num 0 (take k cs)))"

definition literal_escape :: "char \<Rightarrow> char option" where
  "literal_escape c = map_of [(dq, dq), (bs, bs), (CHR ''a'', CHR 0x07), (CHR ''b'', CHR 0x08), (CHR ''f'', CHR 0x0C),
     (CHR ''n'', CHR 0x0A), (CHR ''r'', CHR 0x0D), (CHR ''t'', CHR 0x09), (CHR ''v'', CHR 0x0B)] c"

text \<open>The bytes that an escape stands for, and what follows it.\<close>

definition read_escape :: "char \<Rightarrow> string \<Rightarrow> (string \<times> string) option" where
  "read_escape e cs = (case literal_escape e of
     Some c \<Rightarrow> Some ([c], cs)
   | None \<Rightarrow> if e = CHR ''x'' then numeric_escape 2 (\<lambda>n. [char_of n]) cs
       else if e = CHR ''u'' then numeric_escape 4 utf8_of cs
       else if e = CHR ''U'' then numeric_escape 8 utf8_of cs else None)"

lemma read_escape_shorter: "read_escape e cs = Some (v, r) \<Longrightarrow> length r \<le> length cs"
  by (auto simp: read_escape_def numeric_escape_def split: option.splits if_splits)

text \<open>The value of a literal behind its opening quote, and what follows the closing one.\<close>

function go_unquote :: "string \<Rightarrow> (string \<times> string) option" where
  "go_unquote [] = None"
| "go_unquote (c # cs) =
     (if c = dq then Some ([], cs)
      else if c = bs then
        (case cs of
           [] \<Rightarrow> None
         | e # es \<Rightarrow> (case read_escape e es of None \<Rightarrow> None | Some (v, r) \<Rightarrow> prepend v (go_unquote r)))
      else prepend [c] (go_unquote cs))"
  by pat_completeness auto
termination go_unquote by (relation "measure length") (auto dest: read_escape_shorter)

declare go_unquote.simps(2) [simp del]

lemma go_unquote_shorter: "go_unquote s = Some (v, r) \<Longrightarrow> length r < length s"
proof (induction s arbitrary: v r rule: go_unquote.induct)
  case (2 c cs)
  show ?case
  proof (cases "c = dq \<or> c \<noteq> bs")
    case True
    then show ?thesis using 2 by (fastforce simp: go_unquote.simps(2) prepend_def split: if_splits)
  next
    case False
    then obtain e es u q where e: "cs = e # es" "read_escape e es = Some (u, q)" "prepend u (go_unquote q) = Some (v, r)"
      using "2.prems" by (auto simp: go_unquote.simps(2) split: list.splits option.splits)
    then obtain v' where "go_unquote q = Some (v', r)" by (auto simp: prepend_def)
    with 2(1) False e have "length r < length q" by blast
    then show ?thesis using read_escape_shorter [OF e(2)] e(1) by simp
  qed
qed simp

subsection \<open>A quoted string is read back\<close>

lemma hex_num_append: "hex_num a (xs @ ys) = Option.bind (hex_num a xs) (\<lambda>n. hex_num n ys)"
  by (induction xs arbitrary: a) (auto split: option.split)

lemma hex_num_digits: "n < 16 ^ k \<Longrightarrow> hex_num a (hex_digits k n) = Some (a * 16 ^ k + n)"
proof (induction k arbitrary: n)
  case (Suc k)
  then have "n div 16 < 16 ^ k" by auto
  from Suc.IH [OF this] show ?case by (simp add: hex_num_append hex_val_digit)
qed simp

lemma length_hex_digits [simp]: "length (hex_digits k n) = k"
  by (induction k arbitrary: n) simp_all

lemma numeric_escape_digits: "n < 16 ^ k \<Longrightarrow> numeric_escape k enc (hex_digits k n @ r) = Some (enc n, r)"
  using hex_num_digits [of n k 0] by (simp add: numeric_escape_def)

lemma quote_byte_digits: "quote_byte c = bs # CHR ''x'' # hex_digits 2 (ord c)"
proof -
  have "ord c div 16 mod 16 = ord c div 16" using ord_bounds [of c] by simp
  then show ?thesis by (simp add: quote_byte_def numeral_2_eq_2)
qed

lemma go_unquote_escape:
  "read_escape e es = Some (v, r) \<Longrightarrow> go_unquote (bs # e # es) = prepend v (go_unquote r)"
  by (simp add: go_unquote.simps(2) bs_def dq_def)

lemma go_unquote_byte: "go_unquote (quote_byte c @ r) = prepend [c] (go_unquote r)"
proof -
  have "ord c < 16 ^ 2" using ord_bounds [of c] by simp
  from numeric_escape_digits [OF this, of "\<lambda>n. [char_of n]" r] have "read_escape (CHR ''x'') (hex_digits 2 (ord c) @ r) = Some ([c], r)"
    by (simp add: read_escape_def literal_escape_def dq_def bs_def)
  from go_unquote_escape [OF this] show ?thesis by (simp add: quote_byte_digits)
qed

lemma go_unquote_plain: "c \<noteq> dq \<Longrightarrow> c \<noteq> bs \<Longrightarrow> go_unquote (c # r) = prepend [c] (go_unquote r)"
  by (simp add: go_unquote.simps(2))

lemma char_by_ord: "ord c = n \<Longrightarrow> c = char_of n"
  by auto

lemma go_unquote_literal: "literal_escape e = Some d \<Longrightarrow> go_unquote (bs # e # r) = prepend [d] (go_unquote r)"
  by (rule go_unquote_escape) (simp add: read_escape_def)

lemma quote_ascii_cases:
  obtains "quote_ascii c = [c]" "c \<noteq> dq" "c \<noteq> bs" | e where "quote_ascii c = [bs, e]" "literal_escape e = Some c"
  | "quote_ascii c = quote_byte c"
proof -
  have by_ord: "ord c = ord d \<Longrightarrow> c = d" for d :: char using of_char_eq_iff [where 'a = nat] by blast
  consider (quote) "c = dq \<or> c = bs" | (plain) "c \<noteq> dq" "c \<noteq> bs" "32 \<le> ord c" "ord c < 127"
    | (special) "ord c = 7 \<or> ord c = 8 \<or> ord c = 9 \<or> ord c = 10 \<or> ord c = 11 \<or> ord c = 12 \<or> ord c = 13"
    | (byte) "c \<noteq> dq" "c \<noteq> bs" "\<not> (32 \<le> ord c \<and> ord c < 127)"
      "ord c \<noteq> 7" "ord c \<noteq> 8" "ord c \<noteq> 9" "ord c \<noteq> 10" "ord c \<noteq> 11" "ord c \<noteq> 12" "ord c \<noteq> 13" by blast
  then show thesis
  proof cases
    case quote
    then show ?thesis using that(2) [of c] by (auto simp: quote_ascii_def literal_escape_def dq_def bs_def)
  next
    case plain
    then show ?thesis using that(1) by (simp add: quote_ascii_def)
  next
    case special
    then have "c = CHR 0x07 \<or> c = CHR 0x08 \<or> c = CHR 0x09 \<or> c = CHR 0x0A \<or> c = CHR 0x0B \<or> c = CHR 0x0C \<or> c = CHR 0x0D"
      using by_ord [of "CHR 0x07"] by_ord [of "CHR 0x08"] by_ord [of "CHR 0x09"] by_ord [of "CHR 0x0A"] by_ord [of "CHR 0x0B"]
        by_ord [of "CHR 0x0C"] by_ord [of "CHR 0x0D"] by auto
    then have "\<exists>e. quote_ascii c = [bs, e] \<and> literal_escape e = Some c"
      by (elim disjE; hypsubst) (simp_all add: quote_ascii_def literal_escape_def dq_def bs_def)
    then show ?thesis using that(2) by blast
  next
    case byte
    then show ?thesis using that(3) by (auto simp: quote_ascii_def)
  qed
qed

lemma go_unquote_ascii: "go_unquote (quote_ascii c @ r) = prepend [c] (go_unquote r)"
  by (cases c rule: quote_ascii_cases) (simp_all add: go_unquote_plain go_unquote_literal go_unquote_byte)

text \<open>A valid character of several bytes is the encoding of its code point.\<close>

lemma digits_64: "(z::nat) < 64 \<Longrightarrow> (x * 64 + z) div 64 = x" "z < 64 \<Longrightarrow> (x * 64 + z) mod 64 = z"
  by (simp, simp only: mod_mult_self3 mod_less)

lemma code_point_2:
  assumes "0xC2 \<le> a" "a \<le> 0xDF" "0x80 \<le> b" "b \<le> 0xBF" "r = (a - 0xC0) * 64 + (b - 0x80)"
  shows "utf8_of r = [char_of a, char_of b]" "r < 0x10000"
proof -
  define x y where "x = a - 0xC0" and "y = b - 0x80"
  then have *: "a = 0xC0 + x" "b = 0x80 + y" "2 \<le> x" "x < 32" "y < 64" "r = x * 64 + y" using assms by auto
  have "r div 64 = x" "r mod 64 = y" unfolding *(6) by (rule digits_64 [OF *(5)])+
  moreover have "0x80 \<le> r" "r < 0x800" using *(3-6) by simp_all
  ultimately show "utf8_of r = [char_of a, char_of b]" "r < 0x10000" unfolding *(1,2) by (simp_all add: utf8_of_def)
qed

lemma code_point_3:
  assumes "0xE0 \<le> a" "a \<le> 0xEF" "0x80 \<le> b" "b \<le> 0xBF" "0x80 \<le> c" "c \<le> 0xBF"
    and "a = 0xE0 \<Longrightarrow> 0xA0 \<le> b" "a = 0xED \<Longrightarrow> b \<le> 0x9F"
    and "r = (a - 0xE0) * 4096 + (b - 0x80) * 64 + (c - 0x80)"
  shows "utf8_of r = [char_of a, char_of b, char_of c]" "r < 0x10000"
proof -
  from assms(1,3,5) obtain x y z where v: "a = 0xE0 + x" "b = 0x80 + y" "c = 0x80 + z" unfolding le_iff_add by blast
  have *: "a = 0xE0 + x" "b = 0x80 + y" "c = 0x80 + z" "x < 16" "y < 64" "z < 64" "r = (x * 64 + y) * 64 + z"
    "x = 0 \<Longrightarrow> 32 \<le> y" "x = 13 \<Longrightarrow> y < 32" using assms unfolding v by auto
  have d: "r div 64 = x * 64 + y" "r mod 64 = z" unfolding *(7) by (rule digits_64 [OF *(6)])+
  have "r div 4096 = r div 64 div 64" by (simp add: div_mult2_eq [symmetric])
  then have d2: "r div 4096 = x" "r div 64 mod 64 = y" unfolding d(1) by (simp_all only: digits_64 *(5))
  have "0x800 \<le> r" using *(7,8) by (cases x) simp_all
  moreover have "r < 0x10000" using *(4-7) by simp
  moreover have "\<not> (0xD800 \<le> r \<and> r < 0xE000)"
  proof (cases "x = 13")
    case True
    then show ?thesis using *(6,7,9) by simp
  next
    case False
    then have "x \<le> 12 \<or> 14 \<le> x" by arith
    then show ?thesis using *(5-7) by auto
  qed
  ultimately show "utf8_of r = [char_of a, char_of b, char_of c]" "r < 0x10000"
    using d d2 unfolding *(1-3) by (auto simp: utf8_of_def)
qed

lemma code_point_4:
  assumes "0xF0 \<le> a" "a \<le> 0xF4" "0x80 \<le> b" "b \<le> 0xBF" "0x80 \<le> c" "c \<le> 0xBF" "0x80 \<le> d" "d \<le> 0xBF"
    and "a = 0xF0 \<Longrightarrow> 0x90 \<le> b" "a = 0xF4 \<Longrightarrow> b \<le> 0x8F"
    and "r = (a - 0xF0) * 262144 + (b - 0x80) * 4096 + (c - 0x80) * 64 + (d - 0x80)"
  shows "utf8_of r = [char_of a, char_of b, char_of c, char_of d]" "0x10000 \<le> r" "r < 0x110000"
proof -
  from assms(1,3,5,7) obtain x y z u where v: "a = 0xF0 + x" "b = 0x80 + y" "c = 0x80 + z" "d = 0x80 + u"
    unfolding le_iff_add by blast
  have *: "a = 0xF0 + x" "b = 0x80 + y" "c = 0x80 + z" "d = 0x80 + u" "x \<le> 4" "y < 64" "z < 64" "u < 64"
    "r = ((x * 64 + y) * 64 + z) * 64 + u" "x = 0 \<Longrightarrow> 16 \<le> y" "x = 4 \<Longrightarrow> y < 16" using assms unfolding v by auto
  have d: "r div 64 = (x * 64 + y) * 64 + z" "r mod 64 = u" unfolding *(9) by (rule digits_64 [OF *(8)])+
  have "r div 4096 = r div 64 div 64" "r div 262144 = r div 64 div 64 div 64" by (simp_all add: div_mult2_eq [symmetric])
  then have d2: "r div 4096 mod 64 = y" "r div 64 mod 64 = z" "r div 262144 = x"
    unfolding d(1) by (simp_all only: digits_64 *(6,7))
  have b: "0x10000 \<le> r" using *(9,10) by (cases x) simp_all
  moreover have b2: "r < 0x110000"
  proof (cases "x = 4")
    case False
    then have "x \<le> 3" using *(5) by arith
    then show ?thesis using *(6-9) by simp
  qed (use *(6-9,11) in simp)
  ultimately show "utf8_of r = [char_of a, char_of b, char_of c, char_of d]"
    using d d2 unfolding *(1-4) by (auto simp: utf8_of_def)
  show "0x10000 \<le> r" "r < 0x110000" by (rule b) (rule b2)
qed

lemma multi_code_point:
  assumes "utf8_len (c # cs) \<noteq> 0" "s = take (utf8_len (c # cs)) (c # cs)"
  shows "utf8_of (code_point s) = s" "code_point s < 0x110000"
proof -
  note * = utf8_len_Cons [OF assms(1)]
  have "lead_len (ord c) = 2 \<or> lead_len (ord c) = 3 \<or> lead_len (ord c) = 4"
    using *(1) assms(1) by (auto simp: lead_len_def split: if_splits)
  then have "utf8_of (code_point s) = s \<and> code_point s < 0x110000"
  proof (elim disjE)
    assume l: "lead_len (ord c) = 2"
    then obtain d ds where cs: "cs = d # ds" using *(3) by (cases cs) auto
    have s: "s = [c, d]" using assms(2) l *(1) cs by (simp add: numeral_2_eq_2)
    have "0xC2 \<le> ord c" "ord c \<le> 0xDF" "0x80 \<le> ord d" "ord d \<le> 0xBF"
      using l *(5) cs by (auto simp: lead_len_def cont_byte_def split: if_splits)
    from code_point_2 [OF this refl] show ?thesis by (simp add: s code_point_def)
  next
    assume l: "lead_len (ord c) = 3"
    then obtain d e ds where cs: "cs = d # e # ds" using *(3) by (cases cs; cases "tl cs") auto
    have s: "s = [c, d, e]" using assms(2) l *(1) cs by (simp add: numeral_3_eq_3)
    have "0xE0 \<le> ord c" "ord c \<le> 0xEF" "0x80 \<le> ord d" "ord d \<le> 0xBF" "0x80 \<le> ord e" "ord e \<le> 0xBF"
      using l *(5) cs by (auto simp: lead_len_def cont_byte_def split: if_splits)
    moreover have "ord c = 0xE0 \<Longrightarrow> 0xA0 \<le> ord d" "ord c = 0xED \<Longrightarrow> ord d \<le> 0x9F" using *(4) cs by (simp_all add: second_ok_def)
    ultimately show ?thesis using code_point_3 [OF _ _ _ _ _ _ _ _ refl, of "ord c" "ord d" "ord e"] by (simp add: s code_point_def)
  next
    assume l: "lead_len (ord c) = 4"
    then obtain d e f ds where cs: "cs = d # e # f # ds" using *(3) by (cases cs; cases "tl cs"; cases "tl (tl cs)") auto
    have s: "s = [c, d, e, f]" using assms(2) l *(1) cs by (simp add: eval_nat_numeral)
    have "0xF0 \<le> ord c" "ord c \<le> 0xF4" "0x80 \<le> ord d" "ord d \<le> 0xBF" "0x80 \<le> ord e" "ord e \<le> 0xBF"
      "0x80 \<le> ord f" "ord f \<le> 0xBF"
      using l *(5) cs by (auto simp: lead_len_def cont_byte_def split: if_splits)
    moreover have "ord c = 0xF0 \<Longrightarrow> 0x90 \<le> ord d" "ord c = 0xF4 \<Longrightarrow> ord d \<le> 0x8F" using *(4) cs by (simp_all add: second_ok_def)
    ultimately show ?thesis
      using code_point_4 [OF _ _ _ _ _ _ _ _ _ _ refl, of "ord c" "ord d" "ord e" "ord f"] by (simp add: s code_point_def)
  qed
  then show "utf8_of (code_point s) = s" "code_point s < 0x110000" by simp_all
qed

lemma prepend_Nil: "prepend [] x = x"
  by (cases x) (auto simp: prepend_def)

lemma prepend_prepend: "prepend u (prepend v x) = prepend (u @ v) x"
  by (cases x) (simp_all add: prepend_def apfst_def map_prod_def split: prod.split)

lemma go_unquote_raw: "\<forall>c\<in>set s. 0x80 \<le> ord c \<Longrightarrow> go_unquote (s @ r) = prepend s (go_unquote r)"
proof (induction s)
  case (Cons c s)
  then have "c \<noteq> dq" "c \<noteq> bs" by (auto simp: dq_def bs_def)
  then show ?case using Cons by (simp add: go_unquote_plain prepend_prepend)
qed (simp add: prepend_Nil)

lemma go_unquote_multi:
  assumes "utf8_len (c # cs) \<noteq> 0" "s = take (utf8_len (c # cs)) (c # cs)"
  shows "go_unquote (quote_multi p s @ r) = prepend s (go_unquote r)"
proof -
  have "\<forall>c\<in>set s. 0x80 \<le> ord c" using multi_bytes [OF assms(1)] assms(2) by blast
  from go_unquote_raw [OF this, of r] have raw: "go_unquote (s @ r) = prepend s (go_unquote r)" .
  note cp = multi_code_point [OF assms]
  have u: "read_escape (CHR ''u'') (hex_digits 4 (code_point s) @ r) = Some (s, r)" if "code_point s < 0x10000"
    using that cp(1) numeric_escape_digits [of "code_point s" 4 utf8_of r] by (simp add: read_escape_def literal_escape_def dq_def bs_def)
  have "read_escape (CHR ''U'') (hex_digits 8 (code_point s) @ r) = Some (s, r)"
    using cp numeric_escape_digits [of "code_point s" 8 utf8_of r] by (simp add: read_escape_def literal_escape_def dq_def bs_def)
  then show ?thesis using raw go_unquote_escape [OF u] go_unquote_escape by (simp add: quote_multi_def)
qed

lemma go_unquote_quoted: "go_unquote (quoted p s @ dq # r) = Some (s, r)"
proof (induction p s rule: quoted.induct)
  case (2 p c cs)
  consider "ord c < 0x80" | "\<not> ord c < 0x80" "utf8_len (c # cs) = 0" | "\<not> ord c < 0x80" "utf8_len (c # cs) \<noteq> 0" by blast
  then show ?case
  proof cases
    case 1
    then show ?thesis using 2(1) by (simp add: go_unquote_ascii)
  next
    case b: 2
    then show ?thesis using 2(2) by (simp add: go_unquote_byte)
  next
    case 3
    let ?k = "utf8_len (c # cs)"
    have "take ?k (c # cs) @ drop (?k - 1) cs = c # cs" using 3(2) by (cases ?k) simp_all
    then show ?thesis using 3 2(3) go_unquote_multi [OF 3(2) refl] by simp
  qed
qed (simp add: go_unquote.simps(2))

subsection \<open>Names and labels\<close>

type_synonym reading = "string \<times> (string \<times> string) list \<times> string"

function read_labels :: "string \<Rightarrow> (string \<times> string) list option" where
  "read_labels s = (case dropWhile (\<lambda>c. c \<noteq> CHR ''='') s of
     e # q # rest \<Rightarrow>
       (if q \<noteq> dq then None
        else (case go_unquote rest of
            Some (v, c # r) \<Rightarrow>
              (if c = CHR ''}'' \<and> r = [] then Some [(takeWhile (\<lambda>c. c \<noteq> CHR ''='') s, v)]
               else if c = CHR '','' then map_option (Cons (takeWhile (\<lambda>c. c \<noteq> CHR ''='') s, v)) (read_labels r)
               else None)
          | _ \<Rightarrow> None))
   | _ \<Rightarrow> None)"
  by pat_completeness auto
termination read_labels
proof (relation "measure length", goal_cases)
  case (2 s)
  then show ?case using length_dropWhile_le [of "\<lambda>c. c \<noteq> CHR ''=''" s] by (auto dest!: go_unquote_shorter)
qed simp

declare read_labels.simps [simp del]

definition read_series :: "string \<Rightarrow> (string \<times> (string \<times> string) list) option" where
  "read_series s = (case dropWhile (\<lambda>c. c \<noteq> CHR ''{'') s of
     [] \<Rightarrow> None
   | c # ls \<Rightarrow> map_option (Pair (takeWhile (\<lambda>c. c \<noteq> CHR ''{'') s)) (read_labels ls))"

definition read_sample :: "string \<times> string \<Rightarrow> reading option" where
  "read_sample nv = map_option (\<lambda>(name, labels). (name, labels, snd nv)) (read_series (fst nv))"

text \<open>The readings of a text: of the lines that are no comments, cut at their last space; \<open>None\<close> if one cannot be read.\<close>

definition scrape :: "string \<Rightarrow> reading list option" where
  "scrape s = those (map read_sample (samples s))"

lemma cut_at:
  "c \<notin> set k \<Longrightarrow> takeWhile (\<lambda>d. d \<noteq> c) (k @ c # r) = k" "c \<notin> set k \<Longrightarrow> dropWhile (\<lambda>d. d \<noteq> c) (k @ c # r) = c # r"
  by (induction k) auto

lemma read_label_last:
  "CHR ''='' \<notin> set k \<Longrightarrow> read_labels (k @ CHR ''='' # Quote p v @ ''}'') = Some [(k, v)]"
  by (subst read_labels.simps) (simp add: cut_at Quote_def go_unquote_quoted)

lemma read_label_more:
  "CHR ''='' \<notin> set k \<Longrightarrow> read_labels (k @ CHR ''='' # Quote p v @ CHR '','' # r) = map_option (Cons (k, v)) (read_labels r)"
  by (subst read_labels.simps) (simp add: cut_at Quote_def go_unquote_quoted)

lemma read_series_name: "CHR ''{'' \<notin> set name \<Longrightarrow> read_series (name @ CHR ''{'' # ls) = map_option (Pair name) (read_labels ls)"
  by (simp add: read_series_def cut_at)

lemma read_instance:
  "CHR ''{'' \<notin> set name \<Longrightarrow> read_series (name @ ''{'' @ (''instance_id='' @ Quote p i) @ ''}'') = Some (name, [(''instance_id'', i)])"
  using read_label_last [of "''instance_id''" p i] by (simp add: read_series_name)

lemma read_bucket:
  "CHR ''{'' \<notin> set name \<Longrightarrow>
    read_series (name @ ''_bucket{le='' @ Quote p b @ '','' @ (''instance_id='' @ Quote p i) @ ''}'') =
      Some (name @ ''_bucket'', [(''le'', b), (''instance_id'', i)])"
  using read_label_last [of "''instance_id''" p i] read_label_more [of "''le''" p b "''instance_id='' @ Quote p i @ ''}''"]
    read_series_name [of "name @ ''_bucket''"] by simp

lemma quoted_inf: "[dq] @ ''+Inf'' @ [dq] = Quote p ''+Inf''"
  by (simp add: Quote_def quote_ascii_def dq_def bs_def)

subsection \<open>What is to be read\<close>

text \<open>
  Every metric with its name: the gauge, the eleven counters, and of the five histograms the buckets, the sum and the count. The
  labels are the bound of the bucket and the name of the instance, as it is.
\<close>

definition histogram_readings :: "formats \<Rightarrow> string \<Rightarrow> string \<Rightarrow> histogram \<Rightarrow> reading list" where
  "histogram_readings fm i name h =
     map (\<lambda>(b, n). (name @ ''_bucket'', [(''le'', fmBucket fm b), (''instance_id'', i)], FormatUint n)) (zip (hBuckets h) (hCounts h)) @
     [(name @ ''_bucket'', [(''le'', ''+Inf''), (''instance_id'', i)], FormatUint (hCount h)),
      (name @ ''_sum'', [(''instance_id'', i)], fmSum fm (hSum h)),
      (name @ ''_count'', [(''instance_id'', i)], FormatUint (hCount h))]"

definition readings :: "formats \<Rightarrow> string \<Rightarrow> Metrics \<Rightarrow> reading list" where
  "readings fm i m =
     [(''livecollab_websocket_connections'', [(''instance_id'', i)], FormatInt (sint (websocketConnections m))),
      (''livecollab_operations_total'', [(''instance_id'', i)], FormatUint (operationsTotal m)),
      (''livecollab_operation_errors_total'', [(''instance_id'', i)], FormatUint (operationErrors m)),
      (''livecollab_stale_write_rejections_total'', [(''instance_id'', i)], FormatUint (staleWriteRejections m)),
      (''livecollab_reconnects_total'', [(''instance_id'', i)], FormatUint (reconnectsTotal m)),
      (''livecollab_resume_success_total'', [(''instance_id'', i)], FormatUint (resumeSuccessTotal m)),
      (''livecollab_resume_failures_total'', [(''instance_id'', i)], FormatUint (resumeFailuresTotal m)),
      (''livecollab_replayed_events_total'', [(''instance_id'', i)], FormatUint (replayedEventsTotal m)),
      (''livecollab_sequence_gaps_total'', [(''instance_id'', i)], FormatUint (sequenceGapsTotal m)),
      (''livecollab_stream_events_total'', [(''instance_id'', i)], FormatUint (streamEventsTotal m)),
      (''livecollab_redis_errors_total'', [(''instance_id'', i)], FormatUint (redisErrorsTotal m)),
      (''livecollab_http_requests_total'', [(''instance_id'', i)], FormatUint (httpRequestsTotal m))] @
     histogram_readings fm i ''livecollab_operation_duration_seconds'' (operationDuration m) @
     histogram_readings fm i ''livecollab_redis_command_duration_seconds'' (redisDuration m) @
     histogram_readings fm i ''livecollab_stream_propagation_lag_seconds'' (streamLag m) @
     histogram_readings fm i ''livecollab_resume_duration_seconds'' (resumeDuration m) @
     histogram_readings fm i ''livecollab_http_request_duration_seconds'' (httpDuration m)"

lemma read_sample_instance:
  "CHR ''{'' \<notin> set name \<Longrightarrow> read_sample (name @ ''{'' @ (''instance_id='' @ Quote p i) @ ''}'', v) = Some (name, [(''instance_id'', i)], v)"
  unfolding read_sample_def fst_conv snd_conv by (subst read_instance) simp_all

lemma read_sample_bucket:
  "CHR ''{'' \<notin> set name \<Longrightarrow>
    read_sample (name @ ''_bucket{le='' @ Quote p b @ '','' @ (''instance_id='' @ Quote p i) @ ''}'', v) =
      Some (name @ ''_bucket'', [(''le'', b), (''instance_id'', i)], v)"
  unfolding read_sample_def fst_conv snd_conv by (subst read_bucket) simp_all

lemma read_histogram:
  assumes "CHR ''{'' \<notin> set name"
  shows "map read_sample (histogram_samples fm (''instance_id='' @ Quote (fmPrint fm) i) (name, help, h)) =
    map Some (histogram_readings fm i name h)"
proof -
  let ?L = "''instance_id='' @ Quote (fmPrint fm) i"
  have "read_sample (name @ ''_bucket{le='' @ [dq] @ ''+Inf'' @ [dq] @ '','' @ ?L @ ''}'', v) =
      Some (name @ ''_bucket'', [(''le'', ''+Inf''), (''instance_id'', i)], v)" for v
    using read_sample_bucket [OF assms, of "fmPrint fm" "''+Inf''" i v] by (simp add: quoted_inf [of "fmPrint fm", symmetric])
  moreover have "read_sample (name @ ''_sum{'' @ ?L @ ''}'', v) = Some (name @ ''_sum'', [(''instance_id'', i)], v)"
    "read_sample (name @ ''_count{'' @ ?L @ ''}'', v) = Some (name @ ''_count'', [(''instance_id'', i)], v)" for v
    using read_sample_instance [of "name @ ''_sum''" "fmPrint fm" i v] read_sample_instance [of "name @ ''_count''" "fmPrint fm" i v] assms
    by simp_all
  moreover have "map read_sample (map (\<lambda>(b, n). (name @ ''_bucket{le='' @ Quote (fmPrint fm) (fmBucket fm b) @ '','' @ ?L @ ''}'', FormatUint n)) xs) =
      map Some (map (\<lambda>(b, n). (name @ ''_bucket'', [(''le'', fmBucket fm b), (''instance_id'', i)], FormatUint n)) xs)" for xs
    by (induction xs) (auto simp only: list.map prod.case read_sample_bucket [OF assms])
  ultimately show ?thesis
    unfolding histogram_samples_def histogram_readings_def prod.case map_append by (simp only: list.map)
qed

lemma read_counters:
  "list_all (\<lambda>(name, help, val). CHR ''{'' \<notin> set name) cs \<Longrightarrow>
    map read_sample (map (\<lambda>(name, help, val). (name @ ''{'' @ (''instance_id='' @ Quote p i) @ ''}'', FormatUint val)) cs) =
      map Some (map (\<lambda>(name, help, val). (name, [(''instance_id'', i)], FormatUint val)) cs)"
proof (induction cs)
  case (Cons c cs)
  obtain name about val where c: "c = (name, about, val)" by (cases c) auto
  then have "CHR ''{'' \<notin> set name" using Cons.prems by simp
  from read_sample_instance [OF this, of p i "FormatUint val"] Cons show ?case unfolding c list.map prod.case by simp
qed simp

lemma read_histograms:
  "list_all (\<lambda>(name, help, h). CHR ''{'' \<notin> set name) hs \<Longrightarrow>
    map read_sample (concat (map (histogram_samples fm (''instance_id='' @ Quote (fmPrint fm) i)) hs)) =
      map Some (concat (map (\<lambda>(name, help, h). histogram_readings fm i name h) hs))"
proof (induction hs)
  case (Cons c hs)
  obtain name about h where c: "c = (name, about, h)" by (cases c) auto
  then have "CHR ''{'' \<notin> set name" using Cons.prems by simp
  from read_histogram [OF this, of fm i about h] Cons show ?case unfolding c list.map prod.case concat.simps map_append by simp
qed simp

lemma read_metrics: "map read_sample (metric_samples fm i m) = map Some (readings fm i m)"
proof -
  let ?L = "''instance_id='' @ Quote (fmPrint fm) i"
  have "CHR ''{'' \<notin> set ''livecollab_websocket_connections''" by simp
  from read_sample_instance [OF this, of "fmPrint fm" i "FormatInt (sint (websocketConnections m))"] have
    g: "read_sample (''livecollab_websocket_connections{'' @ ?L @ ''}'', FormatInt (sint (websocketConnections m))) =
      Some (''livecollab_websocket_connections'', [(''instance_id'', i)], FormatInt (sint (websocketConnections m)))" by simp
  have "list_all (\<lambda>(name, help, val). CHR ''{'' \<notin> set name) (counters m)" by (simp add: counters_def)
  note c = read_counters [OF this, of "fmPrint fm" i]
  have "list_all (\<lambda>(name, help, h). CHR ''{'' \<notin> set name) (histograms m)" by (simp add: histograms_def)
  note h = read_histograms [OF this, of fm i]
  show ?thesis
    unfolding metric_samples_def Let_def list.map(2) map_append g c h by (simp add: readings_def counters_def histograms_def)
qed

lemma scrape_Prometheus: "formats_ok fm \<Longrightarrow> scrape (Prometheus fm i m) = Some (readings fm i m)"
proof -
  have "those (map Some xs) = Some xs" for xs :: "'a list" by (induction xs) simp_all
  then show "formats_ok fm \<Longrightarrow> ?thesis" by (simp add: scrape_def samples_Prometheus read_metrics)
qed

end
