(* ===== verification/Log_Lines.thy ===== *)
theory Log_Lines
  imports Telemetry
begin

section \<open>Log lines are read back\<close>

text \<open>What \<open>Event\<close> of theory \<open>Telemetry\<close> prints is one JSON object, whatever bytes its texts hold.\<close>

lemma marshal_attrs_Some:
  "marshal_attrs f kvs = Some xs \<Longrightarrow> (k, v) \<in> set xs \<Longrightarrow> \<exists>a. (k, a) \<in> set kvs \<and> f a = Some v"
  by (induction kvs arbitrary: xs) (auto simp: marshal_attrs_def split: option.splits, blast+)

lemma marshal_attrs_None: "marshal_attrs f kvs = None \<Longrightarrow> \<exists>k a. (k, a) \<in> set kvs \<and> f a = None"
  by (induction kvs) (auto simp: marshal_attrs_def split: option.splits)

lemma attr_json_plain: "\<forall>x. number_text (fmt x) \<Longrightarrow> attr_json fmt a = Some v \<Longrightarrow> plain_json v \<and> nesting v = 0"
  by (cases a) (auto simp: FormatUint_def number_text_FormatInt float_json_def split: float64.splits)

lemma attr_json_None: "attr_json fmt a = None \<Longrightarrow> \<exists>v. a = AFloat v \<and> (\<forall>x. v \<noteq> Fin x)"
  by (cases a) (auto simp: float_json_def split: float64.splits)

lemma go_map_plain:
  assumes "\<forall>(k, v)\<in>set kvs. plain_json v \<and> nesting v = 0"
  shows "parse_json (render (go_map kvs)) = Some (scrub_json (go_map kvs))"
proof -
  have "plain_json (the (map_of (rev kvs) k)) \<and> nesting (the (map_of (rev kvs) k)) = 0" if key: "k \<in> fst ` set kvs" for k
  proof -
    obtain v where v: "map_of (rev kvs) k = Some v" using key by (cases "map_of (rev kvs) k") (auto simp: map_of_eq_None_iff)
    then show ?thesis using assms map_of_SomeD [OF v] by auto
  qed
  then show ?thesis unfolding go_map_def by (intro parse_scrubbed(1)) (auto simp: max_depth_def)
qed

lemma Event_read:
  assumes "\<forall>x. number_text (fmt x)" "Event fmt now l level event flds = Some line"
  shows "lgEnabled l \<and> (\<exists>kvs. marshal_attrs (attr_json fmt) flds = Some kvs \<and>
    parse_json line = Some (scrub_json (go_map ([(''timestamp'', JStr now), (''level'', JStr level), (''event'', JStr event),
      (''instanceId'', JStr (lgInstanceID l))] @ kvs))))"
proof -
  obtain kvs where kvs: "lgEnabled l" "marshal_attrs (attr_json fmt) flds = Some kvs"
    "line = render (go_map ([(''timestamp'', JStr now), (''level'', JStr level), (''event'', JStr event),
      (''instanceId'', JStr (lgInstanceID l))] @ kvs))"
    using assms(2) by (auto simp: Event_def split: if_splits simp del: render.simps)
  have "\<forall>(k, v)\<in>set kvs. plain_json v \<and> nesting v = 0"
    using marshal_attrs_Some [OF kvs(2)] attr_json_plain [OF assms(1)] by blast
  then show ?thesis using kvs go_map_plain [of "[(''timestamp'', JStr now), (''level'', JStr level), (''event'', JStr event),
      (''instanceId'', JStr (lgInstanceID l))] @ kvs"] by auto
qed

end
