(* ===== verification/Room_Equivalence.thy ===== *)
theory Room_Equivalence
  imports Operation_Rooms
begin

section \<open>A room in memory and a room in Redis\<close>

text \<open>
  \<open>applyLocalContentUpdate\<close> of \<^verbatim>\<open>backend/room.go\<close> against the Lua script of \<^verbatim>\<open>backend/redis_store.go\<close>.
\<close>

text \<open>
  A run of operations on one room, through \<open>Room.ApplyOperation\<close> with nobody else acting: each with its content,
  its base version, its identifiers and the policy of the backend. What the two kinds of rooms answer differs in the
  identifier of the stream entry alone.
\<close>

record room_op =
  roWrite :: write_op
  roPolicy :: StaleWritePolicy
  roOperation :: string
  roClient :: string
  roUser :: string

fun room_run :: "'db exec \<Rightarrow> room_op list \<Rightarrow> Room \<Rightarrow> 'db \<Rightarrow> ApplyContentResult store_result list \<times> Room \<times> 'db" where
  "room_run exec [] r db = ([], r, db)"
| "room_run exec (x # xs) r db =
     (case ApplyOperation exec calm (wContent (roWrite x)) (wBase (roWrite x)) (roPolicy x) (roOperation x) (roClient x) (roUser x) r db of
        (res, r, db) \<Rightarrow> (case room_run exec xs r db of (rest, r, db) \<Rightarrow> (res # rest, r, db)))"

text \<open>An answer without the identifier of its stream entry.\<close>

definition unstreamed :: "ApplyContentResult store_result \<Rightarrow> ApplyContentResult store_result" where
  "unstreamed res = (case res of Ok a \<Rightarrow> Ok (a\<lparr>arStreamID := []\<rparr>) | _ \<Rightarrow> res)"

lemma unstreamed_occ [simp]: "unstreamed (Ok (occ_result policy w s sid)) = Ok (occ_result policy w s [])"
  by (simp add: unstreamed_def occ_result_def)

text \<open>The results that the two must have, and the document they must end with.\<close>

fun reference_run :: "room_op list \<Rightarrow> RoomSnapshot \<Rightarrow> ApplyContentResult store_result list \<times> RoomSnapshot" where
  "reference_run [] s = ([], s)"
| "reference_run (x # xs) s =
     (case reference_run xs (occ_next (roPolicy x) (roWrite x) s) of
        (rest, s') \<Rightarrow> (Ok (occ_result (roPolicy x) (roWrite x) s []) # rest, s'))"

lemma local_room_reference:
  assumes "\<not> rStore r" "room_sound r" "fits max_int64 (int (length xs)) (room_snapshot r)"
    and "room_run exec xs r db = (res, r', db')"
  shows "map unstreamed res = fst (reference_run xs (room_snapshot r)) \<and> room_snapshot r' = snd (reference_run xs (room_snapshot r)) \<and> db' = db"
  using assms
proof (induction xs arbitrary: r res)
  case (Cons x xs)
  have fit: "fits max_int64 1 (room_snapshot r)" using Cons.prems(3) by (rule fits_mono) simp
  obtain r1 where r1: "local_write (roPolicy x) (roWrite x) r = (occ_result (roPolicy x) (roWrite x) (room_snapshot r) [], r1)"
    using local_write_result [OF Cons.prems(2) fit, of "roWrite x" "roPolicy x"] by (metis prod.collapse)
  have n: "room_snapshot r1 = occ_next (roPolicy x) (roWrite x) (room_snapshot r)" "room_sound r1" "\<not> rStore r1"
    using local_doc.snapshot_apply [OF Cons.prems(2) TrueI fit, where w = "roWrite x" and policy = "roPolicy x"]
      local_doc.sound_apply [OF Cons.prems(2) TrueI fit, where w = "roWrite x" and policy = "roPolicy x"]
      local_write_frame(2) [of "wContent (roWrite x)" "wBase (roWrite x)" "roPolicy x" r] Cons.prems(1) r1 by simp_all
  obtain rest where rest: "room_run exec xs r1 db = (rest, r', db')" "res = Ok (occ_result (roPolicy x) (roWrite x) (room_snapshot r) []) # rest"
    using Cons.prems(1,4) r1 by (auto simp: ApplyOperation_def split: prod.splits)
  have "fits max_int64 (int (length xs)) (room_snapshot r1)"
    unfolding n(1) by (rule fits_next) (use Cons.prems(3) in \<open>simp_all add: add.commute\<close>)
  from Cons.IH [OF n(3,2) this rest(1)] show ?case
    by (simp add: rest(2) n(1) split: prod.split)
qed simp

lemma distributed_room_reference:
  assumes "redis_server E V K" "K db" "redis_room (V db) (rID r) L" "cache_ok L r" "room_snapshot r = snapshot_of L"
    and "int (length L) + int (length xs) \<le> log_limit" "room_run (document_exec E) xs r db = (res, r', db')"
  shows "map unstreamed res = fst (reference_run xs (snapshot_of L)) \<and> room_snapshot r' = snd (reference_run xs (snapshot_of L))"
  using assms(2-7)
proof (induction xs arbitrary: r db L res)
  case (Cons x xs)
  let ?op = "ApplyOperation (document_exec E) calm (wContent (roWrite x)) (wBase (roWrite x)) (roPolicy x) (roOperation x) (roClient x) (roUser x)"
  have calm: "before calm 0 db = db" "link_of calm 0 = LinkUp" by (simp_all add: calm_def)
  have w: "\<lparr>wContent = wContent (roWrite x), wBase = wBase (roWrite x)\<rparr> = roWrite x" by simp
  obtain sid r1 db1 L1 where 1: "?op r db = (Ok (occ_result (roPolicy x) (roWrite x) (snapshot_of L) sid), r1, db1)" "K db1"
    "redis_room (V db1) (rID r) L1" "cache_ok L1 r1" "room_snapshot r1 = snapshot_of L1"
    "snapshot_of L1 = occ_next (roPolicy x) (roWrite x) (snapshot_of L)"
    by (rule ApplyOperation_cache [OF assms(1), of calm db r L "wContent (roWrite x)" "wBase (roWrite x)" "roPolicy x"
          "roOperation x" "roClient x" "roUser x", unfolded w]) (use Cons.prems calm in simp_all)
  have id: "rID r1 = rID r" using 1(1) local_write_frame(3) [of "wContent (roWrite x)" "wBase (roWrite x)" "roPolicy x" r]
    by (auto simp: ApplyOperation_def split: if_splits prod.splits outcome.splits)
  have "int (length L1) \<le> int (length L) + 1" using arg_cong [OF 1(6), of sVersion] by (simp add: occ_next_def split: if_splits)
  then have n: "int (length L1) + int (length xs) \<le> log_limit" using Cons.prems(5) by simp
  obtain rest where rest: "room_run (document_exec E) xs r1 db1 = (rest, r', db')"
    "res = Ok (occ_result (roPolicy x) (roWrite x) (snapshot_of L) sid) # rest"
    using Cons.prems(6) 1(1) by (auto split: prod.splits)
  from Cons.IH [OF 1(2) _ 1(4,5) n rest(1)] 1(3) show ?case
    by (simp add: rest(2) id 1(6) split: prod.split)
qed simp

end
