(* ===== verification/Server_Properties.thy ===== *)
theory Server_Properties
  imports Server_Rooms Scrape Log_Lines Room_Equivalence Mem_Room
begin

section \<open>Properties of the server\<close>

text \<open>
  The claims about the HTTP server, the texts it gives out, the start of the process, the calls of the store, and the
  two kinds of rooms side by side.
\<close>

subsection \<open>The two kinds of rooms\<close>

definition demo_cache :: Room where
  "demo_cache = \<lparr>rID = ''r1'', rContent = ''abc'', rVersion = 3, rSequence = 3, rClients = [], rStore = True, localPresenceRevision = 0\<rparr>"

lemma demo_cache_ok: "cache_ok demo_log demo_cache" "room_snapshot demo_cache = snapshot_of demo_log" "rID demo_cache = ''r1''"
  by (rule cache_okI [of _ demo_log])
    (simp_all add: demo_cache_def room_snapshot_def snapshot_of_def demo_log_def demo_event_def)

text \<open>
  C9: A room in memory and a room in Redis are the same document. From equal states, any run of operations
  with any base versions, contents and policies, with nobody else acting, is answered alike by both, except for the
  identifier of the stream entry: accepted or refused alike, with the same versions, sequences and contents; and
  both end with the same content, version and sequence.
\<close>

theorem rooms_equivalent:
  assumes "redis_server E V K" "K db" "redis_room (V db) (rID r) L" "cache_ok L r" "room_snapshot r = snapshot_of L"
    and "int (length L) + int (length xs) \<le> log_limit" "\<not> rStore r'" "room_snapshot r' = snapshot_of L"
    and "room_run (document_exec E) xs r db = (res, r1, db1)" "room_run exec xs r' db' = (res', r1', db1')"
  shows "map unstreamed res = map unstreamed res' \<and> room_snapshot r1 = room_snapshot r1'"
proof -
  have s: "rVersion r' = int (length L)" "rSequence r' = int (length L)"
    using assms(8) by (simp_all add: room_snapshot_def snapshot_of_def)
  then have "room_sound r'" "fits max_int64 (int (length xs)) (room_snapshot r')"
    using assms(6) by (simp_all add: room_sound_def fits_def room_snapshot_def)
  from local_room_reference [OF assms(7) this assms(10)] distributed_room_reference [OF assms(1-6,9)]
  show ?thesis using assms(8) by simp
qed

theorem rooms_equivalent_witness:
  "\<exists>res r1 db1 res' r1' db1'.
    room_run (document_exec mem_exec) [\<lparr>roWrite = \<lparr>wContent = ''new'', wBase = 3\<rparr>, roPolicy = StaleWriteReject, roOperation = ''o'',
      roClient = ''c'', roUser = ''u''\<rparr>] demo_cache demo_db = (res, r1, db1) \<and>
    room_run (\<lambda>args db. (RNil, db)) [\<lparr>roWrite = \<lparr>wContent = ''new'', wBase = 3\<rparr>, roPolicy = StaleWriteReject, roOperation = ''o'',
      roClient = ''c'', roUser = ''u''\<rparr>] (demo_cache\<lparr>rStore := False\<rparr>) () = (res', r1', db1') \<and>
    map unstreamed res = map unstreamed res' \<and> room_snapshot r1 = room_snapshot r1' \<and> rContent r1' = ''new''"
proof -
  let ?xs = "[\<lparr>roWrite = \<lparr>wContent = ''new'', wBase = 3\<rparr>, roPolicy = StaleWriteReject, roOperation = ''o'', roClient = ''c'', roUser = ''u''\<rparr>]"
  let ?l = "demo_cache\<lparr>rStore := False\<rparr>"
  obtain res r1 db1 where 1: "room_run (document_exec mem_exec) ?xs demo_cache demo_db = (res, r1, db1)" by (metis prod_cases3)
  obtain res' r1' db1' where 2: "room_run (\<lambda>args db. (RNil, db)) ?xs ?l () = (res', r1', db1')" by (metis prod_cases3)
  have "rContent r1' = ''new''" using 2 by (auto simp: ApplyOperation_def applyLocalContentUpdate_def demo_cache_def Let_def)
  moreover have "map unstreamed res = map unstreamed res' \<and> room_snapshot r1 = room_snapshot r1'"
  proof (rule rooms_equivalent [OF mem_redis_server _ _ demo_cache_ok(1) demo_cache_ok(2) _ _ _ 1 2])
    show "int (length demo_log) + int (length ?xs) \<le> log_limit" by (simp add: demo_log_def)
    show "room_snapshot ?l = snapshot_of demo_log" using demo_cache_ok(2) by (simp add: room_snapshot_def)
  qed (simp_all add: demo_cache_ok(3))
  ultimately show ?thesis using 1 2 by blast
qed

subsection \<open>Calls of the store\<close>

text \<open>
  The metrics of Redis are exact. Over any run of calls of the store, with any delay and over any links, the counter
  of errors grows by the calls that failed, and the histogram of durations by the calls other than
  \<open>XREAD\<close>, which waits for news and is left out.
\<close>

theorem redis_calls_counted:
  assumes "rsTelemetry st" "\<forall>x. 0 \<le> x \<longrightarrow> 0 \<le> rnd x" "0 \<le> rsDelayMs st" "\<forall>(args, link, since)\<in>set calls. 0 \<le> since"
    and "store_run rnd text st exec calls db = (rs, effs, db')"
  shows "redisErrorsTotal (fold (metric_call rnd) (metrics_of effs) m) = redisErrorsTotal m + of_nat (failed_calls rs) \<and>
    hCount (redisDuration (fold (metric_call rnd) (metrics_of effs) m)) = hCount (redisDuration m) + of_nat (measured_calls rs)"
  by (rule store_run_counted [OF assms])

theorem redis_calls_counted_witness:
  "\<exists>rs effs. store_run id (\<lambda>e. ''down'') (SetTelemetry True NewRedisStore) mem_exec
      [([''PING''], LinkUp, 1), ([''GET'', ''k''], DialFails ''down'', 2)] demo_db = (rs, effs, demo_db) \<and>
    redisErrorsTotal (fold (metric_call id) (metrics_of effs) NewMetrics) = 1 \<and>
    hCount (redisDuration (fold (metric_call id) (metrics_of effs) NewMetrics)) = 2"
proof -
  let ?st = "SetTelemetry True NewRedisStore" and ?calls = "[([''PING''], LinkUp, 1), ([''GET'', ''k''], DialFails ''down'', 2)]"
  obtain rs effs db' where r: "store_run id (\<lambda>e. ''down'') ?st mem_exec ?calls demo_db = (rs, effs, db')" by (metis prod_cases3)
  have n: "failed_calls rs = 1 \<and> measured_calls rs = 2 \<and> db' = demo_db"
    using r by (auto simp: store_do_def redis_do_def mem_exec_def failed_calls_def measured_calls_def call_error_def command_name_def
        to_upper_def NewRedisStore_def SetTelemetry_def Let_def split: prod.splits)
  have "redisErrorsTotal (fold (metric_call id) (metrics_of effs) NewMetrics) = redisErrorsTotal NewMetrics + of_nat (failed_calls rs) \<and>
    hCount (redisDuration (fold (metric_call id) (metrics_of effs) NewMetrics)) = hCount (redisDuration NewMetrics) + of_nat (measured_calls rs)"
    by (rule redis_calls_counted [OF _ _ _ _ r]) (simp_all add: SetTelemetry_def NewRedisStore_def)
  then show ?thesis using r n by (simp add: NewMetrics_def newHistogram_def)
qed

subsection \<open>Requests\<close>

text \<open>A backend \<open>i1\<close> on the store of \<open>Mem_Room\<close>, with debug faults, and what a request meets there.\<close>

definition demo_server_config :: Config where
  "demo_server_config = \<lparr>Port = ''8080'', AllowedOrigins = [''http://localhost:5173''], StaleWritePolicy = StaleWriteReject,
     TraceFile = [], RedisAddr = ''redis:6379'', InstanceID = ''i1'', ServiceName = ''livecollab-backend'', OTLPEndpoint = [],
     JSONLogs = True, EnableDebugFaults = True, RedisDelayMs = 0,
     Presence = \<lparr>HeartbeatInterval = 10 * Second, LeaseDuration = 30 * Second, SweepInterval = 5 * Second\<rparr>\<rparr>"

definition demo_http :: "view http_env" where
  "demo_http = \<lparr>hnConfig = demo_server_config, hnNet = calm, hnGetOthers = (\<lambda>m. m), hnBetween = (\<lambda>b. b), hnSnapshotNet = calm,
     hnRoomRandom = Some ''abcdef'', hnTraceRandom = Some ''0123456789abcdef'', hnSpanRandom = Some ''01234567'',
     hnRedisSpanRandom = Some ''76543210'', hnRedisStarted = 1, hnRedisEnded = 2, hnRedisMs = Fin 1, hnStarted = 1, hnEnded = 3,
     hnSeconds = Fin 1, hnDurationMs = Fin 1, hnMetrics = NewMetrics,
     hnFormats = \<lparr>fmBucket = (\<lambda>x. ''1''), fmSum = (\<lambda>x. ''0.0''), fmPrint = (\<lambda>n. True)\<rparr>,
     hnSession = \<lparr>seConfig = demo_server_config, seRandom = None, seConn = new_conn, seClient = 0, seNet = (\<lambda>i. calm),
       seGetOthers = (\<lambda>m. m), seOthers = (\<lambda>i b. b),
       seResume = \<lparr>reNet = calm, reOffers = (\<lambda>i. []), reElapsed = Fin 0, reDurationMs = 0, reLogMs = 0, reStarted = 0,
         reEnded = 0, reTraceID = [], reSpanID = [], reInstanceID = []\<rparr>,
       seOp = (\<lambda>k. \<lparr>opNet = (\<lambda>i. calm), opOthers = (\<lambda>i w. w), opConfig = demo_server_config, opTraceID = [], opSpanID = [],
         opStarted = 0, opEnded = 0, opElapsed = Fin 0, opDurationMs = Fin 0, opErrorText = (\<lambda>e. [])\<rparr>),
       seErrorText = (\<lambda>e. [])\<rparr>,
     hnInputs = []\<rparr>"

definition demo_app :: "view app" where
  "demo_app = \<lparr>apBackend = \<lparr>bkManager = NewDistributedRoomManager True ''i1'' [],
       bkHeap = (\<lambda>q. \<lparr>cConn = None, cUsername = [], cRoomID = [], cClientID = [], cConnectionID = [], cInstanceID = [], presenceRevision = 0,
         presenceSent = False, replaying = False, lastSequence = 0, pending = None\<rparr>), bkDb = demo_db\<rparr>,
     apStore = SetTelemetry True NewRedisStore\<rparr>"

lemma demo_http_simps [simp]:
  "hnConfig demo_http = demo_server_config" "AllowedOrigins demo_server_config = [''http://localhost:5173'']"
  "InstanceID demo_server_config = ''i1''" "EnableDebugFaults demo_server_config"
  "hnNet demo_http = calm" "hnSnapshotNet demo_http = calm" "hnBetween demo_http = (\<lambda>b. b)" "undisturbed demo_http"
  "hnRoomRandom demo_http = Some ''abcdef''"
  by (simp_all add: demo_http_def demo_server_config_def undisturbed_def)

lemma demo_app_simps [simp]:
  "app_db demo_app = demo_db" "mStore (app_manager demo_app)" "mRooms (app_manager demo_app) rid = None"
  "rsDelayMs (apStore demo_app) = 0"
  by (simp_all add: demo_app_def NewDistributedRoomManager_def NewRoomManager_def SetTelemetry_def NewRedisStore_def)

lemma demo_app_manager [simp]: "manager_ok (app_manager demo_app)"
  by (simp add: demo_app_def NewDistributedRoomManager_ok)


text \<open>
  C29: The server lets a page read an answer exactly when its origin is allowed. In every answer,
  errors, redirections and 405s included, \<open>Access-Control-Allow-Origin\<close> is the origin of the request when there is one and it is
  allowed, with \<open>Vary\<close>, and is absent otherwise; and a preflight is answered at once, 204 or 403, and does nothing.
\<close>

theorem cors_origin:
  assumes "Handler exec env req a = Some (out, effs, a')" "out_header out = Some h"
  defines "allowed \<equiv> originAllowed (hrOrigin req) (AllowedOrigins (hnConfig env))"
  shows "h ''Access-Control-Allow-Origin'' = (if allowed \<and> hrOrigin req \<noteq> [] then Some (hrOrigin req) else None) \<and>
    h ''Vary'' = (if allowed \<and> hrOrigin req \<noteq> [] then Some ''Origin'' else None) \<and>
    (hrMethod req = ''OPTIONS'' \<longrightarrow> effs = [] \<and> a' = a \<and> (\<exists>r. out = Responded r \<and> hsStatus r = (if allowed then 204 else 403)))"
proof -
  have "h k = cors_header (hrOrigin req) (AllowedOrigins (hnConfig env)) k" if "k \<in> cors_names" for k
    by (rule Handler_cors [OF assms(1,2) that])
  then have "h ''Access-Control-Allow-Origin'' = (if allowed \<and> hrOrigin req \<noteq> [] then Some (hrOrigin req) else None)"
    "h ''Vary'' = (if allowed \<and> hrOrigin req \<noteq> [] then Some ''Origin'' else None)"
    by (simp_all add: cors_names_def cors_header_def allowed_def)
  moreover have "effs = [] \<and> a' = a \<and> (\<exists>r. out = Responded r \<and> hsStatus r = (if allowed then 204 else 403))" if "hrMethod req = ''OPTIONS''"
    using assms(1) that by (auto simp: Handler_def enableCORS_def http_Error_def Let_def allowed_def split: if_splits)
  ultimately show ?thesis by blast
qed

text \<open>
  C24: Every JSON answer is JSON of its type. Whatever bytes the instance, the rooms and the requests have in their names, a body
  that goes out as \<open>application/json\<close> parses as one object, in which the status, the instance, the reason and the room are strings of
  valid UTF-8, and the version, the sequence and the delay are whole numbers, and which has no other fields.
\<close>

theorem json_answers_typed:
  assumes "Handler exec env req a = Some (Responded r, effs, a')" "hsHeader r ''Content-Type'' = Some ''application/json''"
  shows "\<exists>ms. parse_json (hsBody r) = Some (JObj ms) \<and> list_all field_typed ms"
  using Handler_typed [OF assms(1)] assms(2) by (simp add: typed_out_def body_typed_def)

text \<open>
  C30: The artificial delay is bounded. A request changes the store only when the debug faults are enabled and there is a store, as a
  POST to the path of the delay, and then to a delay of 0 to 5000 milliseconds: the one that the query names.
\<close>

theorem delay_bounded:
  assumes "Handler exec env req a = Some (out, effs, a')" "apStore a' \<noteq> apStore a"
  shows "EnableDebugFaults (hnConfig env) \<and> mStore (bkManager (apBackend a)) \<and> hrMethod req = ''POST'' \<and>
    path_segments (hrPath req) = [''debug'', ''faults'', ''redis-delay''] \<and>
    (\<exists>ms. parse_int64 (query_get req ''ms'') = Inr ms \<and> 0 \<le> ms \<and> ms \<le> 5000 \<and> apStore a' = (apStore a)\<lparr>rsDelayMs := ms\<rparr>)"
proof -
  let ?R = "\<lambda>a a'. apStore a' = apStore a \<or> ServeMux req = Matched SetDelay \<and> faults_enabled env a \<and>
    (\<exists>ms. parse_int64 (query_get req ''ms'') = Inr ms \<and> 0 \<le> ms \<and> ms \<le> 5000 \<and> apStore a' = (apStore a)\<lparr>rsDelayMs := ms\<rparr>)"
  have "?R a a'"
  proof (rule Handler_lift [OF assms(1), where R = ?R])
    fix t sp w r out effs a' assume m: "ServeMux req = Matched r" "handle_route exec env t sp req w r a = Some (out, effs, a')"
    show "?R a a'"
    proof (cases "r = SetDelay")
      case True
      then show ?thesis using m set_redis_delay_store [of env req w a out effs a'] by fastforce
    qed (use handle_route_store [OF m(2)] in simp)
  qed simp
  then have *: "ServeMux req = Matched SetDelay" "faults_enabled env a"
    "\<exists>ms. parse_int64 (query_get req ''ms'') = Inr ms \<and> 0 \<le> ms \<and> ms \<le> 5000 \<and> apStore a' = (apStore a)\<lparr>rsDelayMs := ms\<rparr>"
    using assms(2) by simp_all
  then show ?thesis using matched_delay [OF *(1)] by (simp add: faults_enabled_def)
qed

text \<open>
  Looking changes nothing. A request that is neither a POST nor for the socket (pages, metrics, health, room checks, faults,
  refusals) leaves every key of Redis as it is, over any links, as long as the commands \<open>GET\<close> and \<open>PING\<close> do and the others do.
\<close>

theorem looking_changes_nothing:
  assumes "Handler exec env req a = Some (out, effs, a')" "hrMethod req \<noteq> ''POST''" "path_segments (hrPath req) \<noteq> [''ws'']"
    and "only_reads exec V" "quiet V (hnNet env)" "quiet V (hnSnapshotNet env)" "\<forall>b. V (bkDb (hnBetween env b)) = V (bkDb b)"
  shows "V (bkDb (apBackend a')) = V (bkDb (apBackend a))"
proof (rule Handler_lift [OF assms(1), where R = "\<lambda>a a'. V (bkDb (apBackend a')) = V (bkDb (apBackend a))"])
  fix t sp w r out effs a' assume m: "ServeMux req = Matched r" "handle_route exec env t sp req w r a = Some (out, effs, a')"
  have "r \<noteq> NewRoom" "r \<noteq> Socket" using matched_post [of req] matched_socket [of req] m(1) assms(2,3) by auto
  then show "V (bkDb (apBackend a')) = V (bkDb (apBackend a))" by (rule handle_route_reading [OF m(2) _ _ assms(4-7)])
qed simp

text \<open>
  C23: A room that was made can be found. When \<open>POST /rooms\<close> draws an identifier that is not in use, it answers 201 with that
  identifier, and from then on \<open>GET /rooms/check\<close> answers 200 for it, with version and sequence 0, on this backend and on
  every other one with the same Redis.
\<close>

theorem created_room_found:
  assumes "redis_server E V K" "undisturbed env" "K (app_db a)" "rid = generateRoomID (hnRoomRandom env)" "rid \<noteq> []"
    and "V (app_db a) (roomStreamKey rid) = None" "manager_ok (app_manager a)" "mStore (app_manager a)" "mRooms (app_manager a) rid = None"
  shows "\<exists>w effs a1. Handler (document_exec E) env (post_request origin) a =
      Some (Responded (respond_json w 201 (JObj [(''roomId'', JStr rid)])), effs, a1) \<and>
    (\<forall>env2 origin2 a2. undisturbed env2 \<longrightarrow> app_db a2 = app_db a1 \<longrightarrow>
      a2 = a1 \<or> manager_ok (app_manager a2) \<and> mStore (app_manager a2) \<and> mRooms (app_manager a2) rid = None \<longrightarrow>
      (\<exists>w2 effs2 a3. Handler (document_exec E) env2 (check_request origin2 rid) a2 =
        Some (Responded (respond_json w2 200 (room_report env2 rid (snapshot_of []))), effs2, a3)))"
proof -
  obtain w effs a1 where p: "Handler (document_exec E) env (post_request origin) a =
      Some (Responded (respond_json w 201 (JObj [(''roomId'', JStr rid)])), effs, a1)"
    "K (app_db a1)" "redis_room (V (app_db a1)) rid []" "serves_room [] rid a1"
    by (rule post_handled [OF assms(1-4,6-9)])
  have plain: "plain_text rid" unfolding assms(4) by (rule generateRoomID_plain)
  have "\<exists>w2 effs2 a3. Handler (document_exec E) env2 (check_request origin2 rid) a2 =
      Some (Responded (respond_json w2 200 (room_report env2 rid (snapshot_of []))), effs2, a3)"
    if "undisturbed env2" "app_db a2 = app_db a1"
      "a2 = a1 \<or> manager_ok (app_manager a2) \<and> mStore (app_manager a2) \<and> mRooms (app_manager a2) rid = None" for env2 origin2 a2
  proof (rule check_handled [OF assms(1) that(1) _ _ _ plain assms(5)])
    show "serves_room [] rid a2" using that(3) p(4) by (auto simp: serves_room_def)
  qed (use p(2,3) that(2) in simp_all)
  then show ?thesis using p(1) by blast
qed

theorem cors_origin_witness:
  "\<exists>out effs a' h. Handler (document_exec mem_exec) demo_http
      \<lparr>hrMethod = ''OPTIONS'', hrPath = ''/rooms'', hrQuery = [], hrOrigin = ''http://evil.example'', hrHandshake = False\<rparr> demo_app =
      Some (out, effs, a') \<and> out_header out = Some h \<and> h ''Access-Control-Allow-Origin'' = None \<and> a' = demo_app"
proof -
  let ?req = "\<lparr>hrMethod = ''OPTIONS'', hrPath = ''/rooms'', hrQuery = [], hrOrigin = ''http://evil.example'', hrHandshake = False\<rparr>"
  obtain out effs a' h where r: "Handler (document_exec mem_exec) demo_http ?req demo_app = Some (out, effs, a')" "out_header out = Some h"
    by (simp add: Handler_def enableCORS_def originAllowed_def out_header_def)
  show ?thesis using cors_origin [OF r] r by (fastforce simp: originAllowed_def)
qed

theorem json_answers_typed_witness:
  "\<exists>r effs a' ms. Handler (document_exec mem_exec) demo_http (check_request [] ''r1'') demo_app = Some (Responded r, effs, a') \<and>
    parse_json (hsBody r) = Some (JObj ms) \<and> list_all field_typed ms"
proof -
  have "plain_text ''r1''" "serves_room demo_log ''r1'' demo_app" by (simp_all add: plain_text_def serves_room_def)
  then obtain w effs a' where r: "Handler (document_exec mem_exec) demo_http (check_request [] ''r1'') demo_app =
      Some (Responded (respond_json w 200 (room_report demo_http ''r1'' (snapshot_of demo_log))), effs, a')"
    using check_handled [OF mem_redis_server, of demo_http demo_app "''r1''" demo_log "[]"] by fastforce
  show ?thesis using json_answers_typed [OF r] r by (auto simp: respond_json_def)
qed

theorem delay_bounded_witness:
  "\<exists>out effs a'. Handler (document_exec mem_exec) demo_http
      \<lparr>hrMethod = ''POST'', hrPath = ''/debug/faults/redis-delay'', hrQuery = ''ms=100'', hrOrigin = [], hrHandshake = False\<rparr> demo_app =
      Some (out, effs, a') \<and> rsDelayMs (apStore a') = 100"
proof -
  let ?req = "\<lparr>hrMethod = ''POST'', hrPath = ''/debug/faults/redis-delay'', hrQuery = ''ms=100'', hrOrigin = [], hrHandshake = False\<rparr>"
  have route: "ServeMux ?req = Matched SetDelay" "PathUnescape ''/debug/faults/redis-delay'' = ''/debug/faults/redis-delay''"
    by (simp_all add: ServeMux_def cleanPath_def find_route_def path_segments_def PathUnescape_def routes_def)
  have q: "query_get ?req ''ms'' = ''100''"
    by (simp add: query_get_def ParseQuery_def map_filter_def query_setting_def QueryUnescape_def)
  have n: "parse_int64 ''100'' = Inr 100" using parse_int64_FormatInt [of "int 100", unfolded FormatInt_100] by (simp add: int64_ok_def)
  obtain out effs a' where r: "Handler (document_exec mem_exec) demo_http ?req demo_app = Some (out, effs, a')"
    "rsDelayMs (apStore a') = 100"
    by (simp add: Handler_def enableCORS_def observeHTTP_def serve_mux_def route set_redis_delay_def faults_enabled_def q n SetArtificialDelay_def)
  then have "apStore a' \<noteq> apStore demo_app" by (metis demo_app_simps(4) zero_neq_numeral)
  from delay_bounded [OF r(1) this] r show ?thesis by blast
qed

lemma mem_exec_reads: "snd (mem_exec (''GET'' # args) db) = db" "snd (mem_exec (''PING'' # args) db) = db"
  by (cases args rule: remdups_adj.cases; simp add: mem_exec_def split: option.split redis_value.split)+

theorem looking_changes_nothing_witness:
  "\<exists>out effs a'. Handler (document_exec mem_exec) demo_http (check_request [] ''r1'') demo_app = Some (out, effs, a') \<and> app_db a' = demo_db"
proof -
  have "plain_text ''r1''" "serves_room demo_log ''r1'' demo_app" by (simp_all add: plain_text_def serves_room_def)
  then obtain w effs a' where r: "Handler (document_exec mem_exec) demo_http (check_request [] ''r1'') demo_app =
      Some (Responded (respond_json w 200 (room_report demo_http ''r1'' (snapshot_of demo_log))), effs, a')"
    using check_handled [OF mem_redis_server, of demo_http demo_app "''r1''" demo_log "[]"] by fastforce
  have "only_reads (document_exec mem_exec) (\<lambda>v. v)" using mem_exec_reads by (auto simp: only_reads_def)
  from looking_changes_nothing [OF r _ _ this] have "app_db a' = demo_db"
    by (simp add: path_segments_def PathUnescape_def quiet_def calm_def)
  then show ?thesis using r by blast
qed

theorem created_room_found_witness:
  "\<exists>w effs a1. Handler (document_exec mem_exec) demo_http (post_request []) demo_app =
      Some (Responded (respond_json w 201 (JObj [(''roomId'', JStr ''616263646566'')])), effs, a1) \<and>
    (\<exists>w2 effs2 a3. Handler (document_exec mem_exec) demo_http (check_request [] ''616263646566'') a1 =
      Some (Responded (respond_json w2 200 (room_report demo_http ''616263646566'' (snapshot_of []))), effs2, a3))"
proof -
  have id: "''616263646566'' = generateRoomID (hnRoomRandom demo_http)"
    by (simp add: generateRoomID_def hex_encode_def hex_byte_def hex_digit_def)
  have "id (app_db demo_app) (roomStreamKey ''616263646566'') = None" by (simp add: mem_room_def)
  from created_room_found [of mem_exec id mem_ok demo_http demo_app "''616263646566''" "[]", OF mem_redis_server demo_http_simps(8) _ id _ this] show ?thesis
    using demo_http_simps(8) by fastforce
qed

subsection \<open>Starting\<close>

text \<open>
  C31: The wait for Redis ends. With a clock that shows the pauses, the loop is over after at most
  one round for every 200 milliseconds of the timeout and one more, for 10 seconds 51, whatever Redis answers. If the first round
  begins within the timeout, it succeeds only with a ping that Redis answered, in a round that began within the timeout (when the
  answer arrives is not looked at).
\<close>

theorem wait_for_redis_ends:
  assumes "paused now started" "timeout \<le> int n * wait_pause"
  shows "\<exists>r db'. waitForRedis exec net now started timeout (Suc n) db = (Some r, db') \<and>
    (now 0 < started + timeout \<longrightarrow> r = Ok () \<longrightarrow>
      (\<exists>k db1. now k < started + timeout \<and> Ping exec (net k) db1 = (Ok (), db')))"
proof -
  have "started + timeout \<le> started + int (0 + n) * wait_pause" using assms(2) by simp
  from wait_rounds_ends [OF assms(1) this, of exec net None db] obtain r db' where
    r: "wait_rounds exec net now (started + timeout) 0 (Suc n) None db = (Some r, db')" by blast
  then show ?thesis using wait_rounds_result [OF r] unfolding waitForRedis_def by (fastforce simp del: wait_rounds.simps)
qed

theorem wait_for_redis_ends_witness:
  "\<exists>r db'. waitForRedis (\<lambda>args db. (RErr ''LOADING'', db)) (\<lambda>k. calm) (\<lambda>k. 5 + int k * wait_pause) 5 (10 * Second) 51 () = (Some r, db')"
  using wait_for_redis_ends [of "\<lambda>k. 5 + int k * wait_pause" 5 "10 * Second" 50 "\<lambda>args db. (RErr ''LOADING'', db)" "\<lambda>k. calm" "()"]
  by (auto simp: paused_def)

text \<open>
  The process serves what its configuration says. It runs with a store exactly when an address of Redis is set, and
  then a ping was answered within the 10 seconds; its manager is intact and empty, the delay is not negative; and a trace file that does not
  open keeps it from running.
\<close>

theorem process_serves_configuration:
  assumes "boot_process exec env fuel h db = Some (Running sv effs)" "boNow env 0 < boStarted env + 10 * Second"
  defines "config \<equiv> LoadConfig (boEnviron env) (boHost env)"
  shows "svConfig sv = config \<and> (TraceFile config = [] \<or> boTraceOpened env = None) \<and> manager_ok (app_manager (svApp sv)) \<and>
    (\<forall>rid. mRooms (app_manager (svApp sv)) rid = None) \<and> mStore (app_manager (svApp sv)) = (RedisAddr config \<noteq> []) \<and>
    0 \<le> rsDelayMs (apStore (svApp sv)) \<and>
    (RedisAddr config \<noteq> [] \<longrightarrow> (\<exists>k db1. boNow env k < boStarted env + 10 * Second \<and> Ping exec (boNet env k) db1 = (Ok (), app_db (svApp sv))))"
proof (cases "RedisAddr config = []")
  case True
  then show ?thesis using assms(1) NewRoomManager_ok
    by (auto simp: boot_process_def serving_def NewTraceRecorder_def NewRedisStore_def NewRoomManager_def Let_def
        simp flip: config_def split: if_splits sum.splits option.splits)
next
  case False
  obtain db1 where w: "waitForRedis exec (boNet env) (boNow env) (boStarted env) (10 * Second) fuel db = (Some (Ok ()), db1)"
    "TraceFile config = [] \<or> boTraceOpened env = None" "svConfig sv = config" "app_db (svApp sv) = db1"
    "app_manager (svApp sv) = NewDistributedRoomManager True (InstanceID config) [Presence config]"
    "apStore (svApp sv) = SetArtificialDelay (RedisDelayMs config) (SetTelemetry True NewRedisStore)"
    using assms(1) False
    by (auto simp: boot_process_def serving_def NewTraceRecorder_def Let_def simp flip: config_def
        split: if_splits sum.splits option.splits prod.splits outcome.splits)
  have "\<exists>k d. boNow env k < boStarted env + 10 * Second \<and> Ping exec (boNet env k) d = (Ok (), db1)"
    using wait_rounds_result [OF w(1) [unfolded waitForRedis_def]] assms(2) by auto
  moreover have "mRooms (NewDistributedRoomManager True i t) = Map.empty" "mStore (NewDistributedRoomManager True i t)" for i t
    by (simp_all add: NewDistributedRoomManager_def NewRoomManager_def)
  ultimately show ?thesis
    using False w(2) unfolding w(3-6) by (simp add: NewDistributedRoomManager_ok SetArtificialDelay_def)
qed

subsection \<open>Texts\<close>

text \<open>
  C27: A scrape reads back the metrics. The lines of the text that are no comments, read as a name, labels whose values are
  string literals, and a value, are in this order: the gauge, the eleven counters and, of the five histograms, the cumulative
  buckets, the sum and the count, each under its name with the value of its field; and the value of the label \<open>instance_id\<close> is
  the name of the instance, whatever bytes it has (quotes, backslashes, new lines, no UTF-8).
\<close>

theorem metrics_read_back:
  assumes "formats_ok fm"
  shows "scrape (Prometheus fm instanceID m) = Some (readings fm instanceID m)"
  by (rule scrape_Prometheus [OF assms])

text \<open>
  A log line is read back. Every event that is logged is one JSON object with the time, the level, the event and the
  instance and the fields given, the later of two of a name winning, whatever bytes their texts have; and the only
  event that an enabled logger drops has a number that is not finite.
\<close>

theorem log_line_read_back:
  assumes "\<forall>x. number_text (fmt x)"
  shows "case Event fmt now l level event flds of
      None \<Rightarrow> \<not> lgEnabled l \<or> (\<exists>k v. (k, AFloat v) \<in> set flds \<and> (\<forall>x. v \<noteq> Fin x))
    | Some line \<Rightarrow> lgEnabled l \<and> (\<exists>kvs. marshal_attrs (attr_json fmt) flds = Some kvs \<and>
        parse_json line = Some (scrub_json (go_map ([(''timestamp'', JStr now), (''level'', JStr level), (''event'', JStr event),
          (''instanceId'', JStr (lgInstanceID l))] @ kvs))))"
proof (cases "Event fmt now l level event flds")
  case None
  then have "\<not> lgEnabled l \<or> marshal_attrs (attr_json fmt) flds = None" by (auto simp: Event_def split: if_splits)
  then show ?thesis using marshal_attrs_None [of "attr_json fmt" flds] attr_json_None [of fmt] by (simp add: None) blast
next
  case (Some line)
  from Event_read [OF assms Some] Some show ?thesis by simp
qed

theorem metrics_read_back_witness:
  "\<exists>rest. scrape (Prometheus \<lparr>fmBucket = (\<lambda>x. ''1''), fmSum = (\<lambda>x. ''0.0''), fmPrint = (\<lambda>n. True)\<rparr> [dq, CHR 0x0A, CHR 0xFF] NewMetrics) =
    Some ((''livecollab_websocket_connections'', [(''instance_id'', [dq, CHR 0x0A, CHR 0xFF])], ''0'') # rest)"
proof -
  have "FormatInt (sint (websocketConnections NewMetrics)) = ''0''" by (simp add: NewMetrics_def)
  moreover have "formats_ok \<lparr>fmBucket = (\<lambda>x. ''1''), fmSum = (\<lambda>x. ''0.0''), fmPrint = (\<lambda>n. True)\<rparr>" by (simp add: formats_ok_def)
  ultimately show ?thesis using metrics_read_back by (auto simp: readings_def)
qed

theorem log_line_read_back_witness:
  "\<exists>line. Event (\<lambda>x. FormatInt 7) ''now'' \<lparr>lgEnabled = True, lgInstanceID = [CHR 0xFF]\<rparr> ''info'' ''e'' [(''n'', AFloat (Fin 7))] = Some line \<and>
    parse_json line \<noteq> None"
proof -
  let ?l = "\<lparr>lgEnabled = True, lgInstanceID = [CHR 0xFF]\<rparr>"
  have "Event (\<lambda>x. FormatInt 7) ''now'' ?l ''info'' ''e'' [(''n'', AFloat (Fin 7))] \<noteq> None"
    by (simp add: Event_def marshal_attrs_def float_json_def)
  then show ?thesis
    using log_line_read_back [where fmt = "\<lambda>x. FormatInt 7" and now = "''now''" and l = ?l and level = "''info''" and event = "''e''"
        and flds = "[(''n'', AFloat (Fin 7))]"] number_text_FormatInt
    by (auto split: option.splits)
qed

theorem process_serves_configuration_witness:
  "\<exists>sv effs. boot_process (document_exec mem_exec)
      \<lparr>boEnviron = (\<lambda>n. if n = ''LIVECOLLAB_REDIS_ADDR'' then ''redis:6379'' else []), boHost = ''h'', boTraceOpened = None,
       boStarted = 0, boNow = (\<lambda>k. int k * wait_pause), boNet = (\<lambda>k. calm)\<rparr> 51 (bkHeap (apBackend demo_app)) demo_db = Some (Running sv effs) \<and>
    mStore (app_manager (svApp sv))"
proof -
  let ?env = "\<lparr>boEnviron = (\<lambda>n. if n = ''LIVECOLLAB_REDIS_ADDR'' then ''redis:6379'' else []), boHost = ''h'', boTraceOpened = None,
       boStarted = 0, boNow = (\<lambda>k. int k * wait_pause), boNet = (\<lambda>k. calm)\<rparr> :: view boot_env"
  let ?c = "LoadConfig (boEnviron ?env) (boHost ?env)"
  have c: "RedisAddr ?c = ''redis:6379''" "TraceFile ?c = []" by (simp_all add: LoadConfig_def Let_def TrimSpace_def is_space_def)
  have "Ping (document_exec mem_exec) calm demo_db = (Ok (), demo_db)"
    by (simp add: Ping_def do_at_def redis_do_def calm_def mem_exec_def)
  then have "waitForRedis (document_exec mem_exec) (\<lambda>k. calm) (\<lambda>k. int k * wait_pause) 0 (10 * Second) 51 demo_db = (Some (Ok ()), demo_db)"
    by (simp add: waitForRedis_def numeral_eq_Suc)
  then obtain sv effs where r: "boot_process (document_exec mem_exec) ?env 51 (bkHeap (apBackend demo_app)) demo_db = Some (Running sv effs)"
    using c by (simp add: boot_process_def serving_def NewTraceRecorder_def Let_def)
  from process_serves_configuration [OF r] r c show ?thesis by auto
qed

end
