(* ===== verification/System_Properties.thy ===== *)
theory System_Properties
  imports Session_Properties Delivery_Properties Liveness_Properties
begin

section \<open>From one backend to another\<close>

text \<open>
  The handler of a connection on one backend and the watcher of the same room on another meet only in the log of the
  room in Redis. Here the two are put together: what a client of the one backend is told was accepted, the clients
  of the other receive.
\<close>

lemma maxima_increasing:
  "sorted_wrt (<) (map key ms) \<Longrightarrow> maxima key (Some s) ms = filter (\<lambda>m. s < key m) ms"
proof (induction ms arbitrary: s)
  case (Cons m ms)
  then have later: "\<forall>x\<in>set ms. key m < key x" and IH: "maxima key (Some t) ms = filter (\<lambda>m. t < key m) ms" for t by simp_all
  have "filter (\<lambda>x. key m < key x) ms = ms" using later by (simp add: filter_id_conv)
  moreover have "filter (\<lambda>x. s < key x) ms = ms" if "s < key m" using later that by (auto simp: filter_id_conv)
  ultimately show ?case using IH by (auto simp: above_def)
qed simp

lemma segment_increasing:
  assumes "log_ok L"
  shows "sorted_wrt (<) (map eSequence (take k (drop p L)))"
  using log_ok_nth(1) [OF assms] by (auto simp: sorted_wrt_iff_nth_less)

lemma in_segment:
  assumes "i \<le> n" "n < i'" "n < length L"
  shows "L ! n \<in> set (take (i' - i) (drop i L))"
proof -
  have "n - i < length L - i" "n - i < i' - i" using assms by linarith+
  then show ?thesis using nth_mem [of "n - i" "take (i' - i) (drop i L)"] assms(1) by simp
qed

text \<open>A client gets an event of a segment that is new to it once.\<close>

lemma offered_once:
  assumes "log_ok L" "heap_offered env (take k (drop p L)) w w'" "q \<in> set (rClients (wRoom w))" "live (wHeap w q)" "no_faults (wHeap w q)"
    and "e \<in> set (take k (drop p L))" "waInitialSequence env < eSequence e" "lastSequence (wHeap w q) < eSequence e"
  obtains pre post where
    "content_log (wHeap w' q) = content_log (wHeap w q) @ pre @ messageFromDistributedEvent e # post"
    "messageFromDistributedEvent e \<notin> set pre \<union> set post"
proof -
  let ?evs = "fresh_events env (take k (drop p L))" and ?s = "lastSequence (wHeap w q)"
  let ?ms = "filter (\<lambda>m. ?s < mSequence m) (map messageFromDistributedEvent ?evs)"
  have key: "mSequence (messageFromDistributedEvent x) = eSequence x" for x by simp
  have inc: "sorted_wrt (<) (map mSequence (map messageFromDistributedEvent ?evs))"
    using segment_increasing [OF assms(1), of k p] unfolding fresh_events_def
    by (simp add: comp_def sorted_wrt_map sorted_wrt_filter)
  have "wHeap w' q = offer_events ?evs (wHeap w q)" using assms(2-4) by (simp add: heap_offered_def live_def)
  then have log: "content_log (wHeap w' q) = content_log (wHeap w q) @ ?ms"
    using offer_events_log [OF assms(4,5)] maxima_increasing [OF inc] by simp
  have "messageFromDistributedEvent e \<in> set ?ms" using assms(6-8) by (auto simp: fresh_events_def)
  then obtain pre post where split: "?ms = pre @ messageFromDistributedEvent e # post"
    by (meson split_list)
  have "distinct (map mSequence ?ms)"
    using inc unfolding strict_sorted_iff [symmetric] by (simp add: distinct_map_filter strict_sorted_iff)
  then have "distinct ?ms" by (rule distinct_map [THEN iffD1, THEN conjunct1])
  then have "messageFromDistributedEvent e \<notin> set pre \<union> set post" unfolding split by auto
  with log split show thesis by (intro that) simp_all
qed

text \<open>
  C3: An accepted edit reaches every backend. A client edits a room on one backend, while other backends append and other
  goroutines run between any two steps; the watcher of the room on another backend stands somewhere in the log. When the edit is
  accepted, the handler returns, and once the watcher has got through to Redis often enough for the length of the log (a round takes a
  hundred events), every live client of its room whose socket works has received the event of this edit, and received it once.
\<close>

theorem edit_reaches_every_backend:
  assumes "redis_server E V K" "fair_others V K rid p env" "fair_net V K rid env"
    and "at_room V K rid L w" "no_faults (woHeap w p)" "mOperationID incoming \<noteq> []" "mBaseVersion incoming = Some base"
    and "policy = StaleWritePolicy (opConfig env)" "cid = client_id_of incoming (woHeap w p)"
    and "no_cuts net" "appending V K rid net" "quiet_others wenv" "watching V K rid L i b (woDb w)"
    and "q \<in> set (rClients (wRoom b))" "live (wHeap b q)" "no_faults (wHeap b q)"
    and "waInitialSequence wenv \<le> int (length L)" "lastSequence (wHeap b q) \<le> int (length L)"
  shows "\<exists>d L1. db_at_write (document_exec E) env w = Some d \<and> redis_room (V d) rid L1 \<and> prefix L L1 \<and>
    (int (length L1) < log_limit \<longrightarrow> occ_accepts policy base (int (length L1)) \<longrightarrow> length L1 < i + 100 * up_rounds net k n \<longrightarrow>
    (\<exists>effs w' sid b' db' m pre post. handleContentUpdate (document_exec E) env p incoming w = Some (effs, w') \<and>
      m = messageFromDistributedEvent (apply_event L1 sid (mContent incoming) (mOperationID incoming) cid (cUsername (woHeap w p))) \<and>
      watch_rounds (document_exec E) net wenv k n b (woDb w') = (Some b', db') \<and>
      content_log (wHeap b' q) = content_log (wHeap b q) @ pre @ m # post \<and> m \<notin> set pre \<union> set post))"
proof -
  let ?op = "\<lparr>wContent = mContent incoming, wBase = base\<rparr>"
  let ?ev = "\<lambda>L1 sid. apply_event L1 sid (mContent incoming) (mOperationID incoming) cid (cUsername (woHeap w p))"
  obtain d L1 where d: "db_at_write (document_exec E) env w = Some d" "redis_room (V d) rid L1" "prefix L L1"
    and run: "int (length L1) < log_limit \<Longrightarrow> occ_accepts policy base (int (length L1)) \<Longrightarrow> \<exists>effs w' sid es.
      handleContentUpdate (document_exec E) env p incoming w = Some (effs, w') \<and> at_room V K rid (L1 @ ?ev L1 sid # es) w'"
    by (rule distributed_operation_runs [OF assms(1-7) refl assms(8,9)]) fastforce
  have "\<exists>effs w' sid b' db' m pre post. handleContentUpdate (document_exec E) env p incoming w = Some (effs, w') \<and>
      m = messageFromDistributedEvent (?ev L1 sid) \<and> watch_rounds (document_exec E) net wenv k n b (woDb w') = (Some b', db') \<and>
      content_log (wHeap b' q) = content_log (wHeap b q) @ pre @ m # post \<and> m \<notin> set pre \<union> set post"
    if ok: "int (length L1) < log_limit" "occ_accepts policy base (int (length L1))" "length L1 < i + 100 * up_rounds net k n"
  proof -
    obtain effs w' sid es where h: "handleContentUpdate (document_exec E) env p incoming w = Some (effs, w')"
      "at_room V K rid (L1 @ ?ev L1 sid # es) w'" using run [OF ok(1,2)] by blast
    define L2 where "L2 = L1 @ ?ev L1 sid # es"
    obtain xs where xs: "L1 = L @ xs" using d(3) by (auto simp: prefix_def)
    have pos: "watching V K rid L2 i b (woDb w')"
      using assms(13) h(2) at_position_extend [of L i "wLast b" "xs @ ?ev L1 sid # es"]
      by (simp add: watching_def at_room_def L2_def xs)
    from watch_rounds_run [OF assms(1,10-12) pos, of k n] obtain b' db' es' i' where
      r: "watch_rounds (document_exec E) net wenv k n b (woDb w') = (Some b', db')" "watching V K rid (L2 @ es') i' b' db'" "i \<le> i'"
      "min (length L2) (i + 100 * up_rounds net k n) \<le> i'" "heap_offered wenv (take (i' - i) (drop i (L2 @ es'))) b b'" by blast
    have log: "log_ok (L2 @ es')" using r(2) by (simp add: watching_def redis_room_def)
    have "i \<le> length L1" "length L1 < i'" using assms(13) r(4) ok(3) xs by (auto simp: watching_def at_position_def L2_def)
    then have mem: "?ev L1 sid \<in> set (take (i' - i) (drop i (L2 @ es')))"
      using in_segment [of i "length L1" i' "L2 @ es'"] by (simp add: L2_def)
    have new: "waInitialSequence wenv < eSequence (?ev L1 sid)" "lastSequence (wHeap b q) < eSequence (?ev L1 sid)"
      using assms(17,18) xs by (simp_all add: apply_event_def)
    show ?thesis
      by (rule offered_once [OF log r(5) assms(14-16) mem new]) (use h(1) r(1) in blast)
  qed
  then show ?thesis using d by blast
qed

lemma demo_watching: "watching id mem_ok ''r1'' demo_log 0 (start_watch demo_watch_room (\<lambda>q. demo_client)) (woDb demo_world)"
  by (simp add: watching_def at_position_def good_watch_def start_watch_def demo_watch_room_def heap_ok_def pending_ok_def
      demo_client_def demo_world_def)

theorem edit_reaches_every_backend_witness:
  "\<exists>effs w' sid b' db' pre post. handleContentUpdate (document_exec mem_exec) quiet_env 0 (edit ''abcd'' 3) demo_world = Some (effs, w') \<and>
     watch_rounds (document_exec mem_exec) calm demo_watch_env 0 1 (start_watch demo_watch_room (\<lambda>q. demo_client)) (woDb w') = (Some b', db') \<and>
     content_log (wHeap b' 7) = pre @ messageFromDistributedEvent (apply_event demo_log sid ''abcd'' ''op1'' ''c1'' ''ann'') # post"
proof -
  let ?b = "start_watch demo_watch_room (\<lambda>q. demo_client)"
  have sender: "no_faults (woHeap demo_world 0)" "mOperationID (edit ''abcd'' 3) \<noteq> []" "mBaseVersion (edit ''abcd'' 3) = Some 3"
    "StaleWriteReject = StaleWritePolicy (opConfig quiet_env)" "''c1'' = client_id_of (edit ''abcd'' 3) (woHeap demo_world 0)"
    by (simp_all add: demo_world_def client_id_of_def)
  have net: "no_cuts (calm :: view net)" "appending id mem_ok ''r1'' calm" "quiet_others demo_watch_env"
    and up: "up_rounds (calm :: view net) 0 1 = 1"
    by (simp_all add: no_cuts_def quiet_others_def demo_watch_env_def up_rounds_def)
  have reader: "7 \<in> set (rClients (wRoom ?b))" "live (wHeap ?b 7)" "no_faults (wHeap ?b 7)" "content_log (wHeap ?b 7) = []"
    "waInitialSequence demo_watch_env \<le> int (length demo_log)" "lastSequence (wHeap ?b 7) \<le> int (length demo_log)"
    using demo_client_facts
    by (simp_all add: start_watch_def demo_watch_room_def demo_watch_env_def demo_log_facts) (simp add: demo_client_def)
  obtain d L1 where d: "db_at_write (document_exec mem_exec) quiet_env demo_world = Some d" "redis_room (id d) ''r1'' L1"
    and run: "int (length L1) < log_limit \<longrightarrow> occ_accepts StaleWriteReject 3 (int (length L1)) \<longrightarrow> length L1 < 0 + 100 * up_rounds (calm :: view net) 0 1 \<longrightarrow>
      (\<exists>effs w' sid b' db' m pre post. handleContentUpdate (document_exec mem_exec) quiet_env 0 (edit ''abcd'' 3) demo_world = Some (effs, w') \<and>
        m = messageFromDistributedEvent (apply_event L1 sid (mContent (edit ''abcd'' 3)) (mOperationID (edit ''abcd'' 3)) ''c1'' (cUsername (woHeap demo_world 0))) \<and>
        watch_rounds (document_exec mem_exec) calm demo_watch_env 0 1 ?b (woDb w') = (Some b', db') \<and>
        content_log (wHeap b' 7) = content_log (wHeap ?b 7) @ pre @ m # post \<and> m \<notin> set pre \<union> set post)"
    using edit_reaches_every_backend [OF mem_redis_server quiet_env_fair demo_world_at sender net demo_watching reader(1-3,5,6), of 0 1] by blast
  have "d = demo_db" using d(1) demo_world_snapshot by (auto simp: db_at_write_def read_snapshot_def) (simp_all add: demo_world_def)
  then have L1: "L1 = demo_log" using d(2) redis_room_unique [OF _ demo_room(1)] by simp
  have name: "cUsername (woHeap demo_world 0) = ''ann''" by (simp add: demo_world_def demo_sender_def)
  have "int (length L1) < log_limit" "occ_accepts StaleWriteReject 3 (int (length L1))" "length L1 < 0 + 100 * up_rounds (calm :: view net) 0 1"
    unfolding up by (simp_all add: L1 demo_log_facts occ_accepts_def)
  then show ?thesis using run unfolding L1 name reader(4) by (fastforce simp del: watch_rounds.simps)
qed

subsection \<open>The page of a reader\<close>

text \<open>
  What a page shows of a log, and a client whose page shows the first \<open>s\<close> events of it. Its mark may be behind, as
  \<open>room_state\<close> does not move the mark.
\<close>

definition page_of :: "DistributedEvent list \<Rightarrow> page" where
  "page_of L = \<lparr>pgContent = sContent (snapshot_of L), pgVersion = int (length L), pgSequence = int (length L)\<rparr>"

definition follows :: "DistributedEvent list \<Rightarrow> nat \<Rightarrow> client \<Rightarrow> bool" where
  "follows L s c \<longleftrightarrow> live c \<and> no_faults c \<and> lastSequence c \<le> int s \<and> s \<le> length L \<and> shown c = page_of (take s L)"

lemma shown_put_frame: "no_faults c \<Longrightarrow> shown (put_frame (FMessage m) c) = on_message m (shown c)"
  by (simp add: shown_def)

text \<open>Every event carries the whole text, so a page that shows a log goes on to show it, even where it skips events.\<close>

lemma page_event:
  assumes "log_ok L" "j < length L" "s \<le> length L"
  shows "on_message (messageFromDistributedEvent (L ! j)) (page_of (take s L)) = page_of (take (max s (Suc j)) L)"
proof (cases "j < s")
  case True
  then have "max s (Suc j) = s" by simp
  then show ?thesis using True log_ok_nth [OF assms(1,2)] assms(3) by (simp add: on_message_def page_of_def)
next
  case False
  then have "max s (Suc j) = Suc j" by simp
  then show ?thesis
    using False log_ok_nth [OF assms(1,2)] assms(2) on_message_update [of "messageFromDistributedEvent (L ! j)" "page_of (take s L)"]
    by (simp add: page_of_def snapshot_of_def take_Suc_conv_app_nth)
qed

lemma page_events:
  assumes "log_ok L" "s \<le> length L" "set ms \<subseteq> messageFromDistributedEvent ` set L"
    and "sorted_wrt (<) (map mSequence ms)" "\<forall>m\<in>set ms. int s < mSequence m"
  shows "fold on_message ms (page_of (take s L)) = page_of (take (if ms = [] then s else nat (mSequence (last ms))) L)"
  using assms(2-)
proof (induction ms arbitrary: s)
  case (Cons m ms)
  then obtain j where j: "j < length L" "m = messageFromDistributedEvent (L ! j)" by (auto simp: in_set_conv_nth)
  then have seq: "mSequence m = int j + 1" using log_ok_nth(1) [OF assms(1)] by simp
  then have "max s (Suc j) = Suc j" using Cons.prems(4) by simp
  then have "on_message m (page_of (take s L)) = page_of (take (Suc j) L)" using page_event [OF assms(1) j(1) Cons.prems(1)] j(2) by simp
  moreover have "fold on_message ms (page_of (take (Suc j) L)) =
      page_of (take (if ms = [] then Suc j else nat (mSequence (last ms))) L)"
    using Cons.prems seq j(1) by (intro Cons.IH) auto
  moreover have "nat (int j + 1) = Suc j" by simp
  ultimately show ?case using seq by simp
qed simp

lemma offer_update_live:
  assumes "live c" "no_faults c" "is_content m"
  shows "offer_update m c = (if mSequence m \<le> lastSequence c then c
    else (put_frame (FMessage m) c)\<lparr>lastSequence := mSequence m\<rparr>)"
  using assms by (simp add: writeContentUpdate_def live_def WriteJSON_no_faults is_content_def)

lemma follows_event:
  assumes "log_ok L" "follows L s c" "j < length L"
  shows "follows L (max s (Suc j)) (offer_update (messageFromDistributedEvent (L ! j)) c)"
proof -
  let ?m = "messageFromDistributedEvent (L ! j)"
  note c = assms(2) [unfolded follows_def]
  have seq: "mSequence ?m = int j + 1" "mServerVersion ?m = int j + 1" "mContent ?m = eContent (L ! j)"
    using log_ok_nth [OF assms(1,3)] by simp_all
  have ready: "live (offer_update ?m c)" "no_faults (offer_update ?m c)"
    using live_gate.ready_offer [of c ?m] live_gate.up_offer [of c ?m] c by simp_all
  have off: "offer_update ?m c = (if int j + 1 \<le> lastSequence c then c
      else (put_frame (FMessage ?m) c)\<lparr>lastSequence := int j + 1\<rparr>)"
    using offer_update_live [of c ?m] c seq(1) by simp
  then have mark: "lastSequence (offer_update ?m c) \<le> int (max s (Suc j))"
    and page: "shown (offer_update ?m c) = (if int j + 1 \<le> lastSequence c then page_of (take s L) else on_message ?m (page_of (take s L)))"
    using c shown_put_frame [of c ?m] by (auto simp: shown_def)
  moreover have "on_message ?m (page_of (take s L)) = page_of (take (max s (Suc j)) L)"
    using page_event [OF assms(1,3), of s] c by simp
  moreover have "max s (Suc j) = s" if "int j + 1 \<le> lastSequence c" using that c by simp
  ultimately show ?thesis using ready c assms(3) by (auto simp: follows_def)
qed

lemma follows_segment:
  assumes "log_ok L" "follows L s c" "i \<le> s" "waInitialSequence env \<le> int s" "i \<le> p" "p \<le> length L"
  shows "follows L (max s p) (offer_events (fresh_events env (take (p - i) (drop i L))) c)"
  using assms(5,6)
proof (induction p rule: dec_induct)
  case base
  then show ?case using assms(2,3) by (simp add: offer_events_def max_absorb1)
next
  case (step p)
  let ?c = "offer_events (fresh_events env (take (p - i) (drop i L))) c"
  have IH: "follows L (max s p) ?c" using step by simp
  have "take (Suc p - i) (drop i L) = take (p - i) (drop i L) @ [L ! p]"
    using step by (simp add: Suc_diff_le take_Suc_conv_app_nth)
  then have o: "offer_events (fresh_events env (take (Suc p - i) (drop i L))) c = offer_events (fresh_events env [L ! p]) ?c"
    by (simp add: offer_events_append)
  have seq: "eSequence (L ! p) = int p + 1" using log_ok_nth(1) [OF assms(1)] step(4) by simp
  show ?case
  proof (cases "waInitialSequence env < int p + 1")
    case True
    then have "offer_events (fresh_events env [L ! p]) ?c = offer_update (messageFromDistributedEvent (L ! p)) ?c"
      using seq by (simp add: fresh_events_def offer_events_def)
    moreover have "max (max s p) (Suc p) = max s (Suc p)" by simp
    ultimately show ?thesis unfolding o using follows_event [OF assms(1) IH, of p] step(4) by simp
  next
    case False
    then have "max s (Suc p) = max s p" using assms(4) by simp
    then show ?thesis unfolding o using IH False seq by (simp add: fresh_events_def offer_events_def)
  qed
qed

text \<open>
  C6: Pages catch up. A reader has a page that shows the document after the first \<open>s\<close> events of the log. However many rounds the
  watcher of its room then runs, with calls to Redis failing and others appending, the page shows the document of the log
  at the position of the watcher, with its version and sequence (or the one it had, while the watcher is behind it), and every round
  that gets through brings the watcher a hundred events nearer to the end. So the pages of the readers on all backends agree
  when the watchers have passed the whole log.
\<close>

theorem page_catches_up:
  assumes "redis_server E V K" "no_cuts net" "appending V K rid net" "quiet_others env" "watching V K rid L i b db"
    and "q \<in> set (rClients (wRoom b))" "live (wHeap b q)" "no_faults (wHeap b q)" "lastSequence (wHeap b q) \<le> int s"
    and "s \<le> length L" "shown (wHeap b q) = page_of (take s L)" "i \<le> s" "waInitialSequence env \<le> int s"
  shows "\<exists>b' db' es p. watch_rounds (document_exec E) net env k n b db = (Some b', db') \<and> redis_room (V db') rid (L @ es) \<and>
    p \<le> length (L @ es) \<and> min (length L) (i + 100 * up_rounds net k n) \<le> p \<and>
    shown (wHeap b' q) = page_of (take (max s p) (L @ es))"
proof -
  from watch_rounds_run [OF assms(1-5), of k n] obtain b' db' es p where
    r: "watch_rounds (document_exec E) net env k n b db = (Some b', db')" "watching V K rid (L @ es) p b' db'" "i \<le> p"
      "min (length L) (i + 100 * up_rounds net k n) \<le> p" "heap_offered env (take (p - i) (drop i (L @ es))) b b'" by blast
  then have R: "redis_room (V db') rid (L @ es)" "p \<le> length (L @ es)" by (simp_all add: watching_def at_position_def)
  then have log: "log_ok (L @ es)" by (simp add: redis_room_def)
  have "follows (L @ es) s (wHeap b q)" using assms(7-11) by (simp add: follows_def)
  from follows_segment [OF log this assms(12,13) r(3) R(2)] have "shown (wHeap b' q) = page_of (take (max s p) (L @ es))"
    using r(5) assms(6,7) unfolding follows_def heap_offered_def live_def by metis
  then show ?thesis using r(1,4) R by blast
qed

theorem page_catches_up_witness:
  "\<exists>b' db' es p. watch_rounds (document_exec mem_exec) calm (demo_watch_env\<lparr>waInitialSequence := 0\<rparr>) 0 1
      (start_watch demo_watch_room (\<lambda>q. demo_client)) demo_db = (Some b', db') \<and>
    3 \<le> p \<and> shown (wHeap b' 7) = page_of (take p (demo_log @ es))"
proof -
  let ?b = "start_watch demo_watch_room (\<lambda>q. demo_client)" and ?env = "demo_watch_env\<lparr>waInitialSequence := 0\<rparr>"
  have net: "no_cuts (calm :: view net)" "appending id mem_ok ''r1'' calm" "quiet_others ?env"
    and up: "up_rounds (calm :: view net) 0 1 = 1"
    by (simp_all add: no_cuts_def quiet_others_def demo_watch_env_def up_rounds_def)
  have w: "watching id mem_ok ''r1'' demo_log 0 ?b demo_db" using demo_watching by (simp add: demo_world_def)
  have reader: "7 \<in> set (rClients (wRoom ?b))" "live (wHeap ?b 7)" "no_faults (wHeap ?b 7)" "lastSequence (wHeap ?b 7) \<le> int 0"
    "(0::nat) \<le> length demo_log" "shown (wHeap ?b 7) = page_of (take 0 demo_log)" "(0::nat) \<le> 0" "waInitialSequence ?env \<le> int 0"
    using demo_client_facts
    by (simp_all add: start_watch_def demo_watch_room_def) (simp_all add: demo_client_def shown_def client_frames_def new_conn_def
        page_of_def snapshot_of_def new_page_def)
  from page_catches_up [OF mem_redis_server net w reader, of 0 1] show ?thesis
    unfolding up demo_log_facts(1) by (fastforce simp del: watch_rounds.simps)
qed

subsection \<open>The page of a client that reconnects\<close>

lemma boundary_version: "log_ok L \<Longrightarrow> eVersion (boundary_of L) = int (length L)"
  by (cases "L = []") (simp_all add: boundary_of_def zero_event_def last_conv_nth log_ok_nth of_nat_diff Suc_le_eq)

lemma page_frames: "fold page_frame (map FMessage ms) pg = fold on_message ms pg"
  by (simp add: fold_map comp_def)

lemma page_resume_started: "on_message (resume_started k b) pg = pg"
  by (simp add: on_message_def resume_started_def)

lemma page_resume_complete:
  assumes "log_ok L"
  shows "on_message (resume_complete k (boundary_of L) r) (page_of L) = page_of L"
  using boundary_sequence [OF assms] boundary_version [OF assms]
  by (simp add: on_message_def resume_complete_def updateSequence_def updateServerVersion_def page_of_def)

lemma page_replayed:
  assumes "log_ok L" "n \<le> length L"
  shows "fold on_message (map messageFromDistributedEvent (drop n L)) (page_of (take n L)) = page_of L"
proof -
  have "\<forall>m\<in>set (map messageFromDistributedEvent (drop n L)). int n < mSequence m"
    using log_ok_nth(1) [OF assms(1)] by (auto simp: in_set_conv_nth)
  moreover have "sorted_wrt (<) (map mSequence (map messageFromDistributedEvent (drop n L)))"
    using segment_increasing [OF assms(1), of "length L" n] by (simp add: comp_def)
  moreover have "last (map messageFromDistributedEvent (drop n L)) = messageFromDistributedEvent (L ! (length L - 1))" if "n < length L"
    using that by (simp add: last_map last_conv_nth)
  moreover have "set (map messageFromDistributedEvent (drop n L)) \<subseteq> messageFromDistributedEvent ` set L"
    using set_drop_subset [of n L] by auto
  ultimately show ?thesis
    using page_events [OF assms, of "map messageFromDistributedEvent (drop n L)"] assms log_ok_nth(1) [OF assms(1), of "length L - 1"]
    by (cases "n < length L") (auto simp: of_nat_diff)
qed

text \<open>
  C7: A page that reconnects is brought up to date. Its cursor is the sequence \<open>n\<close> that it shows; whatever other backends append and the
  watcher offers during the resume, the frames of the new socket take it to the document of the log at the mark of the client,
  which is at least the whole log at the start.
\<close>

theorem resumed_page_shows_log:
  assumes "redis_server E V K" "links_up (reNet env)" "appending V K rid (reNet env)"
    and "K db" "redis_room (V db) rid L" "n \<le> length L" "no_faults c" "content_offers env"
  shows "\<exists>c' effs db' L0 post new. resumeClient (document_exec E) env rid (beginReplay (int n) c) (int n) db = Some (Ok (), c', effs, db') \<and>
    prefix L L0 \<and> redis_room (V db') rid (L0 @ post) \<and> client_frames c' = client_frames c @ new \<and> int (length L0) \<le> lastSequence c' \<and>
    (\<forall>L'. log_ok L' \<longrightarrow> prefix L0 L' \<longrightarrow> (\<forall>i. set (reOffers env i) \<subseteq> messageFromDistributedEvent ` set L') \<longrightarrow>
      fold page_frame new (page_of (take n L)) = page_of (take (nat (lastSequence c')) L'))"
proof -
  obtain L0 post c' ms db' effs where
    r: "resumeClient (document_exec E) env rid (beginReplay (int n) c) (int n) db = Some (Ok (), c', effs, db')"
    and L0: "prefix L L0" "redis_room (V db') rid (L0 @ post)"
    and f: "client_frames c' = client_frames c @ FMessage (resume_started (int n) (boundary_of L0)) #
      map (\<lambda>e. FMessage (messageFromDistributedEvent e)) (drop n L0) @
      FMessage (resume_complete (int n) (boundary_of L0) (length L0 - n)) # map FMessage ms"
    and ms: "map mSequence ms = sorted_list_of_set {s \<in> mSequence ` all_offers env 0 (Suc (length L0 - n)). int (length L0) < s}"
      "set ms \<subseteq> all_offers env 0 (Suc (length L0 - n))" "lastSequence c' = (if ms = [] then int (length L0) else mSequence (last ms))"
    using resumeClient_delivers [OF assms] by blast
  define new where "new = FMessage (resume_started (int n) (boundary_of L0)) # map FMessage (map messageFromDistributedEvent (drop n L0)) @
      FMessage (resume_complete (int n) (boundary_of L0) (length L0 - n)) # map FMessage ms"
  have ok: "log_ok L0" using log_ok_prefix [of L0 post] L0(2) by (simp add: redis_room_def)
  have n: "n \<le> length L0" "take n L = take n L0" using assms(6) L0(1) by (auto simp: prefix_def)
  have fin: "finite (all_offers env 0 k)" for k by (simp add: all_offers_def)
  then have above: "\<forall>s\<in>set (map mSequence ms). int (length L0) < s" unfolding ms(1) by simp
  then have later: "\<forall>m\<in>set ms. int (length L0) < mSequence m" by simp
  have inc: "sorted_wrt (<) (map mSequence ms)" unfolding ms(1) by simp
  have "page_of (take (nat (lastSequence c')) L') = fold page_frame new (page_of (take n L))"
    if L': "log_ok L'" "prefix L0 L'" "\<forall>i. set (reOffers env i) \<subseteq> messageFromDistributedEvent ` set L'" for L'
  proof -
    have t: "take (length L0) L' = L0" "length L0 \<le> length L'" using L'(2) by (auto simp: prefix_def)
    have "set ms \<subseteq> messageFromDistributedEvent ` set L'" using ms(2) L'(3) by (auto simp: all_offers_def)
    from page_events [OF L'(1) t(2) this inc later] have "fold on_message ms (page_of L0) = page_of (take (nat (lastSequence c')) L')"
      using ms(3) t(1) by (auto split: if_splits)
    then show ?thesis
      using page_replayed [OF ok n(1)] page_resume_complete [OF ok]
      by (simp add: new_def page_frames page_resume_started n(2) del: map_map)
  qed
  moreover have "client_frames c' = client_frames c @ new" using f by (simp add: new_def comp_def)
  moreover have "int (length L0) \<le> lastSequence c'" using ms(3) later last_in_set [of ms] by (cases "ms = []") fastforce+
  ultimately show ?thesis using r L0 by metis
qed

theorem resumed_page_shows_log_witness:
  "\<exists>c' effs db' L0. resumeClient (document_exec mem_exec) (demo_env\<lparr>reOffers := \<lambda>i. [messageFromDistributedEvent (demo_event 3 ''abc'')]\<rparr>) ''r1''
      (beginReplay 1 demo_client) 1 demo_db = Some (Ok (), c', effs, db') \<and> prefix demo_log L0 \<and>
    fold page_frame (client_frames c') (page_of (take 1 demo_log)) = page_of L0"
proof -
  let ?env = "demo_env\<lparr>reOffers := \<lambda>i. [messageFromDistributedEvent (demo_event 3 ''abc'')]\<rparr>"
  have h: "links_up (reNet ?env)" "appending id mem_ok ''r1'' (reNet ?env)" "content_offers ?env" "1 \<le> length demo_log"
      "redis_room (id demo_db) ''r1'' demo_log"
    using demo_room by (simp_all add: demo_env_def content_offers_def demo_log_facts)
  obtain c' effs db' L0 post new where
    r: "resumeClient (document_exec mem_exec) ?env ''r1'' (beginReplay (int 1) demo_client) (int 1) demo_db = Some (Ok (), c', effs, db')"
    and L0: "prefix demo_log L0" "redis_room (id db') ''r1'' (L0 @ post)" "client_frames c' = client_frames demo_client @ new"
      "int (length L0) \<le> lastSequence c'"
    and page: "\<forall>L'. log_ok L' \<longrightarrow> prefix L0 L' \<longrightarrow> (\<forall>i. set (reOffers ?env i) \<subseteq> messageFromDistributedEvent ` set L') \<longrightarrow>
      fold page_frame new (page_of (take 1 demo_log)) = page_of (take (nat (lastSequence c')) L')"
    using resumed_page_shows_log [OF mem_redis_server h(1,2) demo_room(2) h(5,4) demo_client_facts(1) h(3)] by blast
  have ok: "log_ok L0" using log_ok_prefix [of L0 post] L0(2) by (simp add: redis_room_def)
  have "demo_event 3 ''abc'' \<in> set L0" using set_mono_prefix [OF L0(1)] by (auto simp: demo_log_def)
  then have "fold page_frame new (page_of (take 1 demo_log)) = page_of (take (nat (lastSequence c')) L0)"
    using page ok by auto
  moreover have "client_frames c' = new" using L0(3) by (simp add: demo_client_def client_frames_def new_conn_def)
  ultimately show ?thesis using r L0(1,4) by auto
qed

subsection \<open>Who is there\<close>

text \<open>The clock of Redis around a snapshot.\<close>

lemma forward_get:
  assumes "clock_forward E C" "GetPresence (document_exec E) (over_link LinkUp) rid db = (x, db')"
  shows "C db \<le> C db'"
proof -
  have "db' = snd (lua_presence_snapshot E (presence_keys rid) [] db)"
    using assms(2) by (cases "lua_presence_snapshot E (presence_keys rid) [] db")
      (auto simp: GetPresence_def presence_exec redis_do_def presence_call_def split: outcome.splits)
  then show ?thesis using forward_snapshot [OF assms(1)] by simp
qed

lemma joined_live:
  assumes "pConnectionID p \<notin> dom (prMembers P)" "valid_participant p" "now < t + lease"
  shows "p \<in> live_participants now (spec_join t (pConnectionID p) (marshal_participant p) lease P)"
  using assms by (simp add: live_participants_def spec_join_def lapsed_def)

lemma held_live:
  assumes "held V K rid (pConnectionID p) (marshal_participant p) t db" "redis_presence (V db) rid P" "valid_participant p" "now * 1000000 \<le> t"
  shows "K db" "p \<in> live_participants now P"
proof -
  obtain n where n: "K db" "prMembers P (pConnectionID p) = Some (marshal_participant p)" "prExpiry P (pConnectionID p) = Some n" "t < n * 1000000"
    using assms(1) redis_presence_unique [OF _ assms(2)] unfolding held_def by blast
  then have "now < n" using assms(4) by linarith
  then show "K db" "p \<in> live_participants now P" using n assms(3) by (simp_all add: live_participants_def lapsed_def)
qed

text \<open>
  C13: Who is there is seen. As long as the heartbeat of a client that answers goes on at its pace, whatever other backends do to the
  room in between, every snapshot that any backend reads before the next observation is due lists the participant, and its connection
  is open.
\<close>

theorem beating_is_seen:
  assumes "presence_server E V K C" "paced (document_exec E) V K C timing rid cid g l s t s' t'"
    and "beating V K timing rid cid (marshal_participant p) l s t" "int64_ok (LeaseDuration timing)" "0 < Milliseconds (LeaseDuration timing)"
    and "0 < HeartbeatInterval timing" "0 \<le> g" "0 \<le> l" "HeartbeatInterval timing + g + l + 2000000 \<le> LeaseDuration timing"
    and "cid = pConnectionID p" "valid_participant p" "redis_presence (V (snd s')) rid P" "good_records P" "prRevision P < log_limit"
    and "C (snd s') * 1000000 \<le> t' + g"
  shows "\<not> haClosed (fst s') \<and> (\<exists>snap db'. GetPresence (document_exec E) (over_link LinkUp) rid (snd s') = (Ok snap, db') \<and> p \<in> set (psParticipants snap))"
proof -
  have h: "\<not> haClosed (fst s')" "held V K rid cid (marshal_participant p) (t' + g) (snd s')"
    using presence_redis.paced_held [OF presence_redis.intro [OF assms(1)] assms(2-9)] by simp_all
  note there = held_live [OF h(2) [unfolded assms(10)] assms(12,11,15)]
  from presence_redis.GetPresence_runs [OF presence_redis.intro [OF assms(1)] there(1) assms(12,14,13)] obtain snap db' where
    "GetPresence (document_exec E) (over_link LinkUp) rid (snd s') = (Ok snap, db')" "set (psParticipants snap) = live_participants (C (snd s')) P" .
  with there(2) h(1) show ?thesis by blast
qed

theorem beating_is_seen_witness:
  "\<exists>h snap db'. heart_step (document_exec clock_exec) demo_timing ''r1'' ''k1'' (beat, at_ms 1000 ann_db) (Noted 11500000000 True) [] (h, at_ms 1000 ann_db) \<and>
    GetPresence (document_exec clock_exec) (over_link LinkUp) ''r1'' (at_ms 1000 ann_db) = (Ok snap, db') \<and> ann \<in> set (psParticipants snap)"
proof -
  let ?E = "document_exec clock_exec" and ?db = "at_ms 1000 ann_db"
  let ?paced = "paced ?E fst clock_ok snd demo_timing ''r1'' ''k1'' 15000000000 1000000000 (beat, ?db) 1000000000"
  let ?h = "beat\<lparr>haActivity := Some 11500000000, haDeadline := Some 41500000000\<rparr>"
  have step: "heart_step ?E demo_timing ''r1'' ''k1'' (beat, ?db) (Noted 11500000000 True) [] (?h, ?db)"
    by (rule heart_step.noting) (simp add: noteActivity_def set_deadline_def)
  from paced.noted [OF paced.begun step] have p: "?paced (?h, ?db) 1000000000" .
  have db: "clock_ok ?db" "redis_presence (fst ?db) ''r1'' ann_present" "snd ?db = 1000"
    using ann_facts at_ms_ok [OF _ _ ann_facts(1), of 1000] by (simp_all add: at_ms_def)
  have "held fst clock_ok ''r1'' ''k1'' (marshal_participant ann) t ?db" if "t < 46000000000" for t
    using that db ann_member unfolding held_def by (intro conjI exI [of _ ann_present] exI [of _ 46000]) auto
  then have "beating fst clock_ok demo_timing ''r1'' ''k1'' (marshal_participant ann) 1000000000 (beat, ?db) 1000000000"
    unfolding beating_def by (intro conjI exI [of _ 1000000000]) simp_all
  from beating_is_seen [OF clock_presence_server p this] ann_valid ann_good ann_member db step show ?thesis
    by (fastforce simp: int64_ok_def Milliseconds_def)
qed

text \<open>
  C18: A join is seen everywhere. When a connection has joined the presence of a room on one backend, the next round of the presence
  watcher of another backend that gets through sends to every client of its room whose revision was not ahead of the room's a
  snapshot with a newer revision. It has the new participant, unless the lease has run out by the time at which the round
  is over.
\<close>

theorem join_seen_everywhere:
  assumes "presence_server E V K C" "clock_forward E C" "K db" "redis_presence (V db) rid P" "good_records P" "prRevision P + 1 < log_limit"
    and "JoinPresence (document_exec E) (over_link LinkUp) rid p [d] db = (Ok (), db1)" "valid_participant p" "pConnectionID p \<noteq> []"
    and "pConnectionID p \<notin> dom (prMembers P)" "int64_ok d" "0 < Milliseconds d"
    and "rID (pwRoom w) = rid" "notice_at (V db1) rid i (pwCursor w)" "int i \<le> prRevision P"
    and "\<forall>j. pwNet env k j = over_link LinkUp" "\<forall>j. \<not> pwDone env k j" "pwOthers env k (pwRoom w, pwHeap w) = (r, h)"
    and "distinct (rClients r)" "\<forall>q\<in>set (rClients r). no_faults (h q) \<and> presenceRevision (h q) \<le> prRevision P"
  shows "\<exists>s w' db'. presence_round (document_exec E) env k w db1 = (Some (True, w'), db') \<and> prRevision P < psRevision s \<and>
    (C db' < C db + Milliseconds d \<longrightarrow> p \<in> set (psParticipants s)) \<and>
    (\<forall>q\<in>set (rClients r). client_frames (pwHeap w' q) = client_frames (h q) @ [FPresence s])"
proof -
  let ?P = "spec_join (C db) (pConnectionID p) (marshal_participant p) (Milliseconds d) P"
  have j: "K db1" "redis_presence (V db1) rid ?P"
    using presence_redis.JoinPresence_runs [OF presence_redis.intro [OF assms(1)] assms(3,4) _ assms(11,12,9)] assms(6,7)
    by (auto simp: presence_after_def)
  have P: "prRevision ?P = prRevision P + 1" "good_records ?P" "0 \<le> prRevision P"
    using assms(4,5,8,10) by (auto simp: spec_join_def good_records_def redis_presence_def)
  have i: "i < notice_count (V db1) rid" using notice_count_revision [OF j(2)] P assms(15) by simp
  have rev: "prRevision ?P < log_limit" using P(1) assms(6) by simp
  have up: "\<forall>q\<in>set (rClients r). no_faults (h q)" using assms(20) by blast
  obtain s db2 db' cursor h' where r:
    "presence_round (document_exec E) env k w db1 = (Some (True, w\<lparr>pwCursor := cursor, pwRoom := r, pwHeap := h'\<rparr>), db')"
    "psRevision s = prRevision (spec_prune (C db2) ?P)" "set (psParticipants s) = live_participants (C db2) ?P"
    "GetPresence (document_exec E) (over_link LinkUp) rid db2 = (Ok s, db')"
    "\<forall>q\<in>set (rClients r). client_frames (h' q) = client_frames (h q) @
        (if above (presence_mark (h q)) (psRevision s) then [FPresence s] else []) \<and>
      presence_mark (h' q) = (if above (presence_mark (h q)) (psRevision s) then Some (psRevision s) else presence_mark (h q))"
    by (rule presence_redis.presence_round_refreshes [OF presence_redis.intro [OF assms(1)] j P(2) rev assms(13,14) i assms(16-19) up])
  have new: "prRevision P < psRevision s" using r(2) P(1) by (simp add: spec_prune_def)
  have "p \<in> set (psParticipants s)" if "C db' < C db + Milliseconds d"
    using forward_get [OF assms(2) r(4)] joined_live [OF assms(10,8)] that r(3) by simp
  moreover have "\<forall>q\<in>set (rClients r). above (presence_mark (h q)) (psRevision s)"
    using new assms(20) by (auto simp: presence_mark_def above_def)
  ultimately show ?thesis using r(1,5) new by (intro exI [of _ s] exI conjI) (auto simp: r(1))
qed

theorem join_seen_everywhere_witness:
  "\<exists>db1 s w' db'. JoinPresence (document_exec clock_exec) (over_link LinkUp) ''r1'' ann [45000000000] (at_ms 1000 no_db) = (Ok (), db1) \<and>
     presence_round (document_exec clock_exec) calm_watch 0 (start_presence_watch watched_room (\<lambda>q. watching_client)) db1 = (Some (True, w'), db') \<and>
     0 < psRevision s \<and> client_frames (pwHeap w' 0) = [FPresence s]"
proof -
  let ?db = "at_ms 1000 no_db" and ?w = "start_presence_watch watched_room (\<lambda>q. watching_client)"
  have ok: "clock_ok ?db" "redis_presence (fst ?db) ''r1'' no_presence" "good_records no_presence"
    using at_ms_ok [of 1000 no_db] no_presence_empty by (simp_all add: good_records_def no_presence_def clock_ok_def mem_ok_def)
  have lease: "int64_ok 45000000000" "0 < Milliseconds 45000000000" by (simp_all add: int64_ok_def Milliseconds_def)
  have ann: "pConnectionID ann \<noteq> []" "pConnectionID ann \<notin> dom (prMembers no_presence)" by (simp_all add: ann_def no_presence_def)
  have rev: "prRevision no_presence + 1 < log_limit" "prRevision no_presence < log_limit" by (simp_all add: no_presence_def)
  obtain db1 where j: "JoinPresence (document_exec clock_exec) (over_link LinkUp) ''r1'' ann [45000000000] ?db = (Ok (), db1)"
    using presence_redis.JoinPresence_runs [OF presence_redis.intro [OF clock_presence_server] ok(1,2) rev(2) lease ann(1)] by blast
  have reader: "no_faults watching_client" "client_frames watching_client = []" "presenceRevision watching_client = 0"
    by (simp_all add: watching_client_def no_faults_def client_frames_def new_conn_def)
  have watch: "rID (pwRoom ?w) = ''r1''" "notice_at (fst db1) ''r1'' 0 (pwCursor ?w)" "int 0 \<le> prRevision no_presence"
    "\<forall>j. pwNet calm_watch 0 j = over_link LinkUp" "\<forall>j. \<not> pwDone calm_watch 0 j"
    "pwOthers calm_watch 0 (pwRoom ?w, pwHeap ?w) = (watched_room, \<lambda>q. watching_client)" "distinct (rClients watched_room)"
    "\<forall>q\<in>set (rClients watched_room). no_faults watching_client \<and> presenceRevision watching_client \<le> prRevision no_presence"
    using reader by (simp_all add: start_presence_watch_def watched_room_def calm_watch_def notice_at_def entry_at_def no_presence_def)
  from join_seen_everywhere [OF clock_presence_server clock_scan(1) ok rev(1) j ann_valid ann lease watch] j show ?thesis
    using reader(2) by (fastforce simp: no_presence_def watched_room_def)
qed

end
