(* ===== verification/Shutdown.thy ===== *)
theory Shutdown
  imports Startup "HOL-Library.Sublist"
begin

section \<open>The end of the process\<close>

text \<open>
  The last part of \<open>main\<close> in \<^verbatim>\<open>backend/main.go\<close>: the goroutine of \<open>main\<close> that calls \<open>ListenAndServe\<close> and returns
  through its deferred calls, the goroutine that waits for a signal and calls \<open>Shutdown\<close>, and what the rest of the
  process does meanwhile: signals, the clock, requests, and records of the trace. Of \<open>net/http\<close> it uses what is documented:
  \<open>Shutdown\<close> closes the listeners at once and returns when no request is in progress or its context ends, and a
  server that is shut down makes \<open>ListenAndServe\<close> return \<open>ErrServerClosed\<close> immediately.
  Connections that became WebSockets are no requests; \<open>Shutdown\<close> does not wait for them.
\<close>

datatype deferred = StopSignals | CloseManager | CloseTrace

datatype main_at = Starting | Serving | Returning "deferred list" | Exited | Fataled | Killed

datatype stopper_at = Awaiting | Draining int | Stopped "string option"

text \<open>
  \<open>prContextDone\<close> is \<open>shutdownContext.Done()\<close>; \<open>prNotified\<close> says whether signals go to \<open>NotifyContext\<close>; \<open>prShut\<close> and
  \<open>prRequests\<close> are the state of \<open>http.Server\<close>; \<open>prLog\<close> has the lines of \<open>log\<close>.
\<close>

record process =
  prMain :: main_at
  prStopper :: stopper_at
  prContextDone :: bool
  prNotified :: bool
  prShut :: bool
  prRequests :: nat
  prManager :: manager
  prRecorder :: TraceRecorder
  prNow :: int
  prLog :: "string list"

definition serve_process :: "int \<Rightarrow> 'db server \<Rightarrow> process" where
  "serve_process now sv = \<lparr>prMain = Starting, prStopper = Awaiting, prContextDone = False, prNotified = True, prShut = False,
     prRequests = 0, prManager = bkManager (apBackend (svApp sv)), prRecorder = svRecorder sv, prNow = now, prLog = []\<rparr>"

text \<open>Deferred calls run last in, first out: \<open>stop\<close>, \<open>manager.Close\<close>, and the one that closes the recorder.\<close>

definition deferred_calls :: "deferred list" where
  "deferred_calls = [StopSignals, CloseManager, CloseTrace]"

fun run_deferred :: "string option \<Rightarrow> deferred \<Rightarrow> process \<Rightarrow> process" where
  "run_deferred closing StopSignals p = p\<lparr>prContextDone := True, prNotified := False\<rparr>"
| "run_deferred closing CloseManager p = p\<lparr>prManager := Close (prManager p)\<rparr>"
| "run_deferred closing CloseTrace p = (case CloseRecorder closing (prRecorder p) of
     (None, r) \<Rightarrow> p\<lparr>prRecorder := r\<rparr>
   | (Some e, r) \<Rightarrow> p\<lparr>prRecorder := r, prLog := prLog p @ [''close trace recorder: '' @ e]\<rparr>)"

definition running :: "process \<Rightarrow> bool" where
  "running p \<longleftrightarrow> prMain p \<notin> {Exited, Fataled, Killed}"

subsection \<open>The steps of the main goroutine\<close>

text \<open>\<open>listen_fails\<close> is an error other than \<open>ErrServerClosed\<close>: \<open>log.Fatalf\<close> ends the process, no deferred call runs.\<close>

inductive main_step :: "process \<Rightarrow> process \<Rightarrow> bool" where
  listen: "prMain p = Starting \<Longrightarrow> \<not> prShut p \<Longrightarrow> main_step p (p\<lparr>prMain := Serving\<rparr>)"
| listen_fails: "prMain p \<in> {Starting, Serving} \<Longrightarrow> \<not> prShut p \<Longrightarrow>
    main_step p (p\<lparr>prMain := Fataled, prLog := prLog p @ [''server failed: '' @ e]\<rparr>)"
| listen_closed: "prMain p \<in> {Starting, Serving} \<Longrightarrow> prShut p \<Longrightarrow> main_step p (p\<lparr>prMain := Returning deferred_calls\<rparr>)"
| deferred: "prMain p = Returning (d # ds) \<Longrightarrow> main_step p ((run_deferred closing d p)\<lparr>prMain := Returning ds\<rparr>)"
| return: "prMain p = Returning [] \<Longrightarrow> main_step p (p\<lparr>prMain := Exited\<rparr>)"

subsection \<open>The steps of everything else\<close>

definition shutdown_timeout :: int where "shutdown_timeout = 5 * Second"

text \<open>
  The goroutine of the shutdown first waits for the context, then for \<open>Shutdown\<close>. A signal that goes to \<open>NotifyContext\<close> ends the
  context, and otherwise kills the process. The handlers change the manager, of which only \<open>Close\<close> ends the context.
\<close>

inductive other_step :: "process \<Rightarrow> process \<Rightarrow> bool" where
  shutdown: "running p \<Longrightarrow> prStopper p = Awaiting \<Longrightarrow> prContextDone p \<Longrightarrow>
    other_step p (p\<lparr>prStopper := Draining (prNow p + shutdown_timeout), prShut := True\<rparr>)"
| drained: "running p \<Longrightarrow> prStopper p = Draining d \<Longrightarrow> prRequests p = 0 \<Longrightarrow> other_step p (p\<lparr>prStopper := Stopped None\<rparr>)"
| timed_out: "running p \<Longrightarrow> prStopper p = Draining d \<Longrightarrow> d \<le> prNow p \<Longrightarrow>
    other_step p (p\<lparr>prStopper := Stopped (Some ''context deadline exceeded''),
      prLog := prLog p @ [''graceful shutdown: context deadline exceeded'']\<rparr>)"
| signal: "running p \<Longrightarrow> prNotified p \<Longrightarrow> other_step p (p\<lparr>prContextDone := True\<rparr>)"
| kill: "running p \<Longrightarrow> \<not> prNotified p \<Longrightarrow> other_step p (p\<lparr>prMain := Killed\<rparr>)"
| clock: "running p \<Longrightarrow> prNow p \<le> t \<Longrightarrow> other_step p (p\<lparr>prNow := t\<rparr>)"
| request: "prMain p = Serving \<Longrightarrow> \<not> prShut p \<Longrightarrow> other_step p (p\<lparr>prRequests := Suc (prRequests p)\<rparr>)"
| reply: "running p \<Longrightarrow> prRequests p = Suc n \<Longrightarrow> other_step p (p\<lparr>prRequests := n\<rparr>)"
| work: "running p \<Longrightarrow> mClosed m = mClosed (prManager p) \<Longrightarrow> other_step p (p\<lparr>prManager := m\<rparr>)"
| record_trace: "running p \<Longrightarrow> other_step p (p\<lparr>prRecorder := Record now w e (prRecorder p)\<rparr>)"

definition process_step :: "process \<Rightarrow> process \<Rightarrow> bool" where
  "process_step p q \<longleftrightarrow> main_step p q \<or> other_step p q"

abbreviation process_steps :: "process \<Rightarrow> process \<Rightarrow> bool" where "process_steps \<equiv> process_step\<^sup>*\<^sup>*"

lemma process_stepI [intro]: "main_step p q \<Longrightarrow> process_step p q" "other_step p q \<Longrightarrow> process_step p q"
  by (simp_all add: process_step_def)

inductive_cases main_stepE: "main_step p q"
inductive_cases other_stepE: "other_step p q"

lemma ended_stuck: "\<not> running p \<Longrightarrow> \<not> process_step p q"
  by (auto simp: process_step_def running_def elim!: main_stepE other_stepE)

subsection \<open>The invariant\<close>

text \<open>The calls that the main goroutine still has to make before it ends.\<close>

fun calls_left :: "main_at \<Rightarrow> deferred list" where
  "calls_left (Returning ds) = ds"
| "calls_left Exited = []"
| "calls_left Killed = []"
| "calls_left position = deferred_calls"

text \<open>\<open>Shutdown\<close> was called exactly when the second goroutine is past its wait, which it is once the main goroutine returns.\<close>

definition stopper_inv :: "process \<Rightarrow> bool" where
  "stopper_inv p \<longleftrightarrow> (prStopper p = Awaiting \<longleftrightarrow> \<not> prShut p) \<and> (prShut p \<longrightarrow> prContextDone p) \<and>
     (calls_left (prMain p) \<noteq> deferred_calls \<longrightarrow> prShut p) \<and> (\<forall>ds. prMain p = Returning ds \<longrightarrow> prShut p) \<and>
     (\<forall>d. prStopper p = Draining d \<longrightarrow> d \<le> prNow p + shutdown_timeout)"

text \<open>A deferred call that is left has not had its effect, and one that is not left has had it.\<close>

definition trace_closed :: "TraceRecorder \<Rightarrow> bool" where "trace_closed r \<longleftrightarrow> trFile r = None \<or> trClosed r"

definition calls_made :: "deferred list \<Rightarrow> process \<Rightarrow> bool" where
  "calls_made ds p \<longleftrightarrow> suffix ds deferred_calls \<and> prNotified p = (StopSignals \<in> set ds) \<and>
     mClosed (prManager p) = (CloseManager \<notin> set ds) \<and>
     (trFile (prRecorder p) \<noteq> None \<longrightarrow> trClosed (prRecorder p) = (CloseTrace \<notin> set ds))"

definition shutdown_inv :: "process \<Rightarrow> bool" where
  "shutdown_inv p \<longleftrightarrow> stopper_inv p \<and> (prMain p \<noteq> Killed \<longrightarrow> calls_made (calls_left (prMain p)) p)"

lemma shutdown_inv_start:
  assumes "\<not> mClosed (bkManager (apBackend (svApp sv)))" "\<not> trClosed (svRecorder sv)"
  shows "shutdown_inv (serve_process now sv)"
  using assms by (simp add: shutdown_inv_def stopper_inv_def calls_made_def serve_process_def deferred_calls_def)

lemma boot_open:
  assumes "boot_process exec env fuel h db = Some (Running sv effs)"
  shows "\<not> mClosed (bkManager (apBackend (svApp sv)))" "\<not> trClosed (svRecorder sv)"
  using assms by (auto simp: boot_process_def serving_def NewTraceRecorder_def NewDistributedRoomManager_def NewRoomManager_def Let_def
      split: if_splits sum.splits option.splits prod.splits outcome.splits)

lemma calls_made_cong:
  "calls_made ds p \<Longrightarrow> prNotified q = prNotified p \<Longrightarrow> mClosed (prManager q) = mClosed (prManager p) \<Longrightarrow>
    trClosed (prRecorder q) = trClosed (prRecorder p) \<Longrightarrow> (trFile (prRecorder q) = None) = (trFile (prRecorder p) = None) \<Longrightarrow> calls_made ds q"
  unfolding calls_made_def by simp

lemma other_step_calls:
  assumes "other_step p q" "calls_made (calls_left (prMain p)) p" "prMain q \<noteq> Killed"
  shows "calls_made (calls_left (prMain q)) q"
  using assms by (cases rule: other_step.cases) (simp_all, (erule calls_made_cong; simp)+)

lemma other_step_stopper:
  assumes "other_step p q" "stopper_inv p" "calls_made (calls_left (prMain p)) p"
  shows "stopper_inv q"
  using assms(1)
proof (rule other_stepE)
  assume "\<not> prNotified p" and q: "q = p\<lparr>prMain := Killed\<rparr>"
  then have "calls_left (prMain p) \<noteq> deferred_calls" using assms(3) by (auto simp: calls_made_def deferred_calls_def)
  then have s: "prShut p" using assms(2) unfolding stopper_inv_def by blast
  then show ?thesis using assms(2) unfolding q stopper_inv_def by (simp add: s)
qed (insert assms(2), auto simp: stopper_inv_def)

lemma suffix_deferred:
  "suffix (d # ds) deferred_calls \<longleftrightarrow>
    d = StopSignals \<and> ds = [CloseManager, CloseTrace] \<or> d = CloseManager \<and> ds = [CloseTrace] \<or> d = CloseTrace \<and> ds = []"
  by (auto simp: deferred_calls_def suffix_Cons)

lemma run_deferred_same [simp]: "prShut (run_deferred closing d p) = prShut p" "prStopper (run_deferred closing d p) = prStopper p"
  "prNow (run_deferred closing d p) = prNow p" "prRequests (run_deferred closing d p) = prRequests p"
  "prContextDone p \<Longrightarrow> prContextDone (run_deferred closing d p)"
  by (cases d; simp split: prod.split option.split)+

lemma deferred_call_made:
  assumes "calls_made (d # ds) p"
  shows "calls_made ds (run_deferred closing d p\<lparr>prMain := Returning ds\<rparr>)"
proof -
  have "suffix (d # ds) deferred_calls" using assms by (simp add: calls_made_def)
  then have "suffix ds deferred_calls" "d \<notin> set ds" unfolding suffix_deferred by (auto simp: deferred_calls_def suffix_Cons)
  then show ?thesis
    using assms by (cases d) (auto simp: calls_made_def Close_def CloseRecorder_def split: option.splits)
qed

lemma main_step_inv:
  assumes "main_step p q" "shutdown_inv p"
  shows "shutdown_inv q"
  using assms(1)
proof (rule main_stepE)
  fix d ds closing
  assume p: "prMain p = Returning (d # ds)" and q: "q = run_deferred closing d p\<lparr>prMain := Returning ds\<rparr>"
  then have "calls_made ds q" using assms(2) deferred_call_made by (simp add: shutdown_inv_def)
  moreover have "stopper_inv q" using assms(2) p unfolding q by (auto simp: shutdown_inv_def stopper_inv_def)
  ultimately show ?thesis unfolding q by (simp add: shutdown_inv_def)
qed (use assms(2) in \<open>auto simp: shutdown_inv_def stopper_inv_def calls_made_def\<close>)

lemma process_step_inv:
  assumes "process_step p q" "shutdown_inv p"
  shows "shutdown_inv q"
proof -
  have "running p" using assms(1) ended_stuck by blast
  then have c: "calls_made (calls_left (prMain p)) p" "stopper_inv p" using assms(2) by (auto simp: shutdown_inv_def running_def)
  consider "main_step p q" | "other_step p q" using assms(1) by (auto simp: process_step_def)
  then show ?thesis
  proof cases
    case 1
    then show ?thesis by (rule main_step_inv [OF _ assms(2)])
  next
    case 2
    then show ?thesis using c other_step_calls other_step_stopper unfolding shutdown_inv_def by blast
  qed
qed

lemma reached_inv:
  assumes "process_steps p q" "shutdown_inv p"
  shows "shutdown_inv q"
  using assms by (induction) (auto intro: process_step_inv)

lemma booted_inv:
  assumes "boot_process exec env fuel h db = Some (Running sv effs)" "process_steps (serve_process now sv) p"
  shows "shutdown_inv p"
  by (rule reached_inv [OF assms(2) shutdown_inv_start [OF boot_open [OF assms(1)]]])

text \<open>The order, without the list of the deferred calls: what is closed later is open as long as what is closed before it.\<close>

definition closed_in_order :: "process \<Rightarrow> bool" where
  "closed_in_order p \<longleftrightarrow> (trClosed (prRecorder p) \<longrightarrow> mClosed (prManager p)) \<and> (mClosed (prManager p) \<longrightarrow> \<not> prNotified p)"

lemma closed_in_order_start:
  assumes "\<not> mClosed (bkManager (apBackend (svApp sv)))" "\<not> trClosed (svRecorder sv)"
  shows "closed_in_order (serve_process now sv)"
  using assms by (simp add: closed_in_order_def serve_process_def)

lemma closed_in_order_deferred:
  assumes "calls_made (d # ds) p" "closed_in_order p"
  shows "closed_in_order (run_deferred closing d p\<lparr>prMain := Returning ds\<rparr>)"
  using assms
  by (cases d) (auto simp: closed_in_order_def calls_made_def suffix_deferred Close_def CloseRecorder_def split: option.splits)

lemma closed_in_order_other: "other_step p q \<Longrightarrow> closed_in_order p \<Longrightarrow> closed_in_order q"
  by (erule other_stepE) (auto simp: closed_in_order_def)

lemma closed_in_order_main:
  assumes "main_step p q" "shutdown_inv p" "closed_in_order p"
  shows "closed_in_order q"
  using assms(1)
proof (rule main_stepE)
  fix d ds closing
  assume p: "prMain p = Returning (d # ds)" and q: "q = run_deferred closing d p\<lparr>prMain := Returning ds\<rparr>"
  then have "calls_made (d # ds) p" using assms(2) by (simp add: shutdown_inv_def)
  then show ?thesis unfolding q by (rule closed_in_order_deferred [OF _ assms(3)])
qed (use assms(3) in \<open>auto simp: closed_in_order_def\<close>)

lemma booted_in_order:
  assumes "boot_process exec env fuel h db = Some (Running sv effs)" "process_steps (serve_process now sv) p"
  shows "closed_in_order p"
  using assms(2)
proof (induction)
  case base
  show ?case by (rule closed_in_order_start [OF boot_open [OF assms(1)]])
next
  case (step p q)
  with booted_inv [OF assms(1) step.hyps(1)] show ?case
    unfolding process_step_def using closed_in_order_main closed_in_order_other by blast
qed

subsection \<open>What is closed stays closed\<close>

lemma run_deferred_trace:
  "trClosed (prRecorder p) \<Longrightarrow> trFile (prRecorder (run_deferred closing d p)) = trFile (prRecorder p) \<and> trClosed (prRecorder (run_deferred closing d p))"
  by (cases d) (simp_all add: CloseRecorder_def split: option.split)

lemma step_trace_closed:
  assumes "process_step p q" "trClosed (prRecorder p)"
  shows "trFile (prRecorder q) = trFile (prRecorder p) \<and> trClosed (prRecorder q)"
  using assms unfolding process_step_def
  by (auto elim!: main_stepE other_stepE simp: Record_closed run_deferred_trace)

lemma steps_trace_closed:
  assumes "process_steps p q" "trClosed (prRecorder p)"
  shows "trFile (prRecorder q) = trFile (prRecorder p) \<and> trClosed (prRecorder q)"
  using assms by (induction) (use step_trace_closed in force)+

subsection \<open>How far the main goroutine is from the end\<close>

fun main_left :: "main_at \<Rightarrow> nat" where
  "main_left (Returning ds) = Suc (length ds)"
| "main_left Exited = 0"
| "main_left Fataled = 0"
| "main_left Killed = 0"
| "main_left position = 2 + length deferred_calls"

lemma main_step_enabled:
  assumes "running p" "prShut p"
  shows "\<exists>q. main_step p q"
proof (cases "prMain p")
  case (Returning ds)
  then show ?thesis by (cases ds) (auto intro: main_step.intros)
qed (use assms in \<open>auto simp: running_def intro: main_step.intros\<close>)

lemma main_step_left: "main_step p q \<Longrightarrow> prShut p \<Longrightarrow> main_left (prMain q) < main_left (prMain p) \<and> prShut q"
  by (erule main_stepE) auto

lemma other_step_left: "other_step p q \<Longrightarrow> main_left (prMain q) \<le> main_left (prMain p) \<and> (prShut p \<longrightarrow> prShut q)"
  by (erule other_stepE) auto

lemma main_steps_end:
  assumes "running p" "prShut p"
  shows "\<exists>q. main_step\<^sup>*\<^sup>* p q \<and> prMain q = Exited \<and> prRequests q = prRequests p \<and>
    prStopper q = prStopper p \<and> prNow q = prNow p"
  using assms
proof (induction "main_left (prMain p)" arbitrary: p rule: less_induct)
  case less
  obtain q where q: "main_step p q" using main_step_enabled [OF less.prems] by blast
  have r: "prRequests q = prRequests p \<and> prStopper q = prStopper p \<and> prNow q = prNow p"
    using q by (auto elim!: main_stepE)
  show ?case
  proof (cases "running q")
    case True
    with less.hyps [of q] main_step_left [OF q less.prems(2)] obtain q' where
      "main_step\<^sup>*\<^sup>* q q'" "prMain q' = Exited" "prRequests q' = prRequests q"
      "prStopper q' = prStopper q" "prNow q' = prNow q" by blast
    then show ?thesis using q r by (metis converse_rtranclp_into_rtranclp)
  next
    case False
    then have "prMain q = Exited" using q less.prems(2) by (auto elim!: main_stepE simp: running_def)
    then show ?thesis using q r by blast
  qed
qed

lemma main_steps_process: "main_step\<^sup>*\<^sup>* p q \<Longrightarrow> process_steps p q"
  by (induction rule: rtranclp_induct) (auto intro: rtranclp.rtrancl_into_rtrancl)

lemma requests_arrive:
  assumes "prMain p = Serving" "\<not> prShut p"
  shows "process_steps p (p\<lparr>prRequests := prRequests p + n\<rparr>)"
proof (induction n)
  case (Suc n)
  have "other_step (p\<lparr>prRequests := prRequests p + n\<rparr>) (p\<lparr>prRequests := prRequests p + n, prRequests := Suc (prRequests p + n)\<rparr>)"
    using other_step.request [of "p\<lparr>prRequests := prRequests p + n\<rparr>"] assms by simp
  with Suc show ?case by (auto intro: rtranclp.rtrancl_into_rtrancl)
qed simp

lemma exit_while_draining:
  "\<exists>p. process_steps (serve_process now sv) p \<and> prMain p = Exited \<and> prRequests p = n \<and>
    prStopper p = Draining (now + shutdown_timeout) \<and> prNow p = now"
proof -
  let ?p = "serve_process now sv"
  let ?s = "?p\<lparr>prMain := Serving\<rparr>" let ?r = "?s\<lparr>prRequests := n\<rparr>" let ?c = "?r\<lparr>prContextDone := True\<rparr>"
  let ?d = "?c\<lparr>prStopper := Draining (now + shutdown_timeout), prShut := True\<rparr>"
  have "process_step ?p ?s" using main_step.listen [of ?p] by (auto simp: serve_process_def)
  moreover have "process_steps ?s ?r" using requests_arrive [of ?s n] by (simp add: serve_process_def)
  moreover have "process_step ?r ?c" using other_step.signal [of ?r] by (auto simp: serve_process_def running_def)
  moreover have "process_step ?c ?d" using other_step.shutdown [of ?c] by (auto simp: serve_process_def running_def)
  moreover obtain q where q: "main_step\<^sup>*\<^sup>* ?d q" "prMain q = Exited" "prRequests q = n" "prStopper q = Draining (now + shutdown_timeout)" "prNow q = now"
    using main_steps_end [of ?d] by (auto simp: serve_process_def running_def)
  ultimately have "process_steps ?p q"
    using main_steps_process [OF q(1)] by (meson converse_rtranclp_into_rtranclp rtranclp_trans)
  then show ?thesis using q(2-) by blast
qed

end
