(* ===== verification/Shutdown_Properties.thy ===== *)
theory Shutdown_Properties
  imports Shutdown Server_Properties
begin

section \<open>Properties of the end of the process\<close>

text \<open>
  What the model of \<open>Shutdown\<close> gives: the order in which a process that ends closes its parts, that it does end, and that it does not
  wait for the requests that \<open>Shutdown\<close> waits for.
\<close>

text \<open>
  C32: A process that ends by returning from \<open>main\<close> was told to by a signal, had its server shut down, and closed its parts in
  order: in every state that is reached, signals are no longer taken only after the server was shut down, the manager is closed
  only after that, and the trace file only after the manager. At the end all three are done. Before \<open>main\<close> returns
  nothing is closed, and a server that fails ends with nothing closed. Once the trace file is closed no line is added to it,
  whatever the handlers still do.
\<close>

theorem exit_closes:
  assumes "boot_process exec env fuel h db = Some (Running sv effs)" "process_steps (serve_process now sv) p"
  shows "(case prMain p of
        Exited \<Rightarrow> prContextDone p \<and> prShut p \<and> \<not> prNotified p \<and> mClosed (prManager p) \<and> trace_closed (prRecorder p)
      | Killed \<Rightarrow> prContextDone p \<and> prShut p
      | Returning ds \<Rightarrow> prContextDone p \<and> prShut p
      | _ \<Rightarrow> prNotified p \<and> \<not> mClosed (prManager p) \<and> \<not> trClosed (prRecorder p)) \<and>
    (trClosed (prRecorder p) \<longrightarrow> mClosed (prManager p)) \<and> (mClosed (prManager p) \<longrightarrow> \<not> prNotified p) \<and>
    (\<not> prNotified p \<longrightarrow> prShut p) \<and>
    (trClosed (prRecorder p) \<longrightarrow> (\<forall>q. process_steps p q \<longrightarrow> trFile (prRecorder q) = trFile (prRecorder p)))"
proof -
  from booted_inv [OF assms] have i: "stopper_inv p" "prMain p \<noteq> Killed \<Longrightarrow> calls_made (calls_left (prMain p)) p"
    by (auto simp: shutdown_inv_def)
  from i(1) have r: "calls_left (prMain p) \<noteq> deferred_calls \<or> (\<exists>ds. prMain p = Returning ds) \<Longrightarrow> prShut p \<and> prContextDone p"
    by (auto simp: stopper_inv_def)
  from booted_in_order [OF assms] have o: "closed_in_order p" .
  have "\<not> prNotified p \<longrightarrow> prShut p" using r i(2) by (cases "prMain p") (auto simp: calls_made_def deferred_calls_def)
  then show ?thesis using r i(2) o steps_trace_closed
    by (cases "prMain p") (auto simp: closed_in_order_def calls_made_def trace_closed_def deferred_calls_def)
qed

text \<open>
  Once the shutdown has begun the process ends: the main goroutine can always take a step, each of its steps brings it
  nearer to the end, no step of the rest of the process takes it back, and by its own steps alone it gets to the end.
\<close>

theorem exit_reached:
  assumes "running p" "prShut p"
  shows "(\<exists>q. main_step p q) \<and> (\<forall>q. main_step p q \<longrightarrow> main_left (prMain q) < main_left (prMain p)) \<and>
    (\<forall>q. other_step p q \<longrightarrow> main_left (prMain q) \<le> main_left (prMain p)) \<and>
    (\<exists>q. main_step\<^sup>*\<^sup>* p q \<and> prMain q = Exited)"
  using main_step_enabled [OF assms] main_step_left [OF _ assms(2)] other_step_left main_steps_end [OF assms] by blast

text \<open>
  C33: The graceful shutdown is not waited for. From every start, and for every number of requests, the process can end by
  returning from \<open>main\<close> with that many requests in progress, while \<open>Shutdown\<close> still waits for them and its five seconds are not over.
\<close>

theorem exit_waits_for_no_request:
  assumes "boot_process exec env fuel h db = Some (Running sv effs)"
  shows "\<exists>p d. process_steps (serve_process now sv) p \<and> prMain p = Exited \<and> prRequests p = n \<and> prStopper p = Draining d \<and> prNow p < d"
proof -
  have "now < now + shutdown_timeout" by (simp add: shutdown_timeout_def)
  with exit_while_draining [of now sv n] show ?thesis by metis
qed

text \<open>A process with no variable set, and one that writes a trace.\<close>

definition demo_boot :: "view boot_env" where
  "demo_boot = \<lparr>boEnviron = (\<lambda>n. if n = ''LIVECOLLAB_TRACE_FILE'' then ''t'' else []), boHost = ''h'', boTraceOpened = None,
     boStarted = 0, boNow = (\<lambda>k. 0), boNet = (\<lambda>k. calm)\<rparr>"

lemma demo_boot_runs:
  "\<exists>sv effs. boot_process (document_exec mem_exec) demo_boot 0 (bkHeap (apBackend demo_app)) demo_db = Some (Running sv effs) \<and>
    trFile (svRecorder sv) = Some []"
  by (simp add: demo_boot_def boot_process_def serving_def NewTraceRecorder_def LoadConfig_def Let_def TrimSpace_def is_space_def)

theorem exit_closes_witness:
  "\<exists>sv effs p. boot_process (document_exec mem_exec) demo_boot 0 (bkHeap (apBackend demo_app)) demo_db = Some (Running sv effs) \<and>
    process_steps (serve_process 0 sv) p \<and> prMain p = Exited \<and> mClosed (prManager p) \<and> trace_closed (prRecorder p)"
proof -
  obtain sv effs where b: "boot_process (document_exec mem_exec) demo_boot 0 (bkHeap (apBackend demo_app)) demo_db = Some (Running sv effs)"
    using demo_boot_runs by blast
  obtain p where p: "process_steps (serve_process 0 sv) p" "prMain p = Exited" using exit_while_draining [of 0 sv 0] by blast
  from exit_closes [OF b p(1)] p(2) have "mClosed (prManager p)" "trace_closed (prRecorder p)" by simp_all
  with b p show ?thesis by blast
qed

theorem exit_waits_for_no_request_witness:
  "\<exists>sv effs p d. boot_process (document_exec mem_exec) demo_boot 0 (bkHeap (apBackend demo_app)) demo_db = Some (Running sv effs) \<and>
    process_steps (serve_process 0 sv) p \<and> prMain p = Exited \<and> prRequests p = 3 \<and> prStopper p = Draining d \<and> prNow p < d"
proof -
  obtain sv effs where b: "boot_process (document_exec mem_exec) demo_boot 0 (bkHeap (apBackend demo_app)) demo_db = Some (Running sv effs)"
    using demo_boot_runs by blast
  from exit_waits_for_no_request [OF b, of 0 3] b show ?thesis by blast
qed

end
