(* ===== verification/Join_Race.thy ===== *)
theory Join_Race
  imports Session_Properties
begin

section \<open>A join and an edit\<close>

text \<open>
  \<open>serveWS\<close> puts the client into the room before it reads the state of the document and sends it. Here an edit of another
  client of a room without Redis is handled between the two.
\<close>

text \<open>The handler of another client runs its operation in one go.\<close>

definition operated :: "'db exec \<Rightarrow> room_ptr \<Rightarrow> 'db op_env \<Rightarrow> ptr \<Rightarrow> Message \<Rightarrow> 'db backend \<Rightarrow> 'db backend" where
  "operated exec rp oenv q incoming b = (case on_room rp (handleContentUpdate exec oenv q incoming) b of
     None \<Rightarrow> b
   | Some (effs, b') \<Rightarrow> b')"

lemma page_room_state:
  "page_frame (FMessage (room_state s users)) pg = \<lparr>pgContent = sContent s, pgVersion = sVersion s, pgSequence = sSequence s\<rparr>"
  by (simp add: on_message_def room_state_def)

text \<open>
  C34: A join can show an old document. A client has joined a room without Redis, and the edit of another client is accepted between the
  snapshot that is read for it and the message that sends it. Then the client gets the update first and the
  state before it afterwards; its page shows the old text with the old version while the room has the new one, and no
  message that was sent to it remains to correct this.
\<close>

theorem join_can_show_old_state:
  assumes "\<not> rStore r" "room_sound r" "fits max_int64 1 (room_snapshot r)" "r = mObjs (bkManager b) rp"
    and "distinct (rClients r)" "p \<in> set (rClients r)" "q \<in> set (rClients r)" "p \<noteq> q" "\<forall>q\<in>set (rClients r). no_faults (bkHeap b q)"
    and "mOperationID incoming \<noteq> []" "mBaseVersion incoming = Some base" "opOthers oenv = (\<lambda>i w. w)"
    and "op = \<lparr>wContent = mContent incoming, wBase = base\<rparr>" "policy = StaleWritePolicy (opConfig oenv)"
    and "occ_accepts policy base (rVersion r)" "seClient env = p" "seOthers env 3 = (\<lambda>b. b)" "seOthers env 4 = operated exec rp oenv q incoming"
  shows "\<exists>b' m users. initial_state exec env rp lastSeq b = Some ((True, []), b') \<and>
    room_snapshot (mObjs (bkManager b') rp) = occ_next policy op (room_snapshot r) \<and>
    client_frames (bkHeap b' p) = client_frames (bkHeap b p) @ [FMessage m, FMessage (room_state (room_snapshot r) users)] \<and>
    mContent m = mContent incoming \<and> mSequence m = rSequence r + 1 \<and>
    shown (bkHeap b' p) = \<lparr>pgContent = rContent r, pgVersion = rVersion r, pgSequence = rSequence r\<rparr>"
proof -
  let ?h = "bkHeap b"
  obtain effs w' where w: "handleContentUpdate exec oenv q incoming (room_world rp b) = Some (effs, w')"
    "room_snapshot (woRoom w') = occ_next policy op (room_snapshot r)"
    "client_frames (woHeap w' p) = client_frames (?h p) @ local_frames q incoming r ?h (occ_result policy op (room_snapshot r) []) p"
    "no_faults (woHeap w' p)"
    using local_operation_runs [OF assms(1-3,12,5,7,9-11,13,14), of exec "bkDb b"] assms(4,6) unfolding room_world_def by blast
  define m where "m = local_update (cUsername (?h q)) incoming (client_id_of incoming (?h q)) (occ_result policy op (room_snapshot r) [])"
  have frames: "client_frames (woHeap w' p) = client_frames (?h p) @ [FMessage m]"
    using w(3) assms(8,13,15) by (simp add: local_frames_def occ_result_def room_snapshot_def m_def)
  have m: "mContent m = mContent incoming" "mSequence m = rSequence r + 1"
    using assms(13,15) by (simp_all add: m_def local_update_def occ_result_def room_snapshot_def)
  have others: "operated exec rp oenv q incoming b = with_room rp w' b" using w(1) by (simp add: operated_def on_room_def)
  have snap: "on_room rp (read_snapshot exec (seNet env 2)) b = Some (room_snapshot r, b)"
    using assms(1,4) by (simp add: on_room_def read_snapshot_def GetSnapshot_def room_world_def with_room_def)
  define users where "users = roomStateUsers ?h r"
  let ?c = "put_frame (FMessage (room_state (room_snapshot r) users)) (woHeap w' p)"
  have w_room: "room_world rp (with_room rp w' b) = w'" by (simp add: room_world_def with_room_def)
  have sent: "on_room rp (send_json p (room_state (room_snapshot r) users)) (with_room rp w' b) =
      Some (True, with_room rp (put_client p ?c w') (with_room rp w' b))"
    using w(4) by (simp add: on_room_def w_room send_json_no_faults)
  have "initial_state exec env rp lastSeq b = Some ((True, []), with_room rp (put_client p ?c w') (with_room rp w' b))"
    using assms(1,4,16-18) snap others sent by (simp add: initial_state_def Let_def users_def)
  moreover have "client_frames ?c = client_frames (?h p) @ [FMessage m, FMessage (room_state (room_snapshot r) users)]"
    using frames w(4) by simp
  moreover from this have "shown ?c = \<lparr>pgContent = rContent r, pgVersion = rVersion r, pgSequence = rSequence r\<rparr>"
    unfolding shown_def by (simp only: fold_append fold.simps comp_def page_room_state) (simp add: room_snapshot_def)
  ultimately show ?thesis
    using m w(2) by (intro exI conjI) (assumption | simp add: with_room_def put_client_def)+
qed

definition race_room :: Room where
  "race_room = empty_room\<lparr>rID := ''r1'', rClients := [0, 1]\<rparr>"

theorem join_can_show_old_state_witness:
  "\<exists>b' m users. initial_state (document_exec clock_exec)
      (demo_session\<lparr>seClient := 0, seOthers := (\<lambda>i. if i = 4 then operated (document_exec clock_exec) 0 quiet_env 1 (edit ''x'' 0) else (\<lambda>b. b))\<rparr>)
      0 0 (demo_backend\<lparr>bkManager := NewRoomManager\<lparr>mObjs := (\<lambda>p. race_room)\<rparr>, bkHeap := (\<lambda>q. demo_sender)\<rparr>) = Some ((True, []), b') \<and>
    client_frames (bkHeap b' 0) = [FMessage m, FMessage (room_state (room_snapshot race_room) users)] \<and>
    rContent (mObjs (bkManager b') 0) = ''x'' \<and> pgContent (shown (bkHeap b' 0)) = []"
proof -
  let ?exec = "document_exec clock_exec" and ?q = "quiet_env :: (view \<times> int) op_env"
  let ?env = "demo_session\<lparr>seClient := 0, seOthers := (\<lambda>i. if i = 4 then operated ?exec 0 ?q 1 (edit ''x'' 0) else (\<lambda>b. b))\<rparr>"
  let ?b = "demo_backend\<lparr>bkManager := NewRoomManager\<lparr>mObjs := (\<lambda>p. race_room)\<rparr>, bkHeap := (\<lambda>q. demo_sender)\<rparr>"
  have room: "\<not> rStore race_room" "room_sound race_room" "fits max_int64 1 (room_snapshot race_room)" "race_room = mObjs (bkManager ?b) 0"
    "distinct (rClients race_room)" "0 \<in> set (rClients race_room)" "1 \<in> set (rClients race_room)" "(0::ptr) \<noteq> 1"
    "\<forall>q\<in>set (rClients race_room). no_faults (bkHeap ?b q)"
    by (simp_all add: race_room_def empty_room_def room_sound_def fits_def room_snapshot_def)
  have msg: "mOperationID (edit ''x'' 0) \<noteq> []" "mBaseVersion (edit ''x'' 0) = Some 0" "mContent (edit ''x'' 0) = ''x''"
    "occ_accepts (StaleWritePolicy (opConfig ?q)) 0 (rVersion race_room)"
    by (simp_all add: occ_accepts_def race_room_def empty_room_def)
  have env: "opOthers ?q = (\<lambda>i w. w)" "seClient ?env = 0" "seOthers ?env 3 = (\<lambda>b. b)"
    "seOthers ?env 4 = operated ?exec 0 ?q 1 (edit ''x'' 0)" by simp_all
  have old: "client_frames demo_sender = []" by (simp add: demo_sender_def client_frames_def new_conn_def)
  from join_can_show_old_state [OF room msg(1,2) env(1) refl refl msg(4) env(2-4), of 0] show ?thesis
    by (auto simp: old msg(3) room_snapshot_def occ_next_def occ_accepts_def race_room_def empty_room_def)
qed

end
