(* ===== verification/Spec2Isabelle.thy ===== *)
theory Spec2Isabelle
  imports Document_Properties Delivery_Properties Transport_Properties Manager_Properties
    Presence_Properties Session_Properties Liveness_Properties Server_Properties System_Properties Shutdown_Properties Join_Race
begin

text \<open>
  A verification of the LiveCollab backend (\<^verbatim>\<open>src/backend\<close>, Go), the server of a collaborative text editor.

  \<^bold>\<open>The program.\<close> Browsers hold WebSocket connections to one of several backend processes. A room has one document,
  a text with a version. A client sends the whole new text with the version it edited (\<^verbatim>\<open>content_update\<close>); the backend
  accepts it or refuses it as stale. Without Redis the document lives in the memory of one process. With Redis a Lua script
  decides atomically, raises version and sequence together, and appends an event to the stream of the room; every
  backend reads that stream in a goroutine per room and sends the events to its own clients. A client that reconnects
  names the last sequence it saw and gets what it missed before live updates go on. Who is present in a room is a hash
  and a sorted set of leases in Redis, with a counter of revisions and a stream of notices; heartbeats extend
  leases, and a sweeper ends those that ran out.

  \<^bold>\<open>Components and theories\<close>, in the order in which they build on each other. Names of definitions are those of the code.

  \<^item> Shared: \<open>Prelude\<close> (Go's \<open>int64\<close> kept as \<open>int\<close> with \<open>wrap64\<close>, results that are \<open>Ok\<close>, \<open>Err\<close> or \<open>Panic\<close>, the
    collections of lemmas), \<open>Go_Strings\<close> (\<open>strconv\<close>, \<open>strings\<close>), \<open>Wire_Types\<close> (\<open>Message\<close>, \<open>Participant\<close>, snapshots,
    the result of an operation, a socket as the list of frames written and a plan of write faults), \<open>Json\<close> and
    \<open>Wire_Json\<close> (\<open>encoding/json\<close>: quoting, UTF-8 repair, the parser with its limit of depth, printing), \<open>Wire_Codec\<close>
    (the field tags of messages and participants).
  \<^item> \<^verbatim>\<open>redis_client.go\<close>: \<open>Resp\<close>. Commands as bytes, replies as a tree, one connection per command whose link may fail to
    dial, to write or in the middle of the reply.
  \<^item> \<^verbatim>\<open>redis_store.go\<close>: \<open>Redis_Store\<close> (keys, operations, the two scripts), \<open>Store_Calls\<close> (\<open>RedisStore.do\<close> with the delay,
    the metrics, the log line and the span of a call). \<open>Lua\<close> has what Redis' Lua does with numbers, strings, tables and
    \<open>redis.call\<close>; every script is a definition that follows it statement by statement.
  \<^item> \<^verbatim>\<open>redis_presence.go\<close>: \<open>Presence_Scripts\<close> (five scripts), \<open>Presence_Store\<close> (seven operations).
  \<^item> \<^verbatim>\<open>client.go\<close>, \<^verbatim>\<open>presence.go\<close>: \<open>Client\<close> (the guarded writes and the replay buffer), \<open>Room\<close> (snapshots and broadcasts of
    presence), \<open>Presence_Watcher\<close> (\<open>watchPresence\<close>).
  \<^item> \<^verbatim>\<open>room.go\<close>: \<open>Room\<close>. \<^verbatim>\<open>manager.go\<close>: \<open>Manager\<close> (rooms as objects behind pointers, hydration, the registers of
    watchers), \<open>Watcher\<close> (\<open>watchRoom\<close>, one batch at a time).
  \<^item> \<^verbatim>\<open>ws.go\<close>: \<open>Resume\<close> (\<open>resumeClient\<close>), \<open>Operation\<close> (\<open>handleContentUpdate\<close>), \<open>Session\<close> (\<open>serveWS\<close> from the
    request to the clean-up).
  \<^item> \<^verbatim>\<open>presence_lease.go\<close>: \<open>Config\<close> (defaults of the timing), \<open>Heartbeat\<close> (a step relation over the cases of the
    \<open>select\<close>), \<open>Presence_Watcher\<close> (the sweeper).
  \<^item> \<^verbatim>\<open>config.go\<close>: \<open>Config\<close>. \<^verbatim>\<open>trace.go\<close>: \<open>Trace\<close>. \<^verbatim>\<open>utils.go\<close>: \<open>Identifiers\<close>.
  \<^item> \<^verbatim>\<open>telemetry.go\<close>: \<open>Metrics\<close> (counters of 64 bits and histograms), \<open>Exposition\<close> (the text of \<open>GET /metrics\<close>),
    \<open>Scrape\<close> (a reader of it that knows only the format, and the metrics with their names), \<open>Telemetry\<close> (the log line and the span), \<open>Log_Lines\<close>.
  \<^item> \<^verbatim>\<open>server.go\<close>: \<open>Http\<close> (queries, cleaned paths, patterns of \<open>ServeMux\<close>), \<open>Server\<close> (every handler,
    \<open>observeHTTP\<close>, \<open>enableCORS\<close>). \<^verbatim>\<open>main.go\<close>: \<open>Startup\<close>, \<open>Shutdown\<close> (the two goroutines and the deferred calls
    as a step relation).
  \<^item> \<^verbatim>\<open>frontend/src/pages/RoomPage.tsx\<close>: \<open>Page\<close>, only what the page shows of the document after a list of messages.

  \<^bold>\<open>How code becomes definitions.\<close> A struct is a record, and a method a function from the state to its result and the new
  state. Rooms and clients are shared between goroutines, so they are objects behind pointers (\<open>heap\<close>, \<open>mObjs\<close>).
  A call of Redis takes a \<open>net\<close>, which says for each call what the link does and what other users of the database do
  just before it; a handler takes an environment, which says what other goroutines do to the world between its
  steps, and which random bytes and times it draws. Sections under one mutex are one step. What is only observed (metrics,
  log lines, spans, trace records) is returned as a list of effects. Where Go panics the result is \<open>Panic\<close> or \<open>None\<close>.

  \<^bold>\<open>Redis\<close> is not part of the repository. It is a function \<open>E\<close> from commands to replies, with a view \<open>V\<close> of the values under the
  keys, a set \<open>K\<close> of good states and, for presence, a clock \<open>C\<close>. \<open>Redis_Laws\<close> and \<open>Presence_Laws\<close> state its documented
  behaviour, command by command, and how \<open>EVAL\<close> of a script runs the script's calls. \<open>Mem_Redis\<close>, \<open>Mem_Room\<close> and
  \<open>Mem_Presence\<close> are an executable server with these laws; the witnesses run on it.

  \<^bold>\<open>Interfaces.\<close> \<open>occ_document\<close> (theory \<open>Occ\<close>) is a document under optimistic concurrency control: no lost update is proved
  once in it, and it is interpreted on the room in memory (\<open>local_doc\<close>) and on the store (\<open>mem_doc\<close>).
  \<open>monotone_gate\<close> and \<open>reliable_gate\<close> (theory \<open>Delivery\<close>) are streams of which each element passes at most once and in order:
  the content updates and presence snapshots of a socket (\<open>Client_Gates\<close>) and the events of a room (\<open>Room_Facts\<close>).
  \<open>presence_redis\<close> (theory \<open>Presence_Laws\<close>) holds the laws of the presence commands.

  \<^bold>\<open>What the lemmas show.\<close>
  \<^item> Transport: a command is read back by the server word for word, a reply is decoded as sent, and a cut reply is an error
    (\<open>Resp\<close>, \<open>Transport_Properties\<close>).
  \<^item> Documents: \<open>Redis_Occ\<close> and \<open>Redis_Reads\<close> refine the operations of the store to an append-only log of events
    (\<open>redis_room\<close>: content, version, sequence and stream describe one log); \<open>Room_Cache\<close> shows that a room object is
    the state after a prefix of that log and never goes back. \<open>Room_Equivalence\<close> and \<open>Server_Properties\<close> compare
    the two kinds of rooms on every run of operations. \<open>Document_Properties\<close> also has what goes wrong: a torn
    snapshot, a colliding identifier, a write whose answer is lost.
  \<^item> Delivery: \<open>Replay_Loop\<close>, \<open>Replay_Handoff\<close>, \<open>Resume_Facts\<close> and \<open>Watcher_Facts\<close> lead to \<open>Delivery_Properties\<close>: resumed and
    live clients get every event once, in order.
  \<^item> Operations and sessions: \<open>Operation_Facts\<close>, \<open>Operation_Rooms\<close>, \<open>Session_Facts\<close>, \<open>Session_Gauge\<close> and \<open>Session_Properties\<close>: what is
    answered, also over a socket that fails, what others receive, and that a session always cleans up and takes its connection
    back once. \<open>Redis_Clock\<close>: no operation takes the clock of Redis back. \<open>Join_Race\<close>: an edit during a join that leaves the page with the
    old text.
  \<^item> Between backends: \<open>System_Properties\<close> puts the handler of one backend and the watcher of another together: an accepted
    edit reaches every client everywhere, once, the pages of readers converge to the document of the log, also after a
    reconnect; a join is seen by the clients of every backend, and who keeps answering is in every snapshot.
  \<^item> Presence: \<open>Presence_Spec\<close> is the abstract presence of a room; \<open>Presence_Refine\<close> and \<open>Presence_Ops\<close> show that scripts
    and operations implement its steps; \<open>Presence_Leases\<close> lifts this to runs with time and failing links. \<open>Heartbeat\<close>,
    \<open>Presence_Watch_Facts\<close> and \<open>Sweep_Facts\<close> are about the three goroutines (\<open>Liveness_Properties\<close>).
  \<^item> Server: \<open>Server_Facts\<close> and \<open>Server_Rooms\<close> lift facts of the handlers through mux, observation and CORS
    (\<open>Server_Properties\<close>); \<open>Scrape\<close> and \<open>Log_Lines\<close> read back what is printed. \<open>Shutdown_Properties\<close>: what is closed when
    the process ends, and in which order, that it ends, and that it does not wait for requests in progress.

  \<^bold>\<open>Bounds and fuel.\<close> Sequences and revisions stay below \<open>log_limit\<close>, 99999999999999, because Lua prints larger numbers
  with an exponent; lease times below \<open>score_limit\<close>, 2 to the 53, and clocks below \<open>clock_limit\<close>, 2 to the 52, because scores and Lua
  numbers are doubles. The JSON parser has the fuel of its text's length, and each step takes a character away; its depth is
  \<open>max_depth\<close>, 10000, as in Go. Loops of the code that may run for long have a number of rounds: a replay ends after the pages of its
  interval, a sweep after the pages that \<open>SCAN\<close> has (the hypothesis \<open>scan_laws\<close> bounds them), the wait for Redis after 51
  rounds; that this many are enough is proved. The endless loops (watchers, sweeper, heartbeat, the
  read loop of a session) are runs over a given number of rounds, steps or incoming messages.

  \<^bold>\<open>Not modelled.\<close> Connections, time-outs and the mux's locks of \<open>net/http\<close>, of which the shutdown uses what
  is documented, and a request for the whole server (\<^verbatim>\<open>*\<close>); the queue and the HTTP client of the exporter in
  \<^verbatim>\<open>telemetry.go\<close>; the writes of the trace file themselves; \<^verbatim>\<open>gorilla/websocket\<close>, of which a connection is the list of its
  frames; the user interface in TypeScript beside \<open>Page\<close>; the test doubles, scenario scripts and load
  generators in JavaScript. The arithmetic and the printing of floats in metrics are parameters. The delay and the
  metrics that \<open>RedisStore.do\<close> adds to each call are in \<open>Store_Calls\<close> and are not repeated in the operations.
\<close>

end
